(* ===== verification/Prelude.thy ===== *)
theory Prelude
  imports Main "HOL-Library.Word" "HOL-Library.AList"
begin

text \<open>
  Shared ground of the development: the machine integers of the Go sources, the outcome
  of a Go call (value, error, panic), the sequencing idioms of the code
  (\<open>if err != nil { return err }\<close> and its variants) as combinators over an explicit
  state, the preservation calculus used for invariants, and the parts of the Go standard
  library on strings and numbers that the components call
  (\<open>fmt.Sprintf("%d")\<close>, \<open>strconv.ParseUint\<close>, \<open>strings.TrimSpace\<close>, \<dots>).
\<close>

section \<open>Machine integers\<close>

type_synonym u64 = "64 word"
type_synonym bytes = string

named_theorems go_defs \<open>definitions of the sequencing combinators\<close>
named_theorems pres_intros \<open>preservation rules, one per combinator and operation\<close>
named_theorems wp_simps \<open>weakest preconditions, one equation per combinator and statement\<close>

section \<open>Outcomes and sequencing\<close>

text \<open>
  A Go call either returns normally, returns a non-nil error, or panics. A stateful Go
  function is a function from the state before to the outcome and the state after.
\<close>

datatype ('e, 'a) res = Ret 'a | Err 'e | Panic

type_synonym ('w, 'e, 'a) prog = "'w \<Rightarrow> ('e, 'a) res \<times> 'w"

definition ret :: "'a \<Rightarrow> ('w, 'e, 'a) prog" where
  [go_defs]: "ret x = (\<lambda>w. (Ret x, w))"

definition throw :: "'e \<Rightarrow> ('w, 'e, 'a) prog" where
  [go_defs]: "throw e = (\<lambda>w. (Err e, w))"

definition panic :: "('w, 'e, 'a) prog" where
  [go_defs]: "panic = (\<lambda>w. (Panic, w))"

text \<open>\<open>x, err := m()\<close> followed by a branch on \<open>err\<close>; a panic always propagates.\<close>

definition handle ::
  "('w, 'e, 'a) prog \<Rightarrow> ('e \<Rightarrow> ('w, 'f, 'b) prog) \<Rightarrow> ('a \<Rightarrow> ('w, 'f, 'b) prog) \<Rightarrow> ('w, 'f, 'b) prog"
where
  [go_defs]: "handle m h k = (\<lambda>w. case m w of
       (Ret x, w') \<Rightarrow> k x w'
     | (Err e, w') \<Rightarrow> h e w'
     | (Panic, w') \<Rightarrow> (Panic, w'))"

text \<open>\<open>if err != nil { return err }\<close>\<close>

definition tryE :: "('w, 'e, 'a) prog \<Rightarrow> ('a \<Rightarrow> ('w, 'e, 'b) prog) \<Rightarrow> ('w, 'e, 'b) prog" where
  [go_defs]: "tryE m k = handle m throw k"

text \<open>\<open>if err != nil { return e }\<close>: the error is replaced by a fixed one\<close>

definition tryAs :: "('w, 'd, 'a) prog \<Rightarrow> 'e \<Rightarrow> ('a \<Rightarrow> ('w, 'e, 'b) prog) \<Rightarrow> ('w, 'e, 'b) prog" where
  [go_defs]: "tryAs m e k = handle m (\<lambda>_. throw e) k"

text \<open>\<open>_ = m()\<close>, or an error that is only logged\<close>

definition ignoreE :: "('w, 'd, 'a) prog \<Rightarrow> ('w, 'e, 'b) prog \<Rightarrow> ('w, 'e, 'b) prog" where
  [go_defs]: "ignoreE m k = handle m (\<lambda>_. k) (\<lambda>_. k)"

text \<open>\<open>if c { return e }\<close>\<close>

definition failIf :: "bool \<Rightarrow> 'e \<Rightarrow> ('w, 'e, 'a) prog \<Rightarrow> ('w, 'e, 'a) prog" where
  [go_defs]: "failIf c e k = (if c then throw e else k)"

text \<open>\<open>if c { m() }\<close> where the block may return an error, and the code after it\<close>

definition whenE :: "bool \<Rightarrow> ('w, 'e, unit) prog \<Rightarrow> ('w, 'e, 'a) prog \<Rightarrow> ('w, 'e, 'a) prog" where
  [go_defs]: "whenE c m k = (if c then tryE m (\<lambda>_. k) else k)"

text \<open>A state update that cannot fail, and a read of the state.\<close>

definition update :: "('w \<Rightarrow> 'w) \<Rightarrow> ('w, 'e, 'a) prog \<Rightarrow> ('w, 'e, 'a) prog" where
  [go_defs]: "update f k = (\<lambda>w. k (f w))"

definition reads :: "('w \<Rightarrow> 'a) \<Rightarrow> ('a \<Rightarrow> ('w, 'e, 'b) prog) \<Rightarrow> ('w, 'e, 'b) prog" where
  [go_defs]: "reads f k = (\<lambda>w. k (f w) w)"

text \<open>\<open>defer f()\<close>: \<open>f\<close> runs on every exit, also when the body panics.\<close>

definition finally_do :: "('w \<Rightarrow> 'w) \<Rightarrow> ('w, 'e, 'a) prog \<Rightarrow> ('w, 'e, 'a) prog" where
  [go_defs]: "finally_do f m = (\<lambda>w. case m w of (r, w') \<Rightarrow> (r, f w'))"

text \<open>\<open>for _, x := range xs { if err := f(x); err != nil { return err } }\<close>\<close>

fun foreach :: "'x list \<Rightarrow> ('x \<Rightarrow> ('w, 'e, unit) prog) \<Rightarrow> ('w, 'e, unit) prog" where
  "foreach [] f = ret ()"
| "foreach (x # xs) f = tryE (f x) (\<lambda>_. foreach xs f)"

subsection \<open>Preservation of a state predicate\<close>

text \<open>
  \<open>preserves I m\<close>: from a state with \<open>I\<close>, every exit of \<open>m\<close> (value, error, panic)
  is in a state with \<open>I\<close>. The rules below follow the combinators, so that an operation
  built from them is handled by introduction alone.
\<close>

definition preserves :: "('w \<Rightarrow> bool) \<Rightarrow> ('w, 'e, 'a) prog \<Rightarrow> bool" where
  "preserves I m \<longleftrightarrow> (\<forall>w. I w \<longrightarrow> I (snd (m w)))"

lemma preservesI: "(\<And>w. I w \<Longrightarrow> I (snd (m w))) \<Longrightarrow> preserves I m"
  by (simp add: preserves_def)

lemma preservesD: "preserves I m \<Longrightarrow> I w \<Longrightarrow> I (snd (m w))"
  by (simp add: preserves_def)

lemma preserves_ret [pres_intros]: "preserves I (ret x)"
  by (simp add: preserves_def ret_def)

lemma preserves_throw [pres_intros]: "preserves I (throw e)"
  by (simp add: preserves_def throw_def)

lemma preserves_panic [pres_intros]: "preserves I panic"
  by (simp add: preserves_def panic_def)

lemma preserves_handle [pres_intros]:
  assumes "preserves I m" and "\<And>e. preserves I (h e)" and "\<And>x. preserves I (k x)"
  shows "preserves I (handle m h k)"
proof (rule preservesI)
  fix w assume "I w"
  with assms(1) have "I (snd (m w))" by (rule preservesD)
  with assms(2,3) show "I (snd (handle m h k w))"
    by (auto simp: handle_def preserves_def split: prod.splits res.splits)
qed

lemma preserves_tryE [pres_intros]:
  "preserves I m \<Longrightarrow> (\<And>x. preserves I (k x)) \<Longrightarrow> preserves I (tryE m k)"
  by (auto simp: tryE_def intro!: preserves_handle preserves_throw)

lemma preserves_tryAs [pres_intros]:
  "preserves I m \<Longrightarrow> (\<And>x. preserves I (k x)) \<Longrightarrow> preserves I (tryAs m e k)"
  by (auto simp: tryAs_def intro!: preserves_handle preserves_throw)

lemma preserves_ignoreE [pres_intros]:
  "preserves I m \<Longrightarrow> preserves I k \<Longrightarrow> preserves I (ignoreE m k)"
  by (auto simp: ignoreE_def intro!: preserves_handle)

lemma preserves_failIf [pres_intros]:
  "(\<not> c \<Longrightarrow> preserves I k) \<Longrightarrow> preserves I (failIf c e k)"
  by (auto simp: failIf_def intro!: preserves_throw)

lemma preserves_update [pres_intros]:
  "(\<And>w. I w \<Longrightarrow> I (f w)) \<Longrightarrow> preserves I k \<Longrightarrow> preserves I (update f k)"
  by (auto simp: update_def preserves_def)

lemma preserves_reads [pres_intros]:
  "(\<And>x. preserves I (k x)) \<Longrightarrow> preserves I (reads f k)"
  by (auto simp: reads_def preserves_def)

lemma preserves_finally_do [pres_intros]:
  "(\<And>w. I w \<Longrightarrow> I (f w)) \<Longrightarrow> preserves I m \<Longrightarrow> preserves I (finally_do f m)"
  by (simp add: finally_do_def preserves_def case_prod_unfold)

lemma preserves_foreach [pres_intros]:
  "(\<And>x. preserves I (f x)) \<Longrightarrow> preserves I (foreach xs f)"
  by (induction xs) (auto intro!: pres_intros)

lemma preserves_if [pres_intros]:
  "(c \<Longrightarrow> preserves I m) \<Longrightarrow> (\<not> c \<Longrightarrow> preserves I n) \<Longrightarrow> preserves I (if c then m else n)"
  by simp

lemma preserves_option [pres_intros]:
  "preserves I m \<Longrightarrow> (\<And>x. preserves I (n x)) \<Longrightarrow>
   preserves I (case z of None \<Rightarrow> m | Some x \<Rightarrow> n x)"
  by (cases z) auto

lemma preserves_whenE [pres_intros]:
  "(c \<Longrightarrow> preserves I m) \<Longrightarrow> preserves I k \<Longrightarrow> preserves I (whenE c m k)"
  by (auto simp: whenE_def intro!: preserves_tryE)

subsection \<open>Weakest preconditions\<close>

text \<open>
  \<open>wp m Q E w\<close>: run from \<open>w\<close>, \<open>m\<close> does not panic, a normal return satisfies \<open>Q\<close> and an
  error return satisfies \<open>E\<close>. The equations turn a program into a condition on its first state.
\<close>

definition wp :: "('w, 'e, 'a) prog \<Rightarrow> ('a \<Rightarrow> 'w \<Rightarrow> bool) \<Rightarrow> ('e \<Rightarrow> 'w \<Rightarrow> bool) \<Rightarrow> 'w \<Rightarrow> bool" where
  "wp m Q E w = (case m w of (Ret x, w') \<Rightarrow> Q x w' | (Err e, w') \<Rightarrow> E e w' | (Panic, w') \<Rightarrow> False)"

lemma wp_ret [wp_simps]: "wp (ret x) Q E = Q x"
  by (rule ext) (simp add: wp_def ret_def)

lemma wp_throw [wp_simps]: "wp (throw e) Q E = E e"
  by (rule ext) (simp add: wp_def throw_def)

lemma wp_panic [wp_simps]: "wp panic Q E w = False"
  by (simp add: wp_def panic_def)

lemma wp_handle [wp_simps]:
  "wp (handle m h k) Q E = wp m (\<lambda>x. wp (k x) Q E) (\<lambda>e. wp (h e) Q E)"
  by (rule ext) (simp add: wp_def handle_def split: prod.splits res.splits)

lemma wp_tryE [wp_simps]: "wp (tryE m k) Q E = wp m (\<lambda>x. wp (k x) Q E) E"
  by (simp add: tryE_def wp_simps)

lemma wp_tryAs [wp_simps]: "wp (tryAs m e k) Q E = wp m (\<lambda>x. wp (k x) Q E) (\<lambda>_. E e)"
  by (simp add: tryAs_def wp_simps)

lemma wp_ignoreE [wp_simps]:
  "wp (ignoreE m k) Q E = wp m (\<lambda>_. wp k Q E) (\<lambda>_. wp k Q E)"
  by (simp add: ignoreE_def wp_simps)

lemma wp_failIf [wp_simps]: "wp (failIf c e k) Q E w = (if c then E e w else wp k Q E w)"
  by (simp add: failIf_def wp_simps)

lemma wp_whenE [wp_simps]:
  "wp (whenE c m k) Q E w = (if c then wp m (\<lambda>_. wp k Q E) E w else wp k Q E w)"
  by (simp add: whenE_def wp_simps)

lemma wp_update [wp_simps]: "wp (update f k) Q E w = wp k Q E (f w)"
  by (simp add: wp_def update_def)

lemma wp_reads [wp_simps]: "wp (reads f k) Q E w = wp (k (f w)) Q E w"
  by (simp add: wp_def reads_def)

lemma wp_finally_do [wp_simps]:
  "wp (finally_do f m) Q E w = wp m (\<lambda>x w. Q x (f w)) (\<lambda>e w. E e (f w)) w"
  by (simp add: wp_def finally_do_def split: prod.splits res.splits)

lemma wp_mono:
  assumes "wp m Q E w" and "\<And>x w'. Q x w' \<Longrightarrow> Q' x w'" and "\<And>e w'. E e w' \<Longrightarrow> E' e w'"
  shows "wp m Q' E' w"
  using assms by (auto simp: wp_def split: prod.splits res.splits)

lemma wp_conj: "wp m Q E w \<Longrightarrow> wp m Q' E' w \<Longrightarrow> wp m (\<lambda>x w. Q x w \<and> Q' x w) (\<lambda>e w. E e w \<and> E' e w) w"
  by (auto simp: wp_def split: prod.splits res.splits)

lemma wp_Ret: "m w = (Ret x, w') \<Longrightarrow> wp m Q E w \<Longrightarrow> Q x w'"
  by (simp add: wp_def)

lemma wp_Err: "m w = (Err e, w') \<Longrightarrow> wp m Q E w \<Longrightarrow> E e w'"
  by (simp add: wp_def)

lemma wp_no_panic: "wp m Q E w \<Longrightarrow> fst (m w) \<noteq> Panic"
  by (auto simp: wp_def split: prod.splits res.splits)

lemma wp_snd: "wp m (\<lambda>_. I) (\<lambda>_. I) w \<Longrightarrow> I (snd (m w))"
  by (auto simp: wp_def split: prod.splits res.splits)

lemma wp_foreach:
  assumes "I w" and "\<And>x w. x \<in> set xs \<Longrightarrow> I w \<Longrightarrow> wp (f x) (\<lambda>_. I) E w"
  shows "wp (foreach xs f) (\<lambda>_. I) E w"
  using assms
proof (induction xs arbitrary: w)
  case (Cons x xs)
  have "wp (f x) (\<lambda>_. I) E w" using Cons.prems by simp
  then show ?case by (auto simp: wp_simps intro!: Cons.IH Cons.prems(2) elim!: wp_mono)
qed (simp add: wp_simps)

section \<open>Decimal numbers\<close>

text \<open>\<open>fmt.Sprintf("%d", n)\<close> of an unsigned integer, and \<open>strconv.ParseUint(s, 10, 64)\<close>.\<close>

definition digit_char :: "nat \<Rightarrow> char" where
  "digit_char d = char_of (48 + d)"

definition is_digit :: "char \<Rightarrow> bool" where
  "is_digit c \<longleftrightarrow> 48 \<le> (of_char c :: nat) \<and> (of_char c :: nat) \<le> 57"

definition digit_val :: "char \<Rightarrow> nat" where
  "digit_val c = of_char c - 48"

fun show_nat :: "nat \<Rightarrow> string" where
  "show_nat n = (if n < 10 then [digit_char n] else show_nat (n div 10) @ [digit_char (n mod 10)])"

declare show_nat.simps [simp del]

definition show_u64 :: "u64 \<Rightarrow> string" where
  "show_u64 n = show_nat (unat n)"

definition nat_of_digits :: "string \<Rightarrow> nat" where
  "nat_of_digits s = foldl (\<lambda>n c. n * 10 + digit_val c) 0 s"

text \<open>
  \<open>ParseUint\<close> returns the value and whether an error was reported: a malformed string gives
  0 with an error, a number beyond 64 bits gives the largest value with an error.
\<close>

definition ParseUint :: "string \<Rightarrow> u64 \<times> bool" where
  "ParseUint s =
     (if s = [] \<or> \<not> list_all is_digit s then (0, True)
      else if nat_of_digits s < 2 ^ 64 then (of_nat (nat_of_digits s), False)
      else (- 1, True))"

lemma digit_char_is_digit [simp]: "d < 10 \<Longrightarrow> is_digit (digit_char d)"
  by (simp add: digit_char_def is_digit_def)

lemma digit_val_char [simp]: "d < 10 \<Longrightarrow> digit_val (digit_char d) = d"
  by (simp add: digit_char_def digit_val_def)

lemma show_nat_not_Nil [simp]: "show_nat n \<noteq> []"
  by (subst show_nat.simps) simp

lemma show_nat_digits: "list_all is_digit (show_nat n)"
proof (induction n rule: show_nat.induct)
  case (1 n)
  then show ?case by (subst show_nat.simps) (auto simp: list_all_append)
qed

lemma nat_of_digits_snoc [simp]:
  "nat_of_digits (s @ [c]) = nat_of_digits s * 10 + digit_val c"
  by (simp add: nat_of_digits_def)

lemma nat_of_digits_show [simp]: "nat_of_digits (show_nat n) = n"
proof (induction n rule: show_nat.induct)
  case (1 n)
  show ?case
  proof (cases "n < 10")
    case True
    then show ?thesis by (subst show_nat.simps) (simp add: nat_of_digits_def)
  next
    case False
    with 1 show ?thesis by (subst show_nat.simps) simp
  qed
qed

lemma show_nat_inject [simp]: "show_nat m = show_nat n \<longleftrightarrow> m = n"
  by (metis nat_of_digits_show)

lemma show_u64_inject [simp]: "show_u64 m = show_u64 n \<longleftrightarrow> m = n"
  by (simp add: show_u64_def word_unat_eq_iff)

lemma show_u64_digits: "list_all is_digit (show_u64 n)"
  by (simp add: show_u64_def show_nat_digits)

lemma ParseUint_show_u64 [simp]: "ParseUint (show_u64 n) = (n, False)"
proof -
  have "unat n < 2 ^ 64" using unsigned_less [of n, where 'a = nat] by simp
  then show ?thesis by (simp add: ParseUint_def show_u64_def show_nat_digits)
qed

section \<open>Strings\<close>

text \<open>
  \<open>strings.TrimSpace\<close> on bytes: the ASCII white space that the Unicode definition
  includes (the multi-byte white-space runes are outside the model).
\<close>

definition is_space :: "char \<Rightarrow> bool" where
  "is_space c \<longleftrightarrow> (of_char c :: nat) \<in> {9, 10, 11, 12, 13, 32}"

definition TrimSpace :: "string \<Rightarrow> string" where
  "TrimSpace s = rev (dropWhile is_space (rev (dropWhile is_space s)))"

definition HasPrefix :: "string \<Rightarrow> string \<Rightarrow> bool" where
  "HasPrefix s p \<longleftrightarrow> take (length p) s = p"

definition TrimPrefix :: "string \<Rightarrow> string \<Rightarrow> string" where
  "TrimPrefix s p = (if HasPrefix s p then drop (length p) s else s)"

definition lower_char :: "char \<Rightarrow> char" where
  "lower_char c = (let n = (of_char c :: nat) in if 65 \<le> n \<and> n \<le> 90 then char_of (n + 32) else c)"

definition ToLower :: "string \<Rightarrow> string" where
  "ToLower s = map lower_char s"

lemma dropWhile_eq_self: "xs = [] \<or> \<not> P (hd xs) \<Longrightarrow> dropWhile P xs = xs"
  by (cases xs) auto

lemma dropWhile_rev_stable:
  assumes "ys = [] \<or> \<not> P (hd ys)"
  shows "dropWhile P (rev (dropWhile P (rev ys))) = rev (dropWhile P (rev ys))"
proof (cases "dropWhile P (rev ys) = []")
  case True
  then show ?thesis by (simp only: rev.simps dropWhile.simps)
next
  case False
  obtain zs where "rev ys = zs @ dropWhile P (rev ys)"
    by (metis takeWhile_dropWhile_id)
  then have "ys = rev (dropWhile P (rev ys)) @ rev zs"
    by (metis rev_append rev_rev_ident)
  with False have "hd (rev (dropWhile P (rev ys))) = hd ys"
    by (metis hd_append2 rev_is_Nil_conv)
  moreover have "ys \<noteq> []" using False by (cases ys) auto
  ultimately show ?thesis using assms by (intro dropWhile_eq_self) simp
qed

lemma dropWhile_hd: "dropWhile P xs = [] \<or> \<not> P (hd (dropWhile P xs))"
  using hd_dropWhile by blast

lemma TrimSpace_idem [simp]: "TrimSpace (TrimSpace s) = TrimSpace s"
  by (simp add: TrimSpace_def dropWhile_rev_stable [OF dropWhile_hd] dropWhile_eq_self [OF dropWhile_hd])

section \<open>Lists as keyed tables\<close>

lemma find_append: "find P (xs @ ys) = (case find P xs of None \<Rightarrow> find P ys | Some x \<Rightarrow> Some x)"
  by (induction xs) auto

text \<open>Rows of a table whose key is a projection: a key occurs at most once.\<close>

definition distinct_by :: "('a \<Rightarrow> 'k) \<Rightarrow> 'a list \<Rightarrow> bool" where
  "distinct_by f xs \<longleftrightarrow> distinct (map f xs)"

lemma distinct_by_filter: "distinct_by f xs \<Longrightarrow> distinct_by f (filter P xs)"
  by (induction xs) (auto simp: distinct_by_def)

lemma distinct_by_append:
  "distinct_by f (xs @ ys) \<longleftrightarrow>
   distinct_by f xs \<and> distinct_by f ys \<and> f ` set xs \<inter> f ` set ys = {}"
  by (auto simp: distinct_by_def)

lemma distinct_by_map_same:
  "(\<And>x. x \<in> set xs \<Longrightarrow> f (g x) = f x) \<Longrightarrow> distinct_by f (map g xs) = distinct_by f xs"
  by (simp add: distinct_by_def comp_def cong: map_cong)

lemma distinct_by_inj:
  "distinct_by f xs \<Longrightarrow> x \<in> set xs \<Longrightarrow> y \<in> set xs \<Longrightarrow> f x = f y \<Longrightarrow> x = y"
  by (auto simp: distinct_by_def distinct_map dest: inj_onD)

lemma alist_update [simp]: "map_of (AList.update k v xs) = (map_of xs)(k \<mapsto> v)"
  by (rule update_conv')

lemma alist_delete [simp]: "map_of (AList.delete k xs) = (map_of xs)(k := None)"
  by (rule delete_conv')

end
