(* ===== verification/Expired_Map.thy ===== *)
theory Expired_Map
  imports Prelude "HOL-Library.Multiset"
begin

text \<open>
  The in-memory map with expiry of \<open>cache/expiredMap.go\<close>. The Go map is an association list
  with distinct keys; \<open>time.Now().Unix()\<close> is the argument \<open>now\<close>. Unix seconds are \<open>int\<close>:
  the only sum, \<open>now + aliveSecond\<close>, is taken when \<open>aliveSecond <= now\<close>, far below
  \<open>2^63\<close> for any real clock. Go leaves the order of a \<open>range\<close> over a map open, so the
  two iterators take the order as an argument.

  The locale \<open>expiring_map\<close> is the contract the rest of the program uses (the account cache,
  the department cache, the SMS code cache); it is interpreted on the operations below.
\<close>

section \<open>The map and its operations\<close>

record 'v data =
  val :: 'v
  expiredAt :: int

type_synonym 'v expired_map = "(string \<times> 'v data) list"

definition NewExpiredMap :: "'v expired_map" where
  "NewExpiredMap = []"

definition Delete :: "string \<Rightarrow> 'v expired_map \<Rightarrow> 'v expired_map" where
  "Delete key e = AList.delete key e"

definition Set :: "string \<Rightarrow> 'v \<Rightarrow> int \<Rightarrow> int \<Rightarrow> 'v expired_map \<Rightarrow> 'v expired_map" where
  "Set key value aliveSecond now e =
     (if aliveSecond \<le> 0 then e
      else let expired = (if aliveSecond \<le> now then now + aliveSecond else aliveSecond)
           in AList.update key \<lparr>val = value, expiredAt = expired\<rparr> e)"

definition Get :: "string \<Rightarrow> int \<Rightarrow> 'v expired_map \<Rightarrow> 'v option \<times> 'v expired_map" where
  "Get key now e = (case map_of e key of
       None \<Rightarrow> (None, e)
     | Some d \<Rightarrow> if expiredAt d \<le> now then (None, Delete key e) else (Some (val d), e))"

definition Length :: "'v expired_map \<Rightarrow> nat" where
  "Length e = length e"

definition TTL :: "string \<Rightarrow> int \<Rightarrow> 'v expired_map \<Rightarrow> int \<times> 'v expired_map" where
  "TTL key now e = (case map_of e key of
       None \<Rightarrow> (-1, e)
     | Some d \<Rightarrow> let ttl = expiredAt d - now
                in if ttl < 0 then (-1, Delete key e) else (ttl, e))"

definition Clear :: "'v expired_map \<Rightarrow> 'v expired_map" where
  "Clear e = []"

text \<open>
  The iterators: \<open>order\<close> is the sequence of entries that the \<open>range\<close> loop visits; the handler
  works on a state of its own.
\<close>

fun DoForEach ::
  "int \<Rightarrow> (string \<Rightarrow> 'v \<Rightarrow> 's \<Rightarrow> 's) \<Rightarrow> (string \<times> 'v data) list \<Rightarrow> 'v expired_map \<Rightarrow> 's \<Rightarrow> 'v expired_map \<times> 's"
where
  "DoForEach now handler [] e s = (e, s)"
| "DoForEach now handler ((k, v) # order) e s =
     (if expiredAt v \<le> now then DoForEach now handler order (Delete k e) s
      else DoForEach now handler order e (handler k (val v) s))"

fun DoForEachWithBreak ::
  "int \<Rightarrow> (string \<Rightarrow> 'v \<Rightarrow> 's \<Rightarrow> bool \<times> 's) \<Rightarrow> (string \<times> 'v data) list \<Rightarrow> 'v expired_map \<Rightarrow> 's \<Rightarrow> 'v expired_map \<times> 's"
where
  "DoForEachWithBreak now handler [] e s = (e, s)"
| "DoForEachWithBreak now handler ((k, v) # order) e s =
     (if expiredAt v \<le> now then DoForEachWithBreak now handler order (Delete k e) s
      else case handler k (val v) s of
             (True, s') \<Rightarrow> (e, s')
           | (False, s') \<Rightarrow> DoForEachWithBreak now handler order e s')"

subsection \<open>The two critical sections of \<open>Get\<close>\<close>

text \<open>
  \<open>Get\<close> looks the key up under the read lock, releases it, and takes the write lock only to
  evict. Between the two, another goroutine may run. \<open>get_probe\<close> is the first section;
  \<open>get_finish\<close> is what follows, on the map as it is by then.
\<close>

definition get_probe :: "string \<Rightarrow> 'v expired_map \<Rightarrow> 'v data option" where
  "get_probe key e = map_of e key"

definition get_finish :: "string \<Rightarrow> int \<Rightarrow> 'v data option \<Rightarrow> 'v expired_map \<Rightarrow> 'v option \<times> 'v expired_map" where
  "get_finish key now probe e = (case probe of
       None \<Rightarrow> (None, e)
     | Some d \<Rightarrow> if expiredAt d \<le> now then (None, Delete key e) else (Some (val d), e))"

section \<open>Abstraction: the live entries\<close>

definition live :: "int \<Rightarrow> 'v expired_map \<Rightarrow> string \<rightharpoonup> 'v" where
  "live now e = (\<lambda>k. case map_of e k of
       None \<Rightarrow> None
     | Some d \<Rightarrow> if expiredAt d \<le> now then None else Some (val d))"

definition map_inv :: "'v expired_map \<Rightarrow> bool" where
  "map_inv e \<longleftrightarrow> distinct (map fst e)"

lemmas expired_map_defs =
  NewExpiredMap_def Delete_def Set_def Get_def TTL_def Clear_def live_def map_inv_def Let_def

lemma live_Set:
  "0 < ttl \<Longrightarrow> 0 \<le> now \<Longrightarrow> live now (Set k v ttl now e) = (live now e)(k \<mapsto> v)"
  by (rule ext) (auto simp: expired_map_defs split: option.splits)

lemma live_Delete: "live now (Delete k e) = (live now e)(k := None)"
  by (rule ext) (auto simp: expired_map_defs)

lemma Get_result: "fst (Get k now e) = live now e k"
  by (auto simp: expired_map_defs split: option.splits)

lemma Get_live: "live now (snd (Get k now e)) = live now e"
proof (cases "map_of e k")
  case None
  then show ?thesis by (simp add: Get_def)
next
  case (Some d)
  then have "expiredAt d \<le> now \<Longrightarrow> live now e k = None" by (simp add: live_def)
  with Some show ?thesis by (auto simp: Get_def live_Delete)
qed

lemma live_later: "t \<le> t' \<Longrightarrow> live t' e k = Some v \<Longrightarrow> live t e k = Some v"
  by (auto simp: live_def split: option.splits if_splits)

lemma live_None_later: "t \<le> t' \<Longrightarrow> live t e k = None \<Longrightarrow> live t' e k = None"
  by (metis live_later not_None_eq)

subsection \<open>The invariant\<close>

lemma map_inv_ops:
  "map_inv NewExpiredMap"
  "map_inv e \<Longrightarrow> map_inv (Set k v ttl now e)"
  "map_inv e \<Longrightarrow> map_inv (Delete k e)"
  "map_inv e \<Longrightarrow> map_inv (snd (Get k now e))"
  "map_inv e \<Longrightarrow> map_inv (snd (TTL k now e))"
  "map_inv (Clear e)"
  by (auto simp: expired_map_defs distinct_update distinct_delete split: option.splits)

section \<open>The contract\<close>

locale expiring_map =
  fixes em_new :: "'m"
    and em_set :: "string \<Rightarrow> 'v \<Rightarrow> int \<Rightarrow> int \<Rightarrow> 'm \<Rightarrow> 'm"
    and em_get :: "string \<Rightarrow> int \<Rightarrow> 'm \<Rightarrow> 'v option \<times> 'm"
    and em_del :: "string \<Rightarrow> 'm \<Rightarrow> 'm"
    and em_live :: "int \<Rightarrow> 'm \<Rightarrow> string \<rightharpoonup> 'v"
  assumes new_empty: "em_live now em_new k = None"
    and set_live: "0 < ttl \<Longrightarrow> 0 \<le> now \<Longrightarrow> em_live now (em_set k v ttl now m) = (em_live now m)(k \<mapsto> v)"
    and get_result: "fst (em_get k now m) = em_live now m k"
    and get_live: "em_live now (snd (em_get k now m)) = em_live now m"
    and del_live: "em_live now (em_del k m) = (em_live now m)(k := None)"
    and later: "t \<le> t' \<Longrightarrow> em_live t' m k = Some v \<Longrightarrow> em_live t m k = Some v"
begin

text \<open>
  The read-through idiom of the services: look in the cache, otherwise load and fill. A cache
  that only ever holds what the loader returns is coherent; a read through it answers what the
  loader would, and leaves it coherent.
\<close>

definition coherent :: "int \<Rightarrow> (string \<rightharpoonup> 'v) \<Rightarrow> 'm \<Rightarrow> bool" where
  "coherent now src m \<longleftrightarrow> (\<forall>k v. em_live now m k = Some v \<longrightarrow> src k = Some v)"

definition read_through :: "string \<Rightarrow> (string \<rightharpoonup> 'v) \<Rightarrow> int \<Rightarrow> int \<Rightarrow> 'm \<Rightarrow> 'v option \<times> 'm" where
  "read_through k src ttl now m = (case em_get k now m of
       (Some v, m') \<Rightarrow> (Some v, m')
     | (None, m') \<Rightarrow> (case src k of None \<Rightarrow> (None, m') | Some v \<Rightarrow> (Some v, em_set k v ttl now m')))"

lemma coherent_new: "coherent now src em_new"
  by (simp add: coherent_def new_empty)

lemma coherent_later: "t \<le> t' \<Longrightarrow> coherent t src m \<Longrightarrow> coherent t' src m"
  by (auto simp: coherent_def dest: later)

lemma coherent_get: "coherent now src m \<Longrightarrow> coherent now src (snd (em_get k now m))"
  by (simp add: coherent_def get_live)

lemma coherent_evict:
  "coherent now src m \<Longrightarrow> (\<And>j. j \<noteq> k \<Longrightarrow> src' j = src j) \<Longrightarrow> coherent now src' (em_del k m)"
  by (auto simp: coherent_def del_live split: if_splits)

lemma read_through_correct:
  assumes coh: "coherent now src m" and "0 < ttl" and "0 \<le> now"
  shows "fst (read_through k src ttl now m) = src k"
    and "coherent now src (snd (read_through k src ttl now m))"
proof -
  obtain r m' where g: "em_get k now m = (r, m')" by fastforce
  have r: "r = em_live now m k" and m': "em_live now m' = em_live now m"
    using get_result [of k now m] get_live [of now k m] g by auto
  show "fst (read_through k src ttl now m) = src k"
    using coh r by (auto simp: read_through_def g coherent_def split: option.splits)
  show "coherent now src (snd (read_through k src ttl now m))"
    using coh r m' assms(2,3)
    by (auto simp: read_through_def g coherent_def set_live split: option.splits if_splits)
qed

end

interpretation em: expiring_map NewExpiredMap Set Get Delete live
proof unfold_locales
  show "live now NewExpiredMap k = None" for now k
    by (simp add: expired_map_defs)
qed (auto simp: live_Set Get_result Get_live live_Delete live_later)

section \<open>Iteration\<close>

lemma DoForEach_handler:
  "snd (DoForEach now handler order e s) =
   fold (\<lambda>(k, d). handler k (val d)) (filter (\<lambda>(k, d). now < expiredAt d) order) s"
  by (induction now handler order e s rule: DoForEach.induct) auto

lemma DoForEach_map:
  "fst (DoForEach now handler order e s) =
   fold (\<lambda>(k, d). Delete k) (filter (\<lambda>(k, d). expiredAt d \<le> now) order) e"
  by (induction now handler order e s rule: DoForEach.induct) auto

lemma map_of_fold_Delete:
  "map_of (fold (\<lambda>(k, d). Delete k) ds e) j = (if j \<in> fst ` set ds then None else map_of e j)"
  by (induction ds arbitrary: e) (auto simp: Delete_def)

lemma DoForEach_live:
  assumes inv: "map_inv e" and ord: "set order = set e"
  shows "map_of (fst (DoForEach now handler order e s)) k =
         (case map_of e k of None \<Rightarrow> None | Some d \<Rightarrow> if expiredAt d \<le> now then None else Some d)"
proof -
  have *: "k \<in> fst ` set (filter (\<lambda>(k, d). expiredAt d \<le> now) order) \<longleftrightarrow>
        (\<exists>d. map_of e k = Some d \<and> expiredAt d \<le> now)"
    using inv ord by (force simp: map_inv_def)
  show ?thesis
    unfolding DoForEach_map map_of_fold_Delete * by (auto split: option.splits)
qed

lemma DoForEachWithBreak_no_break:
  assumes "\<And>k v s. fst (handler k v s) = False"
  shows "DoForEachWithBreak now handler order e s = DoForEach now (\<lambda>k v s. snd (handler k v s)) order e s"
proof (induction order arbitrary: e s)
  case (Cons x order)
  then show ?case using assms by (cases x) (auto split: prod.splits bool.splits, (metis fst_conv)+)
qed simp

section \<open>Properties\<close>

lemma Get_Set_same:
  assumes "0 < ttl"
  shows "Get k t (Set k v ttl now e) =
         (if t < (if ttl \<le> now then now + ttl else ttl)
          then (Some v, Set k v ttl now e) else (None, Delete k e))"
  using assms by (simp add: expired_map_defs delete_update_same)

text \<open>A value stored with \<open>Set\<close> is what \<open>Get\<close> answers from then on until its expiry second and
  not from that second on, where the expiry is \<open>now + aliveSecond\<close> for a relative argument and
  \<open>aliveSecond\<close> itself for an absolute one; every other key is answered as before the \<open>Set\<close>;
  a non-positive \<open>aliveSecond\<close> stores nothing.\<close>

theorem Get_after_Set:
  "fst (Get j t (Set k v ttl now e)) =
     (if 0 < ttl \<and> j = k then (if t < (if ttl \<le> now then now + ttl else ttl) then Some v else None)
      else fst (Get j t e))"
  by (auto simp: expired_map_defs split: option.splits)

text \<open>\<open>Get\<close> is not atomic. Whatever other goroutines do between its two critical sections, its
  answer is that of the map at the look-up; but when it found an expired entry and another
  goroutine stored a fresh value for the same key in between, the eviction removes the fresh
  value, which is then lost to every later reader.\<close>

theorem Get_interleaved:
  assumes "map_of e k = Some d" and "expiredAt d \<le> now" and "0 < ttl" and "0 \<le> now"
  shows "fst (get_finish k now (get_probe k e) e') = live now e k
    \<and> get_finish k now (get_probe k e) e = Get k now e
    \<and> live now (Set k v ttl now e) k = Some v
    \<and> live now (snd (get_finish k now (get_probe k e) (Set k v ttl now e))) k = None"
  using assms by (simp add: get_finish_def get_probe_def expired_map_defs)

theorem Get_interleaved_witness:
  "live (200::int) (Set ''15360651247'' ''4242'' 60 200 [(''15360651247'', \<lparr>val = ''1111'', expiredAt = 150\<rparr>)])
     ''15360651247'' = Some ''4242''
   \<and> live 200 (snd (get_finish ''15360651247'' 200
        (get_probe ''15360651247'' [(''15360651247'', \<lparr>val = ''1111'', expiredAt = 150\<rparr>)])
        (Set ''15360651247'' ''4242'' 60 200 [(''15360651247'', \<lparr>val = ''1111'', expiredAt = 150\<rparr>)])))
     ''15360651247'' = None"
  using Get_interleaved [of "[(''15360651247'', \<lparr>val = ''1111'', expiredAt = 150\<rparr>)]"
      "''15360651247''" "\<lparr>val = ''1111'', expiredAt = 150\<rparr>" 200 60 "[]" "''4242''"]
  by simp



text \<open>A full iteration, in whatever order the runtime visits the entries, hands the handler
  exactly the unexpired entries in that order and leaves exactly them in the map.\<close>

theorem DoForEach_sweeps:
  assumes "map_inv e" and "mset order = mset e"
  shows "snd (DoForEach now handler order e s) =
           fold (\<lambda>(k, d). handler k (val d)) (filter (\<lambda>(k, d). now < expiredAt d) order) s
    \<and> map_of (fst (DoForEach now handler order e s)) =
         (\<lambda>k. case map_of e k of None \<Rightarrow> None | Some d \<Rightarrow> if expiredAt d \<le> now then None else Some d)
    \<and> live now (fst (DoForEach now handler order e s)) = live now e"
proof (intro conjI)
  have ord: "set order = set e" using assms(2) by (rule mset_eq_setD)
  show "snd (DoForEach now handler order e s) =
         fold (\<lambda>(k, d). handler k (val d)) (filter (\<lambda>(k, d). now < expiredAt d) order) s"
    by (rule DoForEach_handler)
  show 2: "map_of (fst (DoForEach now handler order e s)) =
         (\<lambda>k. case map_of e k of None \<Rightarrow> None | Some d \<Rightarrow> if expiredAt d \<le> now then None else Some d)"
    by (rule ext) (rule DoForEach_live [OF assms(1) ord])
  show "live now (fst (DoForEach now handler order e s)) = live now e"
    by (rule ext) (simp add: live_def 2 split: option.splits)
qed

theorem DoForEach_sweeps_witness:
  "DoForEach 5 (\<lambda>k v s. s + v) [(''b'', \<lparr>val = 2, expiredAt = 9\<rparr>), (''a'', \<lparr>val = 7, expiredAt = 5\<rparr>)]
       [(''a'', \<lparr>val = 7, expiredAt = 5\<rparr>), (''b'', \<lparr>val = 2, expiredAt = 9\<rparr>)] (0::int) =
     ([(''b'', \<lparr>val = 2, expiredAt = 9\<rparr>)], 2)
   \<and> live 5 (fst (DoForEach 5 (\<lambda>k v s. s + v) [(''b'', \<lparr>val = 2, expiredAt = 9\<rparr>), (''a'', \<lparr>val = 7, expiredAt = 5\<rparr>)]
       [(''a'', \<lparr>val = 7, expiredAt = 5\<rparr>), (''b'', \<lparr>val = 2, expiredAt = 9\<rparr>)] (0::int))) =
     live 5 [(''a'', \<lparr>val = 7, expiredAt = 5\<rparr>), (''b'', \<lparr>val = 2, expiredAt = 9\<rparr>)]"
  using DoForEach_sweeps [of "[(''a'', \<lparr>val = 7, expiredAt = 5\<rparr>), (''b'', \<lparr>val = 2, expiredAt = 9\<rparr>)]"
      "[(''b'', \<lparr>val = 2, expiredAt = 9\<rparr>), (''a'', \<lparr>val = 7, expiredAt = 5\<rparr>)]" 5 "\<lambda>k v s. s + v" "0::int"]
  by (simp add: map_inv_def Delete_def)

end
