(* ===== verification/Closure_Table.thy ===== *)
theory Closure_Table
  imports Prelude
begin

text \<open>
  The closure table of the tenant tree, as the SQL statements of \<open>dao/tenant_closure.dao.go\<close> and
  \<open>dao/tenant_closure_v2.dao.go\<close> change it: each definition below is one statement (PostgreSQL), on
  the table as a list of rows keyed by \<open>(ancestor_id, descendant_id)\<close>. The abstract side is a
  parent function: \<open>up p n d\<close> is the ancestor \<open>n\<close> levels above \<open>d\<close>.

  \<open>closure_exact\<close> says that the table is the closure of the parent function with the right
  depths; \<open>closure_inv\<close> says it of the ancestor relation, the self rows (depth 0) and the
  parent rows (depth 1) only, which is what moving a subtree keeps.
\<close>

type_synonym closure = "((u64 \<times> u64) \<times> nat) list"

section \<open>The statements\<close>

text \<open>\<open>INSERT ... ON CONFLICT (ancestor_id, descendant_id) DO NOTHING\<close>, one row\<close>

definition ins_nothing :: "(u64 \<times> u64) \<times> nat \<Rightarrow> closure \<Rightarrow> closure" where
  "ins_nothing r t = (if map_of t (fst r) = None then t @ [r] else t)"

text \<open>
  \<open>INSERT ... ON CONFLICT (...) DO UPDATE SET depth = EXCLUDED.depth
  WHERE tenant_closure.depth > EXCLUDED.depth\<close>, one row
\<close>

definition ins_min :: "(u64 \<times> u64) \<times> nat \<Rightarrow> closure \<Rightarrow> closure" where
  "ins_min r t = (case map_of t (fst r) of
       None \<Rightarrow> t @ [r]
     | Some n \<Rightarrow> if n > snd r then AList.update (fst r) (snd r) t else t)"

text \<open>\<open>SELECT ancestor_id, d, depth + 1 FROM tenant_closure WHERE descendant_id = a\<close>, inserted\<close>

definition ancestor_rows :: "u64 \<Rightarrow> u64 \<Rightarrow> closure \<Rightarrow> ((u64 \<times> u64) \<times> nat) list" where
  "ancestor_rows ancestorId descendantId t =
     map (\<lambda>((a, d), n). ((a, descendantId), n + 1)) (filter (\<lambda>((a, d), n). d = ancestorId) t)"

definition ins_ancestors :: "u64 \<Rightarrow> u64 \<Rightarrow> closure \<Rightarrow> closure" where
  "ins_ancestors ancestorId descendantId t =
     fold ins_nothing (ancestor_rows ancestorId descendantId t) t"

text \<open>The two common table expressions and the \<open>DELETE\<close> over them.\<close>

definition subtree :: "u64 \<Rightarrow> closure \<Rightarrow> u64 list" where
  "subtree tenantID t = map (\<lambda>((a, d), n). d) (filter (\<lambda>((a, d), n). a = tenantID) t)"

definition supertree :: "u64 \<Rightarrow> closure \<Rightarrow> u64 list" where
  "supertree newParentID t = map (\<lambda>((a, d), n). a) (filter (\<lambda>((a, d), n). d = newParentID) t)"

definition del_subtree :: "u64 \<Rightarrow> u64 \<Rightarrow> closure \<Rightarrow> closure" where
  "del_subtree tenantID newParentID t =
     filter (\<lambda>((a, d), n). \<not> (d \<in> set (subtree tenantID t) \<and> a \<notin> set (subtree tenantID t)
        \<and> a \<noteq> newParentID \<and> a \<notin> set (supertree newParentID t))) t"

definition del_old_parent :: "u64 \<Rightarrow> u64 \<Rightarrow> closure \<Rightarrow> closure" where
  "del_old_parent tenantID newParentID t =
     filter (\<lambda>((a, d), n). \<not> (d = tenantID \<and> n = 1 \<and> a \<noteq> newParentID)) t"

text \<open>
  The \<open>CROSS JOIN\<close> of the new parent's ancestors with the moved subtree. The select list is
  evaluated on the table before the insertion; its keys are distinct because the table's are, so
  PostgreSQL's "cannot affect row a second time" does not arise.
\<close>

definition cross_rows :: "u64 \<Rightarrow> u64 \<Rightarrow> closure \<Rightarrow> ((u64 \<times> u64) \<times> nat) list" where
  "cross_rows tenantID newParentID t =
     concat (map (\<lambda>((a, p), n). map (\<lambda>((x, d), m). ((a, d), n + m + 1)) (filter (\<lambda>((x, d), m). x = tenantID) t))
       (filter (\<lambda>((a, p), n). p = newParentID) t))"

definition ins_cross :: "u64 \<Rightarrow> u64 \<Rightarrow> closure \<Rightarrow> closure" where
  "ins_cross tenantID newParentID t = fold ins_min (cross_rows tenantID newParentID t) t"

text \<open>\<open>sqlCheckDirectRelation\<close>\<close>

definition direct_exists :: "u64 \<Rightarrow> u64 \<Rightarrow> closure \<Rightarrow> bool" where
  "direct_exists parentID tenantID t \<longleftrightarrow> ((parentID, tenantID), 1) \<in> set t"

text \<open>\<open>sqlCheckCircularReference\<close>: the join on swapped keys\<close>

definition circular_pairs :: "closure \<Rightarrow> (u64 \<times> u64) list" where
  "circular_pairs t = concat (map (\<lambda>((a, d), n). map (\<lambda>_. (a, d)) (filter (\<lambda>((b, e), m). a = e \<and> d = b) t))
     (filter (\<lambda>((a, d), n). a \<noteq> d) t))"

text \<open>\<open>ON DELETE CASCADE\<close> of both foreign keys\<close>

definition cascade_delete :: "u64 \<Rightarrow> closure \<Rightarrow> closure" where
  "cascade_delete tenantID t = filter (\<lambda>((a, d), n). a \<noteq> tenantID \<and> d \<noteq> tenantID) t"

section \<open>The tree\<close>

fun up :: "(u64 \<rightharpoonup> u64) \<Rightarrow> nat \<Rightarrow> u64 \<Rightarrow> u64 option" where
  "up p 0 d = Some d"
| "up p (Suc n) d = (case p d of None \<Rightarrow> None | Some e \<Rightarrow> up p n e)"

definition is_anc :: "(u64 \<rightharpoonup> u64) \<Rightarrow> u64 \<Rightarrow> u64 \<Rightarrow> bool" where
  "is_anc p a d \<longleftrightarrow> (\<exists>n. up p n d = Some a)"

definition forest :: "u64 set \<Rightarrow> (u64 \<rightharpoonup> u64) \<Rightarrow> bool" where
  "forest N p \<longleftrightarrow> dom p \<subseteq> N \<and> ran p \<subseteq> N \<and> (\<forall>d n. 0 < n \<longrightarrow> up p n d \<noteq> Some d)"

definition closure_inv :: "u64 set \<Rightarrow> (u64 \<rightharpoonup> u64) \<Rightarrow> closure \<Rightarrow> bool" where
  "closure_inv N p t \<longleftrightarrow> forest N p \<and> distinct (map fst t)
     \<and> (\<forall>a d. (a, d) \<in> dom (map_of t) \<longleftrightarrow> d \<in> N \<and> is_anc p a d)
     \<and> (\<forall>a d. map_of t (a, d) = Some 0 \<longleftrightarrow> d \<in> N \<and> a = d)
     \<and> (\<forall>a d. map_of t (a, d) = Some 1 \<longleftrightarrow> p d = Some a)"

definition closure_exact :: "u64 set \<Rightarrow> (u64 \<rightharpoonup> u64) \<Rightarrow> closure \<Rightarrow> bool" where
  "closure_exact N p t \<longleftrightarrow> forest N p \<and> distinct (map fst t)
     \<and> (\<forall>a d n. map_of t (a, d) = Some n \<longleftrightarrow> d \<in> N \<and> up p n d = Some a)"

lemma up_add: "up p (m + n) d = Option.bind (up p m d) (up p n)"
  by (induction m arbitrary: d) (auto split: option.splits)

lemma is_anc_refl [simp]: "is_anc p a a"
  unfolding is_anc_def by (rule exI [of _ 0]) simp

lemma is_anc_trans: "is_anc p a b \<Longrightarrow> is_anc p b c \<Longrightarrow> is_anc p a c"
  unfolding is_anc_def by (metis up_add Option.bind.bind_lunit)

lemma forest_acyclic: "forest N p \<Longrightarrow> up p n d = Some d \<Longrightarrow> n = 0"
  unfolding forest_def by blast

lemma forest_antisym:
  assumes "forest N p" and "is_anc p a b" and "is_anc p b a"
  shows "a = b"
proof -
  obtain m n where "up p m b = Some a" and "up p n a = Some b"
    using assms(2,3) by (auto simp: is_anc_def)
  then have "up p (m + n) b = Some b" by (simp add: up_add)
  then have "m = 0" using forest_acyclic [OF assms(1)] by auto
  then show ?thesis using \<open>up p m b = Some a\<close> by simp
qed

lemma forest_up_in:
  assumes "forest N p" and "d \<in> N" and "up p n d = Some a"
  shows "a \<in> N"
  using assms(2,3)
proof (induction n arbitrary: d)
  case (Suc n)
  then obtain e where "p d = Some e" and "up p n e = Some a" by (auto split: option.splits)
  moreover from this(1) have "e \<in> N" using assms(1) by (auto simp: forest_def ran_def)
  ultimately show ?case using Suc.IH by blast
qed simp

lemma forest_up_unique:
  assumes f: "forest N p" and "up p m d = Some a" and "up p n d = Some a"
  shows "m = n"
proof -
  have *: "j = k" if "j \<le> k" "up p j d = Some a" "up p k d = Some a" for j k
  proof -
    have "up p (j + (k - j)) d = Some a" using that by simp
    then have "up p (k - j) a = Some a" using that(2) by (simp add: up_add)
    then have "k - j = 0" by (rule forest_acyclic [OF f])
    then show "j = k" using that(1) by simp
  qed
  show ?thesis using * [of m n] * [of n m] assms(2,3) by (cases "m \<le> n") auto
qed

lemma exact_imp_inv: "closure_exact N p t \<Longrightarrow> closure_inv N p t"
  unfolding closure_exact_def closure_inv_def is_anc_def
  by (auto simp: forest_def split: option.splits)

section \<open>Rows and look-ups\<close>

lemma map_of_filter_key:
  "distinct (map fst t) \<Longrightarrow>
   map_of (filter P t) k = (case map_of t k of None \<Rightarrow> None | Some n \<Rightarrow> if P (k, n) then Some n else None)"
proof (induction t)
  case (Cons r t)
  have "map_of t (fst r) = None" using Cons.prems by (simp add: map_of_eq_None_iff)
  with Cons show ?case by (cases r) (auto split: option.splits)
qed simp

lemma distinct_filter_key: "distinct (map fst t) \<Longrightarrow> distinct (map fst (filter P t))"
  by (rule distinct_map_filter)

lemma ins_nothing_lookup [simp]:
  "map_of (ins_nothing r t) = (if map_of t (fst r) = None then (map_of t)(fst r \<mapsto> snd r) else map_of t)"
proof (cases r)
  case (Pair k n)
  show ?thesis by (rule ext) (auto simp: ins_nothing_def Pair map_add_def split: option.splits)
qed

lemma ins_nothing_distinct: "distinct (map fst t) \<Longrightarrow> distinct (map fst (ins_nothing r t))"
  by (auto simp: ins_nothing_def map_of_eq_None_iff)

lemma fold_ins_nothing_distinct:
  "distinct (map fst t) \<Longrightarrow> distinct (map fst (fold ins_nothing rs t))"
  by (induction rs arbitrary: t) (auto simp: ins_nothing_distinct)

lemma fold_ins_nothing_lookup:
  "map_of (fold ins_nothing rs t) k = (case map_of t k of Some n \<Rightarrow> Some n | None \<Rightarrow> map_of rs k)"
proof (induction rs arbitrary: t)
  case (Cons r rs)
  show ?case by (cases r) (auto simp: Cons.IH split: option.splits)
qed (auto split: option.splits)

lemma ins_min_lookup [simp]:
  "map_of (ins_min r t) = (map_of t)(fst r \<mapsto> (case map_of t (fst r) of None \<Rightarrow> snd r | Some n \<Rightarrow> min n (snd r)))"
proof (cases r)
  case (Pair k n)
  show ?thesis by (rule ext) (auto simp: ins_min_def Pair map_add_def split: option.splits)
qed

lemma ins_min_distinct: "distinct (map fst t) \<Longrightarrow> distinct (map fst (ins_min r t))"
  by (auto simp: ins_min_def map_of_eq_None_iff distinct_update split: option.splits)

lemma fold_ins_min_distinct: "distinct (map fst t) \<Longrightarrow> distinct (map fst (fold ins_min rs t))"
  by (induction rs arbitrary: t) (auto simp: ins_min_distinct)

lemma fold_ins_min_lookup:
  "distinct (map fst rs) \<Longrightarrow>
   map_of (fold ins_min rs t) k = (case map_of rs k of None \<Rightarrow> map_of t k
     | Some m \<Rightarrow> Some (case map_of t k of None \<Rightarrow> m | Some n \<Rightarrow> min n m))"
proof (induction rs arbitrary: t)
  case (Cons r rs)
  have "map_of rs (fst r) = None" using Cons.prems by (simp add: map_of_eq_None_iff)
  with Cons show ?case by (cases r) (auto split: option.splits)
qed simp

lemma map_of_ancestor_rows:
  assumes "distinct (map fst t)"
  shows "map_of (ancestor_rows x y t) (b, z) =
         (if z = y then map_option Suc (map_of t (b, x)) else None)"
  using assms
proof (induction t)
  case (Cons r t)
  obtain a d n where r: "r = ((a, d), n)" by (metis prod.exhaust)
  have "map_of t (a, d) = None" using Cons.prems r by (simp add: map_of_eq_None_iff)
  with Cons r show ?case by (auto simp: ancestor_rows_def)
qed (simp add: ancestor_rows_def)

lemma subtree_iff: "d \<in> set (subtree x t) \<longleftrightarrow> (x, d) \<in> dom (map_of t)"
  unfolding subtree_def dom_map_of_conv_image_fst by force

lemma supertree_iff: "a \<in> set (supertree y t) \<longleftrightarrow> (a, y) \<in> dom (map_of t)"
  unfolding supertree_def dom_map_of_conv_image_fst by force

lemma map_of_cross_rows:
  assumes "distinct (map fst t)"
  shows "map_of (cross_rows x y t) (a, d) =
    (case map_of t (a, y) of None \<Rightarrow> None
     | Some n \<Rightarrow> (case map_of t (x, d) of None \<Rightarrow> None | Some m \<Rightarrow> Some (n + m + 1)))"
proof -
  define S where "S = filter (\<lambda>((x', d), m). x' = x) t"
  have row: "map_of (map (\<lambda>((x, d), m). ((b, d), n + m + 1)) (filter (\<lambda>((x', d), m). x' = x) ts)) (a, d) =
      (if b = a then map_option (\<lambda>m. n + m + 1) (map_of ts (x, d)) else None)"
    if "distinct (map fst ts)" for b n ts
    using that
  proof (induction ts)
    case (Cons r ts)
    obtain x' d' m where r: "r = ((x', d'), m)" by (metis prod.exhaust)
    have "map_of ts (x', d') = None" using Cons.prems r by (simp add: map_of_eq_None_iff)
    with Cons r show ?case by auto
  qed simp
  have "map_of (concat (map (\<lambda>((a, p), n). map (\<lambda>((x, d), m). ((a, d), n + m + 1)) S)
          (filter (\<lambda>((a, p), n). p = y) ts))) (a, d) =
      (case map_of ts (a, y) of None \<Rightarrow> None
       | Some n \<Rightarrow> map_option (\<lambda>m. n + m + 1) (map_of t (x, d)))"
    if "distinct (map fst ts)" for ts
    using that
  proof (induction ts)
    case (Cons r ts)
    obtain b y' n where r: "r = ((b, y'), n)" by (metis prod.exhaust)
    have "map_of ts (b, y') = None" using Cons.prems r by (simp add: map_of_eq_None_iff)
    with Cons r show ?case
      using row [OF assms, of b n] unfolding S_def [symmetric]
      by (auto simp: map_add_def split: option.splits)
  qed simp
  from this [OF assms] show ?thesis
    unfolding cross_rows_def S_def by (auto split: option.splits)
qed

lemma distinct_cross_rows:
  assumes "distinct (map fst t)"
  shows "distinct (map fst (cross_rows x y t))"
proof -
  define S where "S = filter (\<lambda>((x', d), m). x' = x) t"
  have S: "distinct (map (\<lambda>((x', d), m). d) S)"
    using assms unfolding S_def by (induction t) force+
  have keys: "map fst (map (\<lambda>((x, d), m). ((b, d), n + m + 1)) S) = map (Pair b) (map (\<lambda>((x', d), m). d) S)" for b and n :: nat
    by auto
  have inner: "distinct (map fst (map (\<lambda>((x, d), m). ((b, d), n + m + 1)) S))" for b and n :: nat
    unfolding keys using S by (simp add: distinct_map inj_on_def)
  have "distinct (map fst (concat (map (\<lambda>((a, p), n). map (\<lambda>((x, d), m). ((a, d), n + m + 1)) S)
          (filter (\<lambda>((a, p), n). p = y) ts))))" if "distinct (map fst ts)" for ts
    using that
  proof (induction ts)
    case (Cons r ts)
    obtain b y' n where r: "r = ((b, y'), n)" by (metis prod.exhaust)
    show ?case
    proof (cases "y' = y")
      case True
      have "b \<notin> (\<lambda>((a, p), n). a) ` {q \<in> set ts. snd (fst q) = y}"
        using Cons.prems r True by force
      with Cons r True inner [of b n] show ?thesis by (auto simp: distinct_append) force
    qed (use Cons r in auto)
  qed simp
  from this [OF assms] show ?thesis unfolding cross_rows_def S_def .
qed

end
