(* ===== verification/World.thy ===== *)
theory World
  imports Complex_Main Prelude Expired_Map Closure_Table
begin

text \<open>
  The data of the service (\<open>protos/models.go\<close>, \<open>protos/request.go\<close>), its error values
  (\<open>common/errors.go\<close>, \<open>sms/sms.go\<close>), the tables that \<open>dao/init.go\<close> creates, and the one
  state record that the rest of the development passes along: the database, the in-process caches,
  the policy engine and the clock.

  A database statement can fail for reasons outside the program (connection, server). The state
  carries a list of such faults, one per statement to come: \<open>True\<close> makes the next statement
  return an error and change nothing, and past the end of the list nothing fails. A theorem for
  every state therefore covers every pattern of failures.
\<close>

section \<open>Errors\<close>

datatype gerr =
    ErrOK | ErrNull | ErrParam | ErrService | ErrPgDupKey
  | ErrSession | ErrNoLogin | ErrNoAuth
  | ErrLogin | ErrPWD | ErrDisable | ErrUserNmae | ErrPWDNil | ErrPhoneDup | ErrEmailDup
  | ErrNickDup | ErrWxOpenidDup | ErrModify | ErrUserNotFound
  | ErrTenantNotFound | ErrTenantNameNull | ErrTenantTypeNull | ErrTenantLimit | ErrTenantAddERR
  | ErrTenantAdminCellphoneNull | ErrTenantAdminPasswordNull | ErrTenantNameDup
  | ErrTenantSetParent | ErrTenantCircularRef | ErrTenantRoot | ErrTenantSame
  | ErrOrgNotFound | ErrOrgRequired | ErrOrgNameDup | ErrWxService
  | ErrSmsDriver | ErrSmsNotInit | ErrSmsExist | ErrSmsCheckErr
  | DbError                    \<comment> \<open>an error of the driver or the server\<close>
  | PgUnique string            \<comment> \<open>\<open>*pgconn.PgError\<close> with code 23505 and its constraint name\<close>
  | WrapErr gerr               \<comment> \<open>\<open>fmt.Errorf("...: %w", err)\<close>\<close>
  | CircularReferenceError u64 u64
  | OtherErr string            \<comment> \<open>\<open>fmt.Errorf\<close> / \<open>errors.New\<close> with a text\<close>

text \<open>\<open>errors.As(err, &pe)\<close> for \<open>*pgconn.PgError\<close>: it looks through wrapped errors.\<close>

fun as_pg_unique :: "gerr \<Rightarrow> string option" where
  "as_pg_unique (PgUnique c) = Some c"
| "as_pg_unique (WrapErr e) = as_pg_unique e"
| "as_pg_unique e = None"

fun is_substring :: "string \<Rightarrow> string \<Rightarrow> bool" where
  "is_substring p [] = (p = [])"
| "is_substring p (c # cs) = (HasPrefix (c # cs) p \<or> is_substring p cs)"

definition MapPostgresTenantInsertError :: "gerr \<Rightarrow> gerr" where
  "MapPostgresTenantInsertError err = (case as_pg_unique err of
       Some c \<Rightarrow> if is_substring ''tenant_name'' (ToLower c) then ErrTenantNameDup else ErrPgDupKey
     | None \<Rightarrow> ErrService)"

definition MapPostgresOrgInsertError :: "gerr \<Rightarrow> gerr" where
  "MapPostgresOrgInsertError err = (case as_pg_unique err of Some c \<Rightarrow> ErrOrgNameDup | None \<Rightarrow> ErrService)"

section \<open>Dynamic values\<close>

text \<open>
  \<open>interface{}\<close> values as they occur in \<open>MapStruct\<close>. A value written to a JSON column comes back
  with the types of \<open>encoding/json\<close>: numbers as \<open>float64\<close>, arrays as \<open>[]interface{}\<close>.
  A \<open>float64\<close> is the rational number it denotes; converting an integer rounds to 53 bits, to
  nearest, ties to even.
\<close>

datatype gval =
    GNil | GBool bool | GInt8 int | GInt int | GInt64 int | GU64 u64 | GFloat rat | GStr string
  | GU64s "u64 list" | GFloats "rat list" | GList "gval list" | GMap "(string \<times> gval) list"

type_synonym MapStruct = "(string \<times> gval) list"

fun bit_len :: "nat \<Rightarrow> nat" where
  "bit_len n = (if n = 0 then 0 else Suc (bit_len (n div 2)))"

declare bit_len.simps [simp del]

definition float64_of_nat :: "nat \<Rightarrow> rat" where
  "float64_of_nat n =
     (if n \<le> 2 ^ 53 then of_nat n
      else let s = 2 ^ (bit_len n - 53); q = n div s; r = n mod s;
               q' = (if 2 * r < s \<or> (2 * r = s \<and> even q) then q else q + 1)
           in of_nat (q' * s))"

fun json_roundtrip :: "gval \<Rightarrow> gval" where
  "json_roundtrip (GInt8 i) = GFloat (of_int i)"
| "json_roundtrip (GInt i) = GFloat (if i < 0 then - float64_of_nat (nat (- i)) else float64_of_nat (nat i))"
| "json_roundtrip (GInt64 i) = GFloat (if i < 0 then - float64_of_nat (nat (- i)) else float64_of_nat (nat i))"
| "json_roundtrip (GU64 n) = GFloat (float64_of_nat (unat n))"
| "json_roundtrip (GU64s ns) = GList (map (\<lambda>n. GFloat (float64_of_nat (unat n))) ns)"
| "json_roundtrip (GFloats xs) = GList (map GFloat xs)"
| "json_roundtrip (GList xs) = GList (map json_roundtrip xs)"
| "json_roundtrip (GMap m) = GMap (map (\<lambda>(k, v). (k, json_roundtrip v)) m)"
| "json_roundtrip v = v"

text \<open>\<open>MapStruct.Value\<close> on the way in, \<open>MapStruct.Scan\<close> on the way out.\<close>

definition stored_map :: "MapStruct \<Rightarrow> MapStruct" where
  "stored_map m = map (\<lambda>(k, v). (k, json_roundtrip v)) m"

definition gget :: "MapStruct \<Rightarrow> string \<Rightarrow> gval" where
  "gget m k = (case map_of m k of None \<Rightarrow> GNil | Some v \<Rightarrow> v)"

lemma map_of_stored_map: "map_of (stored_map m) k = map_option json_roundtrip (map_of m k)"
  by (induction m) (auto simp: stored_map_def)

lemma gget_stored_map: "gget (stored_map m) k = json_roundtrip (gget m k)"
  by (simp add: gget_def map_of_stored_map split: option.splits)

section \<open>Rows\<close>

definition RealUserMinUID :: u64 where
  "RealUserMinUID = 10000"

definition IsRealUserUID :: "u64 \<Rightarrow> bool" where
  "IsRealUserUID uid \<longleftrightarrow> RealUserMinUID \<le> uid"

text \<open>\<open>UserDisableStatus\<close> is an \<open>int8\<close> with two named values.\<close>

definition UserEnabled :: int where
  "UserEnabled = 1"

definition UserDisabled :: int where
  "UserDisabled = 2"

definition IsValid :: "int \<Rightarrow> bool" where
  "IsValid s \<longleftrightarrow> s = UserEnabled \<or> s = UserDisabled"

record RoleStruct =
  RoleTitle :: string
  RoleValue :: string
  RoleUID :: u64

record TenantConfiguration =
  Roles :: "RoleStruct list"
  More :: MapStruct

record Tenant =
  t_ID :: u64
  t_UID :: u64
  t_ParentID :: u64
  t_TenantName :: string
  t_TenantType :: string
  t_CreateTime :: int
  t_UpdateTime :: int
  t_Info :: MapStruct
  t_Configuration :: "TenantConfiguration option"
  t_Depth :: int

record Organization =
  o_ID :: u64
  o_TenantID :: u64
  o_Name :: string
  o_CreateTime :: int
  o_UpdateTime :: int

record OrgMember =
  m_OrgID :: u64
  m_UID :: u64
  m_TenantID :: u64
  m_CreateTime :: int

record Department =
  d_Id :: u64
  d_ParentID :: u64
  d_UserId :: u64
  d_TenantID :: u64
  d_OrgID :: u64
  d_CreateTime :: int
  d_UpdateTime :: int
  d_Name :: string
  d_Config :: MapStruct

record PermissionStruct =
  p_ID :: u64
  p_TenantID :: u64
  p_Domain :: string
  p_Title :: string
  p_Value :: string
  p_CreateTime :: int
  p_UpdateTime :: int

text \<open>
  \<open>protos.User\<close>: the row of \<open>users\<close> (a NULL column is \<open>None\<close>) and the fields that are filled in
  afterwards. \<open>Province\<close>, \<open>City\<close> and \<open>DeleteTime\<close> are left out: no query selects and no statement writes them.
\<close>

record User =
  u_UID :: u64
  u_TenantID :: u64
  u_Password :: string
  u_Cellphone :: "string option"
  u_Email :: "string option"
  u_Nickname :: "string option"
  u_AvatarURL :: "string option"
  u_Addr :: "string option"
  u_Gender :: "int option"
  u_WxOpenId :: "string option"
  u_Ext :: MapStruct
  u_CreateTime :: int
  u_UpdateTime :: int
  u_LoginTime :: "int option"
  u_Tenant :: "Tenant option"
  u_Roles :: "RoleStruct list"
  u_Departments :: "Department list"
  u_CacheTime :: int

record UserReq =
  r_UID :: u64
  r_TenantID :: u64
  r_Cellphone :: string
  r_Email :: string
  r_Nickname :: string
  r_Password :: string
  r_AvatarURL :: string
  r_Addr :: string
  r_Gender :: int
  r_SmsCode :: string
  r_WxOpenId :: string
  r_Roles :: "string list"
  r_DepIds :: "u64 list"
  r_Ext :: MapStruct
  r_Disable :: int
  r_PageNo :: u64
  r_PageSize :: u64

definition empty_UserReq :: UserReq where
  "empty_UserReq = \<lparr>r_UID = 0, r_TenantID = 0, r_Cellphone = [], r_Email = [], r_Nickname = [],
     r_Password = [], r_AvatarURL = [], r_Addr = [], r_Gender = 0, r_SmsCode = [], r_WxOpenId = [],
     r_Roles = [], r_DepIds = [], r_Ext = [], r_Disable = 0, r_PageNo = 0, r_PageSize = 0\<rparr>"

definition SetExt :: "string \<Rightarrow> gval \<Rightarrow> User \<Rightarrow> User" where
  "SetExt k v u = u\<lparr>u_Ext := AList.update k v (u_Ext u)\<rparr>"

section \<open>Tables and the state\<close>

record db =
  users :: "User list"
  tenants :: "Tenant list"
  tenant_closure :: closure
  user_closure :: closure
  departments :: "Department list"
  permissions :: "PermissionStruct list"
  organizations :: "Organization list"
  org_members :: "OrgMember list"

text \<open>Identifier sequences: the last value handed out. They are not rolled back.\<close>

record seqs =
  users_uid_seq :: u64
  tenants_id_seq :: u64
  departments_id_seq :: u64
  permission_id_seq :: u64
  organizations_id_seq :: u64

datatype cache_val = CTenant Tenant | COrg Organization | CBool bool

text \<open>
  \<open>'c\<close> is the state of the policy engine; \<open>w_root\<close> is \<open>common.ServConfig.RootTenantID\<close>;
  \<open>w_sms\<close> says whether \<open>sms.Init\<close> installed a driver and \<open>w_codes\<close> is the cache of sent codes.
\<close>

record 'c world =
  w_db :: db
  w_seqs :: seqs
  w_faults :: "bool list"
  w_now :: int
  w_root :: u64
  w_cache :: "cache_val expired_map"
  w_depcache :: "Department expired_map"
  w_casbin :: 'c
  w_sms :: bool
  w_codes :: "string expired_map"

section \<open>Database statements\<close>

type_synonym ('c, 'a) dao = "('c world, gerr, 'a) prog"

text \<open>One statement: it may fail from outside, otherwise it runs.\<close>

definition db_fails :: "'c world \<Rightarrow> bool" where
  "db_fails w \<longleftrightarrow> w_faults w \<noteq> [] \<and> hd (w_faults w)"

definition db_tick :: "'c world \<Rightarrow> 'c world" where
  "db_tick w = w\<lparr>w_faults := tl (w_faults w)\<rparr>"

definition db_stmt :: "('c, 'a) dao \<Rightarrow> ('c, 'a) dao" where
  "db_stmt f = (\<lambda>w. if db_fails w then (Err DbError, db_tick w) else f (db_tick w))"

definition db_query :: "(db \<Rightarrow> 'a) \<Rightarrow> ('c, 'a) dao" where
  "db_query q = db_stmt (\<lambda>w. (Ret (q (w_db w)), w))"

text \<open>A writing statement that returns a result (rows affected) and cannot violate a constraint.\<close>

definition db_exec :: "(db \<Rightarrow> 'a \<times> db) \<Rightarrow> ('c, 'a) dao" where
  "db_exec f = db_stmt (\<lambda>w. (Ret (fst (f (w_db w))), w\<lparr>w_db := snd (f (w_db w))\<rparr>))"

text \<open>
  A transaction: the body runs; on an error the tables are put back as they were
  (\<open>Rollback\<close>), otherwise \<open>Commit\<close> is one more statement, which leaves the old tables when it
  fails. \<open>run_tx\<close> answers with the body's result and whether the commit succeeded.
\<close>

definition run_tx :: "('c, 'a) dao \<Rightarrow> ('c, 'a \<times> bool) dao" where
  "run_tx m = (\<lambda>w. case m w of
       (Ret x, w') \<Rightarrow> if db_fails w' then (Ret (x, False), (db_tick w')\<lparr>w_db := w_db w\<rparr>)
                     else (Ret (x, True), db_tick w')
     | (Err e, w') \<Rightarrow> (Err e, w'\<lparr>w_db := w_db w\<rparr>)
     | (Panic, w') \<Rightarrow> (Panic, w'\<lparr>w_db := w_db w\<rparr>))"

lemma db_tick_simps [simp]:
  "w_db (db_tick w) = w_db w" "w_seqs (db_tick w) = w_seqs w" "w_now (db_tick w) = w_now w"
  "w_cache (db_tick w) = w_cache w" "w_depcache (db_tick w) = w_depcache w"
  "w_casbin (db_tick w) = w_casbin w" "w_root (db_tick w) = w_root w" "w_sms (db_tick w) = w_sms w"
  "w_codes (db_tick w) = w_codes w"
  "w_faults (db_tick w) = tl (w_faults w)"
  by (simp_all add: db_tick_def)

lemma db_fails_Nil [simp]: "w_faults w = [] \<Longrightarrow> \<not> db_fails w"
  by (simp add: db_fails_def)

lemma db_query_eq:
  "db_query q w = (if db_fails w then Err DbError else Ret (q (w_db w)), db_tick w)"
  by (simp add: db_query_def db_stmt_def)

lemma db_exec_eq:
  "db_exec f w = (if db_fails w then (Err DbError, db_tick w)
     else (Ret (fst (f (w_db w))), (db_tick w)\<lparr>w_db := snd (f (w_db w))\<rparr>))"
  by (simp add: db_exec_def db_stmt_def)

lemma preserves_db_query [pres_intros]:
  "(\<And>w. I w \<Longrightarrow> I (db_tick w)) \<Longrightarrow> preserves I (db_query q)"
  by (simp add: preserves_def db_query_eq)

lemma preserves_db_exec:
  "(\<And>w. I w \<Longrightarrow> I (db_tick w)) \<Longrightarrow>
   (\<And>w. I w \<Longrightarrow> I (w\<lparr>w_db := snd (f (w_db w))\<rparr>)) \<Longrightarrow> preserves I (db_exec f)"
  by (auto simp: preserves_def db_exec_eq) (metis db_tick_simps(1))

lemma wp_db_query [wp_simps]:
  "wp (db_query q) Q E w = (if db_fails w then E DbError (db_tick w) else Q (q (w_db w)) (db_tick w))"
  by (simp add: wp_def db_query_eq)

lemma wp_db_exec [wp_simps]:
  "wp (db_exec f) Q E w = (if db_fails w then E DbError (db_tick w)
     else Q (fst (f (w_db w))) ((db_tick w)\<lparr>w_db := snd (f (w_db w))\<rparr>))"
  by (simp add: wp_def db_exec_eq)

lemma wp_db_stmt [wp_simps]:
  "wp (db_stmt f) Q E w = (if db_fails w then E DbError (db_tick w) else wp f Q E (db_tick w))"
  by (simp add: wp_def db_stmt_def)

lemma wp_run_tx [wp_simps]:
  "wp (run_tx m) Q E w = wp m
     (\<lambda>x w'. if db_fails w' then Q (x, False) ((db_tick w')\<lparr>w_db := w_db w\<rparr>) else Q (x, True) (db_tick w'))
     (\<lambda>e w'. E e (w'\<lparr>w_db := w_db w\<rparr>)) w"
  by (simp add: wp_def run_tx_def split: prod.splits res.splits)

text \<open>\<open>if err != nil { return fmt.Errorf("...: %w", err) }\<close>\<close>

definition tryWrap :: "('w, gerr, 'a) prog \<Rightarrow> ('a \<Rightarrow> ('w, gerr, 'b) prog) \<Rightarrow> ('w, gerr, 'b) prog" where
  [go_defs]: "tryWrap m k = handle m (\<lambda>e. throw (WrapErr e)) k"

lemma wp_tryWrap [wp_simps]:
  "wp (tryWrap m k) Q E = wp m (\<lambda>x. wp (k x) Q E) (\<lambda>e. E (WrapErr e))"
  by (simp add: tryWrap_def wp_simps)

lemma preserves_tryWrap [pres_intros]:
  "preserves I m \<Longrightarrow> (\<And>x. preserves I (k x)) \<Longrightarrow> preserves I (tryWrap m k)"
  by (auto simp: tryWrap_def intro!: preserves_handle preserves_throw)

text \<open>Paging: \<open>OFFSET\<close>/\<open>LIMIT\<close> with the 64-bit arithmetic of \<open>(page - 1) * pageSize\<close>.\<close>

definition page_offset :: "u64 \<Rightarrow> u64 \<Rightarrow> u64" where
  "page_offset page pageSize = (page - 1) * pageSize"

definition page_of :: "u64 \<Rightarrow> u64 \<Rightarrow> 'a list \<Rightarrow> 'a list" where
  "page_of page pageSize xs = take (unat pageSize) (drop (unat (page_offset page pageSize)) xs)"

lemma page_of_subset: "set (page_of page pageSize xs) \<subseteq> set xs"
  by (auto simp: page_of_def dest!: in_set_takeD in_set_dropD)

end
