(* ===== verification/Mem_Cache.thy ===== *)
theory Mem_Cache
  imports World
begin

text \<open>
  \<open>cache/cache.go\<close>: the typed views of the one process-wide \<open>ExpiredMap\<close> (tenants, organizations,
  memberships). The map stores \<open>interface{}\<close>, and every reader asserts the type it expects, so a
  key of one view that collided with a key of another would make a reader panic. The three key formats
  are shown to be disjoint and injective, and the views to be independent maps.
\<close>

type_synonym mem_cache = "cache_val expired_map"

section \<open>Operations\<close>

definition tenantCacheKey :: "u64 \<Rightarrow> string" where
  "tenantCacheKey i = ''tenant-'' @ show_u64 i"

definition orgCacheKey :: "u64 \<Rightarrow> string" where
  "orgCacheKey i = ''org-'' @ show_u64 i"

definition orgMemberCacheKey :: "u64 \<Rightarrow> u64 \<Rightarrow> string" where
  "orgMemberCacheKey orgID uid = ''org-member-'' @ show_u64 orgID @ ''-'' @ show_u64 uid"

definition SetTenantCache :: "Tenant \<Rightarrow> int \<Rightarrow> mem_cache \<Rightarrow> mem_cache" where
  "SetTenantCache m now e = Set (tenantCacheKey (t_ID m)) (CTenant m) 3600 now e"

definition GetTenantCache :: "u64 \<Rightarrow> int \<Rightarrow> mem_cache \<Rightarrow> (gerr, Tenant option) res \<times> mem_cache" where
  "GetTenantCache i now e = (case Get (tenantCacheKey i) now e of
       (Some (CTenant t), e') \<Rightarrow> (Ret (Some t), e')
     | (Some _, e') \<Rightarrow> (Panic, e')
     | (None, e') \<Rightarrow> (Ret None, e'))"

definition DelTenantCache :: "u64 \<Rightarrow> mem_cache \<Rightarrow> mem_cache" where
  "DelTenantCache i e = Delete (tenantCacheKey i) e"

definition SetOrgCache :: "Organization option \<Rightarrow> int \<Rightarrow> mem_cache \<Rightarrow> mem_cache" where
  "SetOrgCache m now e = (case m of
       None \<Rightarrow> e
     | Some org \<Rightarrow> if o_ID org = 0 then e else Set (orgCacheKey (o_ID org)) (COrg org) 3600 now e)"

definition GetOrgCache :: "u64 \<Rightarrow> int \<Rightarrow> mem_cache \<Rightarrow> (gerr, Organization option) res \<times> mem_cache" where
  "GetOrgCache i now e = (case Get (orgCacheKey i) now e of
       (Some (COrg org), e') \<Rightarrow> (Ret (Some org), e')
     | (Some _, e') \<Rightarrow> (Panic, e')
     | (None, e') \<Rightarrow> (Ret None, e'))"

definition DelOrgCache :: "u64 \<Rightarrow> mem_cache \<Rightarrow> mem_cache" where
  "DelOrgCache i e = Delete (orgCacheKey i) e"

definition SetOrgMemberCache :: "u64 \<Rightarrow> u64 \<Rightarrow> bool \<Rightarrow> int \<Rightarrow> mem_cache \<Rightarrow> mem_cache" where
  "SetOrgMemberCache orgID uid isIn now e =
     (if orgID = 0 \<or> uid = 0 \<or> \<not> isIn then e
      else Set (orgMemberCacheKey orgID uid) (CBool True) 300 now e)"

text \<open>\<open>(in, hit)\<close>\<close>

definition GetOrgMemberCache :: "u64 \<Rightarrow> u64 \<Rightarrow> int \<Rightarrow> mem_cache \<Rightarrow> (gerr, bool \<times> bool) res \<times> mem_cache" where
  "GetOrgMemberCache orgID uid now e = (case Get (orgMemberCacheKey orgID uid) now e of
       (Some (CBool b), e') \<Rightarrow> (Ret (b, True), e')
     | (Some _, e') \<Rightarrow> (Panic, e')
     | (None, e') \<Rightarrow> (Ret (False, False), e'))"

definition DelOrgMemberCache :: "u64 \<Rightarrow> u64 \<Rightarrow> mem_cache \<Rightarrow> mem_cache" where
  "DelOrgMemberCache orgID uid e = Delete (orgMemberCacheKey orgID uid) e"

text \<open>The operations as statements on the whole state.\<close>

definition cache_read :: "(int \<Rightarrow> mem_cache \<Rightarrow> (gerr, 'a) res \<times> mem_cache) \<Rightarrow> ('c, 'a) dao" where
  "cache_read f = (\<lambda>w. case f (w_now w) (w_cache w) of (r, e) \<Rightarrow> (r, w\<lparr>w_cache := e\<rparr>))"

definition cache_set :: "(int \<Rightarrow> mem_cache \<Rightarrow> mem_cache) \<Rightarrow> 'c world \<Rightarrow> 'c world" where
  "cache_set f w = w\<lparr>w_cache := f (w_now w) (w_cache w)\<rparr>"

definition cache_del :: "(mem_cache \<Rightarrow> mem_cache) \<Rightarrow> 'c world \<Rightarrow> 'c world" where
  "cache_del f w = w\<lparr>w_cache := f (w_cache w)\<rparr>"

section \<open>Keys\<close>

lemma digits_dash_inject:
  assumes "list_all is_digit a" and "list_all is_digit b" and "a @ ''-'' @ x = b @ ''-'' @ y"
  shows "a = b \<and> x = y"
proof -
  have dash: "\<not> is_digit (CHR ''-'')" by (simp add: is_digit_def)
  have "takeWhile is_digit (s @ ''-'' @ z) = s" if "list_all is_digit s" for s z
    using that dash by (induction s) auto
  with assms have "a = b" by metis
  with assms(3) show ?thesis by simp
qed

lemma tenantCacheKey_inject [simp]: "tenantCacheKey a = tenantCacheKey b \<longleftrightarrow> a = b"
  by (simp add: tenantCacheKey_def)

lemma orgCacheKey_inject [simp]: "orgCacheKey a = orgCacheKey b \<longleftrightarrow> a = b"
  by (simp add: orgCacheKey_def)

lemma orgMemberCacheKey_inject [simp]:
  "orgMemberCacheKey a b = orgMemberCacheKey c d \<longleftrightarrow> a = c \<and> b = d"
  using digits_dash_inject [OF show_u64_digits show_u64_digits, of a "show_u64 b" c "show_u64 d"]
  by (auto simp: orgMemberCacheKey_def)

lemma key_classes [simp]:
  "tenantCacheKey a \<noteq> orgCacheKey b" "orgCacheKey b \<noteq> tenantCacheKey a"
  "tenantCacheKey a \<noteq> orgMemberCacheKey c d" "orgMemberCacheKey c d \<noteq> tenantCacheKey a"
  by (simp_all add: tenantCacheKey_def orgCacheKey_def orgMemberCacheKey_def)

lemma org_key_classes [simp]:
  "orgCacheKey b \<noteq> orgMemberCacheKey c d" "orgMemberCacheKey c d \<noteq> orgCacheKey b"
proof -
  have "hd (show_u64 b) \<noteq> CHR ''m''" and "show_u64 b \<noteq> []"
    using show_u64_digits [of b] by (cases "show_u64 b"; auto simp: is_digit_def show_u64_def)+
  then show "orgCacheKey b \<noteq> orgMemberCacheKey c d" by (auto simp: orgCacheKey_def orgMemberCacheKey_def)
  then show "orgMemberCacheKey c d \<noteq> orgCacheKey b" by metis
qed

section \<open>A typed view of the map\<close>

text \<open>
  What the three views share: an injective key format, an injective embedding of the values, and a
  positive life time. A view then behaves as a map of its own.
\<close>

locale typed_view =
  fixes key :: "'k \<Rightarrow> string"
    and inj :: "'v \<Rightarrow> cache_val"
    and ttl :: int
  assumes key_inject: "key a = key b \<longleftrightarrow> a = b"
    and inj_inject: "inj x = inj y \<longleftrightarrow> x = y"
    and ttl_pos: "0 < ttl"
begin

definition view :: "int \<Rightarrow> mem_cache \<Rightarrow> 'k \<Rightarrow> 'v \<Rightarrow> bool" where
  "view now e k v \<longleftrightarrow> live now e (key k) = Some (inj v)"

lemma view_functional: "view now e k v \<Longrightarrow> view now e k v' \<Longrightarrow> v = v'"
  by (simp add: view_def inj_inject)

lemma view_set:
  "0 \<le> now \<Longrightarrow> view now (Set (key k) (inj v) ttl now e) k' v' \<longleftrightarrow>
     (if k' = k then v' = v else view now e k' v')"
  using ttl_pos by (auto simp: view_def em.set_live key_inject inj_inject)

lemma view_del: "view now (Delete (key k) e) k' v \<longleftrightarrow> k' \<noteq> k \<and> view now e k' v"
  by (auto simp: view_def em.del_live key_inject)

lemma view_set_other: "0 \<le> now \<Longrightarrow> 0 < t \<Longrightarrow> \<forall>k. key k \<noteq> s \<Longrightarrow> view now (Set s c t now e) k v \<longleftrightarrow> view now e k v"
  by (auto simp: view_def em.set_live)

lemma view_get: "view now (snd (Get s now e)) k v \<longleftrightarrow> view now e k v"
  by (simp add: view_def em.get_live)

lemma view_later: "view later e k v \<Longrightarrow> now \<le> later \<Longrightarrow> view now e k v"
  unfolding view_def using em.later by metis

end

interpretation tv: typed_view tenantCacheKey CTenant 3600
  by unfold_locales auto

interpretation ov: typed_view orgCacheKey COrg 3600
  by unfold_locales auto

interpretation mv: typed_view "\<lambda>(orgID, uid). orgMemberCacheKey orgID uid" CBool 300
  by unfold_locales auto

section \<open>Reachable caches\<close>

inductive cache_step :: "mem_cache \<Rightarrow> mem_cache \<Rightarrow> bool" where
  step_SetTenant: "cache_step e (SetTenantCache m now e)"
| step_GetTenant: "cache_step e (snd (GetTenantCache i now e))"
| step_DelTenant: "cache_step e (DelTenantCache i e)"
| step_SetOrg: "cache_step e (SetOrgCache mo now e)"
| step_GetOrg: "cache_step e (snd (GetOrgCache i now e))"
| step_DelOrg: "cache_step e (DelOrgCache i e)"
| step_SetOrgMember: "cache_step e (SetOrgMemberCache i u isIn now e)"
| step_GetOrgMember: "cache_step e (snd (GetOrgMemberCache i u now e))"
| step_DelOrgMember: "cache_step e (DelOrgMemberCache i u e)"

inductive_cases cache_stepE: "cache_step e e'"

text \<open>Every entry has the type its key calls for, and is stored under its own identifier.\<close>

definition entry_ok :: "string \<Rightarrow> cache_val \<Rightarrow> bool" where
  "entry_ok k c \<longleftrightarrow> (case c of
       CTenant t \<Rightarrow> k = tenantCacheKey (t_ID t)
     | COrg org \<Rightarrow> k = orgCacheKey (o_ID org) \<and> o_ID org \<noteq> 0
     | CBool b \<Rightarrow> b \<and> (\<exists>i u. k = orgMemberCacheKey i u \<and> i \<noteq> 0 \<and> u \<noteq> 0))"

lemma entry_ok_key [simp]:
  "entry_ok (tenantCacheKey i) c \<longleftrightarrow> (\<exists>t. c = CTenant t \<and> t_ID t = i)"
  "entry_ok (orgCacheKey i) c \<longleftrightarrow> (\<exists>org. c = COrg org \<and> o_ID org = i \<and> i \<noteq> 0)"
  "entry_ok (orgMemberCacheKey i u) c \<longleftrightarrow> c = CBool True \<and> i \<noteq> 0 \<and> u \<noteq> 0"
  by (auto simp: entry_ok_def split: cache_val.splits)

definition cache_typed :: "mem_cache \<Rightarrow> bool" where
  "cache_typed e \<longleftrightarrow> (\<forall>k d. map_of e k = Some d \<longrightarrow> entry_ok k (val d))"

lemma cache_typed_Set: "cache_typed e \<Longrightarrow> entry_ok k c \<Longrightarrow> cache_typed (Set k c ttl now e)"
  by (auto simp: cache_typed_def Set_def Let_def split: if_splits)

lemma cache_typed_Delete: "cache_typed e \<Longrightarrow> cache_typed (Delete k e)"
  by (auto simp: cache_typed_def Delete_def split: if_splits)

lemma cache_typed_Get: "cache_typed e \<Longrightarrow> cache_typed (snd (Get k now e))"
  by (auto simp: Get_def cache_typed_Delete split: option.splits)

lemma Get_typed: "cache_typed e \<Longrightarrow> fst (Get k now e) = Some c \<Longrightarrow> entry_ok k c"
  by (auto simp: Get_def cache_typed_def split: option.splits if_splits)

lemma snd_GetTenantCache: "snd (GetTenantCache i now e) = snd (Get (tenantCacheKey i) now e)"
  by (auto simp: GetTenantCache_def split: prod.splits option.splits cache_val.splits)

lemma snd_GetOrgCache: "snd (GetOrgCache i now e) = snd (Get (orgCacheKey i) now e)"
  by (auto simp: GetOrgCache_def split: prod.splits option.splits cache_val.splits)

lemma snd_GetOrgMemberCache: "snd (GetOrgMemberCache i u now e) = snd (Get (orgMemberCacheKey i u) now e)"
  by (auto simp: GetOrgMemberCache_def split: prod.splits option.splits cache_val.splits)

lemmas getter_states = snd_GetTenantCache snd_GetOrgCache snd_GetOrgMemberCache

lemma cache_step_typed: "cache_step e e' \<Longrightarrow> cache_typed e \<Longrightarrow> cache_typed e'"
  by (erule cache_stepE)
    (auto simp: SetTenantCache_def DelTenantCache_def SetOrgCache_def DelOrgCache_def SetOrgMemberCache_def
       DelOrgMemberCache_def getter_states cache_typed_Delete cache_typed_Get
       intro!: cache_typed_Set split: option.splits)

lemma cache_reach_typed: "cache_step\<^sup>*\<^sup>* NewExpiredMap e \<Longrightarrow> cache_typed e"
proof (induction rule: rtranclp_induct)
  case base
  show ?case by (simp add: cache_typed_def NewExpiredMap_def)
qed (rule cache_step_typed)

lemma live_typed: "cache_typed e \<Longrightarrow> live now e k = Some c \<Longrightarrow> entry_ok k c"
  using Get_typed [of e k now c] em.get_result [of k now e] by simp

lemma getter_results:
  assumes typed: "cache_typed e"
  shows "fst (GetTenantCache i now e) =
      Ret (case live now e (tenantCacheKey i) of Some (CTenant t) \<Rightarrow> Some t | _ \<Rightarrow> None)" (is ?t)
    and "fst (GetOrgCache i now e) =
      Ret (case live now e (orgCacheKey i) of Some (COrg org) \<Rightarrow> Some org | _ \<Rightarrow> None)" (is ?o)
    and "fst (GetOrgMemberCache i u now e) =
      Ret (let hit = live now e (orgMemberCacheKey i u) \<noteq> None in (hit, hit))" (is ?m)
proof -
  note ok = live_typed [OF typed, of now]
  show ?t using em.get_result [of "tenantCacheKey i" now e] ok [of "tenantCacheKey i"]
    by (cases "live now e (tenantCacheKey i)")
      (auto simp: GetTenantCache_def split: prod.splits option.splits cache_val.splits)
  show ?o using em.get_result [of "orgCacheKey i" now e] ok [of "orgCacheKey i"]
    by (cases "live now e (orgCacheKey i)")
      (auto simp: GetOrgCache_def split: prod.splits option.splits cache_val.splits)
  show ?m using em.get_result [of "orgMemberCacheKey i u" now e] ok [of "orgMemberCacheKey i u"]
    by (cases "live now e (orgMemberCacheKey i u)")
      (auto simp: GetOrgMemberCache_def split: prod.splits option.splits cache_val.splits)
qed

section \<open>Properties\<close>

text \<open>
  C29. In every cache the process can reach through \<open>cache.go\<close>, at every time, no type assertion of a
  reader fails: each reader returns, and what it returns is stored under the identifier asked for
  (a tenant, an organization with that ID; a membership hit is always \<open>true\<close>).
\<close>

theorem cache_reads_never_panic:
  assumes "cache_step\<^sup>*\<^sup>* NewExpiredMap e"
  shows "(\<exists>r. fst (GetTenantCache i now e) = Ret r \<and> (case r of None \<Rightarrow> True | Some t \<Rightarrow> t_ID t = i))
    \<and> (\<exists>r. fst (GetOrgCache i now e) = Ret r \<and> (case r of None \<Rightarrow> True | Some org \<Rightarrow> o_ID org = i \<and> i \<noteq> 0))
    \<and> (\<exists>hit. fst (GetOrgMemberCache i u now e) = Ret (hit, hit))"
proof -
  have typed: "cache_typed e" by (rule cache_reach_typed [OF assms])
  show ?thesis
    unfolding getter_results [OF typed] Let_def
    using live_typed [OF typed, of now "tenantCacheKey i"] live_typed [OF typed, of now "orgCacheKey i"]
    by (cases "live now e (tenantCacheKey i)"; cases "live now e (orgCacheKey i)") auto
qed

theorem cache_reads_never_panic_witness:
  "(\<exists>r. fst (GetOrgCache 7 10 (SetOrgMemberCache 7 7 True 5 (SetOrgCache (Some \<lparr>o_ID = 7, o_TenantID = 1,
      o_Name = ''hq'', o_CreateTime = 0, o_UpdateTime = 0\<rparr>) 5 NewExpiredMap))) = Ret r)"
proof -
  let ?e = "SetOrgCache (Some \<lparr>o_ID = 7, o_TenantID = 1, o_Name = ''hq'', o_CreateTime = 0, o_UpdateTime = 0\<rparr>) 5 NewExpiredMap"
  have "cache_step\<^sup>*\<^sup>* NewExpiredMap ?e" by (rule r_into_rtranclp) (rule step_SetOrg)
  then have "cache_step\<^sup>*\<^sup>* NewExpiredMap (SetOrgMemberCache 7 7 True 5 ?e)"
    by (rule rtranclp.rtrancl_into_rtrancl) (rule step_SetOrgMember)
  from cache_reads_never_panic [OF this, of 7 10] show ?thesis by blast
qed



end
