(* ===== verification/Closure_Move.thy ===== *)
theory Closure_Move
  imports Closure_Table
begin

text \<open>
  What the statements of the closure DAO do to the tree: inserting a tenant under a parent keeps the
  table exact, moving a subtree keeps the ancestor relation, the self rows and the parent rows
  right (the depths of the other rows may stay too small), deleting a leaf keeps everything.
\<close>

section \<open>Ancestors after a change of the parent function\<close>

lemma up_Suc_right: "up p (Suc n) d = Option.bind (up p n d) p"
proof -
  have "up p (Suc 0) = p" by (rule ext) (simp split: option.splits)
  then show ?thesis using up_add [of p n "Suc 0" d] by simp
qed

lemma up_None_mono: "up p n d = None \<Longrightarrow> n \<le> m \<Longrightarrow> up p m d = None"
  using up_add [of p n "m - n" d] by simp

text \<open>A node whose ancestor path avoids \<open>x\<close> sees no change.\<close>

lemma up_upd_outside:
  assumes "\<And>k. up p k d \<noteq> Some x"
  shows "up (p(x := q)) n d = up p n d"
proof (induction n)
  case (Suc n)
  have "up p n d \<noteq> Some x" by (rule assms)
  with Suc show ?case by (simp only: up_Suc_right) (cases "up p n d"; simp)
qed simp

lemma up_upd_below:
  assumes "forest N p" and "up p k d = Some x" and "n \<le> k"
  shows "up (p(x := q)) n d = up p n d"
  using assms(3)
proof (induction n)
  case (Suc n)
  have "up p n d \<noteq> Some x"
    using forest_up_unique [OF assms(1), of n d x k] assms(2) Suc.prems by auto
  with Suc show ?case by (simp only: up_Suc_right) (cases "up p n d"; simp)
qed simp

lemma up_upd_above:
  assumes "forest N p" and "up p k d = Some x"
  shows "up (p(x := q)) (k + n) d = up (p(x := q)) n x"
  using up_upd_below [OF assms, of k q] assms(2) by (simp add: up_add)

text \<open>The new path of the moved node, when the new parent is not below it.\<close>

lemma up_upd_self:
  assumes "\<not> is_anc p x y"
  shows "up (p(x \<mapsto> y)) (Suc n) x = up p n y"
  using assms up_upd_outside [of p y x "Some y" n] by (simp add: is_anc_def)

lemma is_anc_upd:
  assumes f: "forest N p" and ny: "\<not> is_anc p x y"
  shows "is_anc (p(x \<mapsto> y)) a d \<longleftrightarrow>
         (if is_anc p x d then (is_anc p a d \<and> is_anc p x a) \<or> is_anc p a y else is_anc p a d)"
proof (cases "is_anc p x d")
  case False
  then have "up (p(x \<mapsto> y)) n d = up p n d" for n
    by (intro up_upd_outside) (simp add: is_anc_def)
  with False show ?thesis by (simp add: is_anc_def)
next
  case True
  then obtain k where k: "up p k d = Some x" by (auto simp: is_anc_def)
  note below = up_upd_below [OF f k, of _ "Some y"]
  note above = up_upd_above [OF f k, of "Some y"]
  have "is_anc (p(x \<mapsto> y)) a d \<longleftrightarrow> (\<exists>n\<le>k. up p n d = Some a) \<or> is_anc p a y"
  proof
    assume "is_anc (p(x \<mapsto> y)) a d"
    then obtain n where n: "up (p(x \<mapsto> y)) n d = Some a" by (auto simp: is_anc_def)
    show "(\<exists>n\<le>k. up p n d = Some a) \<or> is_anc p a y"
    proof (cases "n \<le> k")
      case True
      with n below show ?thesis by auto
    next
      case False
      then obtain j where "n = k + Suc j" by (metis add_Suc_right less_iff_Suc_add not_le)
      with n have "up p j y = Some a" by (simp only: above up_upd_self [OF ny])
      then show ?thesis by (auto simp: is_anc_def)
    qed
  next
    assume "(\<exists>n\<le>k. up p n d = Some a) \<or> is_anc p a y"
    then show "is_anc (p(x \<mapsto> y)) a d"
    proof
      assume "\<exists>n\<le>k. up p n d = Some a"
      then show ?thesis using below unfolding is_anc_def by metis
    next
      assume "is_anc p a y"
      then obtain j where "up p j y = Some a" by (auto simp: is_anc_def)
      then have "up (p(x \<mapsto> y)) (k + Suc j) d = Some a"
        by (simp only: above up_upd_self [OF ny])
      then show ?thesis unfolding is_anc_def by blast
    qed
  qed
  moreover have "(\<exists>n\<le>k. up p n d = Some a) \<longleftrightarrow> is_anc p a d \<and> is_anc p x a"
  proof
    assume "\<exists>n\<le>k. up p n d = Some a"
    then obtain n where n: "n \<le> k" "up p n d = Some a" by blast
    then have "up p (k - n) a = Some x" using up_add [of p n "k - n" d] k by simp
    with n show "is_anc p a d \<and> is_anc p x a" by (auto simp: is_anc_def)
  next
    assume "is_anc p a d \<and> is_anc p x a"
    then obtain n j where "up p n d = Some a" "up p j a = Some x" by (auto simp: is_anc_def)
    moreover from this have "up p (n + j) d = Some x" by (simp add: up_add)
    then have "n + j = k" using forest_up_unique [OF f _ k] by blast
    ultimately show "\<exists>n\<le>k. up p n d = Some a" by (intro exI [of _ n]) simp
  qed
  ultimately show ?thesis using True by simp
qed

lemma forest_upd:
  assumes f: "forest N p" and "x \<in> N" "y \<in> N" and ny: "\<not> is_anc p x y"
  shows "forest N (p(x \<mapsto> y))"
proof -
  have "up (p(x \<mapsto> y)) (Suc n) d \<noteq> Some d" for n d
  proof
    assume loop: "up (p(x \<mapsto> y)) (Suc n) d = Some d"
    obtain z where z: "(p(x \<mapsto> y)) d = Some z" and bk: "up (p(x \<mapsto> y)) n z = Some d"
      using loop by (auto split: option.splits)
    then have anc: "is_anc (p(x \<mapsto> y)) d z" by (auto simp: is_anc_def)
    show False
    proof (cases "d = x")
      case True
      with z anc have "is_anc (p(x \<mapsto> y)) x y" by simp
      with ny show False by (simp add: is_anc_upd [OF f ny])
    next
      case False
      with z have pz: "p d = Some z" by simp
      then have zd: "is_anc p z d" unfolding is_anc_def by (intro exI [of _ 1]) simp
      have zd': "z \<noteq> d" using f pz unfolding forest_def
        by (metis up.simps option.simps(5) zero_less_one One_nat_def)
      show False
      proof (cases "is_anc p d z")
        case True
        with forest_antisym [OF f zd] zd' show False by blast
      next
        case False
        with anc have "is_anc p x z" "is_anc p d y"
          by (auto simp: is_anc_upd [OF f ny] split: if_splits)
        then have "is_anc p x d" using zd is_anc_trans by blast
        with \<open>is_anc p d y\<close> ny is_anc_trans show False by blast
      qed
    qed
  qed
  then have "\<forall>d n. 0 < n \<longrightarrow> up (p(x \<mapsto> y)) n d \<noteq> Some d"
    by (metis gr0_implies_Suc)
  with f assms(2,3) show ?thesis by (auto simp: forest_def ran_def split: if_splits)
qed

section \<open>Consequences of the invariant\<close>

lemma invD:
  assumes "closure_inv N p t"
  shows "forest N p" "distinct (map fst t)"
    "(a, d) \<in> dom (map_of t) \<longleftrightarrow> d \<in> N \<and> is_anc p a d"
    "map_of t (a, d) = Some 0 \<longleftrightarrow> d \<in> N \<and> a = d"
    "map_of t (a, d) = Some (Suc 0) \<longleftrightarrow> p d = Some a"
  using assms unfolding closure_inv_def by auto

lemma inv_none:
  "closure_inv N p t \<Longrightarrow> map_of t (a, d) = None \<longleftrightarrow> \<not> (d \<in> N \<and> is_anc p a d)"
  using invD(3) [of N p t a d] by (cases "map_of t (a, d)") auto

lemma inv_subtree: "closure_inv N p t \<Longrightarrow> d \<in> set (subtree x t) \<longleftrightarrow> d \<in> N \<and> is_anc p x d"
  by (simp add: subtree_iff invD(3))

lemma inv_supertree: "closure_inv N p t \<Longrightarrow> a \<in> set (supertree y t) \<longleftrightarrow> y \<in> N \<and> is_anc p a y"
  by (simp add: supertree_iff invD(3))

lemma parent_is_anc: "p d = Some a \<Longrightarrow> is_anc p a d"
  unfolding is_anc_def by (intro exI [of _ 1]) simp

lemma is_anc_parent:
  assumes "is_anc p x d" and "x \<noteq> d" and "p d = Some a"
  shows "is_anc p x a"
proof -
  obtain k where k: "up p k d = Some x" using assms(1) by (auto simp: is_anc_def)
  with assms(2) obtain j where "k = Suc j" by (cases k) auto
  with k assms(3) show ?thesis by (auto simp: is_anc_def)
qed

section \<open>Moving a subtree\<close>

definition move_rows :: "u64 \<Rightarrow> u64 \<Rightarrow> closure \<Rightarrow> closure" where
  "move_rows x y t = del_old_parent x y (del_subtree x y t)"

lemma move_rows_lookup:
  assumes "distinct (map fst t)"
  shows "map_of (move_rows x y t) (a, d) = (case map_of t (a, d) of None \<Rightarrow> None
     | Some n \<Rightarrow> if d \<in> set (subtree x t) \<and> a \<notin> set (subtree x t) \<and> a \<noteq> y \<and> a \<notin> set (supertree y t)
                   \<or> d = x \<and> n = 1 \<and> a \<noteq> y then None else Some n)"
  unfolding move_rows_def del_old_parent_def del_subtree_def
  using assms by (simp add: map_of_filter_key distinct_filter_key split: option.splits)

lemma move_rows_distinct: "distinct (map fst t) \<Longrightarrow> distinct (map fst (move_rows x y t))"
  unfolding move_rows_def del_old_parent_def del_subtree_def by (simp add: distinct_filter_key)

lemma moved_lookup:
  assumes inv: "closure_inv N p t" and xN: "x \<in> N" and yN: "y \<in> N" and ny: "\<not> is_anc p x y"
  shows "map_of (ins_cross x y (move_rows x y t)) (a, d) =
    (if is_anc p a y \<and> is_anc p x d \<and> d \<in> N
     then Some (let s = the (map_of t (a, y)) + the (map_of t (x, d)) + 1
                in if map_of t (a, d) = None \<or> d = x \<and> map_of t (a, d) = Some 1 \<and> a \<noteq> y then s
                   else min (the (map_of t (a, d))) s)
     else if is_anc p x d \<and> \<not> is_anc p x a then None else map_of t (a, d))"
proof -
  let ?m = "move_rows x y t"
  note f = invD(1) [OF inv]
  note dt = invD(2) [OF inv]
  note look = move_rows_lookup [OF dt, of x y] inv_subtree [OF inv] inv_supertree [OF inv]
  have cross: "map_of (ins_cross x y ?m) (a, d) = (case map_of (cross_rows x y ?m) (a, d) of
      None \<Rightarrow> map_of ?m (a, d)
      | Some s \<Rightarrow> Some (case map_of ?m (a, d) of None \<Rightarrow> s | Some n \<Rightarrow> min n s))"
    unfolding ins_cross_def
    by (rule fold_ins_min_lookup [OF distinct_cross_rows [OF move_rows_distinct [OF dt]]])
  have ay: "map_of ?m (a, y) = map_of t (a, y)"
    using ny xN by (auto simp: look split: option.splits)
  have xd: "map_of ?m (x, d) = map_of t (x, d)"
    using xN invD(4) [OF inv, of x x] by (auto simp: look split: option.splits)
  have anc_y: "map_of t (a, y) = None \<longleftrightarrow> \<not> is_anc p a y" using inv_none [OF inv] yN by simp
  have x_d: "map_of t (x, d) = None \<longleftrightarrow> \<not> (d \<in> N \<and> is_anc p x d)" using inv_none [OF inv] by simp
  have a_in: "is_anc p a y \<Longrightarrow> \<not> is_anc p x a" using ny is_anc_trans by blast
  show ?thesis
  proof (cases "is_anc p a y \<and> is_anc p x d \<and> d \<in> N")
    case True
    then have "map_of ?m (a, d) = (if d = x \<and> map_of t (a, d) = Some 1 \<and> a \<noteq> y then None else map_of t (a, d))"
      using yN by (auto simp: look split: option.splits)
    with True anc_y x_d show ?thesis
      unfolding cross map_of_cross_rows [OF move_rows_distinct [OF dt]] ay xd
      by (auto simp: Let_def)
  next
    case False
    then have "map_of (cross_rows x y ?m) (a, d) = None"
      unfolding map_of_cross_rows [OF move_rows_distinct [OF dt]] ay xd
      using anc_y x_d by (auto split: option.splits)
    moreover have "map_of ?m (a, d) = (if is_anc p x d \<and> \<not> is_anc p x a then None else map_of t (a, d))"
    proof (cases "map_of t (a, d)")
      case None
      then show ?thesis by (simp add: look)
    next
      case (Some n)
      then have dN: "d \<in> N" and ad: "is_anc p a d" using inv_none [OF inv, of a d] by auto
      have aN: "a \<in> N" using forest_up_in [OF f dN] ad by (auto simp: is_anc_def)
      have "d = x \<Longrightarrow> is_anc p x a \<Longrightarrow> n \<noteq> 1"
        using forest_antisym [OF f ad] Some invD(4) [OF inv, of a d] dN by auto
      with Some False dN aN yN show ?thesis by (auto simp: look)
    qed
    ultimately show ?thesis unfolding cross using False by auto
  qed
qed

lemma move_inv:
  assumes inv: "closure_inv N p t" and xN: "x \<in> N" and yN: "y \<in> N" and ny: "\<not> is_anc p x y"
  shows "closure_inv N (p(x \<mapsto> y)) (ins_cross x y (move_rows x y t))"
proof -
  note f = invD(1) [OF inv] and none = inv_none [OF inv] and zero = invD(4) [OF inv] and one = invD(5) [OF inv]
  note look = moved_lookup [OF assms]
  let ?t = "ins_cross x y (move_rows x y t)"
  have a_in: "is_anc p x a" if "is_anc p x d" "is_anc p d a" for a d using that is_anc_trans by blast
  have sep: "\<not> (is_anc p a y \<and> is_anc p x a)" for a using ny is_anc_trans by blast
  have dist: "distinct (map fst ?t)"
    unfolding ins_cross_def by (rule fold_ins_min_distinct [OF move_rows_distinct [OF invD(2) [OF inv]]])
  have dom: "(a, d) \<in> dom (map_of ?t) \<longleftrightarrow> d \<in> N \<and> is_anc (p(x \<mapsto> y)) a d" for a d
    unfolding domIff look is_anc_upd [OF f ny] using none [of a d] by auto
  have self: "map_of ?t (a, d) = Some 0 \<longleftrightarrow> d \<in> N \<and> a = d" for a d
    unfolding look using zero [of a d] sep [of a] none [of a d] by (auto simp: Let_def min_def)
  have parent: "map_of ?t (a, d) = Some (Suc 0) \<longleftrightarrow> (p(x \<mapsto> y)) d = Some a" for a d
  proof (cases "is_anc p x d \<and> d \<in> N")
    case False
    have "map_of t (a, d) = Some (Suc 0) \<longleftrightarrow> p d = Some a" by (rule one)
    moreover have "p d = Some a \<Longrightarrow> d \<in> N" using f by (auto simp: forest_def)
    moreover have "d \<noteq> x" using False xN by auto
    ultimately show ?thesis unfolding look using False none [of a d] by auto
  next
    case True
    show ?thesis
    proof (cases "is_anc p a y")
      case a: True
      have n0: "the (map_of t (a, y)) = 0 \<longleftrightarrow> a = y" using zero [of a y] none [of a y] a yN by auto
      have m0: "the (map_of t (x, d)) = 0 \<longleftrightarrow> x = d" using zero [of x d] none [of x d] True by auto
      have z: "map_of t (a, d) \<noteq> Some 0" using zero [of a d] True a sep [of a] by auto
      have o: "d \<noteq> x \<Longrightarrow> map_of t (a, d) \<noteq> Some (Suc 0)"
        using one [of a d] is_anc_parent [of p x d a] True a sep [of a] by auto
      show ?thesis unfolding look using True a n0 m0 z o one [of a d] sep [of a] by (auto simp: Let_def min_def)
    next
      case a: False
      then have "a \<noteq> y" by auto
      have "d = x \<Longrightarrow> is_anc p x a \<Longrightarrow> map_of t (a, d) \<noteq> Some (Suc 0)"
        using zero [of d d] forest_antisym [OF f, of x a] none [of a d] xN by (metis n_not_Suc_n option.inject option.discI)
      then show ?thesis unfolding look using True a \<open>a \<noteq> y\<close> one [of a d] is_anc_parent [of p x d a] by auto
    qed
  qed
  show ?thesis unfolding closure_inv_def
    using forest_upd [OF f xN yN ny] dist dom self parent by (simp del: fun_upd_apply)
qed

section \<open>Making a tenant a root\<close>

lemma is_anc_detach:
  assumes f: "forest N p"
  shows "is_anc (p(x := None)) a d \<longleftrightarrow>
         (if is_anc p x d then is_anc p a d \<and> is_anc p x a else is_anc p a d)"
proof (cases "is_anc p x d")
  case False
  then have "up (p(x := None)) n d = up p n d" for n
    by (intro up_upd_outside) (simp add: is_anc_def)
  with False show ?thesis by (simp add: is_anc_def)
next
  case True
  then obtain k where k: "up p k d = Some x" by (auto simp: is_anc_def)
  have "up (p(x := None)) n d = Some a \<longleftrightarrow> n \<le> k \<and> up p n d = Some a" for n
  proof (cases "n \<le> k")
    case False
    then obtain j where "n = k + Suc j" by (metis add_Suc_right less_iff_Suc_add not_le)
    then show ?thesis using False by (simp only: up_upd_above [OF f k]) simp
  qed (simp add: up_upd_below [OF f k])
  moreover have "n \<le> k \<longleftrightarrow> is_anc p x a" if n: "up p n d = Some a" for n
  proof
    assume "n \<le> k"
    then show "is_anc p x a" using up_add [of p n "k - n" d] k n by (auto simp: is_anc_def)
  next
    assume "is_anc p x a"
    then obtain j where "up p j a = Some x" by (auto simp: is_anc_def)
    then have "up p (n + j) d = Some x" using n by (simp add: up_add)
    then have "n + j = k" using forest_up_unique [OF f _ k] by blast
    then show "n \<le> k" by simp
  qed
  ultimately show ?thesis using True by (auto simp: is_anc_def)
qed

lemma forest_detach:
  assumes f: "forest N p" shows "forest N (p(x := None))"
proof -
  have sub: "up (p(x := None)) n d = Some a \<Longrightarrow> up p n d = Some a" for n d a
    by (induction n arbitrary: d) (auto split: option.splits if_splits)
  then have "\<forall>d n. 0 < n \<longrightarrow> up (p(x := None)) n d \<noteq> Some d"
    using f unfolding forest_def by blast
  with f show ?thesis by (auto simp: forest_def ran_def split: if_splits)
qed

lemma detach_lookup:
  assumes inv: "closure_inv N p t" and "x \<in> N" and y0: "y \<notin> N"
  shows "map_of (move_rows x y t) (a, d) =
         (if is_anc p x d \<and> \<not> is_anc p x a then None else map_of t (a, d))"
proof (cases "map_of t (a, d)")
  case None
  then show ?thesis by (simp add: move_rows_lookup [OF invD(2) [OF inv]])
next
  case (Some n)
  note f = invD(1) [OF inv]
  have dN: "d \<in> N" and ad: "is_anc p a d" using inv_none [OF inv, of a d] Some by auto
  have aN: "a \<in> N" using forest_up_in [OF f dN] ad by (auto simp: is_anc_def)
  have "d = x \<Longrightarrow> is_anc p x a \<Longrightarrow> n \<noteq> 1"
    using forest_antisym [OF f ad] Some invD(4) [OF inv, of a d] dN by auto
  moreover have "a \<noteq> y" using aN y0 by auto
  ultimately show ?thesis
    using Some dN aN y0
    by (auto simp: move_rows_lookup [OF invD(2) [OF inv]] inv_subtree [OF inv] inv_supertree [OF inv])
qed

lemma detach_inv:
  assumes inv: "closure_inv N p t" and xN: "x \<in> N" and y0: "y \<notin> N"
  shows "closure_inv N (p(x := None)) (move_rows x y t)"
proof -
  note f = invD(1) [OF inv] and none = inv_none [OF inv] and zero = invD(4) [OF inv] and one = invD(5) [OF inv]
  note look = detach_lookup [OF assms]
  let ?t = "move_rows x y t"
  have dom: "(a, d) \<in> dom (map_of ?t) \<longleftrightarrow> d \<in> N \<and> is_anc (p(x := None)) a d" for a d
    unfolding domIff look is_anc_detach [OF f] using none [of a d] by auto
  have self: "map_of ?t (a, d) = Some 0 \<longleftrightarrow> d \<in> N \<and> a = d" for a d
    unfolding look using zero [of a d] by auto
  have parent: "map_of ?t (a, d) = Some (Suc 0) \<longleftrightarrow> (p(x := None)) d = Some a" for a d
  proof (cases "d = x")
    case True
    have "p x = Some a \<Longrightarrow> \<not> is_anc p x a"
      using forest_antisym [OF f parent_is_anc, of x a] one [of a x] zero [of x x] xN by auto
    with True show ?thesis unfolding look using one [of a d] by auto
  next
    case False
    then show ?thesis unfolding look using one [of a d] is_anc_parent [of p x d a] by auto
  qed
  show ?thesis unfolding closure_inv_def
    using forest_detach [OF f] move_rows_distinct [OF invD(2) [OF inv]] dom self parent
    by (simp del: fun_upd_apply)
qed

section \<open>A new tenant and a deleted leaf\<close>

text \<open>The table after the three insertions of \<open>TenantClosureInsert\<close>.\<close>

definition insert_rows :: "u64 \<Rightarrow> u64 \<Rightarrow> closure \<Rightarrow> closure" where
  "insert_rows anc desc t =
     ins_ancestors anc desc (ins_nothing ((anc, desc), 1) (ins_nothing ((desc, desc), 0) t))"

lemma insert_rows_distinct: "distinct (map fst t) \<Longrightarrow> distinct (map fst (insert_rows y x t))"
  unfolding insert_rows_def ins_ancestors_def by (simp add: ins_nothing_distinct fold_ins_nothing_distinct)

lemma insert_rows_lookup:
  assumes "distinct (map fst t)" and "y \<noteq> x"
    and "\<And>a. map_of t (a, x) = None" and "map_of t (y, y) = Some 0"
  shows "map_of (insert_rows y x t) (a, d) =
    (if d = x then if a = x then Some 0 else map_option Suc (map_of t (a, y)) else map_of t (a, d))"
proof -
  let ?t = "ins_nothing ((y, x), 1) (ins_nothing ((x, x), 0) t)"
  have dist: "distinct (map fst ?t)" using assms(1) by (simp add: ins_nothing_distinct)
  have t: "map_of ?t = (map_of t)((x, x) \<mapsto> 0, (y, x) \<mapsto> 1)"
    using assms(2,3) by simp
  show ?thesis
    unfolding insert_rows_def ins_ancestors_def fold_ins_nothing_lookup map_of_ancestor_rows [OF dist]
    using assms(2,3,4) by (auto simp: t split: option.splits)
qed

lemma up_new_node:
  assumes f: "forest N p" and x: "x \<notin> N" and d: "d \<in> N"
  shows "up (p(x := q)) n d = up p n d"
proof (rule up_upd_outside)
  fix k show "up p k d \<noteq> Some x" using forest_up_in [OF f d] x by blast
qed

lemma forest_new_node:
  assumes f: "forest N p" and x: "x \<notin> N" and yN: "y \<in> N"
  shows "forest (insert x N) (p(x \<mapsto> y))"
proof -
  have "forest (insert x N) p" using f by (auto simp: forest_def)
  moreover have "\<not> is_anc p x y" using forest_up_in [OF f yN] x by (auto simp: is_anc_def)
  ultimately show ?thesis using yN by (intro forest_upd) auto
qed

lemma insert_exact:
  assumes ex: "closure_exact N p t" and x: "x \<notin> N" and yN: "y \<in> N"
  shows "closure_exact (insert x N) (p(x \<mapsto> y)) (insert_rows y x t)"
proof -
  have f: "forest N p" and dist: "distinct (map fst t)"
    and row: "\<And>a d n. map_of t (a, d) = Some n \<longleftrightarrow> d \<in> N \<and> up p n d = Some a"
    using ex unfolding closure_exact_def by auto
  have nx: "map_of t (a, x) = None" for a using row [of a x] x by (cases "map_of t (a, x)") auto
  have yy: "map_of t (y, y) = Some 0" using row [of y y 0] yN by simp
  have "y \<noteq> x" using x yN by auto
  note look = insert_rows_lookup [OF dist this nx yy]
  have "map_of (insert_rows y x t) (a, d) = Some n \<longleftrightarrow> d \<in> insert x N \<and> up (p(x \<mapsto> y)) n d = Some a" for a d n
  proof (cases "d = x")
    case True
    have nx': "map_of t (x, y) = None"
      using row [of x y] forest_up_in [OF f yN, of _ x] x by (cases "map_of t (x, y)") auto
    show ?thesis
    proof (cases n)
      case 0
      then show ?thesis unfolding look using True by auto
    next
      case (Suc m)
      have "up (p(x \<mapsto> y)) m y = up p m y" by (rule up_new_node [OF f x yN])
      then show ?thesis
        unfolding look using True Suc row [of a y m] nx' yN by auto
    qed
  next
    case False
    then show ?thesis unfolding look using row [of a d n] up_new_node [OF f x, of d "Some y" n] by auto
  qed
  then show ?thesis
    unfolding closure_exact_def using forest_new_node [OF f x yN] insert_rows_distinct [OF dist] by blast
qed

lemma insert_inv:
  assumes inv: "closure_inv N p t" and x: "x \<notin> N" and yN: "y \<in> N"
  shows "closure_inv (insert x N) (p(x \<mapsto> y)) (insert_rows y x t)"
proof -
  note f = invD(1) [OF inv] and none = inv_none [OF inv] and zero = invD(4) [OF inv] and one = invD(5) [OF inv]
  have nx: "map_of t (a, x) = None" for a using none [of a x] x by simp
  have yy: "map_of t (y, y) = Some 0" using zero [of y y] yN by simp
  have yx: "y \<noteq> x" using x yN by auto
  note look = insert_rows_lookup [OF invD(2) [OF inv] yx nx yy]
  let ?p = "p(x \<mapsto> y)" and ?t = "insert_rows y x t"
  have old: "is_anc ?p a d \<longleftrightarrow> is_anc p a d" if "d \<in> N" for a d
    using up_new_node [OF f x that] by (simp add: is_anc_def)
  have new: "is_anc ?p a x \<longleftrightarrow> a = x \<or> is_anc p a y" for a
  proof -
    have "is_anc ?p a x \<longleftrightarrow> up ?p 0 x = Some a \<or> (\<exists>n. up ?p (Suc n) x = Some a)"
      unfolding is_anc_def by (metis not0_implies_Suc)
    then show ?thesis using old [OF yN] by (auto simp: is_anc_def)
  qed
  have px: "p d = Some a \<Longrightarrow> d \<in> N" for a d using f by (auto simp: forest_def)
  have dom: "(a, d) \<in> dom (map_of ?t) \<longleftrightarrow> d \<in> insert x N \<and> is_anc ?p a d" for a d
    unfolding domIff look using none [of a d] none [of a y] old [of d a] new [of a] yN by auto
  have self: "map_of ?t (a, d) = Some 0 \<longleftrightarrow> d \<in> insert x N \<and> a = d" for a d
    unfolding look using zero [of a d] by auto
  have parent: "map_of ?t (a, d) = Some (Suc 0) \<longleftrightarrow> ?p d = Some a" for a d
    unfolding look using one [of a d] zero [of a y] yN yx by (cases "map_of t (a, y)") auto
  show ?thesis unfolding closure_inv_def
    using forest_new_node [OF f x yN] insert_rows_distinct [OF invD(2) [OF inv]] dom self parent
    by (simp del: fun_upd_apply insert_iff)
qed

lemma leaf_path:
  assumes "\<forall>d. p d \<noteq> Some x" and "is_anc p x d"
  shows "d = x"
proof -
  obtain k where k: "up p k d = Some x" using assms(2) by (auto simp: is_anc_def)
  show ?thesis
  proof (cases k)
    case (Suc j)
    with k assms(1) show ?thesis by (simp only: up_Suc_right) (auto simp: Option.bind_eq_Some_conv)
  qed (use k in simp)
qed

lemma delete_leaf_inv:
  assumes inv: "closure_inv N p t" and leaf: "\<forall>d. p d \<noteq> Some x"
  shows "closure_inv (N - {x}) (p(x := None)) (cascade_delete x t)"
proof -
  note f = invD(1) [OF inv] and none = inv_none [OF inv] and zero = invD(4) [OF inv] and one = invD(5) [OF inv]
  let ?p = "p(x := None)" and ?t = "cascade_delete x t"
  have look: "map_of ?t (a, d) = (if a \<noteq> x \<and> d \<noteq> x then map_of t (a, d) else None)" for a d
    unfolding cascade_delete_def by (simp add: map_of_filter_key [OF invD(2) [OF inv]] split: option.splits)
  have anc: "is_anc ?p a d \<longleftrightarrow> is_anc p a d" if "d \<noteq> x" for a d
    using that leaf_path [OF leaf] unfolding is_anc_detach [OF f] by auto
  have nx: "d \<noteq> x \<Longrightarrow> \<not> is_anc p x d" for d using leaf_path [OF leaf] by blast
  have dom: "(a, d) \<in> dom (map_of ?t) \<longleftrightarrow> d \<in> N - {x} \<and> is_anc ?p a d" for a d
    unfolding domIff look using none [of a d] anc [of d a] nx [of d] by auto
  have self: "map_of ?t (a, d) = Some 0 \<longleftrightarrow> d \<in> N - {x} \<and> a = d" for a d
    unfolding look using zero [of a d] by auto
  have parent: "map_of ?t (a, d) = Some (Suc 0) \<longleftrightarrow> ?p d = Some a" for a d
    unfolding look using one [of a d] leaf by auto
  have "ran ?p \<subseteq> N - {x}" using f leaf by (auto simp: forest_def ran_def split: if_splits)
  moreover have "dom ?p \<subseteq> N - {x}" using f by (auto simp: forest_def)
  ultimately have "forest (N - {x}) ?p" using forest_detach [OF f, of x] by (simp add: forest_def)
  moreover have "distinct (map fst ?t)"
    unfolding cascade_delete_def by (rule distinct_filter_key [OF invD(2) [OF inv]])
  ultimately show ?thesis unfolding closure_inv_def using dom self parent by (simp del: fun_upd_apply Diff_iff)
qed

section \<open>The checks after a move find nothing\<close>

lemma direct_exists_iff:
  "closure_inv N p t \<Longrightarrow> direct_exists y x t \<longleftrightarrow> p x = Some y"
  using invD(5) [of N p t y x] invD(2) [of N p t] by (simp add: direct_exists_def)

lemma circular_pairs_Nil:
  assumes inv: "closure_inv N p t"
  shows "circular_pairs t = []"
proof -
  have "a = d" if "((a, d), n) \<in> set t" and "((d, a), m) \<in> set t" for a d n m
  proof -
    have "is_anc p a d" and "is_anc p d a"
      using that invD(3) [OF inv] by (auto simp: dom_map_of_conv_image_fst image_iff) force+
    then show "a = d" using forest_antisym [OF invD(1) [OF inv]] by blast
  qed
  then show ?thesis unfolding circular_pairs_def by (auto simp: filter_empty_conv)
qed

lemma fold_ins_nothing_absent:
  "\<forall>r\<in>set rs. map_of t (fst r) \<noteq> None \<Longrightarrow> fold ins_nothing rs t = t"
proof (induction rs)
  case (Cons r rs)
  then have "ins_nothing r t = t" by (simp add: ins_nothing_def)
  with Cons show ?case by simp
qed simp

lemma ins_ancestors_noop:
  assumes inv: "closure_inv N p t" and par: "p x = Some y"
  shows "ins_ancestors y x t = t"
  unfolding ins_ancestors_def
proof (rule fold_ins_nothing_absent, rule ballI)
  fix r assume "r \<in> set (ancestor_rows y x t)"
  then obtain a n where r: "fst r = (a, x)" and "((a, y), n) \<in> set t" by (auto simp: ancestor_rows_def)
  then have "is_anc p a y" using invD(3) [OF inv, of a y] by (force simp: dom_map_of_conv_image_fst)
  then have "is_anc p a x" using is_anc_trans parent_is_anc [of p x y] par by blast
  moreover have "x \<in> N" using par invD(1) [OF inv] by (auto simp: forest_def)
  ultimately show "map_of t (fst r) \<noteq> None" unfolding r using inv_none [OF inv, of a x] by simp
qed

end
