(* ===== verification/Closure_Dao.thy ===== *)
theory Closure_Dao
  imports World Closure_Move
begin

text \<open>
  \<open>dao/tenant_closure.dao.go\<close> and \<open>dao/tenant_closure_v2.dao.go\<close>: the functions that run the
  statements of \<open>Closure_Table\<close> on the database, with every error path. The theorems say what
  they do to the tenant tree whatever statement fails, and that the checks which follow a move are
  redundant.
\<close>

section \<open>Statements on \<open>tenant_closure\<close>\<close>

definition tenant_ids :: "db \<Rightarrow> u64 set" where
  "tenant_ids d = t_ID ` set (tenants d)"

text \<open>
  A writing statement. Both columns reference \<open>tenants(id)\<close>; the rows that were there satisfy
  the reference already, so the whole new table is checked.
\<close>

definition fk_ok :: "db \<Rightarrow> closure \<Rightarrow> bool" where
  "fk_ok d t \<longleftrightarrow> list_all (\<lambda>((a, x), n). a \<in> tenant_ids d \<and> x \<in> tenant_ids d) t"

definition closure_exec :: "(closure \<Rightarrow> closure) \<Rightarrow> ('c, unit) dao" where
  "closure_exec f = db_stmt (\<lambda>w. let d = w_db w; t = f (tenant_closure d) in
     if fk_ok d t then (Ret (), w\<lparr>w_db := d\<lparr>tenant_closure := t\<rparr>\<rparr>) else (Err DbError, w))"

definition closure_count :: "(u64 \<Rightarrow> u64 \<Rightarrow> bool) \<Rightarrow> db \<Rightarrow> nat" where
  "closure_count P d = length (filter (\<lambda>((a, x), n). P a x) (tenant_closure d))"

text \<open>\<open>sqlInsertDirectRelation\<close>\<close>

definition ins_direct :: "u64 \<Rightarrow> u64 \<Rightarrow> closure \<Rightarrow> closure" where
  "ins_direct parentID tenantID = ins_min ((parentID, tenantID), 1)"

section \<open>\<open>tenant_closure.dao.go\<close>\<close>

definition TenantClosureInsert :: "u64 \<Rightarrow> u64 \<Rightarrow> ('c, unit) dao" where
  "TenantClosureInsert ancestorId descendantId =
     tryE (closure_exec (ins_nothing ((descendantId, descendantId), 0))) (\<lambda>_.
     tryE (closure_exec (ins_nothing ((ancestorId, descendantId), 1))) (\<lambda>_.
     tryE (closure_exec (ins_ancestors ancestorId descendantId)) (\<lambda>_. ret ())))"

text \<open>The depth of the row, \<open>-1\<close> when there is none.\<close>

definition TenantClosureIsDescendant :: "u64 \<Rightarrow> u64 \<Rightarrow> ('c, int) dao" where
  "TenantClosureIsDescendant ancestorID descendantID =
     tryE (db_query (\<lambda>d. map_of (tenant_closure d) (ancestorID, descendantID))) (\<lambda>r.
       ret (case r of None \<Rightarrow> - 1 | Some n \<Rightarrow> int n))"

section \<open>\<open>tenant_closure_v2.dao.go\<close>\<close>

text \<open>The identifiers of \<open>circular_pairs\<close> in order of first occurrence.\<close>

fun collect_seen :: "(u64 \<times> u64) list \<Rightarrow> u64 list \<Rightarrow> u64 list" where
  "collect_seen [] acc = acc"
| "collect_seen ((a, d) # rs) acc =
     (let acc1 = (if a \<in> set acc then acc else acc @ [a]);
          acc2 = (if d \<in> set acc1 then acc1 else acc1 @ [d])
      in collect_seen rs acc2)"

definition DetectCircularReference :: "('c, u64 list) dao" where
  "DetectCircularReference =
     tryWrap (db_query (\<lambda>d. circular_pairs (tenant_closure d))) (\<lambda>rows. ret (collect_seen rows []))"

definition TenantClosureUpdateSubtree :: "u64 \<Rightarrow> u64 \<Rightarrow> bool \<Rightarrow> ('c, unit) dao" where
  "TenantClosureUpdateSubtree tenantID newParentID debug =
     failIf (tenantID = 0) (OtherErr ''invalid tenant ID: cannot be zero'') (
     whenE (newParentID > 0)
       (tryWrap (db_query (closure_count (\<lambda>a x. a = tenantID \<and> x = newParentID))) (\<lambda>count.
        failIf (count > 0) (CircularReferenceError tenantID newParentID) (ret ()))) (
     whenE (debug \<and> newParentID > 0)
       (ignoreE (db_query (closure_count (\<lambda>a x. x = tenantID)))
       (ignoreE (db_query (closure_count (\<lambda>a x. a = newParentID \<and> x = tenantID))) (ret ()))) (
     tryWrap (closure_exec (del_subtree tenantID newParentID)) (\<lambda>_.
     tryWrap (closure_exec (del_old_parent tenantID newParentID)) (\<lambda>_.
     whenE (newParentID > 0)
       (whenE debug
          (ignoreE (db_query (closure_count (\<lambda>a x. x = newParentID \<or> a = tenantID))) (ret ())) (
        tryWrap (closure_exec (ins_cross tenantID newParentID)) (\<lambda>_.
        tryWrap (db_query (\<lambda>d. direct_exists newParentID tenantID (tenant_closure d))) (\<lambda>directRelationExists.
        whenE (\<not> directRelationExists)
          (tryWrap (closure_exec (ins_direct newParentID tenantID)) ret)
          (ret ()))))) (
     whenE debug
       (ignoreE (db_query (closure_count (\<lambda>a x. x = tenantID)))
       (whenE (newParentID > 0)
          (ignoreE (db_query (\<lambda>d. direct_exists newParentID tenantID (tenant_closure d))) (ret ()))
          (ret ()))) (
     ret ())))))))"

definition TenantClosureUpdateSubtreeV2 :: "u64 \<Rightarrow> u64 \<Rightarrow> ('c, unit) dao" where
  "TenantClosureUpdateSubtreeV2 tenantID newParentID = TenantClosureUpdateSubtree tenantID newParentID True"

definition EnsureTenantClosureConsistency :: "u64 \<Rightarrow> u64 \<Rightarrow> ('c, unit) dao" where
  "EnsureTenantClosureConsistency tenantID parentID =
     (if tenantID = 0 \<or> parentID = 0 then ret ()
      else tryWrap (db_query (\<lambda>d. direct_exists parentID tenantID (tenant_closure d))) (\<lambda>directRelationExists.
        whenE (\<not> directRelationExists)
          (tryWrap (closure_exec (ins_direct parentID tenantID)) ret) (
        tryWrap (closure_exec (ins_ancestors parentID tenantID)) (\<lambda>_.
        ret ()))))"

definition TenantClosureUpdateSubtreeV2Safe :: "u64 \<Rightarrow> u64 \<Rightarrow> ('c, unit) dao" where
  "TenantClosureUpdateSubtreeV2Safe tenantID newParentID =
     tryE (TenantClosureUpdateSubtree tenantID newParentID True) (\<lambda>_.
     whenE (newParentID > 0)
       (ignoreE (EnsureTenantClosureConsistency tenantID newParentID) (
        tryWrap (db_query (\<lambda>d. direct_exists newParentID tenantID (tenant_closure d))) (\<lambda>directRelationExists.
        failIf (\<not> directRelationExists) (OtherErr ''failed to establish direct parent relation'') (
        ignoreE DetectCircularReference (ret ()))))) (
     ret ()))"

text \<open>The maintenance pass: three statements, the last two in a batch.\<close>

definition trans_rows :: "closure \<Rightarrow> ((u64 \<times> u64) \<times> nat) list" where
  "trans_rows t = concat (map (\<lambda>((a, b), m). map (\<lambda>((b', d), n). ((a, d), m + n))
       (filter (\<lambda>((b', d), n). b' = b \<and> a \<noteq> d) t)) t)"

definition path_depths :: "u64 \<Rightarrow> u64 \<Rightarrow> closure \<Rightarrow> nat list" where
  "path_depths x y t = concat (map (\<lambda>((a, b), m). map (\<lambda>((b', d), n). m + n)
       (filter (\<lambda>((b', d), n). b' = b \<and> a = x \<and> d = y) t)) t)"

definition fix_depths :: "closure \<Rightarrow> closure" where
  "fix_depths t = map (\<lambda>((a, d), n).
     if list_ex (\<lambda>k. k < n) (path_depths a d t) then ((a, d), Min (set (path_depths a d t))) else ((a, d), n)) t"

definition execSQL :: "(db \<Rightarrow> db) \<Rightarrow> ('c, unit) dao" where
  "execSQL f = tryWrap (db_exec (\<lambda>d. ((), f d))) ret"

definition ins_self_rows :: "db \<Rightarrow> db" where
  "ins_self_rows d = d\<lparr>tenant_closure := fold ins_nothing (map (\<lambda>i. ((i, i), 0)) (map t_ID (tenants d))) (tenant_closure d)\<rparr>"

definition CheckAndRepairTenantClosureTable :: "('c, unit) dao" where
  "CheckAndRepairTenantClosureTable =
     tryWrap (execSQL ins_self_rows) (\<lambda>_.
     tryWrap (closure_exec (\<lambda>t. fold ins_nothing (trans_rows t) t)) (\<lambda>_.
     tryWrap (closure_exec fix_depths) (\<lambda>_. ret ())))"

lemma wp_closure_exec [wp_simps]:
  "wp (closure_exec f) Q E w = (if db_fails w \<or> \<not> fk_ok (w_db w) (f (tenant_closure (w_db w)))
     then E DbError (db_tick w)
     else Q () ((db_tick w)\<lparr>w_db := (w_db w)\<lparr>tenant_closure := f (tenant_closure (w_db w))\<rparr>\<rparr>))"
  by (simp add: wp_def closure_exec_def db_stmt_def Let_def)

section \<open>The tree under these functions\<close>

text \<open>
  \<open>tenant_tree N p d\<close>: the registered tenants \<open>N\<close> (those with a self row) form the forest \<open>p\<close>
  and the table describes it.
\<close>

definition tenant_tree :: "u64 set \<Rightarrow> (u64 \<rightharpoonup> u64) \<Rightarrow> db \<Rightarrow> bool" where
  "tenant_tree N p d \<longleftrightarrow> closure_inv N p (tenant_closure d) \<and> N \<subseteq> tenant_ids d \<and> 0 \<notin> N"

text \<open>A call that touched nothing but the tables (and consumed some faults).\<close>

definition touched :: "'c world \<Rightarrow> 'c world \<Rightarrow> bool" where
  "touched w w' \<longleftrightarrow> w' = w\<lparr>w_db := w_db w', w_faults := w_faults w'\<rparr> \<and> (w_faults w = [] \<longrightarrow> w_faults w' = [])"

lemma touched_simps [simp]:
  "touched w w" "touched w w' \<Longrightarrow> touched w (db_tick w')" "touched w (w'\<lparr>w_db := d\<rparr>) \<longleftrightarrow> touched w w'"
  by (cases w; cases w'; auto simp: touched_def db_tick_def)+

lemma touched_fields:
  "touched w w' \<Longrightarrow> w_seqs w' = w_seqs w \<and> w_now w' = w_now w \<and> w_root w' = w_root w \<and> w_cache w' = w_cache w
     \<and> w_depcache w' = w_depcache w \<and> w_casbin w' = w_casbin w \<and> w_sms w' = w_sms w \<and> w_codes w' = w_codes w
     \<and> (w_faults w = [] \<longrightarrow> w_faults w' = [])"
  by (cases w; cases w') (auto simp: touched_def)

lemma touched_trans: "touched w w' \<Longrightarrow> touched w' w'' \<Longrightarrow> touched w w''"
  by (cases w; cases w'; cases w'') (auto simp: touched_def)

lemma touched_faults: "touched w w' \<Longrightarrow> db_fails w' \<Longrightarrow> w_faults w \<noteq> []"
  by (auto simp: touched_def db_fails_def)

lemma world_db_id: "w_db w = d \<Longrightarrow> w\<lparr>w_db := d\<rparr> = w"
  by (cases w) simp

lemma fk_ok_inv: "closure_inv N p t \<Longrightarrow> N \<subseteq> tenant_ids d \<Longrightarrow> fk_ok d t"
proof -
  assume inv: "closure_inv N p t" and sub: "N \<subseteq> tenant_ids d"
  have "a \<in> N \<and> x \<in> N" if "((a, x), n) \<in> set t" for a x n
  proof -
    have "(a, x) \<in> dom (map_of t)" using that by (metis domIff not_None_eq weak_map_of_SomeI)
    then have "x \<in> N \<and> is_anc p a x" using invD(3) [OF inv, of a x] by simp
    then show ?thesis using forest_up_in [OF invD(1) [OF inv]] by (auto simp: is_anc_def)
  qed
  with sub show ?thesis unfolding fk_ok_def list_all_iff by fast
qed

lemma fk_ok_subset: "set t' \<subseteq> set t \<Longrightarrow> fk_ok d t \<Longrightarrow> fk_ok d t'"
  by (auto simp: fk_ok_def list_all_iff)

lemma fk_ok_closure [simp]: "fk_ok (d\<lparr>tenant_closure := t\<rparr>) = fk_ok d"
  by (rule ext) (simp add: fk_ok_def tenant_ids_def)

lemma closure_count_zero:
  "distinct (map fst (tenant_closure d)) \<Longrightarrow>
   closure_count (\<lambda>a x. a = y \<and> x = z) d = 0 \<longleftrightarrow> map_of (tenant_closure d) (y, z) = None"
  by (force simp: closure_count_def filter_empty_conv map_of_eq_None_iff)

definition moved :: "u64 \<Rightarrow> u64 \<Rightarrow> closure \<Rightarrow> closure" where
  "moved x y t = (if y > 0 then ins_cross x y (move_rows x y t) else move_rows x y t)"

lemma tree_move:
  assumes "tenant_tree N p d" and "x \<in> N" and "y \<in> N" and "\<not> is_anc p x y"
  shows "tenant_tree N (p(x \<mapsto> y)) (d\<lparr>tenant_closure := moved x y (tenant_closure d)\<rparr>)"
proof -
  have "y > 0" using assms(1,3) by (auto simp: tenant_tree_def word_neq_0_conv [symmetric])
  with move_inv [OF _ assms(2-4)] assms(1) show ?thesis
    by (simp add: tenant_tree_def moved_def tenant_ids_def)
qed

lemma wp_UpdateSubtree:
  assumes tree: "tenant_tree N p (w_db w)" and x: "x \<in> N" and y: "y \<in> N \<or> y = 0" and ny: "\<not> is_anc p x y"
  shows "wp (TenantClosureUpdateSubtree x y debug)
    (\<lambda>_ w'. touched w w' \<and> w_db w' = (w_db w)\<lparr>tenant_closure := moved x y (tenant_closure (w_db w))\<rparr>)
    (\<lambda>_ w'. touched w w' \<and> w_faults w \<noteq> []) w"
proof -
  let ?d = "w_db w" and ?t = "tenant_closure (w_db w)"
  have inv: "closure_inv N p ?t" and sub: "N \<subseteq> tenant_ids ?d" and z: "0 \<notin> N"
    using tree by (auto simp: tenant_tree_def)
  have x0: "x \<noteq> 0" using x z by auto
  have cnt: "closure_count (\<lambda>a d. a = x \<and> d = y) ?d = 0"
    using inv_none [OF inv, of x y] ny invD(2) [OF inv] by (simp add: closure_count_zero)
  have fk: "fk_ok ?d ?t" by (rule fk_ok_inv [OF inv sub])
  have fk1: "fk_ok ?d (del_subtree x y ?t)"
    by (rule fk_ok_subset [OF _ fk]) (auto simp: del_subtree_def)
  have fk2: "fk_ok ?d (move_rows x y ?t)"
    by (rule fk_ok_subset [OF _ fk1]) (auto simp: move_rows_def del_old_parent_def)
  show ?thesis
  proof (cases "y = 0")
    case True
    show ?thesis unfolding TenantClosureUpdateSubtree_def
      using x0 fk1 fk2 True by (auto simp: wp_simps move_rows_def [symmetric] moved_def db_fails_def)
  next
    case False
    with y have yN: "y \<in> N" by simp
    have y0: "y > 0" using False by (simp add: word_neq_0_conv)
    have inv': "closure_inv N (p(x \<mapsto> y)) (moved x y ?t)"
      using move_inv [OF inv x yN ny] y0 by (simp add: moved_def)
    have fk3: "fk_ok ?d (moved x y ?t)" by (rule fk_ok_inv [OF inv' sub])
    have dir: "direct_exists y x (moved x y ?t)" by (simp add: direct_exists_iff [OF inv'])
    have mv: "ins_cross x y (move_rows x y ?t) = moved x y ?t" using y0 by (simp add: moved_def)
    show ?thesis unfolding TenantClosureUpdateSubtree_def
      using x0 y0 cnt fk1 fk2 fk3 dir
      by (auto simp: wp_simps move_rows_def [symmetric] mv db_fails_def)
  qed
qed

lemma wp_UpdateSubtree_cycle:
  assumes tree: "tenant_tree N p (w_db w)" and y: "y \<in> N" and "is_anc p x y"
  shows "wp (TenantClosureUpdateSubtree x y debug) (\<lambda>_ _. False)
    (\<lambda>e w'. touched w w' \<and> w_db w' = w_db w \<and> e \<in> {CircularReferenceError x y, WrapErr DbError}) w"
proof -
  have inv: "closure_inv N p (tenant_closure (w_db w))" and z: "0 \<notin> N"
    using tree by (auto simp: tenant_tree_def)
  have "x \<in> N" using assms(3) forest_up_in [OF invD(1) [OF inv] y] by (auto simp: is_anc_def)
  then have "x \<noteq> 0" "y > 0" using z y by (auto simp: word_neq_0_conv [symmetric])
  moreover have "closure_count (\<lambda>a d. a = x \<and> d = y) (w_db w) > 0"
    using inv_none [OF inv, of x y] assms(3) y closure_count_zero [of "w_db w" x y] invD(2) [OF inv] by auto
  ultimately show ?thesis unfolding TenantClosureUpdateSubtree_def by (simp add: wp_simps)
qed

lemma wp_Ensure:
  assumes tree: "tenant_tree N p (w_db w)" and par: "p x = Some y"
  shows "wp (EnsureTenantClosureConsistency x y)
    (\<lambda>_ w'. touched w w' \<and> w_db w' = w_db w) (\<lambda>_ w'. touched w w' \<and> w_db w' = w_db w) w"
proof -
  have inv: "closure_inv N p (tenant_closure (w_db w))" and sub: "N \<subseteq> tenant_ids (w_db w)"
    using tree by (auto simp: tenant_tree_def)
  show ?thesis unfolding EnsureTenantClosureConsistency_def
    using fk_ok_inv [OF inv sub] par
    by (auto simp: wp_simps direct_exists_iff [OF inv] ins_ancestors_noop [OF inv])
qed

lemma wp_DetectCircular:
  assumes "tenant_tree N p (w_db w)"
  shows "wp DetectCircularReference
    (\<lambda>r w'. r = [] \<and> touched w w' \<and> w_db w' = w_db w) (\<lambda>_ w'. touched w w' \<and> w_db w' = w_db w) w"
  using assms circular_pairs_Nil by (auto simp: DetectCircularReference_def wp_simps tenant_tree_def)

lemma wp_V2Safe:
  assumes tree: "tenant_tree N p (w_db w)" and x: "x \<in> N" and y: "y \<in> N" and ny: "\<not> is_anc p x y"
  shows "wp (TenantClosureUpdateSubtreeV2Safe x y)
    (\<lambda>_ w'. touched w w' \<and> w_db w' = (w_db w)\<lparr>tenant_closure := moved x y (tenant_closure (w_db w))\<rparr>)
    (\<lambda>_ w'. touched w w' \<and> w_faults w \<noteq> []) w"
proof -
  let ?d = "(w_db w)\<lparr>tenant_closure := moved x y (tenant_closure (w_db w))\<rparr>"
  let ?R = "\<lambda>w'. touched w w' \<and> w_db w' = ?d"
  have tree': "tenant_tree N (p(x \<mapsto> y)) ?d" by (rule tree_move [OF tree x y ny])
  then have dir: "direct_exists y x (tenant_closure ?d)"
    using direct_exists_iff [of N "p(x \<mapsto> y)"] by (simp add: tenant_tree_def)
  have ens: "wp (EnsureTenantClosureConsistency x y) (\<lambda>_. ?R) (\<lambda>_. ?R) w'" if "?R w'" for w'
    using wp_Ensure [of N "p(x \<mapsto> y)" w' x y] tree' that by (auto elim!: wp_mono dest: touched_trans)
  have det: "wp DetectCircularReference (\<lambda>_. ?R) (\<lambda>_. ?R) w'" if "?R w'" for w'
    using wp_DetectCircular [of N "p(x \<mapsto> y)" w'] tree' that by (auto elim!: wp_mono dest: touched_trans)
  have rest: "wp (whenE (y > 0)
       (ignoreE (EnsureTenantClosureConsistency x y) (
        tryWrap (db_query (\<lambda>d. direct_exists y x (tenant_closure d))) (\<lambda>directRelationExists.
        failIf (\<not> directRelationExists) (OtherErr ''failed to establish direct parent relation'') (
        ignoreE DetectCircularReference (ret ()))))) (ret ())) (\<lambda>_. ?R) (\<lambda>_ w'. touched w w' \<and> w_faults w \<noteq> []) w'" if "?R w'" for w'
    using that dir touched_faults [of w]
    by (auto simp: wp_simps intro!: wp_mono [OF ens] wp_mono [OF det])
  show ?thesis unfolding TenantClosureUpdateSubtreeV2Safe_def wp_tryE
    by (rule wp_mono [OF wp_UpdateSubtree [OF tree x disjI1 [OF y] ny]]) (auto intro!: rest)
qed

lemma wp_V2Safe_cycle:
  assumes "tenant_tree N p (w_db w)" and "y \<in> N" and "is_anc p x y"
  shows "wp (TenantClosureUpdateSubtreeV2Safe x y) (\<lambda>_ _. False)
    (\<lambda>e w'. touched w w' \<and> w_db w' = w_db w \<and> e \<in> {CircularReferenceError x y, WrapErr DbError}) w"
  unfolding TenantClosureUpdateSubtreeV2Safe_def wp_tryE
  by (rule wp_mono [OF wp_UpdateSubtree_cycle [OF assms]]) auto

lemma wp_TenantClosureInsert:
  assumes inv: "closure_inv N p (tenant_closure (w_db w))" and ids: "insert x N \<subseteq> tenant_ids (w_db w)"
    and x: "x \<notin> N" and y: "y \<in> N"
  shows "wp (TenantClosureInsert y x)
    (\<lambda>_ w'. touched w w' \<and> w_db w' = (w_db w)\<lparr>tenant_closure := insert_rows y x (tenant_closure (w_db w))\<rparr>)
    (\<lambda>_ w'. touched w w' \<and> w_faults w \<noteq> []) w"
proof -
  let ?t = "tenant_closure (w_db w)"
  have fk: "fk_ok (w_db w) ?t" using fk_ok_inv [OF inv] ids by simp
  then have fk1: "fk_ok (w_db w) (ins_nothing ((x, x), 0) ?t)"
    using ids by (auto simp: fk_ok_def ins_nothing_def)
  then have fk2: "fk_ok (w_db w) (ins_nothing ((y, x), 1) (ins_nothing ((x, x), 0) ?t))"
    using ids y by (auto simp: fk_ok_def ins_nothing_def)
  have fk3: "fk_ok (w_db w) (insert_rows y x ?t)" by (rule fk_ok_inv [OF insert_inv [OF inv x y] ids])
  show ?thesis unfolding TenantClosureInsert_def
    using fk1 fk2 fk3 by (auto simp: wp_simps insert_rows_def db_fails_def)
qed

lemma wp_IsDescendant:
  assumes "tenant_tree N p (w_db w)"
  shows "wp (TenantClosureIsDescendant a d)
    (\<lambda>r w'. touched w w' \<and> w_db w' = w_db w \<and> (0 \<le> r \<longleftrightarrow> d \<in> N \<and> is_anc p a d) \<and> (r = 1 \<longleftrightarrow> p d = Some a))
    (\<lambda>e w'. e = DbError \<and> touched w w' \<and> w_db w' = w_db w \<and> w_faults w \<noteq> []) w"
proof -
  have inv: "closure_inv N p (tenant_closure (w_db w))" using assms by (simp add: tenant_tree_def)
  show ?thesis unfolding TenantClosureIsDescendant_def
    using inv_none [OF inv, of a d] invD(5) [OF inv, of a d] by (auto simp: wp_simps db_fails_def split: option.splits)
qed

section \<open>The maintenance pass on an exact table\<close>

lemma exact_row: "closure_exact N p t \<Longrightarrow> ((a, d), n) \<in> set t \<longleftrightarrow> d \<in> N \<and> up p n d = Some a"
  unfolding closure_exact_def by (metis map_of_eq_Some_iff)

lemma exact_lookup: "closure_exact N p t \<Longrightarrow> map_of t (a, d) = Some n \<longleftrightarrow> d \<in> N \<and> up p n d = Some a"
  unfolding closure_exact_def by metis

lemma trans_rows_sound:
  assumes ex: "closure_exact N p t" and "r \<in> set (trans_rows t)"
  shows "map_of t (fst r) \<noteq> None"
proof -
  obtain a b d m n where r: "fst r = (a, d)" and "((a, b), m) \<in> set t" and "((b, d), n) \<in> set t"
    using assms(2) by (auto simp: trans_rows_def)
  then have "d \<in> N" and "up p n d = Some b" and "up p m b = Some a" by (simp_all add: exact_row [OF ex])
  then have "map_of t (a, d) = Some (n + m)" by (simp add: exact_lookup [OF ex] up_add)
  with r show ?thesis by simp
qed

lemma path_depths_exact:
  assumes ex: "closure_exact N p t" and "k \<in> set (path_depths x y t)"
  shows "map_of t (x, y) = Some k"
proof -
  obtain b m n where k: "k = m + n" and "((x, b), m) \<in> set t" and "((b, y), n) \<in> set t"
    using assms(2) by (auto simp: path_depths_def)
  then have "y \<in> N" and "up p n y = Some b" and "up p m b = Some x" by (simp_all add: exact_row [OF ex])
  then show ?thesis by (simp add: exact_lookup [OF ex] k up_add add.commute [of m])
qed

lemma fix_depths_exact:
  assumes ex: "closure_exact N p t"
  shows "fix_depths t = t"
proof -
  have "\<not> list_ex (\<lambda>k. k < n) (path_depths a d t)" if "((a, d), n) \<in> set t" for a d n
  proof -
    have "map_of t (a, d) = Some n" using that by (simp add: exact_row [OF ex] exact_lookup [OF ex])
    then show ?thesis using path_depths_exact [OF ex, of _ a d] by (auto simp: list_ex_iff)
  qed
  then show ?thesis unfolding fix_depths_def by (intro map_idI) auto
qed

lemma self_rows_exact:
  assumes ex: "closure_exact (set ids) p t"
  shows "fold ins_nothing (map (\<lambda>i. ((i, i), 0)) ids) t = t"
proof (rule fold_ins_nothing_absent, rule ballI)
  fix r assume "r \<in> set (map (\<lambda>i. ((i, i), 0)) ids)"
  then obtain i where "i \<in> set ids" and "fst r = (i, i)" by auto
  then show "map_of t (fst r) \<noteq> None" using exact_lookup [OF ex, of i i 0] by simp
qed

lemma wp_CheckAndRepair_exact:
  assumes ex: "closure_exact (tenant_ids (w_db w)) p (tenant_closure (w_db w))"
  shows "wp CheckAndRepairTenantClosureTable (\<lambda>_ w'. touched w w' \<and> w_db w' = w_db w)
    (\<lambda>_ w'. touched w w' \<and> w_db w' = w_db w) w"
proof -
  let ?t = "tenant_closure (w_db w)"
  have ids: "set (map t_ID (tenants (w_db w))) = tenant_ids (w_db w)" by (simp add: tenant_ids_def)
  have fk: "fk_ok (w_db w) ?t" by (rule fk_ok_inv [OF exact_imp_inv [OF ex]]) simp
  have "fold ins_nothing (map (\<lambda>i. ((i, i), 0)) (map t_ID (tenants (w_db w)))) ?t = ?t"
    by (rule self_rows_exact [of _ p]) (simp only: ids ex)
  then have self: "ins_self_rows (w_db w) = w_db w" by (simp only: ins_self_rows_def) simp
  have trans: "fold ins_nothing (trans_rows ?t) ?t = ?t"
    using trans_rows_sound [OF ex] by (intro fold_ins_nothing_absent) blast
  show ?thesis unfolding CheckAndRepairTenantClosureTable_def execSQL_def
    using fk fix_depths_exact [OF ex] trans self by (auto simp: wp_simps)
qed

section \<open>Properties\<close>

text \<open>A table to run the functions on: 1 at the root, 2 and 3 below it, 4 below 3.\<close>

definition sample_rows :: closure where
  "sample_rows = [((1, 1), 0), ((2, 2), 0), ((1, 2), 1), ((3, 3), 0), ((1, 3), 1), ((4, 4), 0), ((3, 4), 1), ((1, 4), 2)]"

definition sample_tenant :: "u64 \<Rightarrow> Tenant" where
  "sample_tenant i = \<lparr>t_ID = i, t_UID = 0, t_ParentID = 0, t_TenantName = show_u64 i, t_TenantType = ''shop'',
     t_CreateTime = 0, t_UpdateTime = 0, t_Info = [],
     t_Configuration = Some \<lparr>Roles = [\<lparr>RoleTitle = ''admin'', RoleValue = ''root'', RoleUID = 0\<rparr>], More = []\<rparr>, t_Depth = 0\<rparr>"

definition sample_world :: "'c \<Rightarrow> bool list \<Rightarrow> 'c world" where
  "sample_world c fs = \<lparr>w_db = \<lparr>users = [], tenants = map sample_tenant [1, 2, 3, 4], tenant_closure = sample_rows,
     user_closure = [], departments = [], permissions = [], organizations = [], org_members = []\<rparr>,
     w_seqs = \<lparr>users_uid_seq = 10000, tenants_id_seq = 10000, departments_id_seq = 10000, permission_id_seq = 10000,
       organizations_id_seq = 10000\<rparr>,
     w_faults = fs, w_now = 0, w_root = 1, w_cache = [], w_depcache = [], w_casbin = c, w_sms = False, w_codes = []\<rparr>"

definition sample_tree :: "u64 \<rightharpoonup> u64" where
  "sample_tree = [2 \<mapsto> 1, 3 \<mapsto> 1, 4 \<mapsto> 3]"

lemma root_exact: "r \<noteq> 0 \<Longrightarrow> closure_exact {r} Map.empty [((r, r), 0)]"
proof -
  have "up Map.empty n d = (if n = 0 then Some d else None)" for n and d :: u64 by (cases n) auto
  then show ?thesis by (auto simp: closure_exact_def forest_def split: if_splits)
qed

lemma sample_exact: "closure_exact {1, 2, 3, 4} sample_tree sample_rows"
proof -
  have 1: "closure_exact {1} Map.empty [((1 :: u64, 1), 0)]" by (rule root_exact) simp
  have 2: "closure_exact {2, 1} [2 \<mapsto> 1] (insert_rows 1 2 [((1, 1), 0)])" by (rule insert_exact [OF 1]) auto
  have 3: "closure_exact {3, 2, 1} [2 \<mapsto> 1, 3 \<mapsto> 1] (insert_rows 1 3 (insert_rows 1 2 [((1, 1), 0)]))"
    by (rule insert_exact [OF 2]) auto
  have "closure_exact {4, 3, 2, 1} [2 \<mapsto> 1, 3 \<mapsto> 1, 4 \<mapsto> 3]
      (insert_rows 3 4 (insert_rows 1 3 (insert_rows 1 2 [((1, 1), 0)])))"
    by (rule insert_exact [OF 3]) auto
  moreover have "insert_rows 3 4 (insert_rows 1 3 (insert_rows 1 2 [((1 :: u64, 1), 0)])) = sample_rows"
    by (simp add: insert_rows_def ins_nothing_def ins_ancestors_def ancestor_rows_def sample_rows_def)
  moreover have "{4, 3, 2, 1} = {1, 2, 3, 4 :: u64}" by auto
  ultimately show ?thesis by (simp add: sample_tree_def)
qed

lemma sample_tenant_tree: "tenant_tree {1, 2, 3, 4} sample_tree (w_db (sample_world c fs))"
  using exact_imp_inv [OF sample_exact]
  by (auto simp: tenant_tree_def sample_world_def tenant_ids_def sample_tenant_def)

text \<open>
  C1. Moving a subtree (\<open>TenantClosureUpdateSubtreeV2Safe\<close>), whatever statement of it fails: it never
  panics; it succeeds only when the new parent is not below the moved tenant, and then the table
  describes the tree in which exactly that parent link is changed and no other table is touched; it
  cannot fail when the database does not; and for a new parent inside the moved subtree it always
  reports an error and changes nothing.
\<close>

theorem V2Safe_moves_subtree:
  assumes "tenant_tree N p (w_db w)" and "x \<in> N" and "y \<in> N"
  shows "case TenantClosureUpdateSubtreeV2Safe x y w of
      (Ret _, w') \<Rightarrow> \<not> is_anc p x y \<and> touched w w' \<and> tenant_tree N (p(x \<mapsto> y)) (w_db w')
         \<and> w_db w' = (w_db w)\<lparr>tenant_closure := tenant_closure (w_db w')\<rparr>
    | (Err e, w') \<Rightarrow> touched w w'
         \<and> (if is_anc p x y then w_db w' = w_db w \<and> e \<in> {CircularReferenceError x y, WrapErr DbError}
            else w_faults w \<noteq> [])
    | (Panic, w') \<Rightarrow> False"
proof (cases "is_anc p x y")
  case True
  then show ?thesis
    using wp_V2Safe_cycle [OF assms(1,3), of x] by (auto simp: wp_def split: prod.splits res.splits)
next
  case False
  then show ?thesis
    using wp_V2Safe [OF assms False] tree_move [OF assms False]
    by (auto simp: wp_def split: prod.splits res.splits)
qed

lemma sample_not_anc: "\<not> is_anc sample_tree 3 2" and sample_anc: "is_anc sample_tree 3 4"
proof -
  have "up sample_tree n 2 \<noteq> Some 3" for n
    by (cases n; cases "n - 1") (auto simp: sample_tree_def)
  then show "\<not> is_anc sample_tree 3 2" by (simp add: is_anc_def)
  have "up sample_tree 1 4 = Some 3" by (simp add: sample_tree_def)
  then show "is_anc sample_tree 3 4" unfolding is_anc_def by blast
qed

theorem V2Safe_moves_subtree_witness:
  "(case TenantClosureUpdateSubtreeV2Safe 3 2 (sample_world () []) of
      (Ret _, w') \<Rightarrow> tenant_tree {1, 2, 3, 4} (sample_tree(3 \<mapsto> 2)) (w_db w') | _ \<Rightarrow> False) \<and>
   (case TenantClosureUpdateSubtreeV2Safe 3 4 (sample_world () [False, True]) of
      (Err e, w') \<Rightarrow> w_db w' = w_db (sample_world () []) | _ \<Rightarrow> False)"
proof
  have f: "w_faults (sample_world () []) = []" by (simp add: sample_world_def)
  show "case TenantClosureUpdateSubtreeV2Safe 3 2 (sample_world () []) of
      (Ret _, w') \<Rightarrow> tenant_tree {1, 2, 3, 4} (sample_tree(3 \<mapsto> 2)) (w_db w') | _ \<Rightarrow> False"
    using V2Safe_moves_subtree [OF sample_tenant_tree [of "()" "[]"], of 3 2] sample_not_anc f
    by (auto split: prod.splits res.splits)
  have d: "w_db (sample_world () fs) = w_db (sample_world () [])" for fs by (simp add: sample_world_def)
  show "case TenantClosureUpdateSubtreeV2Safe 3 4 (sample_world () [False, True]) of
      (Err e, w') \<Rightarrow> w_db w' = w_db (sample_world () []) | _ \<Rightarrow> False"
    using V2Safe_moves_subtree [OF sample_tenant_tree [of "()" "[False, True]"], of 3 4] sample_anc d
    by (auto split: prod.splits res.splits)
qed

text \<open>
  Inserting a tenant (\<open>TenantClosureInsert\<close>) into a table with exact depths under a registered
  parent: on success the table is exact for the tree with the new leaf (every ancestor at its distance,
  nothing else), no other table changes, and it can fail only when a statement fails.
\<close>

theorem TenantClosureInsert_exact:
  assumes "closure_exact N p (tenant_closure (w_db w))" and "insert x N \<subseteq> tenant_ids (w_db w)"
    and "x \<notin> N" and "y \<in> N"
  shows "case TenantClosureInsert y x w of
      (Ret _, w') \<Rightarrow> closure_exact (insert x N) (p(x \<mapsto> y)) (tenant_closure (w_db w'))
         \<and> w_db w' = (w_db w)\<lparr>tenant_closure := tenant_closure (w_db w')\<rparr> \<and> touched w w'
    | (Err e, w') \<Rightarrow> w_faults w \<noteq> []
    | (Panic, w') \<Rightarrow> False"
  using wp_TenantClosureInsert [OF exact_imp_inv [OF assms(1)] assms(2-4)] insert_exact [OF assms(1,3,4)]
  by (auto simp: wp_def split: prod.splits res.splits)

theorem TenantClosureInsert_exact_witness:
  "case TenantClosureInsert 4 5 ((sample_world () [])\<lparr>w_db := (w_db (sample_world () []))\<lparr>tenants := map sample_tenant [1, 2, 3, 4, 5]\<rparr>\<rparr>) of
      (Ret _, w') \<Rightarrow> closure_exact {5, 1, 2, 3, 4} (sample_tree(5 \<mapsto> 4)) (tenant_closure (w_db w')) | _ \<Rightarrow> False"
proof -
  let ?w = "(sample_world () [])\<lparr>w_db := (w_db (sample_world () []))\<lparr>tenants := map sample_tenant [1, 2, 3, 4, 5]\<rparr>\<rparr>"
  have "closure_exact {1, 2, 3, 4} sample_tree (tenant_closure (w_db ?w))"
    using sample_exact by (simp add: sample_world_def)
  moreover have "insert 5 {1, 2, 3, 4} \<subseteq> tenant_ids (w_db ?w)" by (simp add: tenant_ids_def sample_tenant_def)
  moreover have "w_faults ?w = []" by (simp add: sample_world_def)
  ultimately show ?thesis
    using TenantClosureInsert_exact [of "{1, 2, 3, 4}" sample_tree ?w 5 4]
    by (auto split: prod.splits res.splits)
qed

text \<open>
  The maintenance pass (\<open>CheckAndRepairTenantClosureTable\<close>) leaves an exact table alone,
  whatever statement fails.
\<close>

theorem CheckAndRepair_keeps_exact:
  assumes "closure_exact (tenant_ids (w_db w)) p (tenant_closure (w_db w))"
  shows "w_db (snd (CheckAndRepairTenantClosureTable w)) = w_db w"
  using wp_CheckAndRepair_exact [OF assms] by (auto simp: wp_def split: prod.splits res.splits)

theorem CheckAndRepair_keeps_exact_witness:
  "w_db (snd (CheckAndRepairTenantClosureTable (sample_world () [False, True]))) = w_db (sample_world () [])"
proof -
  have "tenant_ids (w_db (sample_world () [False, True])) = {1, 2, 3, 4}"
    by (simp add: sample_world_def tenant_ids_def sample_tenant_def)
  then show ?thesis
    using CheckAndRepair_keeps_exact [of "sample_world () [False, True]" sample_tree] sample_exact
    by (simp add: sample_world_def)
qed


end
