(* ===== verification/User_Dao.thy ===== *)
theory User_Dao
  imports World
begin

text \<open>
  \<open>dao/user.dao.go\<close> with \<open>database.InsertWithID\<close>: the statements on the table \<open>users\<close>. The table
  has the primary key \<open>uid\<close> and four unique columns (nickname, cellphone, email, wx_openid) in which
  any number of rows may be NULL; a statement that would break one of them fails with the unique
  violation of PostgreSQL and changes nothing.

  The rows a query without \<open>ORDER BY\<close> returns come in table order.
\<close>

section \<open>Constraints of \<open>users\<close>\<close>

definition uniq_col :: "('a \<Rightarrow> 'b option) \<Rightarrow> 'a list \<Rightarrow> bool" where
  "uniq_col f xs \<longleftrightarrow> distinct (List.map_filter f xs)"

definition users_ok :: "User list \<Rightarrow> bool" where
  "users_ok us \<longleftrightarrow> distinct_by u_UID us \<and> uniq_col u_Cellphone us \<and> uniq_col u_Email us
     \<and> uniq_col u_Nickname us \<and> uniq_col u_WxOpenId us"

text \<open>The constraint a new table breaks, in the order PostgreSQL checks the indexes.\<close>

definition users_violation :: "User list \<Rightarrow> string option" where
  "users_violation us =
     (if \<not> distinct_by u_UID us then Some ''users_pkey''
      else if \<not> uniq_col u_Nickname us then Some ''users_nickname_key''
      else if \<not> uniq_col u_Cellphone us then Some ''users_cellphone_key''
      else if \<not> uniq_col u_Email us then Some ''users_email_key''
      else if \<not> uniq_col u_WxOpenId us then Some ''users_wx_openid_key''
      else None)"

lemma users_violation_None: "users_violation us = None \<longleftrightarrow> users_ok us"
  by (auto simp: users_violation_def users_ok_def)

text \<open>\<open>UPDATE users SET ... WHERE ...\<close>: the number of rows, or the violated constraint.\<close>

definition upd_users :: "(User \<Rightarrow> bool) \<Rightarrow> (User \<Rightarrow> User) \<Rightarrow> ('c, int) dao" where
  "upd_users P f = db_stmt (\<lambda>w. let us = users (w_db w); us' = map (\<lambda>u. if P u then f u else u) us in
     case users_violation us' of
       Some c \<Rightarrow> (Err (PgUnique c), w)
     | None \<Rightarrow> (Ret (int (length (filter P us))), w\<lparr>w_db := (w_db w)\<lparr>users := us'\<rparr>\<rparr>))"

section \<open>\<open>InsertWithID\<close> and \<open>UserInsert\<close>\<close>

definition nonempty :: "string \<Rightarrow> string option" where
  "nonempty s = (if s = [] then None else Some s)"

text \<open>
  The inserted row; \<open>uid\<close> comes from the sequence, which moves also when the insertion fails. The
  address, avatar and gender columns are not among the inserted ones.
\<close>

definition user_row :: "u64 \<Rightarrow> int \<Rightarrow> UserReq \<Rightarrow> User" where
  "user_row uid now p = \<lparr>u_UID = uid, u_TenantID = r_TenantID p, u_Password = r_Password p,
     u_Cellphone = nonempty (r_Cellphone p), u_Email = nonempty (r_Email p), u_Nickname = nonempty (r_Nickname p),
     u_AvatarURL = None, u_Addr = None, u_Gender = None, u_WxOpenId = nonempty (r_WxOpenId p),
     u_Ext = stored_map (r_Ext p), u_CreateTime = now, u_UpdateTime = now, u_LoginTime = None, u_Tenant = None,
     u_Roles = [], u_Departments = [], u_CacheTime = 0\<rparr>"

definition InsertWithID :: "UserReq \<Rightarrow> ('c, u64) dao" where
  "InsertWithID p = tryWrap
     (db_stmt (\<lambda>w. let uid = users_uid_seq (w_seqs w) + 1; w1 = w\<lparr>w_seqs := (w_seqs w)\<lparr>users_uid_seq := uid\<rparr>\<rparr>;
          us' = users (w_db w) @ [user_row uid (w_now w) p]
        in case users_violation us' of
             Some c \<Rightarrow> (Err (PgUnique c), w1)
           | None \<Rightarrow> (Ret uid, w1\<lparr>w_db := (w_db w)\<lparr>users := us'\<rparr>\<rparr>))) ret"

definition UserInsert :: "UserReq \<Rightarrow> ('c, u64) dao" where
  "UserInsert p = tryE (InsertWithID p) ret"

section \<open>Updates\<close>

definition set_if :: "bool \<Rightarrow> ('a \<Rightarrow> 'a) \<Rightarrow> 'a \<Rightarrow> 'a" where
  "set_if c f x = (if c then f x else x)"

text \<open>The columns of an update: the given fields, gender only when it is 1 or 2.\<close>

definition apply_update :: "UserReq \<Rightarrow> User \<Rightarrow> User" where
  "apply_update p u =
     set_if (r_Cellphone p \<noteq> []) (\<lambda>u. u\<lparr>u_Cellphone := Some (r_Cellphone p)\<rparr>)
     (set_if (r_Email p \<noteq> []) (\<lambda>u. u\<lparr>u_Email := Some (r_Email p)\<rparr>)
     (set_if (r_Nickname p \<noteq> []) (\<lambda>u. u\<lparr>u_Nickname := Some (r_Nickname p)\<rparr>)
     (set_if (r_Addr p \<noteq> []) (\<lambda>u. u\<lparr>u_Addr := Some (r_Addr p)\<rparr>)
     (set_if (r_Gender p = 1 \<or> r_Gender p = 2) (\<lambda>u. u\<lparr>u_Gender := Some (r_Gender p)\<rparr>)
     (set_if (r_AvatarURL p \<noteq> []) (\<lambda>u. u\<lparr>u_AvatarURL := Some (r_AvatarURL p)\<rparr>) u)))))"

definition UserUpdate :: "UserReq \<Rightarrow> ('c, int) dao" where
  "UserUpdate p =
     (if r_Cellphone p = [] \<and> r_Email p = [] \<and> r_Nickname p = [] \<and> r_Addr p = []
         \<and> \<not> (r_Gender p = 1 \<or> r_Gender p = 2) \<and> r_AvatarURL p = []
      then ret 0
      else upd_users (\<lambda>u. u_UID u = r_UID p) (apply_update p))"

definition UserUpdateExt :: "u64 \<Rightarrow> MapStruct \<Rightarrow> ('c, int) dao" where
  "UserUpdateExt uid ext = upd_users (\<lambda>u. u_UID u = uid) (\<lambda>u. u\<lparr>u_Ext := stored_map ext\<rparr>)"

definition UserUpdatePWD :: "u64 \<Rightarrow> string \<Rightarrow> string \<Rightarrow> ('c, int) dao" where
  "UserUpdatePWD UID oldPWD newPWD =
     upd_users (\<lambda>u. u_UID u = UID \<and> u_Password u = oldPWD) (\<lambda>u. u\<lparr>u_Password := newPWD\<rparr>)"

definition UserUpdatePWDByCellphone :: "string \<Rightarrow> string \<Rightarrow> ('c, int) dao" where
  "UserUpdatePWDByCellphone cellphone newPWD =
     upd_users (\<lambda>u. u_Cellphone u = Some cellphone) (\<lambda>u. u\<lparr>u_Password := newPWD\<rparr>)"

definition UserUpdateWxOpenIdByCellphone :: "string \<Rightarrow> string \<Rightarrow> ('c, int) dao" where
  "UserUpdateWxOpenIdByCellphone cellphone wxOpenId = reads w_now (\<lambda>now.
     upd_users (\<lambda>u. u_Cellphone u = Some cellphone) (\<lambda>u. u\<lparr>u_WxOpenId := Some wxOpenId, u_UpdateTime := now\<rparr>))"

definition SetUserPWD_dao :: "u64 \<Rightarrow> u64 \<Rightarrow> string \<Rightarrow> ('c, int) dao" where
  "SetUserPWD_dao uid tid pwd =
     upd_users (\<lambda>u. u_UID u = uid \<and> (tid > 0 \<longrightarrow> u_TenantID u = tid)) (\<lambda>u. u\<lparr>u_Password := pwd\<rparr>)"

definition UserUpdateTenantID :: "u64 \<Rightarrow> u64 \<Rightarrow> u64 \<Rightarrow> ('c, int) dao" where
  "UserUpdateTenantID UID tenantID currTenantID =
     upd_users (\<lambda>u. u_UID u = UID \<and> u_TenantID u = currTenantID) (\<lambda>u. u\<lparr>u_TenantID := tenantID\<rparr>)"

definition UserUpdateLoginTime :: "u64 \<Rightarrow> int \<Rightarrow> ('c, int) dao" where
  "UserUpdateLoginTime UID t = upd_users (\<lambda>u. u_UID u = UID) (\<lambda>u. u\<lparr>u_LoginTime := Some t\<rparr>)"

text \<open>\<open>ON DELETE CASCADE\<close> removes the rows of \<open>user_closure\<close>.\<close>

definition UserDelete :: "u64 \<Rightarrow> u64 \<Rightarrow> ('c, int) dao" where
  "UserDelete uid tid = db_exec (\<lambda>d. let P = (\<lambda>u. u_UID u = uid \<and> u_TenantID u = tid) in
     (int (length (filter P (users d))),
      d\<lparr>users := filter (\<lambda>u. \<not> P u) (users d),
        user_closure := (if list_ex P (users d) then cascade_delete uid (user_closure d) else user_closure d)\<rparr>))"

section \<open>Queries\<close>

definition UserQueryByID :: "u64 \<Rightarrow> ('c, User option) dao" where
  "UserQueryByID uid = db_query (\<lambda>d. find (\<lambda>u. u_UID u = uid) (users d))"

text \<open>The conjunction of the given fields; no given field means no restriction.\<close>

definition match_req :: "UserReq \<Rightarrow> User \<Rightarrow> bool" where
  "match_req p u \<longleftrightarrow> (r_UID p > 0 \<longrightarrow> u_UID u = r_UID p)
     \<and> (r_Cellphone p \<noteq> [] \<longrightarrow> u_Cellphone u = Some (r_Cellphone p))
     \<and> (r_Email p \<noteq> [] \<longrightarrow> u_Email u = Some (r_Email p))
     \<and> (r_Nickname p \<noteq> [] \<longrightarrow> u_Nickname u = Some (r_Nickname p))
     \<and> (r_WxOpenId p \<noteq> [] \<longrightarrow> u_WxOpenId u = Some (r_WxOpenId p))"

definition UserQueryOne :: "UserReq \<Rightarrow> ('c, User option) dao" where
  "UserQueryOne p = db_query (\<lambda>d. find (match_req p) (users d))"

definition UserQuery :: "UserReq \<Rightarrow> u64 \<Rightarrow> u64 \<Rightarrow> ('c, User list) dao" where
  "UserQuery p pageNo pageSize =
     db_query (\<lambda>d. page_of (if pageNo < 1 then 1 else pageNo) pageSize (filter (match_req p) (users d)))"

text \<open>\<open>LIKE '%s%'\<close>, without the wild-card reading of \<open>%\<close> and \<open>_\<close> inside \<open>s\<close>.\<close>

definition like_opt :: "string \<Rightarrow> string option \<Rightarrow> bool" where
  "like_opt s c = (case c of None \<Rightarrow> False | Some t \<Rightarrow> is_substring s t)"

record UserLite =
  l_UID :: u64
  l_TenantID :: u64
  l_Nickname :: "string option"
  l_AvatarURL :: "string option"
  l_WxOpenId :: "string option"
  l_Ext :: MapStruct

definition to_lite :: "User \<Rightarrow> UserLite" where
  "to_lite u = \<lparr>l_UID = u_UID u, l_TenantID = u_TenantID u, l_Nickname = u_Nickname u,
     l_AvatarURL = u_AvatarURL u, l_WxOpenId = u_WxOpenId u, l_Ext = u_Ext u\<rparr>"

definition match_lite :: "UserReq \<Rightarrow> User \<Rightarrow> bool" where
  "match_lite p u \<longleftrightarrow> u_TenantID u = r_TenantID p
     \<and> (r_UID p \<noteq> 0 \<longrightarrow> u_UID u = r_UID p)
     \<and> (r_WxOpenId p \<noteq> [] \<longrightarrow> u_WxOpenId u = Some (r_WxOpenId p))
     \<and> (r_Cellphone p = [] \<and> r_Email p = [] \<and> r_Nickname p = []
        \<or> r_Cellphone p \<noteq> [] \<and> like_opt (r_Cellphone p) (u_Cellphone u)
        \<or> r_Email p \<noteq> [] \<and> like_opt (r_Email p) (u_Email u)
        \<or> r_Nickname p \<noteq> [] \<and> like_opt (r_Nickname p) (u_Nickname u))"

definition UserLiteQuery :: "UserReq \<Rightarrow> u64 \<Rightarrow> u64 \<Rightarrow> ('c, UserLite list) dao" where
  "UserLiteQuery p pageNo pageSize =
     db_query (\<lambda>d. map to_lite (page_of (if pageNo < 1 then 1 else pageNo) pageSize (filter (match_lite p) (users d))))"

text \<open>The caller passes the address of a \<open>[]protos.User\<close>.\<close>

definition match_business :: "UserReq \<Rightarrow> User \<Rightarrow> bool" where
  "match_business p u = match_req (p\<lparr>r_WxOpenId := []\<rparr>) u"

definition BusinessQuery :: "UserReq \<Rightarrow> u64 \<Rightarrow> u64 \<Rightarrow> ('c, User list) dao" where
  "BusinessQuery p pageNo pageSize = db_query (\<lambda>d.
     page_of pageNo pageSize (rev (sort_key u_UpdateTime (rev (filter (match_business p) (users d))))))"

section \<open>Weakest preconditions\<close>

lemma wp_upd_users [wp_simps]:
  "wp (upd_users P f) Q E w = (if db_fails w then E DbError (db_tick w)
     else case users_violation (map (\<lambda>u. if P u then f u else u) (users (w_db w))) of
         Some c \<Rightarrow> E (PgUnique c) (db_tick w)
       | None \<Rightarrow> Q (int (length (filter P (users (w_db w)))))
            ((db_tick w)\<lparr>w_db := (w_db w)\<lparr>users := map (\<lambda>u. if P u then f u else u) (users (w_db w))\<rparr>\<rparr>))"
  by (simp add: wp_def upd_users_def db_stmt_def Let_def split: option.splits)

lemma wp_UserInsert [wp_simps]:
  "wp (UserInsert p) Q E w = (if db_fails w then E (WrapErr DbError) (db_tick w)
     else let uid = users_uid_seq (w_seqs w) + 1; w1 = (db_tick w)\<lparr>w_seqs := (w_seqs w)\<lparr>users_uid_seq := uid\<rparr>\<rparr>;
              us' = users (w_db w) @ [user_row uid (w_now w) p]
          in case users_violation us' of
               Some c \<Rightarrow> E (WrapErr (PgUnique c)) w1
             | None \<Rightarrow> Q uid (w1\<lparr>w_db := (w_db w)\<lparr>users := us'\<rparr>\<rparr>))"
  by (simp add: wp_def UserInsert_def InsertWithID_def tryE_def tryWrap_def handle_def ret_def throw_def
      db_stmt_def Let_def split: option.splits)

text \<open>An update that leaves the unique columns alone cannot violate a constraint.\<close>

lemma users_violation_map:
  assumes "users_ok us" and "\<And>u. u_UID (g u) = u_UID u \<and> u_Cellphone (g u) = u_Cellphone u \<and> u_Email (g u) = u_Email u
     \<and> u_Nickname (g u) = u_Nickname u \<and> u_WxOpenId (g u) = u_WxOpenId u"
  shows "users_violation (map g us) = None"
proof -
  have "List.map_filter f (map g us) = List.map_filter f us" if "\<And>u. f (g u) = f u" for f :: "User \<Rightarrow> string option"
    using that by (induction us) (simp_all add: List.map_filter_simps split: option.split)
  moreover have "distinct_by u_UID (map g us) = distinct_by u_UID us"
    using assms(2) by (intro distinct_by_map_same) auto
  ultimately show ?thesis using assms by (simp add: users_violation_None users_ok_def uniq_col_def)
qed

end
