(* ===== verification/Tenant_Dao.thy ===== *)
theory Tenant_Dao
  imports User_Dao Closure_Dao
begin

text \<open>
  \<open>dao/tenant.dao.go\<close> (PostgreSQL dialect): the statements on \<open>tenants\<close> (primary key \<open>id\<close>, unique
  \<open>tenant_name\<close>) and the user listings of a tenant. The parent of a tenant is not a column: it is
  joined in from the depth-1 rows of \<open>tenant_closure\<close>.
\<close>

section \<open>Rows\<close>

definition stored_config :: "TenantConfiguration \<Rightarrow> TenantConfiguration" where
  "stored_config c = c\<lparr>More := stored_map (More c)\<rparr>"

definition tenants_violation :: "Tenant list \<Rightarrow> string option" where
  "tenants_violation ts =
     (if \<not> distinct_by t_ID ts then Some ''tenants_pkey''
      else if \<not> distinct_by t_TenantName ts then Some ''tenants_tenant_name_key''
      else None)"

definition tenant_row :: "u64 \<Rightarrow> int \<Rightarrow> Tenant \<Rightarrow> Tenant" where
  "tenant_row i now m = m\<lparr>t_ID := i, t_ParentID := 0, t_CreateTime := now, t_UpdateTime := now,
     t_Info := stored_map (t_Info m), t_Configuration := map_option stored_config (t_Configuration m), t_Depth := 0\<rparr>"

definition TenantInsert :: "Tenant \<Rightarrow> ('c, u64) dao" where
  "TenantInsert m =
     tryE (db_stmt (\<lambda>w. let i = tenants_id_seq (w_seqs w) + 1; w1 = w\<lparr>w_seqs := (w_seqs w)\<lparr>tenants_id_seq := i\<rparr>\<rparr>;
            ts' = tenants (w_db w) @ [tenant_row i (w_now w) m]
          in case tenants_violation ts' of
               Some c \<Rightarrow> (Err (PgUnique c), w1)
             | None \<Rightarrow> (Ret i, w1\<lparr>w_db := (w_db w)\<lparr>tenants := ts'\<rparr>\<rparr>))) (\<lambda>tenantID.
     if t_UID m = 0 then ret tenantID
     else tryE (upd_users (\<lambda>u. u_UID u = t_UID m \<and> u_TenantID u = 0) (\<lambda>u. u\<lparr>u_TenantID := tenantID\<rparr>)) (\<lambda>row.
       failIf (row \<noteq> 1) ErrTenantLimit (
       ret tenantID)))"

definition TenantNameExists :: "string \<Rightarrow> ('c, bool) dao" where
  "TenantNameExists tenantName = (let name = TrimSpace tenantName in
     if name = [] then ret False
     else db_query (\<lambda>d. list_ex (\<lambda>t. t_TenantName t = name) (tenants d)))"

section \<open>Queries\<close>

text \<open>\<open>LEFT JOIN tenant_closure tp ON tp.descendant_id = t.id AND tp.depth = 1\<close>\<close>

definition parents_of :: "u64 \<Rightarrow> closure \<Rightarrow> u64 list" where
  "parents_of i t = map (\<lambda>((a, d), n). a) (filter (\<lambda>((a, d), n). d = i \<and> n = 1) t)"

definition join_parent :: "closure \<Rightarrow> Tenant \<Rightarrow> Tenant list" where
  "join_parent c t = (case parents_of (t_ID t) c of
       [] \<Rightarrow> [t\<lparr>t_ParentID := 0\<rparr>]
     | ps \<Rightarrow> map (\<lambda>a. t\<lparr>t_ParentID := a\<rparr>) ps)"

definition TenantGetByID :: "u64 \<Rightarrow> ('c, Tenant option) dao" where
  "TenantGetByID tenantId =
     tryE (db_query (\<lambda>d. concat (map (join_parent (tenant_closure d)) (filter (\<lambda>t. t_ID t = tenantId) (tenants d))))) (\<lambda>rst.
     ret (if length rst = 1 then Some (hd rst) else None))"

definition TenantCount :: "('c, u64) dao" where
  "TenantCount = db_query (\<lambda>d. of_nat (length (tenants d)))"

text \<open>\<open>tenant_closure\<close> has no column \<open>id\<close>, so \<open>SELECT count(id)\<close> is an error of the server.\<close>

definition TenantCountByAncestorID :: "u64 \<Rightarrow> ('c, u64) dao" where
  "TenantCountByAncestorID ancestorID = db_stmt (throw DbError)"

definition TenantList :: "u64 \<Rightarrow> u64 \<Rightarrow> ('c, Tenant list) dao" where
  "TenantList page pageSize = db_query (\<lambda>d.
     page_of page pageSize (sort_key t_ID (concat (map (join_parent (tenant_closure d)) (tenants d)))))"

text \<open>
  The search: \<open>jsonText\<close> is the server's operator \<open>->>\<close> on the value of a key (the text of it, NULL for null);
  the wild-card reading of \<open>%\<close> and \<open>_\<close> inside the given strings is left out.
\<close>

definition match_tenant :: "(gval \<Rightarrow> string option) \<Rightarrow> string \<Rightarrow> string \<Rightarrow> Tenant \<Rightarrow> bool" where
  "match_tenant jsonText tenantName cellphone t \<longleftrightarrow>
     (tenantName \<noteq> [] \<longrightarrow> is_substring tenantName (t_TenantName t))
     \<and> (cellphone \<noteq> [] \<longrightarrow> like_opt cellphone (jsonText (gget (t_Info t) ''adminCellphone'')))"

definition TenantQuery :: "(gval \<Rightarrow> string option) \<Rightarrow> string \<Rightarrow> string \<Rightarrow> u64 \<Rightarrow> u64 \<Rightarrow> ('c, Tenant list) dao" where
  "TenantQuery jsonText tenantName cellphone page pageSize = db_query (\<lambda>d. page_of page pageSize
     (sort_key t_ID (concat (map (join_parent (tenant_closure d)) (filter (match_tenant jsonText tenantName cellphone) (tenants d))))))"

definition depth_rows :: "u64 \<Rightarrow> closure \<Rightarrow> Tenant \<Rightarrow> Tenant list" where
  "depth_rows ancestorID c t = concat (map (\<lambda>((a, d), n). if a = ancestorID \<and> d = t_ID t
     then map (\<lambda>t'. t'\<lparr>t_Depth := int n\<rparr>) (join_parent c t) else []) c)"

definition TenantListByAncestorID :: "u64 \<Rightarrow> u64 \<Rightarrow> u64 \<Rightarrow> ('c, Tenant list) dao" where
  "TenantListByAncestorID ancestorID page pageSize = db_query (\<lambda>d.
     page_of page pageSize (sort_key t_ID (concat (map (depth_rows ancestorID (tenant_closure d)) (tenants d)))))"

section \<open>Updates\<close>

text \<open>An optimistic lock: the row is written only when its \<open>update_time\<close> is the one that was read.\<close>

definition TenantUpdateConfiguration_dao :: "Tenant \<Rightarrow> ('c, unit) dao" where
  "TenantUpdateConfiguration_dao m = reads w_now (\<lambda>now.
     tryE (db_exec (\<lambda>d. let P = (\<lambda>t. t_ID t = t_ID m \<and> t_UpdateTime t = t_UpdateTime m) in
         (length (filter P (tenants d)),
          d\<lparr>tenants := map (\<lambda>t. if P t
             then t\<lparr>t_Configuration := map_option stored_config (t_Configuration m), t_UpdateTime := now\<rparr> else t) (tenants d)\<rparr>))) (\<lambda>rowsAffected.
     if rowsAffected = 0
     then tryE (db_query (\<lambda>d. list_ex (\<lambda>t. t_ID t = t_ID m) (tenants d))) (\<lambda>ex.
       failIf (\<not> ex) ErrTenantNotFound (throw ErrModify))
     else ret ()))"

definition TenantUpdateBase :: "Tenant \<Rightarrow> ('c, unit) dao" where
  "TenantUpdateBase m = reads w_now (\<lambda>now.
     tryE (db_stmt (\<lambda>w. let ts = tenants (w_db w); ts' = map (\<lambda>t. if t_ID t = t_ID m
           then t\<lparr>t_TenantName := t_TenantName m, t_TenantType := t_TenantType m, t_Info := stored_map (t_Info m), t_UpdateTime := now\<rparr> else t) ts
         in case tenants_violation ts' of
              Some c \<Rightarrow> (Err (PgUnique c), w)
            | None \<Rightarrow> (Ret (length (filter (\<lambda>t. t_ID t = t_ID m) ts)), w\<lparr>w_db := (w_db w)\<lparr>tenants := ts'\<rparr>\<rparr>))) (\<lambda>rowsAffected.
     failIf (rowsAffected = 0) ErrTenantNotFound (ret ())))"

section \<open>Users of a tenant\<close>

text \<open>The selected columns; the others keep their zero value.\<close>

definition listed_user :: "User \<Rightarrow> User" where
  "listed_user u = u\<lparr>u_Password := [], u_WxOpenId := None, u_UpdateTime := 0, u_LoginTime := None\<rparr>"

definition match_listed :: "string \<Rightarrow> u64 list \<Rightarrow> User \<Rightarrow> bool" where
  "match_listed nickname uids u \<longleftrightarrow>
     (if nickname \<noteq> [] then like_opt nickname (u_Nickname u) else uids \<noteq> [] \<longrightarrow> u_UID u \<in> set uids)"

definition UserQueryByTenant :: "u64 \<Rightarrow> u64 \<Rightarrow> u64 \<Rightarrow> string \<Rightarrow> u64 list \<Rightarrow> ('c, User list) dao" where
  "UserQueryByTenant tenantID page pageSize nickname uids = db_query (\<lambda>d. map listed_user
     (page_of page pageSize (filter (\<lambda>u. u_TenantID u = tenantID \<and> match_listed nickname uids u) (users d))))"

definition UserCountByTenant :: "u64 \<Rightarrow> string \<Rightarrow> u64 list \<Rightarrow> ('c, u64) dao" where
  "UserCountByTenant tenantID nickname uids = db_query (\<lambda>d.
     of_nat (length (filter (\<lambda>u. u_TenantID u = tenantID \<and> match_listed nickname uids u) (users d))))"

section \<open>Under the tree invariant\<close>

definition find_tenant :: "u64 \<Rightarrow> db \<Rightarrow> Tenant option" where
  "find_tenant i d = find (\<lambda>t. t_ID t = i) (tenants d)"

definition parent_id :: "(u64 \<rightharpoonup> u64) \<Rightarrow> u64 \<Rightarrow> u64" where
  "parent_id p i = (case p i of None \<Rightarrow> 0 | Some a \<Rightarrow> a)"

lemma parents_of_inv:
  assumes inv: "closure_inv N p t"
  shows "parents_of i t = (case p i of None \<Rightarrow> [] | Some a \<Rightarrow> [a])"
proof -
  have dist: "distinct (map fst t)" by (rule invD(2) [OF inv])
  have mem: "((a, i), Suc 0) \<in> set t \<longleftrightarrow> p i = Some a" for a
    using invD(5) [OF inv, of a i] dist by simp
  have eq: "set (parents_of i t) = {a. p i = Some a}"
    unfolding parents_of_def using mem by force
  have "distinct (parents_of i t)"
    using dist unfolding parents_of_def by (induction t) (force simp: image_iff)+
  then have len: "length (parents_of i t) = card {a. p i = Some a}" using eq distinct_card by metis
  show ?thesis
  proof (cases "p i")
    case None
    with eq show ?thesis by simp
  next
    case (Some a)
    with len have "length (parents_of i t) = 1" by simp
    then obtain b where b: "parents_of i t = [b]" by (metis One_nat_def length_0_conv length_Suc_conv)
    with eq Some have "b = a" by (auto simp: set_eq_iff)
    with b Some show ?thesis by simp
  qed
qed

lemma filter_key_find:
  "distinct_by f xs \<Longrightarrow> filter (\<lambda>x. f x = k) xs = (case find (\<lambda>x. f x = k) xs of None \<Rightarrow> [] | Some x \<Rightarrow> [x])"
proof (induction xs)
  case (Cons a xs)
  then have "f a \<notin> f ` set xs" by (simp add: distinct_by_def)
  then have "f a = k \<Longrightarrow> filter (\<lambda>x. f x = k) xs = []" by (auto simp: filter_empty_conv image_iff)
  with Cons show ?case by (auto simp: distinct_by_def)
qed simp

lemma find_tenant_ID: "find_tenant i d = Some t \<Longrightarrow> t_ID t = i"
  by (auto simp: find_tenant_def find_Some_iff)

lemma join_parent_inv:
  assumes "closure_inv N p c"
  shows "join_parent c t = [t\<lparr>t_ParentID := parent_id p (t_ID t)\<rparr>]"
  unfolding join_parent_def parents_of_inv [OF assms] parent_id_def by (cases "p (t_ID t)") simp_all

lemma wp_TenantGetByID:
  assumes inv: "closure_inv N p (tenant_closure (w_db w))" and dist: "distinct_by t_ID (tenants (w_db w))"
  shows "wp (TenantGetByID i)
    (\<lambda>r w'. w' = db_tick w \<and> r = map_option (\<lambda>t. t\<lparr>t_ParentID := parent_id p i\<rparr>) (find_tenant i (w_db w)))
    (\<lambda>e w'. e = DbError \<and> w' = db_tick w \<and> w_faults w \<noteq> []) w"
proof (cases "find_tenant i (w_db w)")
  case None
  then have "filter (\<lambda>t. t_ID t = i) (tenants (w_db w)) = []"
    using filter_key_find [OF dist, of i] by (simp add: find_tenant_def)
  with None show ?thesis by (simp add: TenantGetByID_def wp_simps db_fails_def)
next
  case (Some t)
  then have "filter (\<lambda>t. t_ID t = i) (tenants (w_db w)) = [t]"
    using filter_key_find [OF dist, of i] by (simp add: find_tenant_def)
  with Some find_tenant_ID [OF Some] show ?thesis
    by (simp add: TenantGetByID_def wp_simps db_fails_def join_parent_inv [OF inv])
qed

lemma page_all:
  assumes "length xs < unat pageSize"
  shows "page_of 1 pageSize xs = xs"
  using assms by (simp add: page_of_def page_offset_def)

end
