(* ===== verification/Org_Dao.thy ===== *)
theory Org_Dao
  imports Tenant_Dao
begin

text \<open>
  \<open>dao/org.dao.go\<close>, \<open>dao/department.dao.go\<close> and \<open>dao/permission.dao.go\<close>: organizations (unique name per
  tenant), their members (key \<open>(org_id, uid)\<close>), departments (unique name per tenant and organization)
  and the permission dictionary.
\<close>

section \<open>Organizations\<close>

definition orgs_violation :: "Organization list \<Rightarrow> string option" where
  "orgs_violation os =
     (if \<not> distinct_by o_ID os then Some ''organizations_pkey''
      else if \<not> distinct_by (\<lambda>r. (o_TenantID r, o_Name r)) os then Some ''organizations_tenant_id_name_key''
      else None)"

text \<open>The argument is a non-nil pointer at every call.\<close>

definition OrgInsert :: "u64 \<Rightarrow> string \<Rightarrow> ('c, u64) dao" where
  "OrgInsert tenantID name =
     failIf (tenantID = 0 \<or> TrimSpace name = []) ErrParam
     (db_stmt (\<lambda>w. let i = organizations_id_seq (w_seqs w) + 1; w1 = w\<lparr>w_seqs := (w_seqs w)\<lparr>organizations_id_seq := i\<rparr>\<rparr>;
          os' = organizations (w_db w) @ [\<lparr>o_ID = i, o_TenantID = tenantID, o_Name = TrimSpace name,
                  o_CreateTime = w_now w, o_UpdateTime = w_now w\<rparr>]
        in case orgs_violation os' of
             Some c \<Rightarrow> (Err (PgUnique c), w1)
           | None \<Rightarrow> (Ret i, w1\<lparr>w_db := (w_db w)\<lparr>organizations := os'\<rparr>\<rparr>)))"

definition OrgGetByTenantName_dao :: "u64 \<Rightarrow> string \<Rightarrow> ('c, Organization option) dao" where
  "OrgGetByTenantName_dao tenantID name = (let n = TrimSpace name in
     if tenantID = 0 \<or> n = [] then ret None
     else db_query (\<lambda>d. find (\<lambda>r. o_TenantID r = tenantID \<and> o_Name r = n) (organizations d)))"

definition OrgGetByID :: "u64 \<Rightarrow> ('c, Organization option) dao" where
  "OrgGetByID i = (if i = 0 then ret None else db_query (\<lambda>d. find (\<lambda>r. o_ID r = i) (organizations d)))"

definition OrgListByTenant_dao :: "u64 \<Rightarrow> ('c, Organization list) dao" where
  "OrgListByTenant_dao tenantID = failIf (tenantID = 0) ErrParam
     (db_query (\<lambda>d. sort_key o_ID (filter (\<lambda>r. o_TenantID r = tenantID) (organizations d))))"

text \<open>\<open>(org_id, uid)\<close> is the key of \<open>org_members\<close>, so the inner join yields each organization once.\<close>

definition OrgListByUser_dao :: "u64 \<Rightarrow> u64 \<Rightarrow> ('c, Organization list) dao" where
  "OrgListByUser_dao uid tenantID = failIf (uid = 0 \<or> tenantID = 0) ErrParam
     (db_query (\<lambda>d. sort_key o_ID (filter (\<lambda>r. o_TenantID r = tenantID
         \<and> list_ex (\<lambda>m. m_OrgID m = o_ID r \<and> m_UID m = uid) (org_members d)) (organizations d))))"

section \<open>Members\<close>

definition OrgMemberInsert :: "u64 \<Rightarrow> u64 \<Rightarrow> u64 \<Rightarrow> ('c, unit) dao" where
  "OrgMemberInsert orgID uid tenantID = failIf (orgID = 0 \<or> uid = 0 \<or> tenantID = 0) ErrParam
     (reads w_now (\<lambda>now. db_exec (\<lambda>d. ((),
        if list_ex (\<lambda>m. m_OrgID m = orgID \<and> m_UID m = uid) (org_members d) then d
        else d\<lparr>org_members := org_members d @ [\<lparr>m_OrgID = orgID, m_UID = uid, m_TenantID = tenantID, m_CreateTime = now\<rparr>]\<rparr>))))"

definition OrgMemberDelete :: "u64 \<Rightarrow> u64 \<Rightarrow> ('c, unit) dao" where
  "OrgMemberDelete orgID uid = failIf (orgID = 0 \<or> uid = 0) ErrParam
     (db_exec (\<lambda>d. ((), d\<lparr>org_members := filter (\<lambda>m. \<not> (m_OrgID m = orgID \<and> m_UID m = uid)) (org_members d)\<rparr>)))"

definition OrgMemberDeleteByOrg :: "u64 \<Rightarrow> ('c, unit) dao" where
  "OrgMemberDeleteByOrg orgID = failIf (orgID = 0) ErrParam
     (db_exec (\<lambda>d. ((), d\<lparr>org_members := filter (\<lambda>m. m_OrgID m \<noteq> orgID) (org_members d)\<rparr>)))"

definition OrgDelete_dao :: "u64 \<Rightarrow> u64 \<Rightarrow> ('c, unit) dao" where
  "OrgDelete_dao i tenantID = failIf (i = 0 \<or> tenantID = 0) ErrParam
     (db_exec (\<lambda>d. ((), d\<lparr>organizations := filter (\<lambda>r. \<not> (o_ID r = i \<and> o_TenantID r = tenantID)) (organizations d)\<rparr>)))"

definition OrgMemberExists :: "u64 \<Rightarrow> u64 \<Rightarrow> ('c, bool) dao" where
  "OrgMemberExists orgID uid = (if orgID = 0 \<or> uid = 0 then ret False
     else db_query (\<lambda>d. list_ex (\<lambda>m. m_OrgID m = orgID \<and> m_UID m = uid) (org_members d)))"

definition OrgMemberCountByUser :: "u64 \<Rightarrow> u64 \<Rightarrow> ('c, nat) dao" where
  "OrgMemberCountByUser uid tenantID =
     db_query (\<lambda>d. length (filter (\<lambda>m. m_UID m = uid \<and> m_TenantID m = tenantID) (org_members d)))"

definition OrgMemberUIDs :: "u64 \<Rightarrow> ('c, u64 list) dao" where
  "OrgMemberUIDs orgID = failIf (orgID = 0) ErrParam
     (db_query (\<lambda>d. filter (\<lambda>u. u > 0) (map m_UID (filter (\<lambda>m. m_OrgID m = orgID) (org_members d)))))"

definition org_users :: "u64 \<Rightarrow> u64 \<Rightarrow> db \<Rightarrow> User list" where
  "org_users tenantID orgID d = filter (\<lambda>u. u_TenantID u = tenantID
     \<and> list_ex (\<lambda>m. m_UID m = u_UID u \<and> m_OrgID m = orgID) (org_members d)) (users d)"

definition UserQueryByOrg :: "u64 \<Rightarrow> u64 \<Rightarrow> u64 \<Rightarrow> u64 \<Rightarrow> string \<Rightarrow> u64 list \<Rightarrow> ('c, User list) dao" where
  "UserQueryByOrg tenantID orgID page pageSize nickname uids = failIf (tenantID = 0 \<or> orgID = 0) ErrParam
     (db_query (\<lambda>d. map listed_user (page_of (if page = 0 then 1 else page) (if pageSize = 0 then 100 else pageSize)
        (filter (match_listed nickname uids) (org_users tenantID orgID d)))))"

definition UserCountByOrg :: "u64 \<Rightarrow> u64 \<Rightarrow> string \<Rightarrow> u64 list \<Rightarrow> ('c, u64) dao" where
  "UserCountByOrg tenantID orgID nickname uids = failIf (tenantID = 0 \<or> orgID = 0) ErrParam
     (db_query (\<lambda>d. of_nat (length (filter (match_listed nickname uids) (org_users tenantID orgID d)))))"

definition DepartmentAssignOrphan :: "u64 \<Rightarrow> u64 \<Rightarrow> ('c, unit) dao" where
  "DepartmentAssignOrphan tenantID orgID = failIf (tenantID = 0 \<or> orgID = 0) ErrParam
     (db_stmt (\<lambda>w. let ds' = map (\<lambda>r. if d_TenantID r = tenantID \<and> d_OrgID r = 0 then r\<lparr>d_OrgID := orgID\<rparr> else r) (departments (w_db w))
        in if distinct_by (\<lambda>r. (d_TenantID r, d_OrgID r, d_Name r)) ds'
           then (Ret (), w\<lparr>w_db := (w_db w)\<lparr>departments := ds'\<rparr>\<rparr>)
           else (Err (PgUnique ''departments_tenant_id_org_id_name_key''), w)))"

section \<open>Departments\<close>

definition deps_violation :: "Department list \<Rightarrow> string option" where
  "deps_violation ds =
     (if \<not> distinct_by d_Id ds then Some ''departments_pkey''
      else if \<not> distinct_by (\<lambda>r. (d_TenantID r, d_OrgID r, d_Name r)) ds then Some ''departments_tenant_id_org_id_name_key''
      else None)"

definition DepartmentCreate_dao :: "Department \<Rightarrow> ('c, u64) dao" where
  "DepartmentCreate_dao m = db_stmt (\<lambda>w. let i = departments_id_seq (w_seqs w) + 1;
       w1 = w\<lparr>w_seqs := (w_seqs w)\<lparr>departments_id_seq := i\<rparr>\<rparr>;
       ds' = departments (w_db w) @ [m\<lparr>d_Id := i, d_CreateTime := w_now w, d_UpdateTime := w_now w, d_Config := []\<rparr>]
     in case deps_violation ds' of
          Some c \<Rightarrow> (Err (PgUnique c), w1)
        | None \<Rightarrow> (Ret i, w1\<lparr>w_db := (w_db w)\<lparr>departments := ds'\<rparr>\<rparr>))"

definition DepartmentDelete_dao :: "u64 \<Rightarrow> u64 \<Rightarrow> ('c, nat) dao" where
  "DepartmentDelete_dao i tenantID = db_exec (\<lambda>d. let P = (\<lambda>r. d_Id r = i \<and> d_TenantID r = tenantID) in
     (length (filter P (departments d)), d\<lparr>departments := filter (\<lambda>r. \<not> P r) (departments d)\<rparr>))"

definition DepartmentDeleteByOrg :: "u64 \<Rightarrow> u64 \<Rightarrow> ('c, unit) dao" where
  "DepartmentDeleteByOrg tenantID orgID = failIf (tenantID = 0 \<or> orgID = 0) ErrParam
     (db_exec (\<lambda>d. ((), d\<lparr>departments := filter (\<lambda>r. \<not> (d_TenantID r = tenantID \<and> d_OrgID r = orgID)) (departments d)\<rparr>)))"

definition DepartmentUpdate_dao :: "Department \<Rightarrow> ('c, nat) dao" where
  "DepartmentUpdate_dao m = db_stmt (\<lambda>w. let P = (\<lambda>r. d_Id r = d_Id m \<and> d_TenantID r = d_TenantID m); ds = departments (w_db w);
       ds' = map (\<lambda>r. if P r then r\<lparr>d_Name := d_Name m\<rparr> else r) ds
     in case deps_violation ds' of
          Some c \<Rightarrow> (Err (PgUnique c), w)
        | None \<Rightarrow> (Ret (length (filter P ds)), w\<lparr>w_db := (w_db w)\<lparr>departments := ds'\<rparr>\<rparr>))"

definition DepartmentUpdateConfig_dao :: "Department \<Rightarrow> ('c, nat) dao" where
  "DepartmentUpdateConfig_dao m = db_exec (\<lambda>d. (length (filter (\<lambda>r. d_Id r = d_Id m) (departments d)),
     d\<lparr>departments := map (\<lambda>r. if d_Id r = d_Id m then r\<lparr>d_Config := stored_map (d_Config m)\<rparr> else r) (departments d)\<rparr>))"

text \<open>\<open>ORDER BY update_time DESC\<close>; rows with equal times keep the table order.\<close>

definition DepartmentFind_dao :: "u64 \<Rightarrow> u64 \<Rightarrow> u64 \<Rightarrow> u64 \<Rightarrow> u64 \<Rightarrow> ('c, Department list) dao" where
  "DepartmentFind_dao i tenantId orgId page pageSize = db_query (\<lambda>d.
     let rows = rev (sort_key d_UpdateTime (rev (filter (\<lambda>r. d_TenantID r = tenantId \<and> (i > 0 \<longrightarrow> d_Id r = i)
           \<and> (orgId > 0 \<longrightarrow> d_OrgID r = orgId)) (departments d))))
     in if page > 0 \<and> pageSize > 0 then page_of page pageSize rows else rows)"

section \<open>Permissions\<close>

definition perms_violation :: "PermissionStruct list \<Rightarrow> string option" where
  "perms_violation ps =
     (if \<not> distinct_by p_ID ps then Some ''permission_pkey''
      else if \<not> distinct_by (\<lambda>r. (p_TenantID r, p_Domain r, p_Title r)) ps then Some ''permission_tenant_id_domain_title_key''
      else if \<not> distinct_by (\<lambda>r. (p_Value r, p_Domain r, p_TenantID r)) ps then Some ''permission_value_domain_tenant_id_key''
      else None)"

text \<open>The result is the number of rows, not the new identifier.\<close>

definition PermissionCreate_dao :: "PermissionStruct \<Rightarrow> ('c, nat) dao" where
  "PermissionCreate_dao m = handle
     (db_stmt (\<lambda>w. let i = permission_id_seq (w_seqs w) + 1; w1 = w\<lparr>w_seqs := (w_seqs w)\<lparr>permission_id_seq := i\<rparr>\<rparr>;
          ps' = permissions (w_db w) @ [m\<lparr>p_ID := i, p_CreateTime := w_now w, p_UpdateTime := w_now w\<rparr>]
        in case perms_violation ps' of
             Some c \<Rightarrow> (Err (PgUnique c), w1)
           | None \<Rightarrow> (Ret (1 :: nat), w1\<lparr>w_db := (w_db w)\<lparr>permissions := ps'\<rparr>\<rparr>)))
     (\<lambda>e. case e of PgUnique _ \<Rightarrow> throw ErrPgDupKey | _ \<Rightarrow> throw e) ret"

definition PermissionDelete_dao :: "u64 \<Rightarrow> u64 \<Rightarrow> ('c, nat) dao" where
  "PermissionDelete_dao i tenantID = db_exec (\<lambda>d. let P = (\<lambda>r. p_ID r = i \<and> p_TenantID r = tenantID) in
     (length (filter P (permissions d)), d\<lparr>permissions := filter (\<lambda>r. \<not> P r) (permissions d)\<rparr>))"

definition PermissionList_dao :: "u64 \<Rightarrow> string \<Rightarrow> ('c, PermissionStruct list) dao" where
  "PermissionList_dao tenantID domain =
     db_query (\<lambda>d. filter (\<lambda>r. p_TenantID r = tenantID \<and> p_Domain r = domain) (permissions d))"

end
