(* ===== verification/Access_Control.thy ===== *)
theory Access_Control
  imports Org_Dao
begin

text \<open>
  \<open>accessctl/access.go\<close> and \<open>accessctl/access_casbin.go\<close>. The enforcer is the casbin library; it is
  a parameter here: a record of its operations on a state \<open>'c\<close>. What the code relies on is stated in
  \<open>casbin_ok\<close>, after casbin's documentation: the policy and grouping rules as two sets, the effect of
  each operation on them, and the evaluation of the matcher of \<open>rbac_with_domains_model.conf\<close>.
  \<open>ref_casbin\<close> is a plain list implementation that meets it.

  The theorems: the names built for users and domains never collide, so an operation on one
  organization cannot change what another organization allows.
\<close>

section \<open>The enforcer\<close>

type_synonym rule = "string \<times> string \<times> string \<times> string"   \<comment> \<open>sub, dom, obj, act\<close>
type_synonym grouping = "string \<times> string \<times> string"            \<comment> \<open>user, role, dom\<close>

record 'c casbin =
  cb_Enforce :: "string \<Rightarrow> string \<Rightarrow> string \<Rightarrow> string \<Rightarrow> 'c \<Rightarrow> (gerr, bool) res"
  cb_AddPolicy :: "rule \<Rightarrow> ('c, gerr, bool) prog"
  cb_RemovePolicy :: "rule \<Rightarrow> ('c, gerr, bool) prog"
  cb_HasPolicy :: "rule \<Rightarrow> 'c \<Rightarrow> (gerr, bool) res"
  cb_GetFilteredPolicy :: "string \<Rightarrow> 'c \<Rightarrow> (gerr, string list list) res"
  cb_RemoveFilteredPolicy :: "string \<Rightarrow> ('c, gerr, bool) prog"
  cb_AddRole :: "grouping \<Rightarrow> ('c, gerr, bool) prog"
  cb_DeleteRole :: "grouping \<Rightarrow> ('c, gerr, bool) prog"
  cb_DeleteRoles :: "string \<Rightarrow> string \<Rightarrow> ('c, gerr, bool) prog"
  cb_GetRoles :: "string \<Rightarrow> string \<Rightarrow> 'c \<Rightarrow> string list"
  cb_GetUsers :: "string \<Rightarrow> string \<Rightarrow> 'c \<Rightarrow> string list"
  cb_GetFilteredGrouping :: "string \<Rightarrow> 'c \<Rightarrow> (gerr, string list list) res"
  cb_RemoveFilteredGrouping :: "string \<Rightarrow> ('c, gerr, bool) prog"

text \<open>A call of the enforcer from a service.\<close>

definition lift_cb :: "('c, gerr, 'a) prog \<Rightarrow> ('c, 'a) dao" where
  "lift_cb m = (\<lambda>w. case m (w_casbin w) of (r, c) \<Rightarrow> (r, w\<lparr>w_casbin := c\<rparr>))"

definition read_cb :: "('c \<Rightarrow> (gerr, 'a) res) \<Rightarrow> ('c, 'a) dao" where
  "read_cb f = (\<lambda>w. (f (w_casbin w), w))"

section \<open>Names\<close>

definition genUserByUID :: "u64 \<Rightarrow> string" where
  "genUserByUID uid = ''uid-'' @ show_u64 uid"

definition Domain :: "u64 \<Rightarrow> u64 \<Rightarrow> string" where
  "Domain tenantID orgID = ''tenant-'' @ show_u64 tenantID @ ''-org-'' @ show_u64 orgID"

definition LegacyTenantDomain :: "u64 \<Rightarrow> string" where
  "LegacyTenantDomain tenantID = ''tenant-'' @ show_u64 tenantID"

section \<open>\<open>access_casbin.go\<close>\<close>

definition enforce :: "'c casbin \<Rightarrow> string \<Rightarrow> string \<Rightarrow> string \<Rightarrow> string \<Rightarrow> ('c, bool) dao" where
  "enforce cb sub domain obj act = read_cb (cb_Enforce cb sub domain obj act)"

definition addPolicy :: "'c casbin \<Rightarrow> string \<Rightarrow> string \<Rightarrow> string \<Rightarrow> string \<Rightarrow> ('c, unit) dao" where
  "addPolicy cb sub domain obj act = tryE (lift_cb (cb_AddPolicy cb (sub, domain, obj, act))) (\<lambda>_. ret ())"

definition removePolicy :: "'c casbin \<Rightarrow> string \<Rightarrow> string \<Rightarrow> string \<Rightarrow> string \<Rightarrow> ('c, unit) dao" where
  "removePolicy cb sub domain obj act = tryE (lift_cb (cb_RemovePolicy cb (sub, domain, obj, act))) (\<lambda>_. ret ())"

definition getFilteredPolicy :: "'c casbin \<Rightarrow> string \<Rightarrow> ('c, string list list) dao" where
  "getFilteredPolicy cb domain = read_cb (cb_GetFilteredPolicy cb domain)"

definition HasPolicy :: "'c casbin \<Rightarrow> string \<Rightarrow> string \<Rightarrow> string \<Rightarrow> string \<Rightarrow> ('c, bool) dao" where
  "HasPolicy cb sub domain obj act = read_cb (cb_HasPolicy cb (sub, domain, obj, act))"

definition addRoleForUserInDomain :: "'c casbin \<Rightarrow> string \<Rightarrow> string \<Rightarrow> string \<Rightarrow> ('c, unit) dao" where
  "addRoleForUserInDomain cb user role domain = tryE (lift_cb (cb_AddRole cb (user, role, domain))) (\<lambda>_. ret ())"

definition deleteRolesForUserInDomain :: "'c casbin \<Rightarrow> string \<Rightarrow> string \<Rightarrow> ('c, unit) dao" where
  "deleteRolesForUserInDomain cb user domain = tryE (lift_cb (cb_DeleteRoles cb user domain)) (\<lambda>_. ret ())"

definition deleteRoleForUserInDomain :: "'c casbin \<Rightarrow> string \<Rightarrow> string \<Rightarrow> string \<Rightarrow> ('c, unit) dao" where
  "deleteRoleForUserInDomain cb user role domain = tryE (lift_cb (cb_DeleteRole cb (user, role, domain))) (\<lambda>_. ret ())"

definition getRoleForUserInDomain :: "'c casbin \<Rightarrow> string \<Rightarrow> string \<Rightarrow> ('c, string list) dao" where
  "getRoleForUserInDomain cb user domain = reads w_casbin (\<lambda>c. ret (cb_GetRoles cb user domain c))"

definition getUsersForRoleInDomain :: "'c casbin \<Rightarrow> string \<Rightarrow> string \<Rightarrow> ('c, string list) dao" where
  "getUsersForRoleInDomain cb role domain = reads w_casbin (\<lambda>c. ret (cb_GetUsers cb role domain c))"

text \<open>The rules of one domain are copied to another; the enforcer has been created.\<close>

definition CopyPolicies :: "'c casbin \<Rightarrow> string \<Rightarrow> string \<Rightarrow> ('c, unit) dao" where
  "CopyPolicies cb fromDomain toDomain =
     (if fromDomain = [] \<or> toDomain = [] \<or> fromDomain = toDomain then ret ()
      else tryE (read_cb (cb_GetFilteredPolicy cb fromDomain)) (\<lambda>policies.
        foreach policies (\<lambda>p. if length p < 4 \<or> p ! 0 = [] \<or> p ! 2 = [] \<or> p ! 3 = [] then ret ()
          else tryE (lift_cb (cb_AddPolicy cb (p ! 0, toDomain, p ! 2, p ! 3))) (\<lambda>_. ret ()))))"

definition CopyGrouping :: "'c casbin \<Rightarrow> string \<Rightarrow> string \<Rightarrow> ('c, unit) dao" where
  "CopyGrouping cb fromDomain toDomain =
     (if fromDomain = [] \<or> toDomain = [] \<or> fromDomain = toDomain then ret ()
      else tryE (read_cb (cb_GetFilteredGrouping cb fromDomain)) (\<lambda>gs.
        foreach gs (\<lambda>g. if length g < 2 \<or> g ! 0 = [] \<or> g ! 1 = [] then ret ()
          else tryE (lift_cb (cb_AddRole cb (g ! 0, g ! 1, toDomain))) (\<lambda>_. ret ()))))"

definition RemoveDomain :: "'c casbin \<Rightarrow> string \<Rightarrow> ('c, unit) dao" where
  "RemoveDomain cb domain = (if domain = [] then ret ()
     else tryE (lift_cb (cb_RemoveFilteredPolicy cb domain)) (\<lambda>_.
          tryE (lift_cb (cb_RemoveFilteredGrouping cb domain)) (\<lambda>_. ret ())))"

section \<open>\<open>access.go\<close>\<close>

text \<open>The function registered as \<open>MyMatch\<close>: holders of the role \<open>root\<close> pass.\<close>

definition MyMatch :: "string list \<Rightarrow> bool" where
  "MyMatch roles \<longleftrightarrow> list_ex (\<lambda>r. r = ''root'') roles"

definition Enforce :: "'c casbin \<Rightarrow> u64 \<Rightarrow> u64 \<Rightarrow> u64 \<Rightarrow> string \<Rightarrow> string \<Rightarrow> ('c, bool) dao" where
  "Enforce cb uid tenantID orgID obj act = failIf (orgID = 0) ErrOrgRequired
     (enforce cb (genUserByUID uid) (Domain tenantID orgID) obj act)"

definition AddRoleForUserInDomain :: "'c casbin \<Rightarrow> u64 \<Rightarrow> u64 \<Rightarrow> u64 \<Rightarrow> string \<Rightarrow> ('c, unit) dao" where
  "AddRoleForUserInDomain cb uid tenantID orgID role = failIf (orgID = 0) ErrOrgRequired
     (addRoleForUserInDomain cb (genUserByUID uid) role (Domain tenantID orgID))"

definition DeleteRoleForUserInDomain :: "'c casbin \<Rightarrow> u64 \<Rightarrow> u64 \<Rightarrow> u64 \<Rightarrow> string \<Rightarrow> ('c, unit) dao" where
  "DeleteRoleForUserInDomain cb uid tenantID orgID role = failIf (orgID = 0) ErrOrgRequired
     (deleteRoleForUserInDomain cb (genUserByUID uid) role (Domain tenantID orgID))"

definition DeleteRolesForUserInDomain :: "'c casbin \<Rightarrow> u64 \<Rightarrow> u64 \<Rightarrow> u64 \<Rightarrow> ('c, unit) dao" where
  "DeleteRolesForUserInDomain cb uid tenantID orgID = failIf (orgID = 0) ErrOrgRequired
     (deleteRolesForUserInDomain cb (genUserByUID uid) (Domain tenantID orgID))"

text \<open>An error of the query, or a user of another tenant, gives no roles.\<close>

definition GetRoleForUserInDomain :: "'c casbin \<Rightarrow> u64 \<Rightarrow> u64 \<Rightarrow> u64 \<Rightarrow> ('c, string list) dao" where
  "GetRoleForUserInDomain cb uid tenantID orgID =
     (if orgID = 0 then ret []
      else handle (UserQueryByID uid) (\<lambda>_. ret []) (\<lambda>userInfo.
        if userInfo = None \<or> u_TenantID (the userInfo) \<noteq> tenantID then ret []
        else getRoleForUserInDomain cb (genUserByUID uid) (Domain tenantID orgID)))"

fun Split :: "char \<Rightarrow> string \<Rightarrow> string list" where
  "Split c [] = [[]]"
| "Split c (x # xs) = (if x = c then [] # Split c xs
     else (case Split c xs of [] \<Rightarrow> [[x]] | y # ys \<Rightarrow> (x # y) # ys))"

text \<open>The value \<open>strconv.Atoi\<close> returns, also with an error (out of range: the nearest end).\<close>

definition Atoi :: "string \<Rightarrow> int" where
  "Atoi s = (let neg = HasPrefix s ''-''; r = (if neg \<or> HasPrefix s ''+'' then tl s else s)
     in if r = [] \<or> \<not> list_all is_digit r then 0
        else if neg then max (- int (nat_of_digits r)) (- (2 ^ 63)) else min (int (nat_of_digits r)) (2 ^ 63 - 1))"

definition GetUsersForRoleInDomain :: "'c casbin \<Rightarrow> string \<Rightarrow> u64 \<Rightarrow> u64 \<Rightarrow> ('c, u64 list) dao" where
  "GetUsersForRoleInDomain cb role tenantID orgID =
     (if orgID = 0 then ret []
      else tryE (getUsersForRoleInDomain cb role (Domain tenantID orgID)) (\<lambda>users.
        if list_ex (\<lambda>u. length (Split (CHR ''-'') u) < 2) users then panic
        else ret (map (\<lambda>u. of_int (Atoi (Split (CHR ''-'') u ! 1))) users)))"

definition AddPolicyToRole :: "'c casbin \<Rightarrow> u64 \<Rightarrow> u64 \<Rightarrow> string \<Rightarrow> string \<Rightarrow> string \<Rightarrow> ('c, unit) dao" where
  "AddPolicyToRole cb tenantID orgID role obj act = failIf (orgID = 0) ErrOrgRequired
     (addPolicy cb role (Domain tenantID orgID) obj act)"

definition RemovePolicyFromRole :: "'c casbin \<Rightarrow> u64 \<Rightarrow> u64 \<Rightarrow> string \<Rightarrow> string \<Rightarrow> string \<Rightarrow> ('c, unit) dao" where
  "RemovePolicyFromRole cb tenantID orgID role obj act = failIf (orgID = 0) ErrOrgRequired
     (removePolicy cb role (Domain tenantID orgID) obj act)"

text \<open>An error of the enforcer counts as no policy; a policy row without a subject would panic.\<close>

definition GetFilteredPolicy :: "'c casbin \<Rightarrow> u64 \<Rightarrow> u64 \<Rightarrow> string list \<Rightarrow> ('c, string list list) dao" where
  "GetFilteredPolicy cb tenantID orgID roles =
     (if orgID = 0 then ret []
      else handle (getFilteredPolicy cb (Domain tenantID orgID)) (\<lambda>_. ret []) (\<lambda>policys.
        if policys = [] then ret []
        else if roles = [] then ret policys
        else if list_ex (\<lambda>p. p = []) policys then panic
        else ret (concat (map (\<lambda>p. concat (map (\<lambda>r. if p ! 0 = r then [p] else []) roles)) policys))))"

section \<open>What casbin documents\<close>

text \<open>
  \<open>g(r.sub, p.sub, r.dom)\<close>: the subject reaches the role through the grouping rules of the domain,
  in at most ten steps (casbin's default hierarchy limit), zero steps included.
\<close>

definition has_link :: "grouping set \<Rightarrow> string \<Rightarrow> string \<Rightarrow> string \<Rightarrow> bool" where
  "has_link G d s r \<longleftrightarrow> (\<exists>n\<le>10. (s, r) \<in> {(x, y). (x, y, d) \<in> G} ^^ n)"

text \<open>The matcher of \<open>rbac_with_domains_model.conf\<close> with \<open>some(where (p.eft == allow))\<close>.\<close>

definition matcher :: "rule set \<Rightarrow> grouping set \<Rightarrow> string list \<Rightarrow> string \<Rightarrow> string \<Rightarrow> string \<Rightarrow> string \<Rightarrow> bool" where
  "matcher P G roles sub dm obj act \<longleftrightarrow> (\<exists>ps. (ps, dm, obj, act) \<in> P \<and> has_link G dm sub ps) \<or> MyMatch roles"

text \<open>A writing operation changes the two rule sets as given, or reports an error and changes neither.\<close>

definition cb_writes :: "('c \<Rightarrow> rule set) \<Rightarrow> ('c \<Rightarrow> grouping set) \<Rightarrow> ('c, gerr, bool) prog
  \<Rightarrow> (rule set \<Rightarrow> rule set) \<Rightarrow> (grouping set \<Rightarrow> grouping set) \<Rightarrow> bool" where
  "cb_writes pol grp m fp fg \<longleftrightarrow> (\<forall>c. case m c of
       (Ret _, c') \<Rightarrow> pol c' = fp (pol c) \<and> grp c' = fg (grp c)
     | (Err _, c') \<Rightarrow> pol c' = pol c \<and> grp c' = grp c
     | (Panic, c') \<Rightarrow> False)"

definition enforce_ok :: "'c casbin \<Rightarrow> ('c \<Rightarrow> rule set) \<Rightarrow> ('c \<Rightarrow> grouping set) \<Rightarrow> bool" where
  "enforce_ok cb pol grp \<longleftrightarrow> (\<forall>s d x a c. case cb_Enforce cb s d x a c of
     Ret b \<Rightarrow> b = matcher (pol c) (grp c) (cb_GetRoles cb s d c) s d x a | Err _ \<Rightarrow> True | Panic \<Rightarrow> False)"

definition casbin_ok :: "'c casbin \<Rightarrow> ('c \<Rightarrow> rule set) \<Rightarrow> ('c \<Rightarrow> grouping set) \<Rightarrow> bool" where
  "casbin_ok cb pol grp \<longleftrightarrow> enforce_ok cb pol grp
   \<and> (\<forall>s d c. set (cb_GetRoles cb s d c) = {r. (s, r, d) \<in> grp c})
   \<and> (\<forall>r d c. set (cb_GetUsers cb r d c) = {u. (u, r, d) \<in> grp c})
   \<and> (\<forall>r. cb_writes pol grp (cb_AddPolicy cb r) (insert r) (\<lambda>G. G))
   \<and> (\<forall>r. cb_writes pol grp (cb_RemovePolicy cb r) (\<lambda>P. P - {r}) (\<lambda>G. G))
   \<and> (\<forall>g. cb_writes pol grp (cb_AddRole cb g) (\<lambda>P. P) (insert g))
   \<and> (\<forall>g. cb_writes pol grp (cb_DeleteRole cb g) (\<lambda>P. P) (\<lambda>G. G - {g}))
   \<and> (\<forall>u d. cb_writes pol grp (cb_DeleteRoles cb u d) (\<lambda>P. P) (\<lambda>G. {(x, r, e) \<in> G. \<not> (x = u \<and> e = d)}))
   \<and> (\<forall>d. cb_writes pol grp (cb_RemoveFilteredPolicy cb d) (\<lambda>P. {(x, e, y, a) \<in> P. e \<noteq> d}) (\<lambda>G. G))
   \<and> (\<forall>d. cb_writes pol grp (cb_RemoveFilteredGrouping cb d) (\<lambda>P. P) (\<lambda>G. {(x, r, e) \<in> G. e \<noteq> d}))"

subsection \<open>An implementation on lists\<close>

fun reach_n :: "grouping list \<Rightarrow> string \<Rightarrow> nat \<Rightarrow> string \<Rightarrow> string \<Rightarrow> bool" where
  "reach_n G d 0 s r = (s = r)"
| "reach_n G d (Suc n) s r = (s = r \<or> list_ex (\<lambda>(x, y, e). x = s \<and> e = d \<and> reach_n G d n y r) G)"

definition ref_casbin :: "(rule list \<times> grouping list) casbin" where
  "ref_casbin = (let roles = (\<lambda>s d (P, G). map (\<lambda>(x, r, e). r) (filter (\<lambda>(x, r, e). x = s \<and> e = d) G)) in
    \<lparr>cb_Enforce = (\<lambda>s d x a (P, G). Ret (list_ex (\<lambda>(ps, pd, px, pa). pd = d \<and> px = x \<and> pa = a \<and> reach_n G d 10 s ps) P
        \<or> MyMatch (roles s d (P, G)))),
     cb_AddPolicy = (\<lambda>r (P, G). (Ret (r \<notin> set P), (List.insert r P, G))),
     cb_RemovePolicy = (\<lambda>r (P, G). (Ret (r \<in> set P), (removeAll r P, G))),
     cb_HasPolicy = (\<lambda>r (P, G). Ret (r \<in> set P)),
     cb_GetFilteredPolicy = (\<lambda>d (P, G). Ret (map (\<lambda>(x, e, y, a). [x, e, y, a]) (filter (\<lambda>(x, e, y, a). e = d) P))),
     cb_RemoveFilteredPolicy = (\<lambda>d (P, G). (Ret True, (filter (\<lambda>(x, e, y, a). e \<noteq> d) P, G))),
     cb_AddRole = (\<lambda>g (P, G). (Ret (g \<notin> set G), (P, List.insert g G))),
     cb_DeleteRole = (\<lambda>g (P, G). (Ret (g \<in> set G), (P, removeAll g G))),
     cb_DeleteRoles = (\<lambda>u d (P, G). (Ret True, (P, filter (\<lambda>(x, r, e). \<not> (x = u \<and> e = d)) G))),
     cb_GetRoles = roles,
     cb_GetUsers = (\<lambda>r d (P, G). map (\<lambda>(x, y, e). x) (filter (\<lambda>(x, y, e). y = r \<and> e = d) G)),
     cb_GetFilteredGrouping = (\<lambda>d (P, G). Ret (map (\<lambda>(x, r, e). [x, r, e]) (filter (\<lambda>(x, r, e). e = d) G))),
     cb_RemoveFilteredGrouping = (\<lambda>d (P, G). (Ret True, (P, filter (\<lambda>(x, r, e). e \<noteq> d) G)))\<rparr>)"

lemma reach_n_link: "reach_n G d n s r \<longleftrightarrow> (\<exists>k\<le>n. (s, r) \<in> {(x, y). (x, y, d) \<in> set G} ^^ k)"
proof (induction n arbitrary: s)
  case (Suc n)
  let ?R = "{(x, y). (x, y, d) \<in> set G}"
  have "(\<exists>k\<le>Suc n. (s, r) \<in> ?R ^^ k) \<longleftrightarrow> s = r \<or> (\<exists>k\<le>n. (s, r) \<in> ?R ^^ Suc k)"
    by (metis (no_types, lifting) Suc_le_mono pair_in_Id_conv relpow.simps(1) le0 not0_implies_Suc)
  also have "(\<exists>k\<le>n. (s, r) \<in> ?R ^^ Suc k) \<longleftrightarrow> (\<exists>y. (s, y, d) \<in> set G \<and> (\<exists>k\<le>n. (y, r) \<in> ?R ^^ k))"
  proof -
    have "?R ^^ Suc k = ?R O ?R ^^ k" for k by (simp add: relpow_commute)
    then show ?thesis by (simp only: relcomp_unfold) blast
  qed
  finally show ?case using Suc.IH by (auto simp: list_ex_iff)
qed auto

lemma ref_enforce_ok: "enforce_ok ref_casbin (\<lambda>c. set (fst c)) (\<lambda>c. set (snd c))"
  unfolding enforce_ok_def
proof (intro allI)
  fix s d x a and c :: "rule list \<times> grouping list"
  show "case cb_Enforce ref_casbin s d x a c of
      Ret b \<Rightarrow> b = matcher (set (fst c)) (set (snd c)) (cb_GetRoles ref_casbin s d c) s d x a | Err _ \<Rightarrow> True | Panic \<Rightarrow> False"
    by (cases c) (auto simp: ref_casbin_def matcher_def has_link_def reach_n_link list_ex_iff Let_def)
qed

lemma ref_casbin_ok: "casbin_ok ref_casbin (\<lambda>c. set (fst c)) (\<lambda>c. set (snd c))"
  unfolding casbin_ok_def
proof (intro conjI allI)
  show "enforce_ok ref_casbin (\<lambda>c. set (fst c)) (\<lambda>c. set (snd c))" by (rule ref_enforce_ok)
  fix s d and c :: "rule list \<times> grouping list"
  show "set (cb_GetRoles ref_casbin s d c) = {r. (s, r, d) \<in> set (snd c)}"
    by (cases c) (force simp: ref_casbin_def Let_def)
  show "set (cb_GetUsers ref_casbin s d c) = {u. (u, s, d) \<in> set (snd c)}"
    by (cases c) (force simp: ref_casbin_def Let_def)
qed (auto simp: ref_casbin_def cb_writes_def Let_def split: prod.splits)

section \<open>Names do not collide\<close>

lemma genUserByUID_inject [simp]: "genUserByUID a = genUserByUID b \<longleftrightarrow> a = b"
  by (simp add: genUserByUID_def)

lemma digits_prefix:
  assumes "list_all is_digit a" and "list_all is_digit b" and "a @ CHR ''-'' # x = b @ CHR ''-'' # y"
  shows "a = b \<and> x = y"
proof -
  have dash: "\<not> is_digit (CHR ''-'')" by (simp add: is_digit_def)
  have "takeWhile is_digit (s @ CHR ''-'' # z) = s" if "list_all is_digit s" for s z
    using that dash by (induction s) auto
  with assms have "a = b" by metis
  with assms(3) show ?thesis by simp
qed

lemma Domain_inject [simp]: "Domain t g = Domain t' g' \<longleftrightarrow> t = t' \<and> g = g'"
  using digits_prefix [OF show_u64_digits show_u64_digits, of t "''org-'' @ show_u64 g" t' "''org-'' @ show_u64 g'"]
  by (auto simp: Domain_def)

lemma Domain_not_Nil [simp]: "Domain t g \<noteq> []"
  by (simp add: Domain_def)

lemma Domain_not_legacy [simp]: "Domain t g \<noteq> LegacyTenantDomain t'"
proof
  assume "Domain t g = LegacyTenantDomain t'"
  then have "set (show_u64 t') = set (show_u64 t @ ''-org-'' @ show_u64 g)"
    by (simp add: Domain_def LegacyTenantDomain_def)
  then have "CHR ''-'' \<in> set (show_u64 t')" by simp
  then show False using show_u64_digits [of t'] by (auto simp: list_all_iff is_digit_def)
qed

section \<open>Isolation\<close>

text \<open>Whenever both calls answer, they answer the same.\<close>

definition same_access :: "'c casbin \<Rightarrow> u64 \<Rightarrow> u64 \<Rightarrow> 'c world \<Rightarrow> 'c world \<Rightarrow> bool" where
  "same_access cb t g w w' \<longleftrightarrow> (\<forall>uid obj act b b'. fst (Enforce cb uid t g obj act w) = Ret b
     \<longrightarrow> fst (Enforce cb uid t g obj act w') = Ret b' \<longrightarrow> b = b')"

definition same_domain :: "string \<Rightarrow> ('c \<Rightarrow> rule set) \<Rightarrow> ('c \<Rightarrow> grouping set) \<Rightarrow> 'c \<Rightarrow> 'c \<Rightarrow> bool" where
  "same_domain d pol grp c c' \<longleftrightarrow> (\<forall>x y a. (x, d, y, a) \<in> pol c \<longleftrightarrow> (x, d, y, a) \<in> pol c')
     \<and> (\<forall>x r. (x, r, d) \<in> grp c \<longleftrightarrow> (x, r, d) \<in> grp c')"

lemma Enforce_eq:
  "g \<noteq> 0 \<Longrightarrow> Enforce cb uid t g obj act w = (cb_Enforce cb (genUserByUID uid) (Domain t g) obj act (w_casbin w), w)"
  by (simp add: Enforce_def enforce_def failIf_def read_cb_def)

lemma Enforce_zero: "Enforce cb uid t 0 obj act w = (Err ErrOrgRequired, w)"
  by (simp add: Enforce_def failIf_def throw_def)

lemma casbin_enforce:
  assumes "casbin_ok cb pol grp" and "cb_Enforce cb s d x a c = Ret b"
  shows "b = matcher (pol c) (grp c) (cb_GetRoles cb s d c) s d x a"
proof -
  have "case cb_Enforce cb s d x a c of
     Ret b \<Rightarrow> b = matcher (pol c) (grp c) (cb_GetRoles cb s d c) s d x a | Err _ \<Rightarrow> True | Panic \<Rightarrow> False"
  proof -
    have "enforce_ok cb pol grp" using assms(1) by (simp add: casbin_ok_def)
    then show ?thesis unfolding enforce_ok_def by (elim allE)
  qed
  with assms(2) show ?thesis by simp
qed

lemma casbin_roles: "casbin_ok cb pol grp \<Longrightarrow> set (cb_GetRoles cb s d c) = {r. (s, r, d) \<in> grp c}"
  by (simp add: casbin_ok_def)

lemma casbin_users: "casbin_ok cb pol grp \<Longrightarrow> set (cb_GetUsers cb r d c) = {u. (u, r, d) \<in> grp c}"
  by (simp add: casbin_ok_def)

lemma casbin_writes:
  assumes "casbin_ok cb pol grp"
  shows "cb_writes pol grp (cb_AddPolicy cb r) (insert r) (\<lambda>G. G)"
    "cb_writes pol grp (cb_RemovePolicy cb r) (\<lambda>P. P - {r}) (\<lambda>G. G)"
    "cb_writes pol grp (cb_AddRole cb q) (\<lambda>P. P) (insert q)"
    "cb_writes pol grp (cb_DeleteRole cb q) (\<lambda>P. P) (\<lambda>G. G - {q})"
    "cb_writes pol grp (cb_DeleteRoles cb u d) (\<lambda>P. P) (\<lambda>G. {(x, r, e) \<in> G. \<not> (x = u \<and> e = d)})"
    "cb_writes pol grp (cb_RemoveFilteredPolicy cb d) (\<lambda>P. {(x, e, y, a) \<in> P. e \<noteq> d}) (\<lambda>G. G)"
    "cb_writes pol grp (cb_RemoveFilteredGrouping cb d) (\<lambda>P. P) (\<lambda>G. {(x, r, e) \<in> G. e \<noteq> d})"
  using assms unfolding casbin_ok_def by blast+

lemma Enforce_matcher:
  assumes "casbin_ok cb pol grp" and "fst (Enforce cb uid t g obj act w) = Ret b"
  shows "g \<noteq> 0 \<and> b = ((\<exists>ps. (ps, Domain t g, obj, act) \<in> pol (w_casbin w) \<and> has_link (grp (w_casbin w)) (Domain t g) (genUserByUID uid) ps)
     \<or> (genUserByUID uid, ''root'', Domain t g) \<in> grp (w_casbin w))"
proof (cases "g = 0")
  case True
  with assms(2) show ?thesis by (simp add: Enforce_zero)
next
  case False
  have roles: "set (cb_GetRoles cb (genUserByUID uid) (Domain t g) (w_casbin w))
      = {r. (genUserByUID uid, r, Domain t g) \<in> grp (w_casbin w)}"
    by (rule casbin_roles [OF assms(1)])
  have "b = matcher (pol (w_casbin w)) (grp (w_casbin w)) (cb_GetRoles cb (genUserByUID uid) (Domain t g) (w_casbin w))
      (genUserByUID uid) (Domain t g) obj act"
    using assms(2) False by (intro casbin_enforce [OF assms(1)]) (simp add: Enforce_eq)
  with roles False show ?thesis by (auto simp: matcher_def MyMatch_def list_ex_iff)
qed

lemma same_domain_access:
  assumes ok: "casbin_ok cb pol grp" and same: "same_domain (Domain t g) pol grp (w_casbin w) (w_casbin w')"
  shows "same_access cb t g w w'"
proof -
  have links: "has_link (grp (w_casbin w)) (Domain t g) s r \<longleftrightarrow> has_link (grp (w_casbin w')) (Domain t g) s r" for s r
    using same by (simp add: has_link_def same_domain_def)
  show ?thesis unfolding same_access_def
  proof (intro allI impI)
    fix uid obj act b b'
    assume b: "fst (Enforce cb uid t g obj act w) = Ret b" and b': "fst (Enforce cb uid t g obj act w') = Ret b'"
    show "b = b'"
      using Enforce_matcher [OF ok b] Enforce_matcher [OF ok b'] links same by (auto simp: same_domain_def)
  qed
qed

lemma same_domain_refl [simp]: "same_domain d pol grp c c"
  by (simp add: same_domain_def)

lemma same_domain_trans: "same_domain d pol grp a b \<Longrightarrow> same_domain d pol grp b c \<Longrightarrow> same_domain d pol grp a c"
  by (simp add: same_domain_def)

lemma writes_same_domain:
  assumes "cb_writes pol grp m fp fg" and "same_domain d (\<lambda>(P, G). P) (\<lambda>(P, G). G) (pol c, grp c) (fp (pol c), fg (grp c))"
  shows "same_domain d pol grp c (snd (m c))"
proof -
  have "case m c of (Ret _, c') \<Rightarrow> pol c' = fp (pol c) \<and> grp c' = fg (grp c)
     | (Err _, c') \<Rightarrow> pol c' = pol c \<and> grp c' = grp c | (Panic, c') \<Rightarrow> False"
    using assms(1) by (simp add: cb_writes_def)
  then show ?thesis using assms(2) by (auto simp: same_domain_def split: prod.splits res.splits)
qed

lemma snd_lift_cb: "w_casbin (snd (lift_cb m w)) = snd (m (w_casbin w))"
  by (simp add: lift_cb_def split: prod.splits)

lemma snd_tryE_ret: "snd (tryE m (\<lambda>_. ret x) w) = snd (m w)"
  by (simp add: tryE_def handle_def ret_def throw_def split: prod.splits res.splits)

lemma snd_failIf_throw: "snd (failIf c e m w) = (if c then w else snd (m w))"
  by (simp add: failIf_def throw_def)

lemmas access_ops = AddRoleForUserInDomain_def addRoleForUserInDomain_def DeleteRoleForUserInDomain_def
  deleteRoleForUserInDomain_def DeleteRolesForUserInDomain_def deleteRolesForUserInDomain_def
  AddPolicyToRole_def addPolicy_def RemovePolicyFromRole_def removePolicy_def

lemma cb_step_same_domain:
  assumes "cb_writes pol grp m fp fg" and "\<And>P G. same_domain d (\<lambda>(P, G). P) (\<lambda>(P, G). G) (P, G) (fp P, fg G)"
  shows "same_domain d pol grp (w_casbin w) (w_casbin (snd (lift_cb m w)))"
  unfolding snd_lift_cb by (rule writes_same_domain [OF assms(1) assms(2)])

lemma RemoveDomain_other:
  assumes ok: "casbin_ok cb pol grp" and "d \<noteq> e"
  shows "same_domain d pol grp (w_casbin w) (w_casbin (snd (RemoveDomain cb e w)))"
proof -
  let ?a = "lift_cb (cb_RemoveFilteredPolicy cb e)" and ?b = "lift_cb (cb_RemoveFilteredGrouping cb e)"
  have a: "same_domain d pol grp (w_casbin v) (w_casbin (snd (?a v)))" for v :: "'a world"
    by (rule cb_step_same_domain [OF casbin_writes(6) [OF ok]]) (use assms(2) in \<open>simp add: same_domain_def\<close>)
  have b: "same_domain d pol grp (w_casbin v) (w_casbin (snd (?b v)))" for v :: "'a world"
    by (rule cb_step_same_domain [OF casbin_writes(7) [OF ok]]) (use assms(2) in \<open>simp add: same_domain_def\<close>)
  have "snd (RemoveDomain cb e w) \<in> {w, snd (?a w), snd (?b (snd (?a w)))}"
    by (auto simp: RemoveDomain_def tryE_def handle_def ret_def throw_def split: prod.splits res.splits)
  then show ?thesis using a [of w] b [of "snd (?a w)"] by (auto intro: same_domain_trans)
qed

text \<open>
  C6. Organizations are isolated in the policy engine: whatever an access-control operation on one
  organization does (also when it fails half way), every access decision of every other organization of
  any tenant stays what it was.
\<close>

theorem organization_isolation:
  assumes "casbin_ok cb pol grp" and "(t', g') \<noteq> (t, g)"
  shows "\<forall>m \<in> {AddRoleForUserInDomain cb uid t g role, DeleteRoleForUserInDomain cb uid t g role,
               DeleteRolesForUserInDomain cb uid t g, AddPolicyToRole cb t g role obj act,
               RemovePolicyFromRole cb t g role obj act, RemoveDomain cb (Domain t g)}.
           same_access cb t' g' w (snd (m w))"
proof -
  have ne: "Domain t' g' \<noteq> Domain t g" using assms(2) by auto
  note step = cb_step_same_domain [of pol grp _ _ _ "Domain t' g'" w] casbin_writes [OF assms(1)]
  have "same_domain (Domain t' g') pol grp (w_casbin w) (w_casbin (snd (m w)))"
    if "m \<in> {AddRoleForUserInDomain cb uid t g role, DeleteRoleForUserInDomain cb uid t g role,
               DeleteRolesForUserInDomain cb uid t g, AddPolicyToRole cb t g role obj act,
               RemovePolicyFromRole cb t g role obj act, RemoveDomain cb (Domain t g)}" for m
    using that assms(2)
  proof (elim insertE emptyE)
    assume "m = RemoveDomain cb (Domain t g)"
    then show ?thesis using RemoveDomain_other [OF assms(1) ne] by simp
  qed (auto simp: access_ops snd_failIf_throw snd_tryE_ret same_domain_def [of _ "\<lambda>(P, G). P"] ne
      intro!: step(1) [OF step(2)] step(1) [OF step(3)] step(1) [OF step(4)] step(1) [OF step(5)] step(1) [OF step(6)])
  then show ?thesis using same_domain_access [OF assms(1)] by blast
qed

theorem organization_isolation_witness:
  "same_access ref_casbin 1 2 (sample_world ([], []) [])
     (snd (AddRoleForUserInDomain ref_casbin 5 1 3 ''root'' (sample_world ([], []) [])))"
  by (rule organization_isolation [OF ref_casbin_ok, of 1 2 1 3 5 "''root''", THEN bspec]) simp_all

lemma lift_cb_Ret:
  assumes "cb_writes pol grp m fp fg" and "fst (lift_cb m w) = Ret x"
  shows "pol (w_casbin (snd (lift_cb m w))) = fp (pol (w_casbin w)) \<and> grp (w_casbin (snd (lift_cb m w))) = fg (grp (w_casbin w))"
proof -
  have "case m (w_casbin w) of (Ret _, c') \<Rightarrow> pol c' = fp (pol (w_casbin w)) \<and> grp c' = fg (grp (w_casbin w))
     | (Err _, c') \<Rightarrow> pol c' = pol (w_casbin w) \<and> grp c' = grp (w_casbin w) | (Panic, c') \<Rightarrow> False"
    using assms(1) by (simp add: cb_writes_def)
  with assms(2) show ?thesis by (auto simp: lift_cb_def split: prod.splits res.splits)
qed

lemma tryE_ret_Ret: "fst (tryE m (\<lambda>_. ret x) w) = Ret y \<Longrightarrow> \<exists>z. fst (m w) = Ret z"
  by (auto simp: tryE_def handle_def ret_def throw_def split: prod.splits res.splits)

lemma RemoveDomain_empties:
  assumes ok: "casbin_ok cb pol grp" and "fst (RemoveDomain cb d w) = Ret ()" and "d \<noteq> []"
  shows "(x, d, y, a) \<notin> pol (w_casbin (snd (RemoveDomain cb d w))) \<and> (x, r, d) \<notin> grp (w_casbin (snd (RemoveDomain cb d w)))"
proof -
  let ?a = "lift_cb (cb_RemoveFilteredPolicy cb d)" and ?b = "lift_cb (cb_RemoveFilteredGrouping cb d)"
  obtain u v where u: "fst (?a w) = Ret u" and v: "fst (?b (snd (?a w))) = Ret v"
      and eq: "snd (RemoveDomain cb d w) = snd (?b (snd (?a w)))"
    using assms(2,3) by (auto simp: RemoveDomain_def tryE_def handle_def ret_def throw_def split: prod.splits res.splits)
  show ?thesis
    unfolding eq using lift_cb_Ret [OF casbin_writes(6) [OF ok] u] lift_cb_Ret [OF casbin_writes(7) [OF ok] v] by auto
qed

text \<open>
  Granting and withdrawing: after a successful grant of the role \<open>root\<close> in an organization the user
  passes every check there; after the domain of an organization is removed successfully, nobody passes
  any check there. Without an organization no check passes: it is an error.
\<close>

theorem root_passes_removed_domain_denies:
  assumes "casbin_ok cb pol grp"
  shows "(fst (AddRoleForUserInDomain cb uid t g ''root'' w) = Ret () \<longrightarrow>
            fst (Enforce cb uid t g obj act (snd (AddRoleForUserInDomain cb uid t g ''root'' w))) = Ret b \<longrightarrow> b)
    \<and> (fst (RemoveDomain cb (Domain t g) w) = Ret () \<longrightarrow>
            fst (Enforce cb uid t g obj act (snd (RemoveDomain cb (Domain t g) w))) = Ret b \<longrightarrow> \<not> b)
    \<and> fst (Enforce cb uid t 0 obj act w) = Err ErrOrgRequired"
proof (intro conjI impI)
  assume r: "fst (AddRoleForUserInDomain cb uid t g ''root'' w) = Ret ()"
    and e: "fst (Enforce cb uid t g obj act (snd (AddRoleForUserInDomain cb uid t g ''root'' w))) = Ret b"
  let ?m = "lift_cb (cb_AddRole cb (genUserByUID uid, ''root'', Domain t g))"
  have g: "g \<noteq> 0" using r by (auto simp: AddRoleForUserInDomain_def failIf_def throw_def)
  then have "\<exists>z. fst (?m w) = Ret z"
    using r tryE_ret_Ret [of ?m "()" w] by (simp add: access_ops failIf_def)
  then have "(genUserByUID uid, ''root'', Domain t g) \<in> grp (w_casbin (snd (?m w)))"
    using lift_cb_Ret [OF casbin_writes(3) [OF assms]] by blast
  then show b using Enforce_matcher [OF assms e] g by (simp add: access_ops failIf_def snd_tryE_ret)
next
  assume r: "fst (RemoveDomain cb (Domain t g) w) = Ret ()"
    and e: "fst (Enforce cb uid t g obj act (snd (RemoveDomain cb (Domain t g) w))) = Ret b"
  show "\<not> b" using Enforce_matcher [OF assms e] RemoveDomain_empties [OF assms r] by auto
qed (simp add: Enforce_zero)

theorem root_passes_removed_domain_denies_witness:
  "fst (Enforce ref_casbin 5 1 3 ''menu'' ''GET'' (snd (AddRoleForUserInDomain ref_casbin 5 1 3 ''root'' (sample_world ([], []) [])))) = Ret True"
proof -
  let ?w = "snd (AddRoleForUserInDomain ref_casbin 5 1 3 ''root'' (sample_world ([], []) []))"
  obtain b where b: "fst (Enforce ref_casbin 5 1 3 ''menu'' ''GET'' ?w) = Ret b"
    by (cases "w_casbin ?w") (simp add: Enforce_eq ref_casbin_def Let_def)
  have "fst (AddRoleForUserInDomain ref_casbin 5 1 3 ''root'' (sample_world ([], []) [])) = Ret ()"
    by (simp add: access_ops failIf_def tryE_def handle_def lift_cb_def ref_casbin_def sample_world_def ret_def Let_def)
  then show ?thesis using root_passes_removed_domain_denies [OF ref_casbin_ok, of 5 1 3 "sample_world ([], []) []" "''menu''" "''GET''" b] b
    by simp
qed

section \<open>Users of a role\<close>

lemma Split_digits: "list_all is_digit s \<Longrightarrow> Split (CHR ''-'') s = [s]"
proof (induction s)
  case (Cons x s)
  then have "x \<noteq> CHR ''-''" by (auto simp: is_digit_def)
  with Cons show ?case by simp
qed simp

lemma Split_user: "Split (CHR ''-'') (genUserByUID uid) = [''uid'', show_u64 uid]"
  by (simp add: genUserByUID_def Split_digits [OF show_u64_digits])

lemma Atoi_show: "Atoi (show_u64 uid) = min (int (unat uid)) (2 ^ 63 - 1)"
proof -
  have "show_u64 uid \<noteq> []" by (simp add: show_u64_def)
  moreover have "hd (show_u64 uid) \<noteq> CHR ''-'' \<and> hd (show_u64 uid) \<noteq> CHR ''+''"
    using show_u64_digits [of uid] calculation by (cases "show_u64 uid") (auto simp: is_digit_def)
  ultimately have "\<not> HasPrefix (show_u64 uid) ''-''" and "\<not> HasPrefix (show_u64 uid) ''+''"
    by (cases "show_u64 uid"; auto simp: HasPrefix_def)+
  then show ?thesis
    using show_u64_digits [of uid] \<open>show_u64 uid \<noteq> []\<close> by (simp add: Atoi_def show_u64_def)
qed

lemma small_uid_round:
  assumes "unat uid < 2 ^ 63"
  shows "of_int (min (int (unat uid)) (2 ^ 63 - 1)) = (uid :: u64)"
proof -
  have "int (unat uid) < int (2 ^ 63)" using assms by (simp only: of_nat_less_iff)
  then have "int (unat uid) \<le> 2 ^ 63 - 1" by simp
  then have "min (int (unat uid)) (2 ^ 63 - 1) = int (unat uid)" by (rule min_absorb1)
  then show ?thesis by (simp only: of_int_of_nat_eq) simp
qed

text \<open>
  Listing the holders of a role decodes the enforcer's user names: when only users named by
  \<open>genUserByUID\<close> with identifiers below \<open>2 ^ 63\<close> hold roles, the call does not panic and returns
  exactly the identifiers of the holders.
\<close>

theorem GetUsersForRoleInDomain_decodes:
  assumes "casbin_ok cb pol grp" and "g \<noteq> 0"
    and "\<forall>u. (u, role, Domain t g) \<in> grp (w_casbin w) \<longrightarrow> (\<exists>uid. u = genUserByUID uid \<and> unat uid < 2 ^ 63)"
  shows "\<exists>ids. GetUsersForRoleInDomain cb role t g w = (Ret ids, w)
    \<and> set ids = {uid. (genUserByUID uid, role, Domain t g) \<in> grp (w_casbin w)}"
proof -
  let ?us = "cb_GetUsers cb role (Domain t g) (w_casbin w)"
  have us: "set ?us = {u. (u, role, Domain t g) \<in> grp (w_casbin w)}" by (rule casbin_users [OF assms(1)])
  have dec: "\<exists>uid. u = genUserByUID uid \<and> unat uid < 2 ^ 63" if "u \<in> set ?us" for u
    using that us assms(3) by auto
  have two: "\<not> list_ex (\<lambda>u. length (Split (CHR ''-'') u) < 2) ?us"
    unfolding list_ex_iff by (auto simp: Split_user dest!: dec)
  let ?f = "\<lambda>u. of_int (Atoi (Split (CHR ''-'') u ! 1)) :: u64"
  have f: "?f (genUserByUID uid) = uid" if "unat uid < 2 ^ 63" for uid
    using small_uid_round [OF that] by (simp add: Split_user Atoi_show)
  have "set (map ?f ?us) = {uid. genUserByUID uid \<in> set ?us}"
  proof (intro equalityI subsetI)
    fix x assume "x \<in> set (map ?f ?us)"
    then obtain u where "u \<in> set ?us" and x: "x = ?f u" by auto
    with dec obtain uid where "u = genUserByUID uid" and "unat uid < 2 ^ 63" by blast
    with f x \<open>u \<in> set ?us\<close> show "x \<in> {uid. genUserByUID uid \<in> set ?us}" by simp
  next
    fix x assume "x \<in> {uid. genUserByUID uid \<in> set ?us}"
    moreover from this have "unat x < 2 ^ 63" using dec by fastforce
    ultimately show "x \<in> set (map ?f ?us)" using f [of x] by (auto simp: image_iff intro!: bexI [of _ "genUserByUID x"])
  qed
  then show ?thesis
    using us two assms(2) by (auto simp: GetUsersForRoleInDomain_def getUsersForRoleInDomain_def tryE_def handle_def reads_def ret_def)
qed

theorem GetUsersForRoleInDomain_decodes_witness:
  "\<exists>ids. GetUsersForRoleInDomain ref_casbin ''boss'' 1 3 (sample_world ([], [(genUserByUID 10001, ''boss'', Domain 1 3)]) [])
     = (Ret ids, sample_world ([], [(genUserByUID 10001, ''boss'', Domain 1 3)]) []) \<and> set ids = {10001}"
proof -
  let ?w = "sample_world ([] :: rule list, [(genUserByUID 10001, ''boss'', Domain 1 3)]) []"
  have c: "w_casbin ?w = ([], [(genUserByUID 10001, ''boss'', Domain 1 3)])" by (simp add: sample_world_def)
  have "\<forall>u. (u, ''boss'', Domain 1 3) \<in> set (snd (w_casbin ?w)) \<longrightarrow> (\<exists>uid. u = genUserByUID uid \<and> unat uid < 2 ^ 63)"
    unfolding c by (auto intro!: exI [of _ 10001])
  from GetUsersForRoleInDomain_decodes [OF ref_casbin_ok _ this] show ?thesis by (simp add: c)
qed

section \<open>Library code of the services\<close>

text \<open>
  What the services call outside the repository: the hexadecimal SHA-256 digest, the struct validator
  (\<open>None\<close> when the request is valid, otherwise the name of the first offending field) and the enforcer.
\<close>

record 'c env =
  sha256_hex :: "string \<Rightarrow> string"
  validate :: "UserReq \<Rightarrow> string option"
  enforcer :: "'c casbin"

end
