(* ===== verification/Sms.thy ===== *)
theory Sms
  imports Closure_Dao
begin

text \<open>
  \<open>sms/sms.go\<close>: sending and checking verification codes. The driver (Tencent cloud) is outside the
  model: a send takes the driver's answer, a code and a possible error, as an argument. The codes are
  kept in an \<open>ExpiredMap\<close> under the phone number.
\<close>

section \<open>Operations\<close>

text \<open>\<open>Init\<close>: \<open>known\<close> says whether the driver name is registered, \<open>made\<close> whether its factory returned a driver.\<close>

definition Init :: "bool \<Rightarrow> bool \<Rightarrow> ('c, unit) dao" where
  "Init known made = (if \<not> known then throw ErrSmsExist
     else update (\<lambda>w. w\<lparr>w_sms := made, w_codes := (if made then NewExpiredMap else w_codes w)\<rparr>) (ret ()))"

definition CheckSmsCode :: "string \<Rightarrow> string \<Rightarrow> ('c, unit) dao" where
  "CheckSmsCode phoneNumber code = (\<lambda>w.
     if \<not> w_sms w then (Err ErrSmsNotInit, w)
     else case Get phoneNumber (w_now w) (w_codes w) of
       (None, m) \<Rightarrow> (Err ErrSmsCheckErr, w\<lparr>w_codes := m\<rparr>)
     | (Some v, m) \<Rightarrow> (if code \<noteq> v then Err ErrSmsCheckErr else Ret (), w\<lparr>w_codes := m\<rparr>))"

text \<open>The driver's answer: the code and, when sending failed, an error.\<close>

type_synonym sms_answer = "string \<times> gerr option"

definition code_ttl :: "string \<Rightarrow> 'c world \<Rightarrow> int \<times> 'c world" where
  "code_ttl phoneNumber w = (case TTL phoneNumber (w_now w) (w_codes w) of (t, m) \<Rightarrow> (t, w\<lparr>w_codes := m\<rparr>))"

definition store_code :: "string \<Rightarrow> string \<Rightarrow> int \<Rightarrow> 'c world \<Rightarrow> 'c world" where
  "store_code phoneNumber code aliveSecond w =
     w\<lparr>w_codes := Set phoneNumber code (w_now w + aliveSecond) (w_now w) (w_codes w)\<rparr>"

text \<open>The code is stored before the driver's error is looked at.\<close>

definition SendUserAddSms :: "sms_answer \<Rightarrow> string \<Rightarrow> int \<Rightarrow> ('c, string) dao" where
  "SendUserAddSms answer phoneNumber aliveSecond = (\<lambda>w.
     if \<not> w_sms w then (Err ErrSmsNotInit, w)
     else let (ttl, w1) = code_ttl phoneNumber w in
       if ttl \<ge> 0 then (Err ErrSmsExist, w1)
       else let alive = (if aliveSecond = 0 then 60 else aliveSecond);
                w2 = store_code phoneNumber (fst answer) alive w1
            in (case snd answer of Some e \<Rightarrow> Err e | None \<Rightarrow> Ret (fst answer), w2))"

text \<open>
  The other three senders share their body; they differ in the driver method they call
  (\<open>SendUserLoginSms\<close> calls the driver's \<open>SendUserAddSms\<close>).
\<close>

definition send_checked :: "sms_answer \<Rightarrow> string \<Rightarrow> int \<Rightarrow> ('c, string) dao" where
  "send_checked answer phoneNumber aliveSecond = (\<lambda>w.
     if \<not> w_sms w then (Err ErrSmsNotInit, w)
     else let (ttl, w1) = code_ttl phoneNumber w in
       if ttl \<ge> 0 then (Err ErrSmsExist, w1)
       else let alive = (if aliveSecond = 0 then 60 else aliveSecond) in
         case snd answer of
           Some e \<Rightarrow> (Err e, w1)
         | None \<Rightarrow> (Ret (fst answer), store_code phoneNumber (fst answer) alive w1))"

definition SendUserLoginSms :: "sms_answer \<Rightarrow> string \<Rightarrow> int \<Rightarrow> ('c, string) dao" where
  "SendUserLoginSms answer phoneNumber aliveSecond = send_checked answer phoneNumber aliveSecond"

definition SendGetBackPwdSms :: "sms_answer \<Rightarrow> string \<Rightarrow> int \<Rightarrow> ('c, string) dao" where
  "SendGetBackPwdSms answer phoneNumber aliveSecond = send_checked answer phoneNumber aliveSecond"

definition SendWxBindSms :: "sms_answer \<Rightarrow> string \<Rightarrow> int \<Rightarrow> ('c, string) dao" where
  "SendWxBindSms answer phoneNumber aliveSecond = send_checked answer phoneNumber aliveSecond"

section \<open>Properties\<close>

lemma TTL_neg_absent:
  assumes "fst (TTL k now e) < 0"
  shows "live now (snd (TTL k now e)) = live now e" and "live now e k = None"
  using assms by (auto simp: TTL_def live_def Delete_def Let_def split: option.splits if_splits)

lemma TTL_live: "live now (snd (TTL k now e)) = live now e"
  by (auto simp: TTL_def live_def Delete_def Let_def fun_eq_iff split: option.splits if_splits)

lemma Get_at: "fst (Get k t e) = live t e k"
  by (rule em.get_result)


lemma sent_code_checks_aux:
  "send_checked (''123456'', None) ''13800000000'' 0 ((sample_world () [])\<lparr>w_sms := True, w_now := 1000\<rparr>) =
   (Ret ''123456'', (sample_world () [])\<lparr>w_sms := True, w_now := 1000,
      w_codes := [(''13800000000'', \<lparr>val = ''123456'', expiredAt = 1060\<rparr>)]\<rparr>)"
  by (simp add: send_checked_def code_ttl_def TTL_def store_code_def Set_def sample_world_def)


text \<open>
  A failed send. The senders for login, password reset and binding store nothing when the driver reports
  an error, so the user can retry at once; \<open>SendUserAddSms\<close> stores the unsent code all the same, so a
  retry is refused with "already sent" until that code expires.
\<close>

theorem failed_send_retry:
  assumes "w_sms w" and "0 < w_now w" and "map_of (w_codes w) phone = None"
  shows "(let (r, w') = SendUserAddSms (code, Some e) phone 0 w in
            r = Err e \<and> fst (SendUserAddSms (code', None) phone 0 w') = Err ErrSmsExist)
    \<and> (\<forall>send \<in> {SendUserLoginSms, SendGetBackPwdSms, SendWxBindSms}.
         let (r, w') = send (code, Some e) phone 0 w in
            r = Err e \<and> w' = w \<and> fst (send (code', None) phone 0 w') = Ret code')"
  using assms
  by (simp add: SendUserAddSms_def SendUserLoginSms_def SendGetBackPwdSms_def SendWxBindSms_def send_checked_def
      code_ttl_def TTL_def store_code_def Set_def Let_def)

theorem failed_send_retry_witness:
  "let w = (sample_world () [])\<lparr>w_sms := True, w_now := 1000\<rparr>;
       (r, w') = SendUserAddSms (''123456'', Some DbError) ''13800000000'' 0 w
   in fst (SendUserAddSms (''654321'', None) ''13800000000'' 0 w') = Err ErrSmsExist"
  using failed_send_retry [of "(sample_world () [])\<lparr>w_sms := True, w_now := 1000\<rparr>" "''13800000000''" "''123456''" DbError "''654321''"]
  unfolding Let_def by (simp add: sample_world_def split: prod.splits)

end
