(* ===== verification/User_Service.thy ===== *)
theory User_Service
  imports Access_Control Sms
begin

text \<open>
  \<open>service/user.service.go\<close>, \<open>service/authPWD.service.go\<close> and \<open>common.EncryPWD\<close>: registration, profile and
  password changes. Requests are passed by pointer and normalised in place; a definition that
  changes its request returns the changed one.
\<close>

section \<open>Passwords and normalisation\<close>

definition SYS_PWD :: string where
  "SYS_PWD = ''When you forgive, You love. And when you love, God'' @ [char_of (39 :: nat)] @ ''s light shines on you. Now, 202601229''"

definition EncryPWD :: "'c env \<Rightarrow> string \<Rightarrow> string" where
  "EncryPWD E pwd = (if pwd = [] then [] else sha256_hex E (SYS_PWD @ pwd @ SYS_PWD))"

text \<open>The request after the normalisation, and the validator's complaint about it.\<close>

definition userPreTreat :: "'c env \<Rightarrow> UserReq \<Rightarrow> UserReq \<times> gerr option" where
  "userPreTreat E p = (let
       p1 = (if r_Cellphone p \<noteq> [] then p\<lparr>r_Cellphone := TrimSpace (ToLower (r_Cellphone p))\<rparr> else p);
       p2 = (if r_Email p1 \<noteq> [] then p1\<lparr>r_Email := TrimSpace (ToLower (r_Email p1))\<rparr> else p1);
       p3 = (if r_Nickname p2 \<noteq> [] then p2\<lparr>r_Nickname := TrimSpace (TrimSpace (r_Nickname p2))\<rparr> else p2);
       p4 = (if r_AvatarURL p3 \<noteq> [] then p3\<lparr>r_AvatarURL := TrimPrefix (TrimPrefix (TrimSpace (r_AvatarURL p3)) ''./'') ''/''\<rparr> else p3);
       p5 = p4\<lparr>r_SmsCode := TrimSpace (r_SmsCode p4)\<rparr>
     in (p5, case validate E p5 of None \<Rightarrow> None | Some field \<Rightarrow> Some (OtherErr field)))"

section \<open>Duplicate checks\<close>

text \<open>An error of the query counts as no duplicate.\<close>

definition has_user :: "UserReq \<Rightarrow> u64 \<Rightarrow> ('c, bool) dao" where
  "has_user p pageSize = handle (UserQuery p 1 pageSize) (\<lambda>_. ret False)
     (\<lambda>rr. ret (case rr of [] \<Rightarrow> False | u # _ \<Rightarrow> u_UID u > 0))"

definition duplicatePhone :: "string \<Rightarrow> ('c, bool) dao" where
  "duplicatePhone phone = has_user (empty_UserReq\<lparr>r_Cellphone := phone\<rparr>) 1"

definition duplicateEmail :: "string \<Rightarrow> ('c, bool) dao" where
  "duplicateEmail email = has_user (empty_UserReq\<lparr>r_Email := email\<rparr>) 1"

definition duplicateNickname :: "string \<Rightarrow> ('c, bool) dao" where
  "duplicateNickname nickname = has_user (empty_UserReq\<lparr>r_Nickname := nickname\<rparr>) 100"

definition duplicateWxOpenid :: "string \<Rightarrow> ('c, bool) dao" where
  "duplicateWxOpenid openid = has_user (empty_UserReq\<lparr>r_WxOpenId := openid\<rparr>) 100"

text \<open>An empty nickname is filled with the phone number or the mail address on the way.\<close>

definition userCheckDuplicates :: "UserReq \<Rightarrow> ('c, UserReq) dao" where
  "userCheckDuplicates p =
     whenE (r_Cellphone p \<noteq> [])
       (tryE (duplicatePhone (r_Cellphone p)) (\<lambda>dup. failIf dup ErrPhoneDup (ret ()))) (
     let p1 = (if r_Cellphone p \<noteq> [] \<and> r_Nickname p = [] then p\<lparr>r_Nickname := r_Cellphone p\<rparr> else p) in
     whenE (r_Email p1 \<noteq> [])
       (tryE (duplicateEmail (r_Email p1)) (\<lambda>dup. failIf dup ErrEmailDup (ret ()))) (
     let p2 = (if r_Email p1 \<noteq> [] \<and> r_Nickname p1 = [] then p1\<lparr>r_Nickname := r_Email p1\<rparr> else p1) in
     whenE (r_Nickname p2 \<noteq> [])
       (tryE (duplicateNickname (r_Nickname p2)) (\<lambda>dup. failIf dup ErrNickDup (ret ()))) (
     whenE (r_WxOpenId p2 \<noteq> [])
       (tryE (duplicateWxOpenid (r_WxOpenId p2)) (\<lambda>dup. failIf dup ErrWxOpenidDup (ret ()))) (
     ret p2))))"

section \<open>Operations\<close>

text \<open>
  \<open>err.(*pgconn.PgError)\<close> is a type assertion on the error itself: it does not look through a wrapped
  error.
\<close>

definition AddUserService :: "'c env \<Rightarrow> UserReq \<Rightarrow> ('c, u64) dao" where
  "AddUserService E p =
     failIf (r_Cellphone p = [] \<and> r_Email p = [] \<and> r_Nickname p = []) ErrUserNmae (
     failIf (r_Password p = []) ErrPWDNil (
     case userPreTreat E p of (p0, e) \<Rightarrow> failIf (e \<noteq> None) ErrParam (
     whenE (r_Cellphone p0 \<noteq> [])
       (tryE (duplicatePhone (r_Cellphone p0)) (\<lambda>dup. failIf dup ErrPhoneDup (ret ()))) (
     let p1 = (if r_Cellphone p0 \<noteq> [] \<and> r_Nickname p0 = [] then p0\<lparr>r_Nickname := r_Cellphone p0\<rparr> else p0) in
     whenE (r_Email p1 \<noteq> [])
       (tryE (duplicateEmail (r_Email p1)) (\<lambda>dup. failIf dup ErrEmailDup (ret ()))) (
     let p2 = (if r_Email p1 \<noteq> [] \<and> r_Nickname p1 = [] then p1\<lparr>r_Nickname := r_Email p1\<rparr> else p1) in
     whenE (r_Nickname p2 \<noteq> [])
       (tryE (duplicateNickname (r_Nickname p2)) (\<lambda>dup. failIf dup ErrNickDup (ret ()))) (
     whenE (r_WxOpenId p2 \<noteq> [])
       (tryE (duplicateWxOpenid (r_WxOpenId p2)) (\<lambda>dup. failIf dup ErrWxOpenidDup (ret ()))) (
     handle (UserInsert (p2\<lparr>r_Password := EncryPWD E (r_Password p2)\<rparr>))
       (\<lambda>err. case err of PgUnique _ \<Rightarrow> throw ErrPgDupKey | _ \<Rightarrow> throw ErrService) ret)))))))"

definition GetUserInfo :: "u64 \<Rightarrow> ('c, User) dao" where
  "GetUserInfo uid = failIf (uid = 0) ErrParam (
     tryE (UserQueryByID uid) (\<lambda>r. case r of None \<Rightarrow> throw ErrUserNotFound | Some u \<Rightarrow> ret (u\<lparr>u_Password := []\<rparr>)))"

text \<open>A page response: the list and, when asked for, the total.\<close>

definition AdminUserList :: "u64 \<Rightarrow> u64 \<Rightarrow> u64 \<Rightarrow> bool \<Rightarrow> string \<Rightarrow> ('c, User list \<times> u64) dao" where
  "AdminUserList tenantID page0 pageSize0 hasTotal nickname = (let
       page = (if page0 < 1 then 1 else page0);
       size1 = (if pageSize0 < 1 then 100 else pageSize0);
       pageSize = (if size1 > 1000 then 1000 else size1)
     in tryAs (UserQueryByTenant tenantID page pageSize nickname []) ErrService (\<lambda>rr.
        failIf (rr = []) ErrNull (
        if hasTotal then tryAs (UserCountByTenant tenantID nickname []) ErrService (\<lambda>total. ret (rr, total))
        else ret (rr, 0))))"

definition SelectUsersLite :: "UserReq \<Rightarrow> ('c, UserLite list) dao" where
  "SelectUsersLite m = failIf (r_TenantID m = 0) ErrParam (UserLiteQuery m (r_PageNo m) (r_PageSize m))"

definition UpdateUserService :: "'c env \<Rightarrow> UserReq \<Rightarrow> ('c, int) dao" where
  "UpdateUserService E p =
     failIf (r_UID p = 0) (OtherErr ''user error'') (
     case userPreTreat E p of (p0, e) \<Rightarrow>
       (case e of Some err \<Rightarrow> throw err | None \<Rightarrow>
        failIf (validate E p0 \<noteq> None) (OtherErr ''bad data'') (
        tryE (userCheckDuplicates p0) (\<lambda>p1. UserUpdate p1))))"

definition UpdateUserPWD :: "'c env \<Rightarrow> u64 \<Rightarrow> string \<Rightarrow> string \<Rightarrow> ('c, int) dao" where
  "UpdateUserPWD E uid oldPWD newPWD =
     failIf (uid = 0) ErrSession (
     failIf (oldPWD = [] \<or> newPWD = []) ErrParam (
     tryAs (UserUpdatePWD uid (EncryPWD E oldPWD) (EncryPWD E newPWD)) ErrModify (\<lambda>rows.
     failIf (rows < 1) ErrModify (ret rows))))"

definition UpdateUserPWDBySms :: "'c env \<Rightarrow> string \<Rightarrow> string \<Rightarrow> string \<Rightarrow> ('c, int) dao" where
  "UpdateUserPWDBySms E cellphone smsCode newPWD =
     failIf (cellphone = [] \<or> smsCode = [] \<or> newPWD = []) ErrParam (
     tryE (CheckSmsCode cellphone smsCode) (\<lambda>_.
     tryAs (UserUpdatePWDByCellphone cellphone (EncryPWD E newPWD)) ErrModify (\<lambda>rows.
     failIf (rows < 1) ErrModify (ret rows))))"

definition SetUserPWD :: "'c env \<Rightarrow> u64 \<Rightarrow> u64 \<Rightarrow> string \<Rightarrow> ('c, int) dao" where
  "SetUserPWD E uid tenantId PWD =
     failIf (uid = 0) ErrParam (
     failIf (PWD = []) ErrPWD (
     tryAs (SetUserPWD_dao uid tenantId (EncryPWD E PWD)) ErrModify (\<lambda>rows.
     failIf (rows < 1) ErrModify (ret rows))))"

definition GetBusinessUserInfoService :: "u64 \<Rightarrow> ('c, User list) dao" where
  "GetBusinessUserInfoService uid = failIf (uid = 0) (OtherErr ''uid nil'')
     (BusinessQuery (empty_UserReq\<lparr>r_UID := uid\<rparr>) 1 1)"

definition UpdateUserWxOpenIdByCellphone :: "string \<Rightarrow> string \<Rightarrow> string \<Rightarrow> ('c, int) dao" where
  "UpdateUserWxOpenIdByCellphone cellphone wxOpenId smsCode =
     failIf (cellphone = [] \<or> wxOpenId = []) ErrParam (
     tryE (CheckSmsCode cellphone smsCode) (\<lambda>_.
     tryAs (UserUpdateWxOpenIdByCellphone cellphone wxOpenId) ErrModify (\<lambda>rows.
     failIf (rows < 1) ErrModify (ret rows))))"

definition AuthPWDService :: "'c env \<Rightarrow> u64 \<Rightarrow> string \<Rightarrow> ('c, bool) dao" where
  "AuthPWDService E uid pwd =
     failIf (uid = 0) (OtherErr ''user error'') (
     failIf (pwd = []) (OtherErr ''user password empty'') (
     tryE (UserQuery (empty_UserReq\<lparr>r_UID := uid\<rparr>) 1 1) (\<lambda>rr.
     ret (case rr of [u] \<Rightarrow> u_Password u = EncryPWD E pwd | _ \<Rightarrow> False))))"

section \<open>A sample environment\<close>

text \<open>Concrete parameters and a state with one user, for the witnesses.\<close>

definition sample_env :: "(rule list \<times> grouping list) env" where
  "sample_env = \<lparr>sha256_hex = rev, validate = (\<lambda>_. None), enforcer = ref_casbin\<rparr>"

definition sample_user :: User where
  "sample_user = user_row 10001 0 (empty_UserReq\<lparr>r_TenantID := 2, r_Nickname := ''ann'', r_Password := EncryPWD sample_env ''secret''\<rparr>)"

definition user_world :: "(rule list \<times> grouping list) world" where
  "user_world = (sample_world ([], []) [])\<lparr>w_db := (w_db (sample_world ([] :: rule list, [] :: grouping list) []))\<lparr>users := [sample_user]\<rparr>\<rparr>"

lemma user_world_users [simp]: "users (w_db user_world) = [sample_user]" "w_faults user_world = []"
  by (simp_all add: user_world_def sample_world_def)

lemma user_world_ok: "users_ok (users (w_db user_world))"
  by (simp add: users_ok_def distinct_by_def uniq_col_def sample_user_def user_row_def nonempty_def empty_UserReq_def List.map_filter_simps)

lemma sample_user_fields [simp]: "u_UID sample_user = 10001" "u_Password sample_user = EncryPWD sample_env ''secret''"
  "u_TenantID sample_user = 2" "u_Nickname sample_user = Some ''ann''" "u_Cellphone sample_user = None" "u_Email sample_user = None"
  "u_WxOpenId sample_user = None" "u_Ext sample_user = []"
  by (simp_all add: sample_user_def user_row_def empty_UserReq_def nonempty_def stored_map_def)

section \<open>Registration\<close>

lemma wp_has_user [wp_simps]:
  "wp (has_user p n) Q E w = Q (\<not> db_fails w \<and> (case page_of 1 n (filter (match_req p) (users (w_db w))) of
       [] \<Rightarrow> False | u # _ \<Rightarrow> u_UID u > 0)) (db_tick w)"
  by (auto simp: has_user_def wp_simps UserQuery_def)

lemmas duplicate_defs = duplicatePhone_def duplicateEmail_def duplicateNickname_def duplicateWxOpenid_def

text \<open>States that differ in the consumed faults only.\<close>

definition quiet :: "'c world \<Rightarrow> 'c world \<Rightarrow> bool" where
  "quiet w w' \<longleftrightarrow> touched w w' \<and> w_db w' = w_db w"

lemma quiet_refl [simp]: "quiet w w"
  by (simp add: quiet_def)

lemma quiet_tick: "quiet w w' \<Longrightarrow> quiet w (db_tick w')"
  by (simp add: quiet_def)

lemma quietD: "quiet w w' \<Longrightarrow> w_db w' = w_db w \<and> w_seqs w' = w_seqs w \<and> w_now w' = w_now w
    \<and> w_root w' = w_root w \<and> w_cache w' = w_cache w \<and> w_depcache w' = w_depcache w \<and> w_casbin w' = w_casbin w
    \<and> w_sms w' = w_sms w \<and> w_codes w' = w_codes w"
  using touched_fields [of w w'] by (auto simp: quiet_def)

lemma dup_step:
  assumes "quiet w0 w" and "\<And>w'. quiet w0 w' \<Longrightarrow> wp k Q E w'" and "\<And>w'. quiet w0 w' \<Longrightarrow> E e w'"
  shows "wp (whenE c (tryE (has_user p n) (\<lambda>dup. failIf dup e (ret ()))) k) Q E w"
  using assms by (simp add: wp_simps quiet_tick)

lemma wp_insert_user:
  assumes "quiet w w'"
  shows "wp (handle (UserInsert q) (\<lambda>err. case err of PgUnique _ \<Rightarrow> throw ErrPgDupKey | _ \<Rightarrow> throw ErrService) ret)
    (\<lambda>uid w''. uid = users_uid_seq (w_seqs w) + 1
       \<and> w_db w'' = (w_db w)\<lparr>users := users (w_db w) @ [user_row uid (w_now w) q]\<rparr>
       \<and> users_ok (users (w_db w) @ [user_row uid (w_now w) q]))
    (\<lambda>e w''. w_db w'' = w_db w \<and> e \<noteq> ErrPgDupKey) w'"
  using quietD [OF assms] users_violation_None [of "users (w_db w) @ [user_row (users_uid_seq (w_seqs w) + 1) (w_now w) q]"]
  by (cases "users_violation (users (w_db w) @ [user_row (users_uid_seq (w_seqs w) + 1) (w_now w) q])")
    (simp_all add: wp_simps Let_def)

lemma tryE_whenE: "tryE (whenE c m k) k' = whenE c m (tryE k k')"
  by (rule ext) (auto simp: tryE_def whenE_def handle_def throw_def split: prod.splits res.splits)

lemma tryE_ret: "tryE (ret x) k = k x"
  by (rule ext) (simp add: tryE_def handle_def ret_def)

lemma AddUserService_eq:
  "AddUserService E p =
     failIf (r_Cellphone p = [] \<and> r_Email p = [] \<and> r_Nickname p = []) ErrUserNmae (
     failIf (r_Password p = []) ErrPWDNil (
     case userPreTreat E p of (p0, e) \<Rightarrow> failIf (e \<noteq> None) ErrParam (
     tryE (userCheckDuplicates p0) (\<lambda>q. handle (UserInsert (q\<lparr>r_Password := EncryPWD E (r_Password q)\<rparr>))
       (\<lambda>err. case err of PgUnique _ \<Rightarrow> throw ErrPgDupKey | _ \<Rightarrow> throw ErrService) ret))))"
  unfolding AddUserService_def userCheckDuplicates_def Let_def tryE_whenE tryE_ret ..

text \<open>The name a request is stored under.\<close>

definition filled_nickname :: "UserReq \<Rightarrow> string" where
  "filled_nickname p = (if r_Nickname p \<noteq> [] then r_Nickname p else if r_Cellphone p \<noteq> [] then r_Cellphone p else r_Email p)"

lemma wp_userCheckDuplicates:
  assumes "quiet w0 w" and "\<And>w'. quiet w0 w' \<Longrightarrow> Q (p\<lparr>r_Nickname := filled_nickname p\<rparr>) w'"
    and "\<And>e w'. quiet w0 w' \<Longrightarrow> e \<in> {ErrPhoneDup, ErrEmailDup, ErrNickDup, ErrWxOpenidDup} \<Longrightarrow> E e w'"
  shows "wp (userCheckDuplicates p) Q E w"
proof -
  define p1 where "p1 = (if r_Cellphone p \<noteq> [] \<and> r_Nickname p = [] then p\<lparr>r_Nickname := r_Cellphone p\<rparr> else p)"
  define p2 where "p2 = (if r_Email p1 \<noteq> [] \<and> r_Nickname p1 = [] then p1\<lparr>r_Nickname := r_Email p1\<rparr> else p1)"
  have p2: "p2 = p\<lparr>r_Nickname := filled_nickname p\<rparr>"
    by (cases p) (auto simp: p1_def p2_def filled_nickname_def)
  show ?thesis
    unfolding userCheckDuplicates_def duplicate_defs Let_def p1_def [symmetric] p2_def [symmetric]
    by (intro dup_step [of w0] assms(1)) (simp_all add: wp_ret p2 assms(2,3))
qed

lemma userPreTreat_password: "r_Password (fst (userPreTreat E p)) = r_Password p"
  by (simp add: userPreTreat_def Let_def)

lemma userPreTreat_tenant: "r_TenantID (fst (userPreTreat E p)) = r_TenantID p"
  by (simp add: userPreTreat_def Let_def)

lemma wp_AddUserService:
  "wp (AddUserService E p) (\<lambda>uid w'. uid = users_uid_seq (w_seqs w) + 1
         \<and> (\<exists>u. w_db w' = (w_db w)\<lparr>users := users (w_db w) @ [u]\<rparr> \<and> users_ok (users (w_db w) @ [u])
              \<and> u_UID u = uid \<and> u_TenantID u = r_TenantID p \<and> u_Password u = EncryPWD E (r_Password p)
              \<and> u_Cellphone u = nonempty (r_Cellphone (fst (userPreTreat E p)))
              \<and> u_Email u = nonempty (r_Email (fst (userPreTreat E p)))
              \<and> u_Nickname u = nonempty (filled_nickname (fst (userPreTreat E p)))))
     (\<lambda>e w'. w_db w' = w_db w \<and> e \<noteq> ErrPgDupKey) w" (is "wp _ ?Q ?E _")
proof -
  obtain p0 e where pt: "userPreTreat E p = (p0, e)" by fastforce
  have pw: "r_Password p0 = r_Password p" and tn: "r_TenantID p0 = r_TenantID p"
    using userPreTreat_password [of E p] userPreTreat_tenant [of E p] pt by auto
  let ?ins = "\<lambda>q. handle (UserInsert (q\<lparr>r_Password := EncryPWD E (r_Password q)\<rparr>))
       (\<lambda>err. case err of PgUnique _ \<Rightarrow> throw ErrPgDupKey | _ \<Rightarrow> throw ErrService) ret"
  have "wp (tryE (userCheckDuplicates p0) ?ins) ?Q ?E w"
    unfolding wp_tryE
  proof (rule wp_userCheckDuplicates [of w])
    fix w' assume q: "quiet w w'"
    let ?q = "p0\<lparr>r_Nickname := filled_nickname p0\<rparr>\<lparr>r_Password := EncryPWD E (r_Password (p0\<lparr>r_Nickname := filled_nickname p0\<rparr>))\<rparr>"
    have "?Q uid w''" if a: "uid = users_uid_seq (w_seqs w) + 1"
       and b: "w_db w'' = (w_db w)\<lparr>users := users (w_db w) @ [user_row uid (w_now w) ?q]\<rparr>"
       and c: "users_ok (users (w_db w) @ [user_row uid (w_now w) ?q])" for uid w''
      by (rule conjI [OF a], rule exI [of _ "user_row uid (w_now w) ?q"], intro conjI, rule b, rule c)
        (simp_all add: user_row_def pw tn pt)
    then show "wp (?ins (p0\<lparr>r_Nickname := filled_nickname p0\<rparr>)) ?Q ?E w'"
      by (intro wp_mono [OF wp_insert_user [OF q]]) blast+
  qed (auto simp: quiet_def)
  then show ?thesis by (simp add: AddUserService_eq pt wp_failIf)
qed

text \<open>
  C26. Registration (\<open>AddUserService\<close>), whatever statement fails: success adds exactly one row, under the
  next identifier, with the digest of the password and the normalised names (an empty nickname filled
  from the phone number or the mail address), all unique constraints hold and no other table changes;
  a failure leaves every table as it was. The duplicate-key error announced by the code is never the
  one returned: \<open>InsertWithID\<close> wraps the driver's error, so a lost race is reported as a service error.
\<close>

theorem AddUserService_adds_one_row:
  "case AddUserService E p w of
      (Ret uid, w') \<Rightarrow> uid = users_uid_seq (w_seqs w) + 1
         \<and> (\<exists>u. w_db w' = (w_db w)\<lparr>users := users (w_db w) @ [u]\<rparr> \<and> users_ok (users (w_db w) @ [u])
              \<and> u_UID u = uid \<and> u_TenantID u = r_TenantID p \<and> u_Password u = EncryPWD E (r_Password p)
              \<and> u_Cellphone u = nonempty (r_Cellphone (fst (userPreTreat E p)))
              \<and> u_Email u = nonempty (r_Email (fst (userPreTreat E p)))
              \<and> u_Nickname u = nonempty (filled_nickname (fst (userPreTreat E p))))
    | (Err e, w') \<Rightarrow> w_db w' = w_db w \<and> e \<noteq> ErrPgDupKey
    | (Panic, w') \<Rightarrow> False"
  using wp_AddUserService [of E p w] by (auto simp: wp_def split: prod.splits res.splits)

section \<open>Profile\<close>

lemma userPreTreat_UID: "r_UID (fst (userPreTreat E p)) = r_UID p"
  by (simp add: userPreTreat_def Let_def)

lemma apply_update_idle:
  "r_Cellphone p = [] \<Longrightarrow> r_Email p = [] \<Longrightarrow> r_Nickname p = [] \<Longrightarrow> r_Addr p = [] \<Longrightarrow> \<not> (r_Gender p = 1 \<or> r_Gender p = 2) \<Longrightarrow>
   r_AvatarURL p = [] \<Longrightarrow> apply_update p u = u"
  by (simp add: apply_update_def set_if_def)

text \<open>
  A profile change (\<open>UpdateUserService\<close>): success rewrites exactly the row of that user, with the
  normalised given fields, and keeps every constraint; a failure changes nothing. The nickname written
  is the filled-in one: a request that gives only a phone number (or only a mail address) also renames
  the user to it.
\<close>

theorem UpdateUserService_writes:
  "case UpdateUserService E p w of
      (Ret rows, w') \<Rightarrow> (let p0 = fst (userPreTreat E p); q = p0\<lparr>r_Nickname := filled_nickname p0\<rparr> in
         w_db w' = (w_db w)\<lparr>users := map (\<lambda>u. if u_UID u = r_UID p then apply_update q u else u) (users (w_db w))\<rparr>
         \<and> (users_ok (users (w_db w)) \<longrightarrow> users_ok (users (w_db w'))))
    | (Err e, w') \<Rightarrow> w_db w' = w_db w
    | (Panic, w') \<Rightarrow> False"
proof -
  obtain p0 e where pt: "userPreTreat E p = (p0, e)" by fastforce
  have uid: "r_UID p0 = r_UID p" using userPreTreat_UID [of E p] pt by simp
  let ?q = "p0\<lparr>r_Nickname := filled_nickname p0\<rparr>"
  let ?us = "map (\<lambda>u. if u_UID u = r_UID p then apply_update ?q u else u) (users (w_db w))"
  let ?Q = "\<lambda>rows w'. w_db w' = (w_db w)\<lparr>users := ?us\<rparr> \<and> (users_ok (users (w_db w)) \<longrightarrow> users_ok (users (w_db w')))"
  have upd: "wp (UserUpdate ?q) ?Q (\<lambda>e w'. w_db w' = w_db w) w'" if "quiet w w'" for w'
    using quietD [OF that] users_violation_None [of ?us] apply_update_idle [of ?q]
    by (cases "users_violation ?us") (auto simp: UserUpdate_def wp_simps uid cong: if_cong map_cong)
  have "wp (UpdateUserService E p) ?Q (\<lambda>e w'. w_db w' = w_db w) w"
  proof (cases e)
    case None
    have "wp (tryE (userCheckDuplicates p0) UserUpdate) ?Q (\<lambda>e w'. w_db w' = w_db w) w"
      unfolding wp_tryE by (rule wp_userCheckDuplicates [of w]) (auto simp: quiet_def intro: upd)
    then show ?thesis by (simp add: UpdateUserService_def pt None wp_failIf)
  next
    case (Some err)
    then show ?thesis by (simp add: UpdateUserService_def pt wp_failIf wp_throw)
  qed
  then show ?thesis unfolding pt fst_conv Let_def by (auto simp: wp_def split: prod.splits res.splits)
qed

theorem UpdateUserService_writes_witness:
  "case UpdateUserService sample_env (empty_UserReq\<lparr>r_UID := 10001, r_Nickname := ''bob''\<rparr>) user_world of
      (Ret rows, w') \<Rightarrow> users_ok (users (w_db w')) | (Err e, w') \<Rightarrow> w_db w' = w_db user_world | (Panic, w') \<Rightarrow> False"
  using UpdateUserService_writes [of sample_env "empty_UserReq\<lparr>r_UID := 10001, r_Nickname := ''bob''\<rparr>" user_world] user_world_ok
  unfolding Let_def by (auto split: prod.splits res.splits)

section \<open>Passwords\<close>

lemma users_ok_password: "users_ok us \<Longrightarrow> users_violation (map (\<lambda>u. if P u then u\<lparr>u_Password := x\<rparr> else u) us) = None"
  by (rule users_violation_map) auto

lemma filter_uid_card: "distinct_by f xs \<Longrightarrow> x \<in> set xs \<Longrightarrow> filter (\<lambda>y. f y = f x \<and> P y) xs = (if P x then [x] else [])"
proof (induction xs)
  case (Cons a xs)
  then have "f a \<notin> f ` set xs" and "distinct_by f xs" by (auto simp: distinct_by_def)
  then show ?case using Cons by (auto simp: filter_empty_conv image_iff)
qed simp

abbreviation with_password :: "u64 \<Rightarrow> string \<Rightarrow> User list \<Rightarrow> User list" where
  "with_password uid digest us \<equiv> map (\<lambda>u. if u_UID u = uid then u\<lparr>u_Password := digest\<rparr> else u) us"

lemma one_row_by_password:
  assumes "distinct_by u_UID us" "u \<in> set us" "u_UID u = uid \<and> u_Password u = old"
  shows "filter (\<lambda>u. u_UID u = uid \<and> u_Password u = old) us = [u]"
    and "map (\<lambda>u. if u_UID u = uid \<and> u_Password u = old then u\<lparr>u_Password := digest\<rparr> else u) us = with_password uid digest us"
proof -
  show "filter (\<lambda>u. u_UID u = uid \<and> u_Password u = old) us = [u]"
    using filter_uid_card [OF assms(1,2), of "\<lambda>u. u_Password u = old"] assms(3) by simp
  have "v = u" if "v \<in> set us" "u_UID v = uid" for v
    using distinct_by_inj [OF assms(1) that(1) assms(2)] that(2) assms(3) by simp
  with assms(3) show "map (\<lambda>u. if u_UID u = uid \<and> u_Password u = old then u\<lparr>u_Password := digest\<rparr> else u) us = with_password uid digest us"
    by (intro map_cong) auto
qed

lemma new_password_authenticates:
  assumes "distinct_by u_UID us" "u \<in> set us" "u_UID u = uid" "uid \<noteq> 0" "newPWD \<noteq> []"
    and "users (w_db w') = with_password uid (EncryPWD E newPWD) us"
  shows "fst (AuthPWDService E uid newPWD (w'\<lparr>w_faults := []\<rparr>)) = Ret True"
proof -
  let ?new = "EncryPWD E newPWD" and ?vs = "users (w_db w')"
  have d: "distinct_by u_UID ?vs" unfolding assms(6) using assms(1) by (subst distinct_by_map_same) auto
  have "u\<lparr>u_Password := ?new\<rparr> \<in> set ?vs" using assms by force
  from filter_uid_card [OF d this, of "\<lambda>_. True"] assms(3)
  have "filter (\<lambda>v. u_UID v = uid) ?vs = [u\<lparr>u_Password := ?new\<rparr>]" by simp
  moreover have "match_req (empty_UserReq\<lparr>r_UID := uid\<rparr>) = (\<lambda>v. u_UID v = uid)"
    using assms(4) by (auto simp: match_req_def empty_UserReq_def fun_eq_iff word_neq_0_conv)
  ultimately have "page_of 1 1 (filter (match_req (empty_UserReq\<lparr>r_UID := uid\<rparr>)) ?vs) = [u\<lparr>u_Password := ?new\<rparr>]"
    by (simp add: page_of_def page_offset_def)
  then show ?thesis
    using assms(4,5) by (simp add: AuthPWDService_def UserQuery_def failIf_def tryE_def handle_def ret_def db_query_eq)
qed

text \<open>
  C27. A password change (\<open>UpdateUserPWD\<close>): it succeeds only when the stored digest is that of the old
  password; then exactly that user's digest becomes that of the new one and the new password
  authenticates from then on (\<open>AuthPWDService\<close>); otherwise no row changes.
\<close>

theorem UpdateUserPWD_checks_old:
  assumes "users_ok (users (w_db w))"
  shows "case UpdateUserPWD E uid oldPWD newPWD w of
      (Ret rows, w') \<Rightarrow> rows = 1 \<and> oldPWD \<noteq> [] \<and> newPWD \<noteq> []
         \<and> (\<exists>u \<in> set (users (w_db w)). u_UID u = uid \<and> u_Password u = EncryPWD E oldPWD)
         \<and> w_db w' = (w_db w)\<lparr>users := map (\<lambda>u. if u_UID u = uid then u\<lparr>u_Password := EncryPWD E newPWD\<rparr> else u) (users (w_db w))\<rparr>
         \<and> fst (AuthPWDService E uid newPWD (w'\<lparr>w_faults := []\<rparr>)) = Ret True
    | (Err e, w') \<Rightarrow> w_db w' = w_db w \<and> e \<in> {ErrSession, ErrParam, ErrModify}
    | (Panic, w') \<Rightarrow> False"
proof -
  let ?us = "users (w_db w)" and ?old = "EncryPWD E oldPWD" and ?new = "EncryPWD E newPWD"
  let ?P = "\<lambda>u. u_UID u = uid \<and> u_Password u = ?old"
  have dist: "distinct_by u_UID ?us" using assms by (simp add: users_ok_def)
  note one = one_row_by_password [OF dist]
  have "wp (UpdateUserPWD E uid oldPWD newPWD)
    (\<lambda>rows w'. rows = 1 \<and> oldPWD \<noteq> [] \<and> newPWD \<noteq> [] \<and> (\<exists>u \<in> set ?us. ?P u)
       \<and> w_db w' = (w_db w)\<lparr>users := map (\<lambda>u. if u_UID u = uid then u\<lparr>u_Password := ?new\<rparr> else u) ?us\<rparr>
       \<and> fst (AuthPWDService E uid newPWD (w'\<lparr>w_faults := []\<rparr>)) = Ret True)
    (\<lambda>e w'. w_db w' = w_db w \<and> e \<in> {ErrSession, ErrParam, ErrModify}) w"
  proof (cases "\<exists>u \<in> set ?us. ?P u")
    case True
    then obtain u where u: "u \<in> set ?us" "?P u" by blast
    have v: "users_violation (map (\<lambda>u. if u_UID u = uid then u\<lparr>u_Password := ?new\<rparr> else u) ?us) = None"
      by (rule users_ok_password [OF assms])
    have "fst (AuthPWDService E uid newPWD (w'\<lparr>w_faults := []\<rparr>)) = Ret True"
      if "uid \<noteq> 0" "newPWD \<noteq> []" "users (w_db w') = map (\<lambda>u. if u_UID u = uid then u\<lparr>u_Password := ?new\<rparr> else u) ?us" for w'
      using new_password_authenticates [OF dist u(1) _ that] u(2) by blast
    with True show ?thesis unfolding UpdateUserPWD_def UserUpdatePWD_def
      by (simp add: wp_simps one [OF u] v)
  next
    case False
    then have "filter ?P ?us = []" and "map (\<lambda>u. if ?P u then u\<lparr>u_Password := ?new\<rparr> else u) ?us = ?us"
      by (auto simp: filter_empty_conv intro!: map_idI)
    then show ?thesis unfolding UpdateUserPWD_def UserUpdatePWD_def
      using users_ok_password [OF assms, of ?P ?new] by (auto simp: wp_simps)
  qed
  then show ?thesis by (auto simp: wp_def split: prod.splits res.splits)
qed

theorem UpdateUserPWD_checks_old_witness:
  "case UpdateUserPWD sample_env 10001 ''secret'' ''other'' user_world of
      (Ret rows, w') \<Rightarrow> rows = 1 \<and> fst (AuthPWDService sample_env 10001 ''other'' (w'\<lparr>w_faults := []\<rparr>)) = Ret True
    | (Err e, w') \<Rightarrow> w_db w' = w_db user_world | (Panic, w') \<Rightarrow> False"
  using UpdateUserPWD_checks_old [OF user_world_ok, where E = sample_env and uid = 10001 and oldPWD = "''secret''" and newPWD = "''other''"]
  by (simp split: prod.splits res.splits)

end
