(* ===== verification/Login.thy ===== *)
theory Login
  imports User_Service
begin

text \<open>
  \<open>service/user.login.service.go\<close>: login by password, by verification code and through WeChat. Go's
  double result (a user and an error, either of which may be nil) is kept where the caller looks at both.
\<close>

section \<open>The disabled flag\<close>

text \<open>
  \<open>int8(x)\<close> for a \<open>float64\<close>: the fraction is dropped; outside the range of \<open>int8\<close> Go leaves the result
  to the implementation, here the low eight bits.
\<close>

definition trunc_float :: "rat \<Rightarrow> int" where
  "trunc_float r = (if r < 0 then - \<lfloor>- r\<rfloor> else \<lfloor>r\<rfloor>)"

definition int8_of_float :: "rat \<Rightarrow> int" where
  "int8_of_float r = (trunc_float r + 128) mod 256 - 128"

definition ext_disabled :: "MapStruct \<Rightarrow> bool" where
  "ext_disabled ext = (case gget ext ''disabled'' of GFloat r \<Rightarrow> int8_of_float r = UserDisabled | _ \<Rightarrow> False)"

section \<open>The tenant of a logged-in user\<close>

text \<open>A missing tenant does not stop the login.\<close>

definition login_tenant :: "User \<Rightarrow> ('c, User) dao" where
  "login_tenant one =
     (if u_TenantID one > 0
      then handle (TenantGetByID (u_TenantID one)) (\<lambda>_. ret (one\<lparr>u_Tenant := None, u_TenantID := 0\<rparr>))
        (\<lambda>t. ret (one\<lparr>u_Tenant := map_option (\<lambda>t. t\<lparr>t_Configuration := None, t_Info := [], t_CreateTime := 0, t_UpdateTime := 0\<rparr>) t\<rparr>))
      else ret one)"

section \<open>WeChat\<close>

text \<open>The UTF-8 bytes of the two characters that make up the default name.\<close>

definition default_nick :: string where
  "default_nick = [CHR 0xE7, CHR 0x94, CHR 0xA8, CHR 0xE6, CHR 0x88, CHR 0xB7]"

definition wx_nick :: "UserReq \<Rightarrow> string" where
  "wx_nick req = (if r_Nickname req = []
     then default_nick @ (let oid = r_WxOpenId req in if length oid > 8 then drop (length oid - 8) oid else oid)
     else r_Nickname req)"

definition UserLoginByWeixin :: "'c env \<Rightarrow> UserReq \<Rightarrow> ('c, User) dao" where
  "UserLoginByWeixin E req0 = failIf (r_WxOpenId req0 = []) ErrParam (
     let req = fst (userPreTreat E req0) in
     tryAs (UserQueryOne req) ErrService (\<lambda>found.
     tryE (case found of
         Some one \<Rightarrow> ret one
       | None \<Rightarrow>
           let ins = empty_UserReq\<lparr>r_WxOpenId := r_WxOpenId req, r_Nickname := wx_nick req,
                r_Password := EncryPWD E (r_WxOpenId req), r_AvatarURL := r_AvatarURL req,
                r_Gender := r_Gender req, r_Ext := r_Ext req\<rparr>
           in tryAs (UserInsert ins) ErrService (\<lambda>id.
              tryAs (UserQueryByID id) ErrService (\<lambda>one.
              case one of None \<Rightarrow> throw ErrService | Some u \<Rightarrow> ret u))) (\<lambda>one.
     failIf (ext_disabled (u_Ext one)) ErrDisable (
     reads w_now (\<lambda>now.
     tryAs (UserUpdateLoginTime (u_UID one) now) ErrService (\<lambda>rows.
     failIf (rows \<noteq> 1) ErrService (
     login_tenant (one\<lparr>u_LoginTime := Some now, u_Password := [], u_Roles := [], u_Departments := []\<rparr>))))))))"

section \<open>Password and code\<close>

text \<open>The user and the error of the look-up.\<close>

definition login_lookup :: "UserReq \<Rightarrow> ('c, User option \<times> gerr option) dao" where
  "login_lookup p = handle (UserQueryOne p) (\<lambda>e. ret (None, Some e)) (\<lambda>u. ret (u, None))"

text \<open>
  A number without a user is registered, with the password
  field as it came; the error of the query is shadowed by that of the insertion and survives a
  successful one.
\<close>

definition loginBySmsCode :: "UserReq \<Rightarrow> ('c, User option \<times> gerr option) dao" where
  "loginBySmsCode p =
     (if r_Cellphone p = [] \<or> r_SmsCode p = [] then ret (None, Some ErrParam)
      else let go = tryE (login_lookup p) (\<lambda>(one, e). case one of
                 Some u \<Rightarrow> ret (Some u, e)
               | None \<Rightarrow> handle (UserInsert p) (\<lambda>e'. ret (None, Some e')) (\<lambda>id.
                   ret (Some ((user_row id 0 empty_UserReq)\<lparr>u_Cellphone := Some (r_Cellphone p)\<rparr>), e)))
           in handle (CheckSmsCode (r_Cellphone p) (r_SmsCode p))
                (\<lambda>e. if e = ErrSmsNotInit then go else ret (None, Some e)) (\<lambda>_. go))"

definition loginByCellphone :: "UserReq \<Rightarrow> ('c, User option \<times> gerr option) dao" where
  "loginByCellphone p = login_lookup p"

definition loginByNickname :: "UserReq \<Rightarrow> ('c, User option \<times> gerr option) dao" where
  "loginByNickname p = login_lookup p"

definition loginByEmail :: "UserReq \<Rightarrow> ('c, User option \<times> gerr option) dao" where
  "loginByEmail p = login_lookup p"

definition UserLogin :: "'c env \<Rightarrow> UserReq \<Rightarrow> ('c, User) dao" where
  "UserLogin E user0 =
     failIf (r_Password user0 = [] \<and> r_SmsCode user0 = []
         \<or> r_Cellphone user0 = [] \<and> r_Nickname user0 = [] \<and> r_Email user0 = []) ErrParam (
     let user = fst (userPreTreat E user0) in
     case validate E user of Some field \<Rightarrow> throw (OtherErr field) | None \<Rightarrow>
     tryE (if r_Cellphone user \<noteq> [] \<and> r_SmsCode user \<noteq> [] then loginBySmsCode user
           else if r_Cellphone user \<noteq> [] then loginByCellphone user
           else if r_Nickname user \<noteq> [] then loginByNickname user
           else if r_Email user \<noteq> [] then loginByEmail user
           else ret (None, None)) (\<lambda>(found, e).
     case found of None \<Rightarrow> throw ErrLogin | Some one \<Rightarrow>
     failIf (ext_disabled (u_Ext one)) ErrDisable (
     failIf (r_Password user \<noteq> [] \<and> EncryPWD E (r_Password user) \<noteq> u_Password one) ErrPWD (
     reads w_now (\<lambda>now.
     tryAs (UserUpdateLoginTime (u_UID one) now) ErrService (\<lambda>rows.
     failIf (rows \<noteq> 1) ErrService (
     let one1 = one\<lparr>u_LoginTime := Some now, u_Password := [], u_Ext := [], u_Roles := [], u_Departments := []\<rparr> in
     tryE (login_tenant one1) (\<lambda>r.
     if u_TenantID one1 = 0 \<and> e \<noteq> None then throw ErrService else ret r))))))))"

section \<open>Properties\<close>

lemma wp_CheckSmsCode [wp_simps]:
  "wp (CheckSmsCode ph c) Q E w =
     (if \<not> w_sms w then E ErrSmsNotInit w
      else let w' = w\<lparr>w_codes := snd (Get ph (w_now w) (w_codes w))\<rparr> in
        if live (w_now w) (w_codes w) ph = Some c then Q () w' else E ErrSmsCheckErr w')"
  using Get_at [of ph "w_now w" "w_codes w"]
  by (cases "Get ph (w_now w) (w_codes w)") (auto simp: wp_def CheckSmsCode_def Let_def split: option.splits)

lemma wp_login_tenant:
  "wp (login_tenant one) (\<lambda>r w'. u_UID r = u_UID one \<and> u_Password r = u_Password one \<and> w_db w' = w_db w) E w"
  by (simp add: login_tenant_def TenantGetByID_def wp_simps)

lemma find_uniq:
  "uniq_col f xs \<Longrightarrow> x \<in> set xs \<Longrightarrow> f x = Some v \<Longrightarrow> find (\<lambda>y. f y = Some v) xs = Some x"
proof (induction xs)
  case (Cons a xs)
  show ?case
  proof (cases "f a = Some v")
    case True
    have "x \<notin> set xs"
    proof
      assume "x \<in> set xs"
      then have "v \<in> set (List.map_filter f xs)" using Cons.prems(3) by (force simp: List.map_filter_def)
      with True Cons.prems(1) show False by (simp add: uniq_col_def List.map_filter_simps)
    qed
    with Cons.prems(2) True show ?thesis by auto
  next
    case False
    with Cons have "x \<in> set xs" by auto
    moreover have "uniq_col f xs" using Cons.prems(1)
      by (cases "f a") (auto simp: uniq_col_def List.map_filter_simps)
    ultimately show ?thesis using Cons False by simp
  qed
qed simp

text \<open>The table after the login time of one user has been written.\<close>

definition logged_in :: "u64 \<Rightarrow> int \<Rightarrow> User list \<Rightarrow> User list" where
  "logged_in uid now us = map (\<lambda>u. if u_UID u = uid then u\<lparr>u_LoginTime := Some now\<rparr> else u) us"

text \<open>What a look-up of \<open>UserLogin\<close> may find: a matching row, or the row it has just registered.\<close>

definition found_user :: "UserReq \<Rightarrow> 'c world \<Rightarrow> 'c world \<Rightarrow> User \<Rightarrow> bool" where
  "found_user q w w' u \<longleftrightarrow>
     (u \<in> set (users (w_db w)) \<and> match_req q u \<and> w_db w' = w_db w
      \<or> r_Cellphone q \<noteq> [] \<and> r_SmsCode q \<noteq> [] \<and> u_UID u = users_uid_seq (w_seqs w) + 1 \<and> u_Ext u = [] \<and> u_Password u = []
        \<and> w_db w' = (w_db w)\<lparr>users := users (w_db w) @ [user_row (u_UID u) (w_now w) q]\<rparr>)
     \<and> (r_Cellphone q = [] \<or> r_SmsCode q = [] \<or> \<not> w_sms w
        \<or> live (w_now w) (w_codes w) (r_Cellphone q) = Some (r_SmsCode q))"

abbreviation lookup_post :: "UserReq \<Rightarrow> 'c world \<Rightarrow> User option \<times> gerr option \<Rightarrow> 'c world \<Rightarrow> bool" where
  "lookup_post q w r w' \<equiv> w_now w' = w_now w \<and> (case fst r of None \<Rightarrow> w_db w' = w_db w | Some u \<Rightarrow> found_user q w w' u)"

lemma find_matchD: "find P xs = Some u \<Longrightarrow> u \<in> set xs \<and> P u"
  by (auto simp: find_Some_iff)

lemma wp_login_lookup:
  assumes "r_Cellphone q = [] \<or> r_SmsCode q = []"
  shows "wp (login_lookup q) (lookup_post q w) (\<lambda>e w'. False) w"
  using assms find_matchD [of "match_req q" "users (w_db w)"]
  by (auto simp: login_lookup_def UserQueryOne_def wp_simps found_user_def split: option.splits)

lemma wp_register:
  assumes "r_Cellphone q \<noteq> []" "r_SmsCode q \<noteq> []"
    and code: "\<not> w_sms w \<or> live (w_now w) (w_codes w) (r_Cellphone q) = Some (r_SmsCode q)"
    and same: "w_db w1 = w_db w" "w_now w1 = w_now w" "w_seqs w1 = w_seqs w"
  shows "wp (tryE (login_lookup q) (\<lambda>(one, e). case one of
                 Some u \<Rightarrow> ret (Some u, e)
               | None \<Rightarrow> handle (UserInsert q) (\<lambda>e'. ret (None, Some e')) (\<lambda>id.
                   ret (Some ((user_row id 0 empty_UserReq)\<lparr>u_Cellphone := Some (r_Cellphone q)\<rparr>), e))))
     (lookup_post q w) (\<lambda>e w'. False) w1"
proof -
  have ins: "wp (handle (UserInsert q) (\<lambda>e'. ret (None, Some e')) (\<lambda>id.
        ret (Some ((user_row id 0 empty_UserReq)\<lparr>u_Cellphone := Some (r_Cellphone q)\<rparr>), e))) (lookup_post q w) (\<lambda>e w'. False) w2"
    if "w_db w2 = w_db w" "w_now w2 = w_now w" "w_seqs w2 = w_seqs w" for w2 e
    using assms that
    by (cases "users_violation (users (w_db w) @ [user_row (users_uid_seq (w_seqs w) + 1) (w_now w) q])")
      (auto simp: wp_simps Let_def found_user_def user_row_def empty_UserReq_def stored_map_def)
  have hit: "lookup_post q w (Some u, e) (db_tick w1)" if "find (match_req q) (users (w_db w)) = Some u" for u e
    using find_matchD [OF that] same code by (auto simp: found_user_def)
  show ?thesis
  proof (cases "find (match_req q) (users (w_db w))")
    case None
    then show ?thesis using same ins [of "db_tick w1"]
      by (simp add: wp_tryE login_lookup_def UserQueryOne_def wp_handle wp_db_query wp_ret)
  next
    case (Some u)
    then show ?thesis using same ins [of "db_tick w1"] hit [OF Some]
      by (simp add: wp_tryE login_lookup_def UserQueryOne_def wp_handle wp_db_query wp_ret)
  qed
qed

lemma wp_loginBySmsCode:
  assumes "r_Cellphone q \<noteq> []" "r_SmsCode q \<noteq> []"
  shows "wp (loginBySmsCode q) (lookup_post q w) (\<lambda>e w'. False) w"
  unfolding loginBySmsCode_def Let_def using assms wp_register [OF assms, of w]
  by (simp add: wp_handle wp_CheckSmsCode wp_ret Let_def)

text \<open>The part of \<open>UserLogin\<close> after the look-up.\<close>

lemma wp_after_lookup:
  assumes "found_user q w w1 one" and "w_now w1 = w_now w"
  shows "wp (failIf (ext_disabled (u_Ext one)) ErrDisable (
     failIf (r_Password q \<noteq> [] \<and> EncryPWD E (r_Password q) \<noteq> u_Password one) ErrPWD (
     reads w_now (\<lambda>now.
     tryAs (UserUpdateLoginTime (u_UID one) now) ErrService (\<lambda>rows.
     failIf (rows \<noteq> 1) ErrService (
     let one1 = one\<lparr>u_LoginTime := Some now, u_Password := [], u_Ext := [], u_Roles := [], u_Departments := []\<rparr> in
     tryE (login_tenant one1) (\<lambda>r.
     if u_TenantID one1 = 0 \<and> e \<noteq> None then throw ErrService else ret r)))))))
    (\<lambda>r w'. u_Password r = [] \<and> (\<exists>u w2. found_user q w w2 u \<and> u_UID r = u_UID u \<and> \<not> ext_disabled (u_Ext u)
        \<and> (r_Password q = [] \<or> u_Password u = EncryPWD E (r_Password q))
        \<and> w_db w' = (w_db w2)\<lparr>users := logged_in (u_UID u) (w_now w) (users (w_db w2))\<rparr>))
    (\<lambda>err w'. (err = ErrDisable \<longleftrightarrow> ext_disabled (u_Ext one))) w1" (is "wp _ ?Q ?E _")
proof -
  let ?one1 = "one\<lparr>u_LoginTime := Some (w_now w), u_Password := [], u_Ext := [], u_Roles := [], u_Departments := []\<rparr>"
  have tenant: "wp (tryE (login_tenant ?one1) (\<lambda>r. if u_TenantID ?one1 = 0 \<and> e \<noteq> None then throw ErrService else ret r)) ?Q ?E w2"
    if a: "w_db w2 = (w_db w1)\<lparr>users := logged_in (u_UID one) (w_now w) (users (w_db w1))\<rparr>"
      and b: "\<not> ext_disabled (u_Ext one)" "r_Password q = [] \<or> u_Password one = EncryPWD E (r_Password q)" for w2
  proof -
    have post: "?Q r w3" if "u_UID r = u_UID ?one1" "u_Password r = u_Password ?one1" "w_db w3 = w_db w2" for r w3
      using that a b assms(1) by (intro conjI exI [of _ one] exI [of _ w1]) simp_all
    have "wp (if c then throw ErrService else ret r) ?Q ?E w3"
      if "u_UID r = u_UID ?one1 \<and> u_Password r = u_Password ?one1 \<and> w_db w3 = w_db w2" for r w3 c
      using that b(1) post [of r w3] by (cases c) (simp_all only: if_True if_False wp_throw wp_ret gerr.distinct simp_thms)
    then show ?thesis unfolding wp_tryE by (intro wp_mono [OF wp_login_tenant]) simp_all
  qed
  show ?thesis
    using assms(2) tenant
    by (cases "users_violation (logged_in (u_UID one) (w_now w) (users (w_db w1)))")
      (auto simp: wp_failIf wp_reads wp_tryAs UserUpdateLoginTime_def wp_upd_users Let_def logged_in_def [symmetric])
qed

lemma if_boolI: "(c \<Longrightarrow> P) \<Longrightarrow> (\<not> c \<Longrightarrow> Q) \<Longrightarrow> if c then P else Q"
  by simp

lemma wp_UserLogin:
  "wp (UserLogin E p) (\<lambda>r w'. u_Password r = [] \<and> (\<exists>u w2. found_user (fst (userPreTreat E p)) w w2 u \<and> u_UID r = u_UID u
        \<and> \<not> ext_disabled (u_Ext u) \<and> (r_Password p = [] \<or> u_Password u = EncryPWD E (r_Password p))
        \<and> w_db w' = (w_db w2)\<lparr>users := logged_in (u_UID u) (w_now w) (users (w_db w2))\<rparr>))
    (\<lambda>err w'. True) w" (is "wp _ ?Q ?E _")
proof (cases "validate E (fst (userPreTreat E p))")
  case None
  let ?q = "fst (userPreTreat E p)"
  have pw: "r_Password ?q = r_Password p" by (rule userPreTreat_password)
  let ?look = "if r_Cellphone ?q \<noteq> [] \<and> r_SmsCode ?q \<noteq> [] then loginBySmsCode ?q
           else if r_Cellphone ?q \<noteq> [] then loginByCellphone ?q
           else if r_Nickname ?q \<noteq> [] then loginByNickname ?q
           else if r_Email ?q \<noteq> [] then loginByEmail ?q
           else ret (None, None)"
  have look: "wp ?look (lookup_post ?q w) (\<lambda>e w'. False) w"
    using wp_loginBySmsCode [of ?q w] wp_login_lookup [of ?q w]
    by (simp add: loginByCellphone_def loginByNickname_def loginByEmail_def wp_ret)
  show ?thesis
    unfolding UserLogin_def Let_def None option.case wp_failIf wp_tryE
    apply (rule if_boolI, rule TrueI, rule wp_mono [OF look])
    subgoal for x w1
      apply (cases x; hypsubst; unfold prod.case fst_conv)
      subgoal for found e
        apply (cases found; hypsubst; unfold option.case)
        subgoal by (simp add: wp_throw)
        subgoal for one unfolding pw [symmetric]
          by (rule wp_mono [OF wp_after_lookup [of ?q w w1 one, unfolded Let_def]]) (elim conjE, assumption, elim conjE, assumption, assumption, rule TrueI)
        done
      done
    subgoal by simp
    done
next
  case (Some f)
  then show ?thesis by (simp add: UserLogin_def Let_def wp_failIf wp_throw)
qed

text \<open>
  C2. What a successful \<open>UserLogin\<close> has established, whatever statement failed on the way: the user is a row
  that matches every given name (phone, mail, nickname) and is not disabled, or was registered just now
  after a phone number with a code; a password, when one was given, has the stored digest; a code sent
  with a phone number is the live one for it, unless the verification service is not set up. The digest
  is not part of the answer, and the only change to the tables besides the registration is the login time.
\<close>

theorem UserLogin_sound:
  "case UserLogin E p w of
      (Ret one, w') \<Rightarrow> u_Password one = [] \<and> (let q = fst (userPreTreat E p) in
         (\<exists>u d. u_UID u = u_UID one \<and> \<not> ext_disabled (u_Ext u)
            \<and> (r_Password p = [] \<or> u_Password u = EncryPWD E (r_Password p))
            \<and> (u \<in> set (users (w_db w)) \<and> match_req q u \<and> d = w_db w
                \<or> r_Cellphone q \<noteq> [] \<and> r_SmsCode q \<noteq> [] \<and> u_UID u = users_uid_seq (w_seqs w) + 1 \<and> u_Password u = []
                  \<and> d = (w_db w)\<lparr>users := users (w_db w) @ [user_row (u_UID u) (w_now w) q]\<rparr>)
            \<and> w_db w' = d\<lparr>users := logged_in (u_UID u) (w_now w) (users d)\<rparr>)
         \<and> (w_sms w \<longrightarrow> r_Cellphone q \<noteq> [] \<longrightarrow> r_SmsCode q \<noteq> [] \<longrightarrow>
              live (w_now w) (w_codes w) (r_Cellphone q) = Some (r_SmsCode q)))
    | (Err e, w') \<Rightarrow> True
    | (Panic, w') \<Rightarrow> False"
proof -
  let ?q = "fst (userPreTreat E p)"
  have "wp (UserLogin E p) (\<lambda>one w'. u_Password one = [] \<and>
         (\<exists>u d. u_UID u = u_UID one \<and> \<not> ext_disabled (u_Ext u)
            \<and> (r_Password p = [] \<or> u_Password u = EncryPWD E (r_Password p))
            \<and> (u \<in> set (users (w_db w)) \<and> match_req ?q u \<and> d = w_db w
                \<or> r_Cellphone ?q \<noteq> [] \<and> r_SmsCode ?q \<noteq> [] \<and> u_UID u = users_uid_seq (w_seqs w) + 1 \<and> u_Password u = []
                  \<and> d = (w_db w)\<lparr>users := users (w_db w) @ [user_row (u_UID u) (w_now w) ?q]\<rparr>)
            \<and> w_db w' = d\<lparr>users := logged_in (u_UID u) (w_now w) (users d)\<rparr>)
         \<and> (w_sms w \<longrightarrow> r_Cellphone ?q \<noteq> [] \<longrightarrow> r_SmsCode ?q \<noteq> [] \<longrightarrow>
              live (w_now w) (w_codes w) (r_Cellphone ?q) = Some (r_SmsCode ?q))) (\<lambda>_ _. True) w"
  proof (rule wp_mono [OF wp_UserLogin], elim conjE exE)
    fix one w' u w2
    assume a: "u_Password one = []" "found_user ?q w w2 u" "u_UID one = u_UID u" "\<not> ext_disabled (u_Ext u)"
      "r_Password p = [] \<or> u_Password u = EncryPWD E (r_Password p)"
      "w_db w' = (w_db w2)\<lparr>users := logged_in (u_UID u) (w_now w) (users (w_db w2))\<rparr>"
    note f = a(2) [unfolded found_user_def]
    show "u_Password one = [] \<and>
         (\<exists>u d. u_UID u = u_UID one \<and> \<not> ext_disabled (u_Ext u)
            \<and> (r_Password p = [] \<or> u_Password u = EncryPWD E (r_Password p))
            \<and> (u \<in> set (users (w_db w)) \<and> match_req ?q u \<and> d = w_db w
                \<or> r_Cellphone ?q \<noteq> [] \<and> r_SmsCode ?q \<noteq> [] \<and> u_UID u = users_uid_seq (w_seqs w) + 1 \<and> u_Password u = []
                  \<and> d = (w_db w)\<lparr>users := users (w_db w) @ [user_row (u_UID u) (w_now w) ?q]\<rparr>)
            \<and> w_db w' = d\<lparr>users := logged_in (u_UID u) (w_now w) (users d)\<rparr>)
         \<and> (w_sms w \<longrightarrow> r_Cellphone ?q \<noteq> [] \<longrightarrow> r_SmsCode ?q \<noteq> [] \<longrightarrow>
              live (w_now w) (w_codes w) (r_Cellphone ?q) = Some (r_SmsCode ?q))"
      using a(1,3-) f by (intro conjI exI [of _ u] exI [of _ "w_db w2"]) auto
  qed simp
  then show ?thesis unfolding Let_def wp_def by (auto split: prod.splits res.splits)
qed

definition sms_request :: UserReq where
  "sms_request = empty_UserReq\<lparr>r_Cellphone := ''13800000000'', r_SmsCode := ''123456''\<rparr>"

lemma sms_request_treated: "fst (userPreTreat sample_env sms_request) = sms_request"
  by code_simp

theorem UserLogin_sound_witness:
  "case UserLogin sample_env sms_request
       (user_world\<lparr>w_sms := True, w_codes := [(''13800000000'', \<lparr>val = ''654321'', expiredAt = 60\<rparr>)]\<rparr>) of
     (Ret one, w') \<Rightarrow> False | (Err e, w') \<Rightarrow> True | (Panic, w') \<Rightarrow> False"
proof -
  have "r_Cellphone sms_request = ''13800000000''" "r_SmsCode sms_request = ''123456''"
    by (simp_all add: sms_request_def)
  then show ?thesis
    using UserLogin_sound [of sample_env sms_request
      "user_world\<lparr>w_sms := True, w_codes := [(''13800000000'', \<lparr>val = ''654321'', expiredAt = 60\<rparr>)]\<rparr>"]
    unfolding Let_def sms_request_treated
    by (cases "UserLogin sample_env sms_request (user_world\<lparr>w_sms := True,
          w_codes := [(''13800000000'', \<lparr>val = ''654321'', expiredAt = 60\<rparr>)]\<rparr>)" rule: prod.exhaust)
      (auto simp: live_def split: res.splits if_splits)
qed

lemma distinct_uid_rows:
  assumes "users_ok us" and "u \<in> set us"
  shows "length (filter (\<lambda>v. u_UID v = u_UID u) us) = 1"
  using filter_uid_card [of u_UID us u "\<lambda>_. True"] assms by (simp add: users_ok_def)

text \<open>
  C31. A login without any credential: the first check of \<open>UserLogin\<close> asks for a password or a code, but the
  code is looked at only beside a phone number and the password only when it is given. A request with
  a user's nickname, any non-empty code and no password therefore logs in as that user.
\<close>

theorem UserLogin_without_credential:
  assumes "users_ok (users (w_db w))" and "u \<in> set (users (w_db w))" and "u_Nickname u = Some n" and "n \<noteq> []"
    and "TrimSpace n = n" and "\<not> ext_disabled (u_Ext u)" and "code \<noteq> []" and "w_faults w = []"
    and "validate E (empty_UserReq\<lparr>r_Nickname := n, r_SmsCode := TrimSpace code\<rparr>) = None"
  shows "\<exists>one w'. UserLogin E (empty_UserReq\<lparr>r_Nickname := n, r_SmsCode := code\<rparr>) w = (Ret one, w') \<and> u_UID one = u_UID u"
proof -
  let ?p = "empty_UserReq\<lparr>r_Nickname := n, r_SmsCode := code\<rparr>" and ?q = "empty_UserReq\<lparr>r_Nickname := n, r_SmsCode := TrimSpace code\<rparr>"
  have treat: "fst (userPreTreat E ?p) = ?q"
    using assms(4,5) by (simp add: userPreTreat_def empty_UserReq_def Let_def)
  have "match_req ?q = (\<lambda>v. u_Nickname v = Some n)"
    using assms(4) by (auto simp: match_req_def empty_UserReq_def)
  then have find: "find (match_req ?q) (users (w_db w)) = Some u"
    using find_uniq [of u_Nickname, OF _ assms(2,3)] assms(1) by (simp add: users_ok_def)
  have fields: "r_Password ?q = []" "r_Cellphone ?q = []" "r_Nickname ?q = n" "r_Password ?p = []" "r_SmsCode ?p = code" "r_Nickname ?p = n"
    by (simp_all add: empty_UserReq_def)
  have ok: "users_violation (map (\<lambda>v. if u_UID v = u_UID u then v\<lparr>u_LoginTime := Some t\<rparr> else v) (users (w_db w))) = None" for t
    by (rule users_violation_map [OF assms(1)]) auto
  have "wp (UserLogin E ?p) (\<lambda>one w'. u_UID one = u_UID u) (\<lambda>_ _. False) w"
    unfolding UserLogin_def Let_def treat assms(9) option.case
    using assms(4,6,7,8) find fields ok distinct_uid_rows [OF assms(1,2)]
    by (simp add: wp_failIf wp_tryE wp_tryAs wp_reads wp_ret loginByNickname_def login_lookup_def wp_handle UserQueryOne_def wp_db_query
        UserUpdateLoginTime_def wp_upd_users login_tenant_def TenantGetByID_def)
  then show ?thesis by (auto simp: wp_def split: prod.splits res.splits)
qed

theorem UserLogin_without_credential_witness:
  "\<exists>one w'. UserLogin sample_env (empty_UserReq\<lparr>r_Nickname := ''ann'', r_SmsCode := ''0''\<rparr>) user_world = (Ret one, w') \<and> u_UID one = 10001"
proof -
  have "TrimSpace ''ann'' = ''ann''" by code_simp
  then show ?thesis
    using UserLogin_without_credential [OF user_world_ok, of sample_user "''ann''" "''0''" sample_env]
    by (simp add: ext_disabled_def gget_def sample_env_def)
qed

end
