(* ===== verification/Department_Service.thy ===== *)
theory Department_Service
  imports Login Mem_Cache
begin

text \<open>
  \<open>service/department.service.go\<close> and \<open>service/permission.service.go\<close>. The department cache is written
  and evicted but read nowhere.
\<close>

section \<open>Departments\<close>

definition depCacheKey :: "u64 \<Rightarrow> u64 \<Rightarrow> string" where
  "depCacheKey tenantID i = show_u64 tenantID @ ''/'' @ show_u64 i"

definition depcache_del :: "u64 \<Rightarrow> u64 \<Rightarrow> 'c world \<Rightarrow> 'c world" where
  "depcache_del tenantID i w = w\<lparr>w_depcache := Delete (depCacheKey tenantID i) (w_depcache w)\<rparr>"

definition depcache_set :: "u64 \<Rightarrow> u64 \<Rightarrow> Department \<Rightarrow> 'c world \<Rightarrow> 'c world" where
  "depcache_set tenantID i m w = w\<lparr>w_depcache := Set (depCacheKey tenantID i) m 600 (w_now w) (w_depcache w)\<rparr>"

definition DepartmentCreate :: "Department \<Rightarrow> ('c, u64) dao" where
  "DepartmentCreate m = failIf (d_TenantID m = 0 \<or> d_OrgID m = 0) ErrParam (
     handle (DepartmentCreate_dao m) (\<lambda>err. case err of PgUnique _ \<Rightarrow> throw ErrPgDupKey | _ \<Rightarrow> throw ErrService) ret)"

definition DepartmentDelete :: "u64 \<Rightarrow> u64 \<Rightarrow> ('c, unit) dao" where
  "DepartmentDelete i tenantID = finally_do (depcache_del tenantID i) (
     tryAs (DepartmentDelete_dao i tenantID) ErrService (\<lambda>_. ret ()))"

definition DepartmentFind :: "u64 \<Rightarrow> u64 \<Rightarrow> u64 \<Rightarrow> u64 \<Rightarrow> u64 \<Rightarrow> ('c, Department list) dao" where
  "DepartmentFind i tenantId orgId page pageSize = failIf (tenantId = 0) ErrParam (
     tryAs (DepartmentFind_dao i tenantId orgId page pageSize) ErrService (\<lambda>rr.
     case rr of
       [m] \<Rightarrow> if i > 0 then update (depcache_set tenantId i m) (ret rr) else ret rr
     | _ \<Rightarrow> ret rr))"

definition DepartmentUpdate :: "Department \<Rightarrow> ('c, unit) dao" where
  "DepartmentUpdate model = failIf (d_Id model = 0 \<or> d_TenantID model = 0 \<or> d_UserId model = 0) ErrParam (
     finally_do (depcache_del (d_TenantID model) (d_Id model)) (
     tryAs (DepartmentUpdate_dao (model\<lparr>d_UserId := 0, d_ParentID := 0\<rparr>)) ErrService (\<lambda>row. ret ())))"

text \<open>\<open>v == nil\<close> deletes the key. The cache entry that is dropped is keyed by the user, not by the department.\<close>

definition DepartmentUpdateConfig :: "u64 \<Rightarrow> u64 \<Rightarrow> u64 \<Rightarrow> string \<Rightarrow> gval \<Rightarrow> ('c, unit) dao" where
  "DepartmentUpdateConfig i currUid currTenantID k v =
     failIf (currUid = 0 \<or> i = 0 \<or> currTenantID = 0) ErrParam (
     failIf (k = []) ErrParam (
     finally_do (depcache_del currTenantID currUid) (
     tryAs (DepartmentFind_dao i currTenantID 0 0 0) ErrService (\<lambda>rr.
     case rr of
       [m] \<Rightarrow>
         failIf (d_TenantID m \<noteq> currTenantID \<or> d_Id m \<noteq> i) ErrNoAuth (
         tryAs (DepartmentUpdateConfig_dao
             (m\<lparr>d_Config := if v = GNil then AList.delete k (d_Config m) else AList.update k v (d_Config m)\<rparr>)) ErrService (\<lambda>rows.
         ret ()))
     | _ \<Rightarrow> throw ErrNull))))"

section \<open>Permissions\<close>

definition PermissionCreate :: "PermissionStruct \<Rightarrow> ('c, nat) dao" where
  "PermissionCreate model = PermissionCreate_dao model"

definition PermissionDelete :: "u64 \<Rightarrow> u64 \<Rightarrow> ('c, unit) dao" where
  "PermissionDelete i tenantID = failIf (i = 0) ErrParam (
     tryAs (PermissionDelete_dao i tenantID) ErrService (\<lambda>row. ret ()))"

definition PermissionList :: "u64 \<Rightarrow> string \<Rightarrow> ('c, PermissionStruct list) dao" where
  "PermissionList tenantID domain = tryAs (PermissionList_dao tenantID domain) ErrService ret"

end
