(* ===== verification/Tenant_Service.thy ===== *)
theory Tenant_Service
  imports Department_Service
begin

text \<open>
  \<open>service/tenant.service.go\<close> and \<open>service/tenant_tree.service.go\<close>: the tenant look-up behind the cache,
  the role dictionary and the configuration of a tenant, the tenant listings. A cached tenant is a
  pointer in Go; every operation that writes through it evicts it on exit, so passing values makes no
  difference after the call. A nil map reads like an empty one.
\<close>

section \<open>The cached look-up\<close>

definition evictTenantCache :: "u64 list \<Rightarrow> 'c world \<Rightarrow> 'c world" where
  "evictTenantCache tenantIDs w = fold (\<lambda>i w. if i > 0 then cache_del (DelTenantCache i) w else w) tenantIDs w"

definition getTenantByIDCached :: "u64 \<Rightarrow> ('c, Tenant option) dao" where
  "getTenantByIDCached tenantID = failIf (tenantID = 0) ErrParam (
     tryE (cache_read (GetTenantCache tenantID)) (\<lambda>hit.
     case hit of Some t \<Rightarrow> ret (Some t) | None \<Rightarrow>
     tryE (TenantGetByID tenantID) (\<lambda>tenant.
     case tenant of None \<Rightarrow> ret None | Some t \<Rightarrow> update (cache_set (SetTenantCache t)) (ret (Some t)))))"

definition TenantGetByIDService :: "u64 \<Rightarrow> ('c, Tenant) dao" where
  "TenantGetByIDService tenantID = failIf (tenantID = 0) ErrParam (
     tryAs (getTenantByIDCached tenantID) ErrService (\<lambda>tenant.
     case tenant of None \<Rightarrow> throw ErrTenantNotFound | Some t \<Rightarrow> ret t))"

section \<open>Creation\<close>

text \<open>The UTF-8 bytes of the title of the administrator role.\<close>

definition root_title :: string where
  "root_title = [CHR 0xE8, CHR 0xB6, CHR 0x85, CHR 0xE7, CHR 0xBA, CHR 0xA7, CHR 0xE7, CHR 0xAE, CHR 0xA1,
     CHR 0xE7, CHR 0x90, CHR 0x86, CHR 0xE5, CHR 0x91, CHR 0x98]"

definition root_role :: RoleStruct where
  "root_role = \<lparr>RoleTitle = root_title, RoleValue = ''root'', RoleUID = 0\<rparr>"

definition empty_config :: TenantConfiguration where
  "empty_config = \<lparr>Roles = [], More = []\<rparr>"

text \<open>
  \<open>Begin\<close> is a statement too; when it fails the transaction is nil and the insertion dereferences it.
  The new tenant gets no row in \<open>tenant_closure\<close>.
\<close>

definition TenantAdd :: "Tenant \<Rightarrow> ('c, u64) dao" where
  "TenantAdd m =
     failIf (t_UID m = 0) ErrTenantAddERR (
     failIf (t_TenantName m = []) ErrTenantNameNull (
     failIf (t_TenantType m = []) ErrTenantTypeNull (
     let cfg = (case t_Configuration m of None \<Rightarrow> empty_config | Some c \<Rightarrow> c) in
     failIf (length (More cfg) > 100) ErrService (
     handle (db_query (\<lambda>_. ())) (\<lambda>_. panic) (\<lambda>_.
     tryE (run_tx (tryAs (TenantInsert (m\<lparr>t_Configuration := Some (cfg\<lparr>Roles := [root_role]\<rparr>)\<rparr>)) ErrService (\<lambda>tenantID.
        failIf (tenantID = 0) ErrTenantAddERR (ret tenantID)))) (\<lambda>(tenantID, committed).
     update (evictTenantCache [tenantID])
       (if committed then ret tenantID else throw DbError)))))))"

section \<open>Roles and configuration\<close>

text \<open>\<open>tenant.Configuration.Roles\<close> with a nil \<open>Configuration\<close> panics.\<close>

definition with_config :: "Tenant \<Rightarrow> (TenantConfiguration \<Rightarrow> ('c, 'a) dao) \<Rightarrow> ('c, 'a) dao" where
  "with_config t k = (case t_Configuration t of None \<Rightarrow> panic | Some c \<Rightarrow> k c)"

definition TenantAddRole :: "u64 \<Rightarrow> RoleStruct \<Rightarrow> ('c, unit) dao" where
  "TenantAddRole tenantId role = finally_do (evictTenantCache [tenantId]) (
     tryAs (getTenantByIDCached tenantId) ErrService (\<lambda>tenant.
     case tenant of None \<Rightarrow> throw ErrTenantNotFound | Some t \<Rightarrow>
     with_config t (\<lambda>c.
     failIf (length (Roles c) > 100) ErrService (
     failIf (list_ex (\<lambda>r. RoleTitle r = RoleTitle role \<or> RoleValue r = RoleValue role) (Roles c)) ErrPgDupKey (
     TenantUpdateConfiguration_dao (t\<lparr>t_Configuration := Some (c\<lparr>Roles := Roles c @ [role]\<rparr>)\<rparr>))))))"

text \<open>The first role with that value is cut out of the slice.\<close>

fun cut_role :: "string \<Rightarrow> RoleStruct list \<Rightarrow> RoleStruct list option" where
  "cut_role v [] = None"
| "cut_role v (r # rs) = (if RoleValue r = v then Some rs else map_option ((#) r) (cut_role v rs))"

definition TenantDelRole :: "u64 \<Rightarrow> RoleStruct \<Rightarrow> ('c, unit) dao" where
  "TenantDelRole tenantId role = finally_do (evictTenantCache [tenantId]) (
     failIf (RoleValue role = ''root'') ErrService (
     tryAs (getTenantByIDCached tenantId) ErrService (\<lambda>tenant.
     case tenant of None \<Rightarrow> throw ErrTenantNotFound | Some t \<Rightarrow>
     with_config t (\<lambda>c.
     case cut_role (RoleValue role) (Roles c) of
       Some rs \<Rightarrow> TenantUpdateConfiguration_dao (t\<lparr>t_Configuration := Some (c\<lparr>Roles := rs\<rparr>)\<rparr>)
     | None \<Rightarrow> ret ()))))"

definition TenantGetRole :: "u64 \<Rightarrow> ('c, RoleStruct list) dao" where
  "TenantGetRole tenantId = handle (getTenantByIDCached tenantId) (\<lambda>_. ret []) (\<lambda>tenant.
     case tenant of None \<Rightarrow> ret [] | Some t \<Rightarrow> with_config t (\<lambda>c. ret (Roles c)))"

definition TenantLoadConfiguration :: "u64 \<Rightarrow> string \<Rightarrow> ('c, gval) dao" where
  "TenantLoadConfiguration tenantId key = tryAs (getTenantByIDCached tenantId) ErrService (\<lambda>tenant.
     case tenant of None \<Rightarrow> throw ErrTenantNotFound | Some t \<Rightarrow>
     with_config t (\<lambda>c. ret (if key \<noteq> [] then gget (More c) key else GMap (More c))))"

text \<open>
  \<open>data\<close> lists the entries of the map in the order the loop visits them; a nil value deletes its key. The
  limit is checked before every insertion.
\<close>

fun merge_more :: "(string \<times> gval) list \<Rightarrow> MapStruct \<Rightarrow> MapStruct option" where
  "merge_more [] m = Some m"
| "merge_more ((k, v) # kvs) m =
     (if v = GNil then merge_more kvs (AList.delete k m)
      else if length m > 100 then None
      else merge_more kvs (AList.update k v m))"

definition TenantUpdateConfiguration :: "u64 \<Rightarrow> (string \<times> gval) list \<Rightarrow> ('c, unit) dao" where
  "TenantUpdateConfiguration tenantId data = finally_do (evictTenantCache [tenantId]) (
     failIf (data = [] \<or> length data > 100) ErrParam (
     failIf (list_ex (\<lambda>(k, v). length k > 64) data) ErrParam (
     tryAs (getTenantByIDCached tenantId) ErrService (\<lambda>tenant.
     case tenant of None \<Rightarrow> throw ErrTenantNotFound | Some t \<Rightarrow>
     let c = (case t_Configuration t of None \<Rightarrow> empty_config | Some c \<Rightarrow> c) in
     case merge_more data (More c) of
       None \<Rightarrow> throw ErrService
     | Some m \<Rightarrow> TenantUpdateConfiguration_dao (t\<lparr>t_Configuration := Some (c\<lparr>More := m\<rparr>)\<rparr>)))))"

text \<open>
  The roles of a user with their titles (the last entry of the dictionary counts); a role that is no
  longer in the dictionary is taken from the user on the way.
\<close>

fun titled_roles :: "'c env \<Rightarrow> u64 \<Rightarrow> u64 \<Rightarrow> u64 \<Rightarrow> RoleStruct list \<Rightarrow> string list \<Rightarrow> ('c, RoleStruct list) dao" where
  "titled_roles E uid tenantId orgID dict [] = ret []"
| "titled_roles E uid tenantId orgID dict (v # vs) =
     (case find (\<lambda>r. RoleValue r = v) (rev dict) of
        Some r \<Rightarrow> tryE (titled_roles E uid tenantId orgID dict vs) (\<lambda>rs. ret (\<lparr>RoleTitle = RoleTitle r, RoleValue = v, RoleUID = 0\<rparr> # rs))
      | None \<Rightarrow> ignoreE (DeleteRoleForUserInDomain (enforcer E) uid tenantId orgID v)
                 (titled_roles E uid tenantId orgID dict vs))"

definition getTenantUserRoles :: "'c env \<Rightarrow> u64 \<Rightarrow> u64 \<Rightarrow> u64 \<Rightarrow> ('c, RoleStruct list) dao" where
  "getTenantUserRoles E uid tenantId orgID = tryAs (getTenantByIDCached tenantId) ErrService (\<lambda>tenant.
     case tenant of None \<Rightarrow> throw ErrTenantNotFound | Some t \<Rightarrow>
     tryE (GetRoleForUserInDomain (enforcer E) uid tenantId orgID) (\<lambda>roleVals.
     if roleVals = [] then ret []
     else with_config t (\<lambda>c. titled_roles E uid tenantId orgID (Roles c) roleVals)))"

definition getTenantUserDepartment :: "u64 \<Rightarrow> u64 \<Rightarrow> u64 list \<Rightarrow> ('c, Department list) dao" where
  "getTenantUserDepartment tenantId orgID depIds = tryAs (DepartmentFind 0 tenantId orgID 0 0) ErrService (\<lambda>deps.
     ret (List.map_filter (\<lambda>dep. find (\<lambda>m. d_Id m = dep) deps) depIds))"

text \<open>
  \<open>GetUserInfoService\<close> (\<open>user.service.go\<close>): an error of the role look-up is logged and then overwritten by the
  department look-up's; \<open>dep.(float64)\<close> panics on an entry that is not a number.
\<close>

definition dep_ids :: "gval list \<Rightarrow> u64 list option" where
  "dep_ids vs = those (map (\<lambda>v. case v of GFloat r \<Rightarrow> Some (of_int (trunc_float r)) | _ \<Rightarrow> None) vs)"

definition GetUserInfoService :: "'c env \<Rightarrow> u64 \<Rightarrow> u64 \<Rightarrow> u64 \<Rightarrow> ('c, User option) dao" where
  "GetUserInfoService E uid tenantId orgID = failIf (uid = 0) (OtherErr ''uid nil'') (
     tryE (UserQueryOne (empty_UserReq\<lparr>r_UID := uid\<rparr>)) (\<lambda>r.
     case r of None \<Rightarrow> ret None | Some u \<Rightarrow>
     let u1 = u\<lparr>u_Password := []\<rparr> in
     if tenantId > 0 \<and> orgID > 0 then
       tryE (handle (getTenantUserRoles E uid tenantId orgID) (\<lambda>_. ret []) ret) (\<lambda>roles.
         case (case gget (u_Ext u1) ''deps'' of GList vs \<Rightarrow> dep_ids vs | _ \<Rightarrow> Some []) of
           None \<Rightarrow> panic
         | Some ids \<Rightarrow> handle (getTenantUserDepartment tenantId orgID ids)
             (\<lambda>_. ret (Some (u1\<lparr>u_Roles := roles, u_Departments := []\<rparr>)))
             (\<lambda>ds. ret (Some (u1\<lparr>u_Roles := roles, u_Departments := ds\<rparr>))))
     else ret (Some u1)))"

section \<open>Tenant listings\<close>

definition TenantTreeList :: "User \<Rightarrow> u64 \<Rightarrow> u64 \<Rightarrow> u64 \<Rightarrow> bool \<Rightarrow> ('c, Tenant list \<times> u64) dao" where
  "TenantTreeList sessionUser ancestorID page pageSize hasTotal = reads w_root (\<lambda>root.
     whenE (u_TenantID sessionUser \<noteq> root)
       (tryAs (TenantClosureIsDescendant (u_TenantID sessionUser) ancestorID) ErrService (\<lambda>depth.
        failIf (depth < 0) ErrNoAuth (ret ()))) (
     tryAs (TenantListByAncestorID ancestorID page pageSize) ErrService (\<lambda>rr.
     failIf (rr = []) ErrNull (
     if hasTotal then
       tryAs (if u_TenantID sessionUser = root then TenantCount else TenantCountByAncestorID ancestorID) ErrService
         (\<lambda>total. ret (rr, total))
     else ret (rr, 0)))))"

definition AdminTenantQuery :: "(gval \<Rightarrow> string option) \<Rightarrow> string \<Rightarrow> string \<Rightarrow> u64 \<Rightarrow> u64 \<Rightarrow> bool \<Rightarrow> ('c, Tenant list \<times> u64) dao" where
  "AdminTenantQuery jsonText tenantName cellphone page pageSize hasTotal =
     tryAs (TenantQuery jsonText tenantName cellphone page pageSize) ErrService (\<lambda>rr.
     failIf (rr = []) ErrNull (
     if hasTotal then tryAs TenantCount ErrService (\<lambda>total. ret (rr, total)) else ret (rr, 0)))"

definition AdminTenantTake :: "u64 \<Rightarrow> ('c, Tenant option) dao" where
  "AdminTenantTake tenantId = tryE (cache_read (GetTenantCache tenantId)) (\<lambda>hit.
     case hit of Some t \<Rightarrow> ret (Some t) | None \<Rightarrow>
     tryAs (TenantGetByID tenantId) ErrService (\<lambda>rst.
     case rst of None \<Rightarrow> ret None | Some t \<Rightarrow> update (cache_set (SetTenantCache t)) (ret (Some t))))"

section \<open>Coherence of the tenant cache\<close>

text \<open>The row a look-up reads now, with the parent joined in.\<close>

definition fresh_tenant :: "(u64 \<rightharpoonup> u64) \<Rightarrow> db \<Rightarrow> u64 \<Rightarrow> Tenant option" where
  "fresh_tenant p d i = map_option (\<lambda>t. t\<lparr>t_ParentID := parent_id p i\<rparr>) (find_tenant i d)"

text \<open>
  The state the tenant services rely on: the tree invariant, the primary key, a well-typed cache, and
  every live cached tenant is the current one.
\<close>

definition tenants_cached :: "(u64 \<rightharpoonup> u64) \<Rightarrow> 'c world \<Rightarrow> bool" where
  "tenants_cached p w \<longleftrightarrow> cache_typed (w_cache w) \<and> 0 \<le> w_now w
     \<and> (\<forall>i t. tv.view (w_now w) (w_cache w) i t \<longrightarrow> fresh_tenant p (w_db w) i = Some t)"

definition tenant_state :: "u64 set \<Rightarrow> (u64 \<rightharpoonup> u64) \<Rightarrow> 'c world \<Rightarrow> bool" where
  "tenant_state N p w \<longleftrightarrow> tenant_tree N p (w_db w) \<and> distinct_by t_ID (tenants (w_db w)) \<and> tenants_cached p w"

text \<open>A call that changed nothing but the cache (and consumed some faults).\<close>

definition calm :: "'c world \<Rightarrow> 'c world \<Rightarrow> bool" where
  "calm w w' \<longleftrightarrow> w' = w\<lparr>w_cache := w_cache w', w_faults := w_faults w'\<rparr> \<and> (w_faults w = [] \<longrightarrow> w_faults w' = [])"

lemma calm_simps [simp]:
  "calm w w" "calm w w' \<Longrightarrow> calm w (db_tick w')" "calm w (w'\<lparr>w_cache := c\<rparr>) \<longleftrightarrow> calm w w'"
  by (cases w; cases w'; auto simp: calm_def db_tick_def)+

lemma calm_fields:
  "calm w w' \<Longrightarrow> w_db w' = w_db w \<and> w_seqs w' = w_seqs w \<and> w_now w' = w_now w \<and> w_root w' = w_root w
     \<and> w_depcache w' = w_depcache w \<and> w_casbin w' = w_casbin w \<and> w_sms w' = w_sms w \<and> w_codes w' = w_codes w
     \<and> (w_faults w = [] \<longrightarrow> w_faults w' = [])"
  by (cases w; cases w') (auto simp: calm_def)

lemma calm_trans: "calm w w' \<Longrightarrow> calm w' w'' \<Longrightarrow> calm w w''"
  by (cases w; cases w'; cases w'') (auto simp: calm_def)

lemma wp_GetTenantCache [wp_simps]:
  "cache_typed (w_cache w) \<Longrightarrow> wp (cache_read (GetTenantCache i)) Q E w =
     Q (case live (w_now w) (w_cache w) (tenantCacheKey i) of Some (CTenant t) \<Rightarrow> Some t | _ \<Rightarrow> None)
       (w\<lparr>w_cache := snd (Get (tenantCacheKey i) (w_now w) (w_cache w))\<rparr>)"
  using getter_results(1) [of "w_cache w" i "w_now w"] snd_GetTenantCache [of i "w_now w" "w_cache w"]
  by (cases "GetTenantCache i (w_now w) (w_cache w)") (simp add: wp_def cache_read_def)

lemma tenants_cached_calm:
  assumes "tenants_cached p w" and "calm w w'" and "cache_typed (w_cache w')"
    and "\<And>i t. tv.view (w_now w) (w_cache w') i t \<Longrightarrow> tv.view (w_now w) (w_cache w) i t \<or> fresh_tenant p (w_db w) i = Some t"
  shows "tenants_cached p w'"
  using assms calm_fields [OF assms(2)] by (auto simp: tenants_cached_def)

lemma tenants_cached_tick [simp]: "tenants_cached p (db_tick w) = tenants_cached p w"
  by (simp add: tenants_cached_def)

lemma tenant_state_tick [simp]: "tenant_state N p (db_tick w) = tenant_state N p w"
  by (simp add: tenant_state_def)

lemma tenants_cached_Get:
  "tenants_cached p w \<Longrightarrow> tenants_cached p (w\<lparr>w_cache := snd (Get k (w_now w) (w_cache w))\<rparr>)"
  by (rule tenants_cached_calm [of p w]) (auto simp: tenants_cached_def cache_typed_Get tv.view_get)

lemma fresh_tenant_ID: "fresh_tenant p d i = Some t \<Longrightarrow> t_ID t = i"
  by (auto simp: fresh_tenant_def dest: find_tenant_ID)

lemma tenants_cached_Set:
  assumes "tenants_cached p w" and "fresh_tenant p (w_db w) (t_ID t) = Some t"
  shows "tenants_cached p (cache_set (SetTenantCache t) w)"
proof -
  have "0 \<le> w_now w" and typed: "cache_typed (w_cache w)" using assms(1) by (auto simp: tenants_cached_def)
  then have view: "tv.view (w_now w) (SetTenantCache t (w_now w) (w_cache w)) i t' \<longleftrightarrow>
      (if i = t_ID t then t' = t else tv.view (w_now w) (w_cache w) i t')" for i t'
    by (simp add: SetTenantCache_def tv.view_set)
  show ?thesis
    by (rule tenants_cached_calm [OF assms(1)])
      (auto simp: cache_set_def view assms(2) intro: cache_step_typed [OF step_SetTenant typed] split: if_splits)
qed

lemma wp_getTenantByIDCached:
  assumes st: "tenant_state N p w" and "i \<noteq> 0"
  shows "wp (getTenantByIDCached i)
    (\<lambda>r w'. r = fresh_tenant p (w_db w) i \<and> calm w w' \<and> tenants_cached p w')
    (\<lambda>e w'. e = DbError \<and> calm w w' \<and> tenants_cached p w' \<and> w_faults w \<noteq> []) w" (is "wp _ ?Q ?E _")
proof -
  have cached: "tenants_cached p w" and inv: "closure_inv N p (tenant_closure (w_db w))"
    and dist: "distinct_by t_ID (tenants (w_db w))" and typed: "cache_typed (w_cache w)"
    using st by (auto simp: tenant_state_def tenant_tree_def tenants_cached_def)
  let ?w = "w\<lparr>w_cache := snd (Get (tenantCacheKey i) (w_now w) (w_cache w))\<rparr>"
  have c: "tenants_cached p ?w" by (rule tenants_cached_Get [OF cached])
  show ?thesis
  proof (cases "live (w_now w) (w_cache w) (tenantCacheKey i)")
    case (Some v)
    then obtain t where v: "v = CTenant t" using live_typed [OF typed Some] by auto
    then have "fresh_tenant p (w_db w) i = Some t"
      using Some cached by (auto simp: tenants_cached_def tv.view_def)
    then show ?thesis
      using Some v c assms(2) by (simp add: getTenantByIDCached_def wp_failIf wp_tryE wp_GetTenantCache typed wp_ret)
  next
    case None
    have post: "wp (case r of None \<Rightarrow> ret None | Some t \<Rightarrow> update (cache_set (SetTenantCache t)) (ret (Some t))) ?Q ?E w'"
      if "w' = db_tick ?w \<and> r = map_option (\<lambda>t. t\<lparr>t_ParentID := parent_id p i\<rparr>) (find_tenant i (w_db ?w))" for r w'
    proof -
      have r: "r = fresh_tenant p (w_db w) i" and w': "calm w w'" "tenants_cached p w'" "w_db w' = w_db w"
        using that c by (auto simp: fresh_tenant_def)
      show ?thesis
      proof (cases r)
        case None
        then show ?thesis using r w' by (simp add: wp_ret)
      next
        case (Some t)
        then have "tenants_cached p (cache_set (SetTenantCache t) w')"
          using w' r fresh_tenant_ID [of p "w_db w" i t] by (intro tenants_cached_Set) auto
        with Some r w' show ?thesis by (simp add: wp_update wp_ret) (simp add: cache_set_def)
      qed
    qed
    have "wp (TenantGetByID i) (\<lambda>r. wp (case r of None \<Rightarrow> ret None
         | Some t \<Rightarrow> update (cache_set (SetTenantCache t)) (ret (Some t))) ?Q ?E) ?E ?w"
      by (rule wp_mono [OF wp_TenantGetByID [of N p ?w i]], simp add: inv, simp add: dist, erule post) (use c in simp)
    with None show ?thesis
      using assms(2) by (simp add: getTenantByIDCached_def wp_failIf wp_tryE wp_GetTenantCache typed)
  qed
qed

text \<open>
  The cached look-up is transparent: from a state whose live cache entries are current,
  \<open>TenantGetByIDService\<close> answers exactly what the tables hold now, the row with its present parent, or
  that there is no such tenant; nothing but the cache changes, and its entries are current again,
  whatever statement fails.
\<close>

theorem TenantGetByIDService_current:
  assumes "tenant_state N p w"
  shows "case TenantGetByIDService i w of
      (Ret t, w') \<Rightarrow> fresh_tenant p (w_db w) i = Some t \<and> i \<noteq> 0 \<and> calm w w' \<and> tenant_state N p w'
    | (Err e, w') \<Rightarrow> calm w w' \<and> tenant_state N p w' \<and>
        (e = ErrParam \<and> i = 0 \<or> e = ErrTenantNotFound \<and> fresh_tenant p (w_db w) i = None \<or> e = ErrService \<and> w_faults w \<noteq> [])
    | (Panic, w') \<Rightarrow> False"
proof -
  have st: "tenant_state N p w'" if "calm w w'" "tenants_cached p w'" for w'
    using assms that calm_fields [OF that(1)] by (simp add: tenant_state_def)
  have "wp (TenantGetByIDService i)
    (\<lambda>t w'. fresh_tenant p (w_db w) i = Some t \<and> i \<noteq> 0 \<and> calm w w' \<and> tenant_state N p w')
    (\<lambda>e w'. calm w w' \<and> tenant_state N p w' \<and>
        (e = ErrParam \<and> i = 0 \<or> e = ErrTenantNotFound \<and> fresh_tenant p (w_db w) i = None \<or> e = ErrService \<and> w_faults w \<noteq> [])) w"
  proof (cases "i = 0")
    case True
    then show ?thesis using assms by (simp add: TenantGetByIDService_def wp_failIf)
  next
    case False
    then show ?thesis
      unfolding TenantGetByIDService_def wp_failIf wp_tryAs if_not_P [OF False]
      by (intro wp_mono [OF wp_getTenantByIDCached [OF assms False]]) (auto simp: wp_simps intro: st split: option.splits)
  qed
  then show ?thesis by (auto simp: wp_def split: prod.splits res.splits)
qed

lemma sample_tenant_state: "tenant_state {1, 2, 3, 4} sample_tree (sample_world c fs)"
proof -
  have "cache_typed []" by (simp add: cache_typed_def)
  then show ?thesis unfolding tenant_state_def tenants_cached_def
    using sample_tenant_tree [of c fs]
    by (simp add: tv.view_def live_def) (simp add: sample_world_def distinct_by_def sample_tenant_def)
qed

theorem TenantGetByIDService_current_witness:
  "case TenantGetByIDService 4 (sample_world () []) of
      (Ret t, w') \<Rightarrow> t = (sample_tenant 4)\<lparr>t_ParentID := 3\<rparr> | _ \<Rightarrow> False"
proof -
  have "fresh_tenant sample_tree (w_db (sample_world () [])) 4 = Some ((sample_tenant 4)\<lparr>t_ParentID := 3\<rparr>)"
    by (simp add: fresh_tenant_def find_tenant_def sample_world_def sample_tenant_def parent_id_def sample_tree_def)
  then show ?thesis
    using TenantGetByIDService_current [OF sample_tenant_state [of "()" "[]"], of 4]
    by (auto simp: sample_world_def split: prod.splits res.splits)
qed

section \<open>Writing the configuration\<close>

text \<open>One row rewritten, its identifier kept.\<close>

definition upd_tenant :: "u64 \<Rightarrow> (Tenant \<Rightarrow> Tenant) \<Rightarrow> db \<Rightarrow> db" where
  "upd_tenant i g d = d\<lparr>tenants := map (\<lambda>t. if t_ID t = i then g t else t) (tenants d)\<rparr>"

definition set_config :: "TenantConfiguration option \<Rightarrow> int \<Rightarrow> Tenant \<Rightarrow> Tenant" where
  "set_config c now t = t\<lparr>t_Configuration := map_option stored_config c, t_UpdateTime := now\<rparr>"

lemma set_config_ID [simp]: "t_ID (set_config c now t) = t_ID t"
  by (simp add: set_config_def)

lemma find_map_if:
  "(\<And>x. f (g x) = f x) \<Longrightarrow> find (\<lambda>x. f x = j) (map (\<lambda>x. if f x = i then g x else x) xs) =
     (if j = i then map_option g (find (\<lambda>x. f x = j) xs) else find (\<lambda>x. f x = j) xs)"
  by (induction xs) auto

lemma fresh_upd_tenant:
  assumes "\<And>t. t_ID (g t) = t_ID t" and "j \<noteq> i"
  shows "fresh_tenant p (upd_tenant i g d) j = fresh_tenant p d j"
  using assms by (simp add: fresh_tenant_def find_tenant_def upd_tenant_def find_map_if)

lemma tree_upd_tenant:
  assumes "\<And>t. t_ID (g t) = t_ID t"
  shows "tenant_tree N p (upd_tenant i g d) = tenant_tree N p d"
    and "distinct_by t_ID (tenants (upd_tenant i g d)) = distinct_by t_ID (tenants d)"
proof -
  have ids: "map t_ID (map (\<lambda>t. if t_ID t = i then g t else t) (tenants d)) = map t_ID (tenants d)"
    using assms by simp
  then have "tenant_ids (upd_tenant i g d) = tenant_ids d"
    unfolding tenant_ids_def upd_tenant_def by (metis (no_types, lifting) db.select_convs(2) db.surjective db.update_convs(2) list.set_map)
  then show "tenant_tree N p (upd_tenant i g d) = tenant_tree N p d"
    by (simp add: tenant_tree_def upd_tenant_def)
  show "distinct_by t_ID (tenants (upd_tenant i g d)) = distinct_by t_ID (tenants d)"
    using assms by (simp add: upd_tenant_def distinct_by_map_same)
qed

lemma evict_fields: "evictTenantCache [i] w = (if i = 0 then w else w\<lparr>w_cache := DelTenantCache i (w_cache w)\<rparr>)"
  by (auto simp: evictTenantCache_def cache_del_def word_neq_0_conv)

text \<open>After an eviction the entry of that tenant no longer matters.\<close>

lemma evict_state:
  assumes "i \<noteq> 0" and "tenant_tree N p (w_db w)" and "distinct_by t_ID (tenants (w_db w))"
    and typed: "cache_typed (w_cache w)" and "0 \<le> w_now w"
    and "\<And>j t. j \<noteq> i \<Longrightarrow> tv.view (w_now w) (w_cache w) j t \<Longrightarrow> fresh_tenant p (w_db w) j = Some t"
  shows "tenant_state N p (evictTenantCache [i] w)"
  using assms cache_step_typed [OF step_DelTenant typed, of i]
  by (auto simp: tenant_state_def tenants_cached_def evict_fields DelTenantCache_def tv.view_del)

lemma evict_after_update:
  assumes st: "tenant_state N p w" and "calm w w1" and "tenants_cached p w1" and "touched w1 w2"
    and db: "w_db w2 = upd_tenant i g (w_db w)" and g: "\<And>t. t_ID (g t) = t_ID t" and "i \<noteq> 0"
  shows "tenant_state N p (evictTenantCache [i] w2)"
proof (rule evict_state [OF \<open>i \<noteq> 0\<close>])
  note f1 = calm_fields [OF assms(2)] and f2 = touched_fields [OF assms(4)]
  show "tenant_tree N p (w_db w2)" "distinct_by t_ID (tenants (w_db w2))"
    using st by (simp_all add: db tree_upd_tenant [OF g] tenant_state_def)
  show "cache_typed (w_cache w2)" "0 \<le> w_now w2"
    using assms(3) f2 by (auto simp: tenants_cached_def)
  fix j t assume "j \<noteq> i" and "tv.view (w_now w2) (w_cache w2) j t"
  then show "fresh_tenant p (w_db w2) j = Some t"
    using assms(3) f1 f2 by (auto simp: db fresh_upd_tenant [OF g] tenants_cached_def)
qed

lemma evict_after_read:
  assumes "tenant_state N p w" and "calm w w1" and "tenants_cached p w1" and "touched w1 w2" and "w_db w2 = w_db w"
  shows "tenant_state N p (evictTenantCache [i] w2)"
proof (cases "i = 0")
  case True
  then show ?thesis using assms calm_fields [OF assms(2)] touched_fields [OF assms(4)]
    by (auto simp: evict_fields tenant_state_def tenants_cached_def)
next
  case False
  then show ?thesis
    using assms calm_fields [OF assms(2)] touched_fields [OF assms(4)]
    by (intro evict_state) (auto simp: tenant_state_def tenants_cached_def)
qed

lemma wp_UpdateConfiguration_dao:
  assumes "distinct_by t_ID (tenants (w_db w))" and "find_tenant (t_ID m) (w_db w) = Some t" and "t_UpdateTime m = t_UpdateTime t"
  shows "wp (TenantUpdateConfiguration_dao m)
    (\<lambda>_ w'. touched w w' \<and> w_db w' = upd_tenant (t_ID m) (set_config (t_Configuration m) (w_now w)) (w_db w))
    (\<lambda>e w'. touched w w' \<and> w_db w' = w_db w \<and> w_faults w \<noteq> []) w"
proof -
  let ?P = "\<lambda>t. t_ID t = t_ID m \<and> t_UpdateTime t = t_UpdateTime m"
  have one: "filter (\<lambda>t. t_ID t = t_ID m) (tenants (w_db w)) = [t]"
    using filter_key_find [OF assms(1), of "t_ID m"] assms(2) by (simp add: find_tenant_def)
  have row: "s = t" if "s \<in> set (tenants (w_db w))" "t_ID s = t_ID m" for s
  proof -
    have "s \<in> set (filter (\<lambda>t. t_ID t = t_ID m) (tenants (w_db w)))" using that by simp
    then show ?thesis by (simp add: one)
  qed
  have "filter ?P (tenants (w_db w)) = filter (\<lambda>t. t_ID t = t_ID m) (tenants (w_db w))"
    using row assms(3) by (intro filter_cong) auto
  then have len: "length (filter ?P (tenants (w_db w))) = 1" by (simp add: one)
  have map: "map (\<lambda>t. if ?P t then t\<lparr>t_Configuration := map_option stored_config (t_Configuration m), t_UpdateTime := now\<rparr> else t) (tenants (w_db w))
      = map (\<lambda>t. if t_ID t = t_ID m then set_config (t_Configuration m) now t else t) (tenants (w_db w))" for now
    using row assms(3) by (intro map_cong) (auto simp: set_config_def)
  show ?thesis
    unfolding TenantUpdateConfiguration_dao_def wp_reads wp_tryE wp_db_exec Let_def fst_conv snd_conv len
    by (simp add: wp_ret upd_tenant_def map db_fails_def)
qed

lemma upd_tenant_id [simp]: "upd_tenant i (\<lambda>t. t) d = d"
  by (simp add: upd_tenant_def)

text \<open>
  What the writers share: the cached tenant is looked up, a continuation rewrites the row of that tenant,
  and the entry is evicted on every exit.
\<close>

definition config_op :: "u64 \<Rightarrow> (Tenant \<Rightarrow> ('c, unit) dao) \<Rightarrow> ('c, unit) dao" where
  "config_op i k = tryAs (getTenantByIDCached i) ErrService (\<lambda>tenant.
     case tenant of None \<Rightarrow> throw ErrTenantNotFound | Some t \<Rightarrow> k t)"

lemma wp_config_op:
  assumes st: "tenant_state N p w"
    and k: "\<And>t w1. fresh_tenant p (w_db w) i = Some t \<Longrightarrow> calm w w1 \<Longrightarrow>
      wp (k t) (\<lambda>_ w2. touched w1 w2 \<and> (\<exists>g. (\<forall>t. t_ID (g t) = t_ID t) \<and> w_db w2 = upd_tenant i g (w_db w)) \<and> Q (w_db w2))
         (\<lambda>e w2. touched w1 w2 \<and> w_db w2 = w_db w) w1"
  shows "wp (finally_do (evictTenantCache [i]) (config_op i k))
    (\<lambda>_ w'. i \<noteq> 0 \<and> fresh_tenant p (w_db w) i \<noteq> None \<and> tenant_state N p w' \<and> Q (w_db w'))
    (\<lambda>e w'. tenant_state N p w' \<and> w_db w' = w_db w) w" (is "wp _ ?Q ?E _")
proof (cases "i = 0")
  case True
  then show ?thesis
    using evict_after_read [OF st, of w w i] st
    by (simp add: config_op_def getTenantByIDCached_def wp_finally_do wp_tryAs wp_failIf wp_throw evict_fields tenant_state_def)
next
  case False
  have db_evict: "w_db (evictTenantCache [i] v) = w_db v" for v by (simp add: evict_fields)
  have "wp (case r of None \<Rightarrow> throw ErrTenantNotFound | Some t \<Rightarrow> k t)
      (\<lambda>x v. ?Q x (evictTenantCache [i] v)) (\<lambda>e v. ?E e (evictTenantCache [i] v)) w1"
    if a: "r = fresh_tenant p (w_db w) i \<and> calm w w1 \<and> tenants_cached p w1" for r w1
  proof (cases r)
    case None
    then show ?thesis
      using a evict_after_read [OF st, of w1 w1 i] calm_fields [of w w1] by (simp add: wp_throw db_evict)
  next
    case (Some t)
    then have f: "fresh_tenant p (w_db w) i = Some t" using a by simp
    show ?thesis unfolding Some option.case
    proof (rule wp_mono [OF k [OF f]])
      show "calm w w1" using a by simp
    next
      fix x v
      assume b: "touched w1 v \<and> (\<exists>g. (\<forall>t. t_ID (g t) = t_ID t) \<and> w_db v = upd_tenant i g (w_db w)) \<and> Q (w_db v)"
      then obtain g where g: "\<And>t. t_ID (g t) = t_ID t" "w_db v = upd_tenant i g (w_db w)" by blast
      have "tenant_state N p (evictTenantCache [i] v)"
        using a b by (intro evict_after_update [OF st _ _ _ g(2) g(1) False, of w1]) auto
      then show "?Q x (evictTenantCache [i] v)" using b False f by (simp add: db_evict)
    next
      fix e v assume "touched w1 v \<and> w_db v = w_db w"
      then show "?E e (evictTenantCache [i] v)" using a evict_after_read [OF st, of w1 v i] by (simp add: db_evict)
    qed
  qed
  moreover have "?E ErrService (evictTenantCache [i] w1)" if "calm w w1 \<and> tenants_cached p w1" for w1
    using that evict_after_read [OF st, of w1 w1 i] calm_fields [of w w1] by (simp add: db_evict)
  ultimately show ?thesis
    unfolding config_op_def wp_finally_do wp_tryAs
    by (intro wp_mono [OF wp_getTenantByIDCached [OF st False]]) blast+
qed

lemma wp_write_config:
  assumes st: "tenant_state N p w" and f: "fresh_tenant p (w_db w) i = Some t" and c: "calm w w1"
  shows "wp (TenantUpdateConfiguration_dao (t\<lparr>t_Configuration := cfg\<rparr>))
    (\<lambda>_ w2. touched w1 w2 \<and> w_db w2 = upd_tenant i (set_config cfg (w_now w)) (w_db w))
    (\<lambda>e w2. touched w1 w2 \<and> w_db w2 = w_db w) w1"
proof -
  obtain r where r: "find_tenant i (w_db w) = Some r" "t = r\<lparr>t_ParentID := parent_id p i\<rparr>"
    using f by (auto simp: fresh_tenant_def)
  have "t_ID t = i" by (rule fresh_tenant_ID [OF f])
  moreover have "distinct_by t_ID (tenants (w_db w1))" "w_db w1 = w_db w" "w_now w1 = w_now w"
    using st calm_fields [OF c] by (auto simp: tenant_state_def)
  ultimately show ?thesis
    using r by (intro wp_mono [OF wp_UpdateConfiguration_dao [where t = r]]) auto
qed

section \<open>The role dictionary\<close>

text \<open>Titles and values are unique and the administrator role is there.\<close>

definition roles_ok :: "RoleStruct list \<Rightarrow> bool" where
  "roles_ok rs \<longleftrightarrow> distinct_by RoleTitle rs \<and> distinct_by RoleValue rs \<and> ''root'' \<in> RoleValue ` set rs"

definition dicts_ok :: "db \<Rightarrow> bool" where
  "dicts_ok d \<longleftrightarrow> list_all (\<lambda>t. case t_Configuration t of None \<Rightarrow> False | Some c \<Rightarrow> roles_ok (Roles c)) (tenants d)"

lemma dicts_ok_find:
  assumes "dicts_ok d" and "fresh_tenant p d i = Some t"
  shows "\<exists>c. t_Configuration t = Some c \<and> roles_ok (Roles c)"
proof -
  obtain r where "find_tenant i d = Some r" and "t = r\<lparr>t_ParentID := parent_id p i\<rparr>"
    using assms(2) by (auto simp: fresh_tenant_def)
  moreover then have "r \<in> set (tenants d)" by (simp add: find_tenant_def find_matchD)
  ultimately show ?thesis using assms(1) by (auto simp: dicts_ok_def list_all_iff split: option.splits)
qed

lemma dicts_ok_set: "dicts_ok d \<Longrightarrow> roles_ok (Roles c) \<Longrightarrow> dicts_ok (upd_tenant i (set_config (Some c) now) d)"
  by (auto simp: dicts_ok_def list_all_iff upd_tenant_def set_config_def stored_config_def)

lemma roles_ok_add:
  "roles_ok rs \<Longrightarrow> \<not> list_ex (\<lambda>r. RoleTitle r = RoleTitle role \<or> RoleValue r = RoleValue role) rs \<Longrightarrow> roles_ok (rs @ [role])"
  by (auto simp: roles_ok_def distinct_by_def list_ex_iff)

lemma cut_role_Some:
  "cut_role v rs = Some rs' \<Longrightarrow> \<exists>a r b. rs = a @ r # b \<and> rs' = a @ b \<and> RoleValue r = v \<and> v \<notin> RoleValue ` set a"
proof (induction rs arbitrary: rs')
  case (Cons r rs)
  show ?case
  proof (cases "RoleValue r = v")
    case True
    then show ?thesis using Cons.prems by (intro exI [of _ "[]"]) auto
  next
    case False
    then obtain rs'' where rs'': "cut_role v rs = Some rs''" "rs' = r # rs''" using Cons.prems by auto
    then obtain a q b where "rs = a @ q # b" "rs'' = a @ b" "RoleValue q = v" "v \<notin> RoleValue ` set a"
      using Cons.IH by blast
    then show ?thesis using rs''(2) False by (intro exI [of _ "r # a"] exI [of _ q] exI [of _ b]) auto
  qed
qed simp

lemma roles_ok_cut:
  assumes "roles_ok rs" and "cut_role v rs = Some rs'" and "v \<noteq> ''root''"
  shows "roles_ok rs' \<and> v \<notin> RoleValue ` set rs'"
proof -
  obtain a r b where "rs = a @ r # b" and "rs' = a @ b" and "RoleValue r = v"
    using cut_role_Some [OF assms(2)] by blast
  then show ?thesis using assms(1,3) by (auto simp: roles_ok_def distinct_by_def)
qed

lemma TenantAddRole_eq:
  "TenantAddRole i role = finally_do (evictTenantCache [i]) (config_op i (\<lambda>t. with_config t (\<lambda>c.
     failIf (length (Roles c) > 100) ErrService (
     failIf (list_ex (\<lambda>r. RoleTitle r = RoleTitle role \<or> RoleValue r = RoleValue role) (Roles c)) ErrPgDupKey (
     TenantUpdateConfiguration_dao (t\<lparr>t_Configuration := Some (c\<lparr>Roles := Roles c @ [role]\<rparr>)\<rparr>))))))"
  unfolding TenantAddRole_def config_op_def ..

definition role_added :: "u64 \<Rightarrow> RoleStruct \<Rightarrow> int \<Rightarrow> db \<Rightarrow> db \<Rightarrow> bool" where
  "role_added i role now d d' \<longleftrightarrow> (\<exists>t c. find_tenant i d = Some t \<and> t_Configuration t = Some c
     \<and> RoleTitle role \<notin> RoleTitle ` set (Roles c) \<and> RoleValue role \<notin> RoleValue ` set (Roles c)
     \<and> d' = upd_tenant i (set_config (Some (c\<lparr>Roles := Roles c @ [role]\<rparr>)) now) d)"

lemma wp_add_role:
  assumes st: "tenant_state N p w" and dicts: "dicts_ok (w_db w)" and f: "fresh_tenant p (w_db w) i = Some t" and cl: "calm w w1"
  shows "wp (with_config t (\<lambda>c. failIf (length (Roles c) > 100) ErrService (
        failIf (list_ex (\<lambda>r. RoleTitle r = RoleTitle role \<or> RoleValue r = RoleValue role) (Roles c)) ErrPgDupKey (
        TenantUpdateConfiguration_dao (t\<lparr>t_Configuration := Some (c\<lparr>Roles := Roles c @ [role]\<rparr>)\<rparr>)))))
      (\<lambda>_ w2. touched w1 w2 \<and> (\<exists>g. (\<forall>t. t_ID (g t) = t_ID t) \<and> w_db w2 = upd_tenant i g (w_db w))
        \<and> (role_added i role (w_now w) (w_db w) (w_db w2) \<and> dicts_ok (w_db w2)))
      (\<lambda>e w2. touched w1 w2 \<and> w_db w2 = w_db w) w1" (is "wp _ ?Q ?E _")
proof -
  obtain c where c: "t_Configuration t = Some c" "roles_ok (Roles c)" using dicts_ok_find [OF dicts f] by blast
  obtain r where r: "find_tenant i (w_db w) = Some r" "t_Configuration r = Some c"
    using f c by (auto simp: fresh_tenant_def)
  let ?c = "c\<lparr>Roles := Roles c @ [role]\<rparr>"
  have "wp (TenantUpdateConfiguration_dao (t\<lparr>t_Configuration := Some ?c\<rparr>)) ?Q ?E w1"
    if new: "\<not> list_ex (\<lambda>r. RoleTitle r = RoleTitle role \<or> RoleValue r = RoleValue role) (Roles c)"
  proof (rule wp_mono [OF wp_write_config [OF st f cl]])
    fix x w2
    assume a: "touched w1 w2 \<and> w_db w2 = upd_tenant i (set_config (Some ?c) (w_now w)) (w_db w)"
    have "dicts_ok (w_db w2)" using a roles_ok_add [OF c(2) new] dicts by (simp add: dicts_ok_set)
    moreover have "role_added i role (w_now w) (w_db w) (w_db w2)"
      unfolding role_added_def using a r new by (intro exI [of _ r] exI [of _ c]) (auto simp: list_ex_iff)
    moreover have "\<exists>g. (\<forall>t. t_ID (g t) = t_ID t) \<and> w_db w2 = upd_tenant i g (w_db w)"
      using a by (intro exI [of _ "set_config (Some ?c) (w_now w)"]) simp
    ultimately show "?Q x w2" using a by blast
  qed
  then show ?thesis unfolding with_config_def c(1) option.case wp_failIf using calm_fields [OF cl] by simp
qed

text \<open>
  Adding a role (\<open>TenantAddRole\<close>): it succeeds only for a tenant that has neither the title nor the value
  yet, and then appends the role to that tenant's dictionary and changes nothing else in the tables; a
  failure changes no table. Either way the dictionaries stay duplicate-free with the administrator role,
  and the cache is current.
\<close>

theorem TenantAddRole_adds:
  assumes "tenant_state N p w" and "dicts_ok (w_db w)"
  shows "case TenantAddRole i role w of
      (Ret _, w') \<Rightarrow> role_added i role (w_now w) (w_db w) (w_db w') \<and> dicts_ok (w_db w') \<and> tenant_state N p w'
    | (Err e, w') \<Rightarrow> w_db w' = w_db w \<and> tenant_state N p w'
    | (Panic, w') \<Rightarrow> False"
proof -
  have "wp (TenantAddRole i role) (\<lambda>_ w'. i \<noteq> 0 \<and> fresh_tenant p (w_db w) i \<noteq> None \<and> tenant_state N p w'
      \<and> (role_added i role (w_now w) (w_db w) (w_db w') \<and> dicts_ok (w_db w'))) (\<lambda>e w'. tenant_state N p w' \<and> w_db w' = w_db w) w"
    unfolding TenantAddRole_eq by (rule wp_config_op [OF assms(1)], rule wp_add_role [OF assms])
  then show ?thesis by (auto simp: wp_def split: prod.splits res.splits)
qed

lemma sample_dicts_ok: "dicts_ok (w_db (sample_world c fs))"
  by (simp add: dicts_ok_def sample_world_def sample_tenant_def roles_ok_def distinct_by_def)

theorem TenantAddRole_adds_witness:
  "case TenantAddRole 3 \<lparr>RoleTitle = ''cashier'', RoleValue = ''c'', RoleUID = 0\<rparr> (sample_world () [False, False, True]) of
      (Ret _, w') \<Rightarrow> dicts_ok (w_db w') | (Err e, w') \<Rightarrow> w_db w' = w_db (sample_world () [False, False, True]) | (Panic, w') \<Rightarrow> False"
  using TenantAddRole_adds [OF sample_tenant_state [of "()" "[False, False, True]"] sample_dicts_ok, of 3 "\<lparr>RoleTitle = ''cashier'', RoleValue = ''c'', RoleUID = 0\<rparr>"]
  by (auto split: prod.splits res.splits)

definition role_removed :: "u64 \<Rightarrow> string \<Rightarrow> int \<Rightarrow> db \<Rightarrow> db \<Rightarrow> bool" where
  "role_removed i v now d d' \<longleftrightarrow> v \<noteq> ''root'' \<and> (\<exists>t c. find_tenant i d = Some t \<and> t_Configuration t = Some c
     \<and> (if v \<in> RoleValue ` set (Roles c)
        then d' = upd_tenant i (set_config (Some (c\<lparr>Roles := filter (\<lambda>r. RoleValue r \<noteq> v) (Roles c)\<rparr>)) now) d
        else d' = d))"

lemma cut_role_None: "cut_role v rs = None \<longleftrightarrow> v \<notin> RoleValue ` set rs"
  by (induction rs) auto

lemma cut_role_filter:
  "distinct_by RoleValue rs \<Longrightarrow> cut_role v rs = Some rs' \<Longrightarrow> rs' = filter (\<lambda>r. RoleValue r \<noteq> v) rs"
proof -
  assume d: "distinct_by RoleValue rs" and "cut_role v rs = Some rs'"
  then obtain a r b where *: "rs = a @ r # b" "rs' = a @ b" "RoleValue r = v" using cut_role_Some by blast
  then have "v \<notin> RoleValue ` set a" "v \<notin> RoleValue ` set b" using d by (auto simp: distinct_by_def)
  then have "filter (\<lambda>r. RoleValue r \<noteq> v) a = a" "filter (\<lambda>r. RoleValue r \<noteq> v) b = b"
    by (auto simp: filter_id_conv image_iff)
  with * show ?thesis by simp
qed

lemma wp_del_role:
  assumes st: "tenant_state N p w" and dicts: "dicts_ok (w_db w)" and v: "v \<noteq> ''root''"
    and f: "fresh_tenant p (w_db w) i = Some t" and cl: "calm w w1"
  shows "wp (with_config t (\<lambda>c. case cut_role v (Roles c) of
         Some rs \<Rightarrow> TenantUpdateConfiguration_dao (t\<lparr>t_Configuration := Some (c\<lparr>Roles := rs\<rparr>)\<rparr>)
       | None \<Rightarrow> ret ()))
      (\<lambda>_ w2. touched w1 w2 \<and> (\<exists>g. (\<forall>t. t_ID (g t) = t_ID t) \<and> w_db w2 = upd_tenant i g (w_db w))
        \<and> (role_removed i v (w_now w) (w_db w) (w_db w2) \<and> dicts_ok (w_db w2)))
      (\<lambda>e w2. touched w1 w2 \<and> w_db w2 = w_db w) w1" (is "wp _ ?Q ?E _")
proof -
  obtain c where c: "t_Configuration t = Some c" "roles_ok (Roles c)" using dicts_ok_find [OF dicts f] by blast
  obtain r where r: "find_tenant i (w_db w) = Some r" "t_Configuration r = Some c"
    using f c by (auto simp: fresh_tenant_def)
  show ?thesis
  proof (cases "cut_role v (Roles c)")
    case None
    have "role_removed i v (w_now w) (w_db w) (w_db w)"
      unfolding role_removed_def using v r None cut_role_None [of v "Roles c"] by auto
    moreover have "\<exists>g. (\<forall>t. t_ID (g t) = t_ID t) \<and> w_db w = upd_tenant i g (w_db w)"
      by (intro exI [of _ "\<lambda>t. t"]) simp
    ultimately show ?thesis using None c(1) dicts calm_fields [OF cl] by (simp add: with_config_def wp_ret)
  next
    case (Some rs)
    let ?c = "c\<lparr>Roles := rs\<rparr>"
    have "wp (TenantUpdateConfiguration_dao (t\<lparr>t_Configuration := Some ?c\<rparr>)) ?Q ?E w1"
    proof (rule wp_mono [OF wp_write_config [OF st f cl]])
      fix x w2
      assume a: "touched w1 w2 \<and> w_db w2 = upd_tenant i (set_config (Some ?c) (w_now w)) (w_db w)"
      have "dicts_ok (w_db w2)" using a roles_ok_cut [OF c(2) Some v] dicts by (simp add: dicts_ok_set)
      moreover have "rs = filter (\<lambda>r. RoleValue r \<noteq> v) (Roles c)" using c(2) Some by (simp add: roles_ok_def cut_role_filter)
      then have "role_removed i v (w_now w) (w_db w) (w_db w2)"
        unfolding role_removed_def using a r v Some cut_role_None [of v "Roles c"] by auto
      moreover have "\<exists>g. (\<forall>t. t_ID (g t) = t_ID t) \<and> w_db w2 = upd_tenant i g (w_db w)"
        using a by (intro exI [of _ "set_config (Some ?c) (w_now w)"]) simp
      ultimately show "?Q x w2" using a by blast
    qed
    then show ?thesis using Some by (simp add: with_config_def c(1))
  qed
qed

text \<open>
  Removing a role (\<open>TenantDelRole\<close>): the administrator role can never be removed; success removes the
  entry with that value and nothing else (or changes nothing when there is none), keeping the
  dictionaries duplicate-free with the administrator role; a failure changes no table. The cache is
  current afterwards.
\<close>

theorem TenantDelRole_removes:
  assumes "tenant_state N p w" and "dicts_ok (w_db w)"
  shows "case TenantDelRole i role w of
      (Ret _, w') \<Rightarrow> role_removed i (RoleValue role) (w_now w) (w_db w) (w_db w') \<and> dicts_ok (w_db w') \<and> tenant_state N p w'
    | (Err e, w') \<Rightarrow> w_db w' = w_db w \<and> tenant_state N p w'
    | (Panic, w') \<Rightarrow> False"
proof -
  have "wp (TenantDelRole i role) (\<lambda>_ w'. tenant_state N p w'
      \<and> (role_removed i (RoleValue role) (w_now w) (w_db w) (w_db w') \<and> dicts_ok (w_db w'))) (\<lambda>e w'. tenant_state N p w' \<and> w_db w' = w_db w) w"
  proof (cases "RoleValue role = ''root''")
    case True
    then show ?thesis
      using evict_after_read [OF assms(1), of w w i] assms(1)
      by (simp add: TenantDelRole_def wp_finally_do wp_failIf tenant_state_def evict_fields)
  next
    case False
    have "wp (finally_do (evictTenantCache [i]) (config_op i (\<lambda>t. with_config t (\<lambda>c. case cut_role (RoleValue role) (Roles c) of
         Some rs \<Rightarrow> TenantUpdateConfiguration_dao (t\<lparr>t_Configuration := Some (c\<lparr>Roles := rs\<rparr>)\<rparr>)
       | None \<Rightarrow> ret ()))))
      (\<lambda>_ w'. i \<noteq> 0 \<and> fresh_tenant p (w_db w) i \<noteq> None \<and> tenant_state N p w'
      \<and> (role_removed i (RoleValue role) (w_now w) (w_db w) (w_db w') \<and> dicts_ok (w_db w'))) (\<lambda>e w'. tenant_state N p w' \<and> w_db w' = w_db w) w"
      by (rule wp_config_op [OF assms(1)], rule wp_del_role [OF assms False])
    then show ?thesis using False
      by (auto simp: TenantDelRole_def config_op_def failIf_def elim!: wp_mono)
  qed
  then show ?thesis by (auto simp: wp_def split: prod.splits res.splits)
qed

theorem TenantDelRole_removes_witness:
  "case TenantDelRole 3 \<lparr>RoleTitle = ''admin'', RoleValue = ''root'', RoleUID = 0\<rparr> (sample_world () []) of
      (Ret _, w') \<Rightarrow> False | (Err e, w') \<Rightarrow> w_db w' = w_db (sample_world () []) | (Panic, w') \<Rightarrow> False"
  using TenantDelRole_removes [OF sample_tenant_state [of "()" "[]"] sample_dicts_ok, of 3 "\<lparr>RoleTitle = ''admin'', RoleValue = ''root'', RoleUID = 0\<rparr>"]
  by (auto simp: role_removed_def split: prod.splits res.splits)

end
