(* ===== verification/Org_Service.thy ===== *)
theory Org_Service
  imports Tenant_Service
begin

text \<open>
  \<open>service/org.service.go\<close>: organizations of a tenant, their members and the membership check that guards
  the requests of a user, which goes through the memory cache.
\<close>

section \<open>Look-ups\<close>

definition OrgGet :: "u64 \<Rightarrow> ('c, Organization) dao" where
  "OrgGet orgID = failIf (orgID = 0) ErrOrgRequired (
     tryE (cache_read (GetOrgCache orgID)) (\<lambda>hit.
     case hit of Some org \<Rightarrow> ret org | None \<Rightarrow>
     tryAs (OrgGetByID orgID) ErrService (\<lambda>org.
     case org of
       None \<Rightarrow> throw ErrOrgNotFound
     | Some r \<Rightarrow> failIf (o_ID r = 0) ErrOrgNotFound (update (cache_set (SetOrgCache (Some r))) (ret r)))))"

definition RequireOrg :: "u64 \<Rightarrow> u64 \<Rightarrow> ('c, Organization) dao" where
  "RequireOrg tenantID orgID = failIf (tenantID = 0 \<or> orgID = 0) ErrOrgRequired (
     tryE (OrgGet orgID) (\<lambda>org. failIf (o_TenantID org \<noteq> tenantID) ErrNoAuth (ret org)))"

definition UserInOrg :: "u64 \<Rightarrow> u64 \<Rightarrow> u64 \<Rightarrow> ('c, unit) dao" where
  "UserInOrg uid tenantID orgID = failIf (uid = 0) ErrNoAuth (
     tryE (RequireOrg tenantID orgID) (\<lambda>_.
     tryE (cache_read (GetOrgMemberCache orgID uid)) (\<lambda>(isIn, hit).
     if hit then (if isIn then ret () else throw ErrNoAuth)
     else tryAs (OrgMemberExists orgID uid) ErrService (\<lambda>ok.
       failIf (\<not> ok) ErrNoAuth (update (cache_set (SetOrgMemberCache orgID uid True)) (ret ()))))))"

definition OrgGetByTenantName :: "u64 \<Rightarrow> string \<Rightarrow> ('c, Organization option) dao" where
  "OrgGetByTenantName tenantID name0 = (let name = TrimSpace name0 in
     failIf (tenantID = 0 \<or> name = []) ErrParam (tryAs (OrgGetByTenantName_dao tenantID name) ErrService ret))"

definition OrgListByTenant :: "u64 \<Rightarrow> ('c, Organization list) dao" where
  "OrgListByTenant tenantID = tryAs (OrgListByTenant_dao tenantID) ErrService ret"

definition OrgListByUser :: "u64 \<Rightarrow> u64 \<Rightarrow> ('c, Organization list) dao" where
  "OrgListByUser uid tenantID = failIf (uid = 0 \<or> tenantID = 0) ErrParam (tryAs (OrgListByUser_dao uid tenantID) ErrService ret)"

section \<open>Changes\<close>

text \<open>The policies come from the oldest organization of the tenant, or from the domain used before organizations.\<close>

definition OrgCreate :: "'c env \<Rightarrow> u64 \<Rightarrow> string \<Rightarrow> ('c, u64) dao" where
  "OrgCreate E tenantID name0 = (let name = TrimSpace name0 in
     failIf (tenantID = 0 \<or> name = []) ErrParam (
     tryE (TenantGetByIDService tenantID) (\<lambda>tenant.
     tryAs (OrgGetByTenantName_dao tenantID name) ErrService (\<lambda>got.
     failIf (case got of None \<Rightarrow> False | Some r \<Rightarrow> o_ID r > 0) ErrOrgNameDup (
     tryAs (OrgListByTenant_dao tenantID) ErrService (\<lambda>existing.
     handle (OrgInsert tenantID name) (\<lambda>err. throw (MapPostgresOrgInsertError err)) (\<lambda>id.
     failIf (id = 0) ErrService (
     whenE (t_UID tenant > 0)
       (tryAs (OrgMemberInsert id (t_UID tenant) tenantID) ErrService (\<lambda>_.
        update (cache_del (DelOrgMemberCache id (t_UID tenant))) (
        tryAs (AddRoleForUserInDomain (enforcer E) (t_UID tenant) tenantID id ''root'') ErrService (\<lambda>_. ret ())))) (
     let fromDomain = (case find (\<lambda>r. o_ID r > 0) existing of
           Some r \<Rightarrow> Domain tenantID (o_ID r) | None \<Rightarrow> LegacyTenantDomain tenantID) in
     ignoreE (CopyPolicies (enforcer E) fromDomain (Domain tenantID id)) (
     ret id))))))))))"

definition OrgAddMember :: "u64 \<Rightarrow> u64 \<Rightarrow> u64 \<Rightarrow> ('c, unit) dao" where
  "OrgAddMember orgID uid tenantID = failIf (orgID = 0 \<or> uid = 0 \<or> tenantID = 0) ErrParam (
     tryE (RequireOrg tenantID orgID) (\<lambda>_.
     tryAs (OrgMemberInsert orgID uid tenantID) ErrService (\<lambda>_.
     update (cache_del (DelOrgMemberCache orgID uid)) (ret ()))))"

definition OrgRemoveMember :: "'c env \<Rightarrow> u64 \<Rightarrow> u64 \<Rightarrow> u64 \<Rightarrow> ('c, unit) dao" where
  "OrgRemoveMember E orgID uid tenantID = failIf (orgID = 0 \<or> uid = 0 \<or> tenantID = 0) ErrParam (
     tryE (RequireOrg tenantID orgID) (\<lambda>_.
     tryAs (DeleteRolesForUserInDomain (enforcer E) uid tenantID orgID) ErrService (\<lambda>_.
     tryAs (OrgMemberDelete orgID uid) ErrService (\<lambda>_.
     update (cache_del (DelOrgMemberCache orgID uid)) (ret ())))))"

definition evict_members :: "u64 \<Rightarrow> u64 list \<Rightarrow> 'c world \<Rightarrow> 'c world" where
  "evict_members orgID uids w = fold (\<lambda>uid. cache_del (DelOrgMemberCache orgID uid)) uids w"

definition OrgDelete :: "'c env \<Rightarrow> u64 \<Rightarrow> u64 \<Rightarrow> ('c, unit) dao" where
  "OrgDelete E tenantID orgID =
     tryE (RequireOrg tenantID orgID) (\<lambda>_.
     tryAs (OrgMemberUIDs orgID) ErrService (\<lambda>uids.
     tryAs (RemoveDomain (enforcer E) (Domain tenantID orgID)) ErrService (\<lambda>_.
     tryAs (DepartmentDeleteByOrg tenantID orgID) ErrService (\<lambda>_.
     tryAs (OrgMemberDeleteByOrg orgID) ErrService (\<lambda>_.
     tryAs (OrgDelete_dao orgID tenantID) ErrService (\<lambda>_.
     update (cache_del (DelOrgCache orgID)) (
     update (evict_members orgID uids) (ret ()))))))))"

section \<open>Roles across organizations\<close>

fun has_role_in :: "'c env \<Rightarrow> u64 \<Rightarrow> u64 \<Rightarrow> string \<Rightarrow> Organization list \<Rightarrow> ('c, bool) dao" where
  "has_role_in E uid tenantID role [] = ret False"
| "has_role_in E uid tenantID role (r # rs) =
     tryE (GetRoleForUserInDomain (enforcer E) uid tenantID (o_ID r)) (\<lambda>roles.
     if list_ex (\<lambda>x. x = role) roles then ret True else has_role_in E uid tenantID role rs)"

definition UserHasRoleInTenant :: "'c env \<Rightarrow> u64 \<Rightarrow> u64 \<Rightarrow> string \<Rightarrow> ('c, bool) dao" where
  "UserHasRoleInTenant E uid tenantID role =
     (if uid = 0 \<or> tenantID = 0 \<or> role = [] then ret False
      else handle (OrgListByUser_dao uid tenantID) (\<lambda>_. ret False) (has_role_in E uid tenantID role))"

definition AddRoleForUserInAllOrgs :: "'c env \<Rightarrow> u64 \<Rightarrow> u64 \<Rightarrow> string \<Rightarrow> ('c, unit) dao" where
  "AddRoleForUserInAllOrgs E uid tenantID role = tryAs (OrgListByTenant_dao tenantID) ErrService (\<lambda>orgs.
     foreach orgs (\<lambda>r.
       tryAs (OrgMemberInsert (o_ID r) uid tenantID) ErrService (\<lambda>_.
       update (cache_del (DelOrgMemberCache (o_ID r) uid)) (
       tryAs (AddRoleForUserInDomain (enforcer E) uid tenantID (o_ID r) role) ErrService (\<lambda>_. ret ())))))"

section \<open>Coherence of the organization caches\<close>

definition find_org :: "u64 \<Rightarrow> db \<Rightarrow> Organization option" where
  "find_org i d = find (\<lambda>r. o_ID r = i) (organizations d)"

definition is_member :: "u64 \<Rightarrow> u64 \<Rightarrow> db \<Rightarrow> bool" where
  "is_member g u d \<longleftrightarrow> list_ex (\<lambda>m. m_OrgID m = g \<and> m_UID m = u) (org_members d)"

text \<open>The organization belongs to the tenant; and the user is a member of it.\<close>

definition org_of :: "db \<Rightarrow> u64 \<Rightarrow> u64 \<Rightarrow> bool" where
  "org_of d t g \<longleftrightarrow> t \<noteq> 0 \<and> g \<noteq> 0 \<and> (case find_org g d of None \<Rightarrow> False | Some r \<Rightarrow> o_TenantID r = t)"

definition in_org :: "db \<Rightarrow> u64 \<Rightarrow> u64 \<Rightarrow> u64 \<Rightarrow> bool" where
  "in_org d uid t g \<longleftrightarrow> uid \<noteq> 0 \<and> org_of d t g \<and> is_member g uid d"

text \<open>Every live cached organization is the current row, every live cached membership a current row.\<close>

definition orgs_cached :: "'c world \<Rightarrow> bool" where
  "orgs_cached w \<longleftrightarrow> cache_typed (w_cache w) \<and> 0 \<le> w_now w
     \<and> (\<forall>i r. ov.view (w_now w) (w_cache w) i r \<longrightarrow> find_org i (w_db w) = Some r)
     \<and> (\<forall>g u. mv.view (w_now w) (w_cache w) (g, u) True \<longrightarrow> is_member g u (w_db w))"

lemma orgs_cachedI:
  assumes "orgs_cached w" and "w_now w' = w_now w" and "cache_typed (w_cache w')"
    and "\<And>i r. ov.view (w_now w) (w_cache w') i r \<Longrightarrow> find_org i (w_db w') = Some r"
    and "\<And>g u. mv.view (w_now w) (w_cache w') (g, u) True \<Longrightarrow> is_member g u (w_db w')"
  shows "orgs_cached w'"
  using assms by (simp add: orgs_cached_def)

lemma orgs_cached_same:
  "w_db w' = w_db w \<Longrightarrow> w_now w' = w_now w \<Longrightarrow> w_cache w' = w_cache w \<Longrightarrow> orgs_cached w' = orgs_cached w"
  by (simp add: orgs_cached_def)

lemma orgs_cached_tick [simp]: "orgs_cached (db_tick w) = orgs_cached w"
  by (rule orgs_cached_same) simp_all

lemma orgs_cached_Get: "orgs_cached w \<Longrightarrow> orgs_cached (w\<lparr>w_cache := snd (Get k (w_now w) (w_cache w))\<rparr>)"
  by (rule orgs_cachedI [of w]) (auto simp: orgs_cached_def cache_typed_Get ov.view_get mv.view_get)

lemma wp_GetOrgCache [wp_simps]:
  "cache_typed (w_cache w) \<Longrightarrow> wp (cache_read (GetOrgCache i)) Q E w =
     Q (case live (w_now w) (w_cache w) (orgCacheKey i) of Some (COrg r) \<Rightarrow> Some r | _ \<Rightarrow> None)
       (w\<lparr>w_cache := snd (Get (orgCacheKey i) (w_now w) (w_cache w))\<rparr>)"
  using getter_results(2) [of "w_cache w" i "w_now w"] snd_GetOrgCache [of i "w_now w" "w_cache w"]
  by (cases "GetOrgCache i (w_now w) (w_cache w)") (simp add: wp_def cache_read_def)

lemma wp_GetOrgMemberCache [wp_simps]:
  "cache_typed (w_cache w) \<Longrightarrow> wp (cache_read (GetOrgMemberCache i u)) Q E w =
     Q (let hit = live (w_now w) (w_cache w) (orgMemberCacheKey i u) \<noteq> None in (hit, hit))
       (w\<lparr>w_cache := snd (Get (orgMemberCacheKey i u) (w_now w) (w_cache w))\<rparr>)"
  using getter_results(3) [of "w_cache w" i u "w_now w"] snd_GetOrgMemberCache [of i u "w_now w" "w_cache w"]
  by (cases "GetOrgMemberCache i u (w_now w) (w_cache w)") (simp add: wp_def cache_read_def)

lemma orgs_cached_SetOrg:
  assumes oc: "orgs_cached w" and f: "find_org (o_ID r) (w_db w) = Some r"
  shows "orgs_cached (cache_set (SetOrgCache (Some r)) w)"
proof (cases "o_ID r = 0")
  case True
  then show ?thesis using oc by (simp add: cache_set_def SetOrgCache_def)
next
  case False
  have now: "0 \<le> w_now w" and typed: "cache_typed (w_cache w)" using oc by (auto simp: orgs_cached_def)
  have o: "ov.view (w_now w) (SetOrgCache (Some r) (w_now w) (w_cache w)) i r' \<longleftrightarrow>
      (if i = o_ID r then r' = r else ov.view (w_now w) (w_cache w) i r')" for i r'
    using now False by (simp add: SetOrgCache_def ov.view_set)
  have m: "mv.view (w_now w) (SetOrgCache (Some r) (w_now w) (w_cache w)) (g, u) b \<longleftrightarrow> mv.view (w_now w) (w_cache w) (g, u) b" for g u b
    using now False by (simp add: SetOrgCache_def mv.view_set_other)
  show ?thesis
    using oc f by (intro orgs_cachedI [OF oc])
      (auto simp: cache_set_def o m orgs_cached_def intro: cache_step_typed [OF step_SetOrg typed] split: if_splits)
qed

lemma orgs_cached_SetMember:
  assumes oc: "orgs_cached w" and f: "is_member g u (w_db w)"
  shows "orgs_cached (cache_set (SetOrgMemberCache g u True) w)"
proof (cases "g = 0 \<or> u = 0")
  case True
  then show ?thesis using oc by (simp add: cache_set_def SetOrgMemberCache_def)
next
  case False
  have now: "0 \<le> w_now w" and typed: "cache_typed (w_cache w)" using oc by (auto simp: orgs_cached_def)
  have key: "SetOrgMemberCache g u True (w_now w) (w_cache w) = Set ((\<lambda>(i, j). orgMemberCacheKey i j) (g, u)) (CBool True) 300 (w_now w) (w_cache w)"
    using False by (simp add: SetOrgMemberCache_def)
  have m: "mv.view (w_now w) (SetOrgMemberCache g u True (w_now w) (w_cache w)) k b \<longleftrightarrow>
      (if k = (g, u) then b else mv.view (w_now w) (w_cache w) k b)" for k b
    unfolding key using mv.view_set [OF now, of "(g, u)" True "w_cache w" k b] by simp
  have o: "ov.view (w_now w) (SetOrgMemberCache g u True (w_now w) (w_cache w)) i r \<longleftrightarrow> ov.view (w_now w) (w_cache w) i r" for i r
    using now False by (simp add: SetOrgMemberCache_def ov.view_set_other)
  show ?thesis
    using oc f by (intro orgs_cachedI [OF oc])
      (auto simp: cache_set_def o m orgs_cached_def intro: cache_step_typed [OF step_SetOrgMember typed] split: if_splits)
qed

lemma wp_OrgGet:
  assumes oc: "orgs_cached w"
  shows "wp (OrgGet g) (\<lambda>r w'. g \<noteq> 0 \<and> find_org g (w_db w) = Some r \<and> calm w w' \<and> orgs_cached w')
    (\<lambda>e w'. calm w w' \<and> orgs_cached w' \<and>
       (g = 0 \<and> e = ErrOrgRequired \<or> find_org g (w_db w) = None \<and> e = ErrOrgNotFound \<or> w_faults w \<noteq> [] \<and> e = ErrService)) w"
proof (cases "g = 0")
  case True
  then show ?thesis using oc by (simp add: OrgGet_def wp_failIf)
next
  case False
  have typed: "cache_typed (w_cache w)" using oc by (simp add: orgs_cached_def)
  let ?w = "w\<lparr>w_cache := snd (Get (orgCacheKey g) (w_now w) (w_cache w))\<rparr>"
  have c: "orgs_cached ?w" by (rule orgs_cached_Get [OF oc])
  show ?thesis
  proof (cases "live (w_now w) (w_cache w) (orgCacheKey g)")
    case (Some v)
    then obtain r where v: "v = COrg r" using live_typed [OF typed Some] by auto
    then have "find_org g (w_db w) = Some r" using Some oc by (auto simp: orgs_cached_def ov.view_def)
    then show ?thesis using False Some v c by (simp add: OrgGet_def wp_failIf wp_tryE wp_GetOrgCache typed wp_ret)
  next
    case None
    have ID: "o_ID r = g" if "find_org g (w_db w) = Some r" for r
      using that by (auto simp: find_org_def dest: find_matchD)
    have "orgs_cached (cache_set (SetOrgCache (Some r)) (db_tick ?w))" if "find_org g (w_db w) = Some r" for r
      using that c ID [OF that] by (intro orgs_cached_SetOrg) auto
    then show ?thesis using None False c ID
      by (auto simp: OrgGet_def wp_failIf wp_tryE wp_tryAs wp_GetOrgCache typed OrgGetByID_def wp_db_query wp_throw wp_update wp_ret
          find_org_def [symmetric] db_fails_def cache_set_def split: option.splits)
  qed
qed

lemma wp_RequireOrg:
  assumes oc: "orgs_cached w"
  shows "wp (RequireOrg t g) (\<lambda>r w'. org_of (w_db w) t g \<and> calm w w' \<and> orgs_cached w')
    (\<lambda>e w'. calm w w' \<and> orgs_cached w' \<and> (w_faults w \<noteq> [] \<and> e = ErrService
       \<or> \<not> org_of (w_db w) t g \<and> e \<in> {ErrOrgRequired, ErrOrgNotFound, ErrNoAuth})) w"
proof (cases "t = 0 \<or> g = 0")
  case True
  then show ?thesis using oc by (auto simp: RequireOrg_def wp_failIf org_of_def)
next
  case False
  then show ?thesis
    unfolding RequireOrg_def wp_failIf wp_tryE
    by (intro if_boolI wp_mono [OF wp_OrgGet [OF oc]]) (auto simp: wp_simps org_of_def split: option.splits)
qed

lemma mv_view_iff: "mv.view now e (g, u) b \<longleftrightarrow> live now e (orgMemberCacheKey g u) = Some (CBool b)"
  by (simp add: mv.view_def)

lemma wp_UserInOrg:
  assumes oc: "orgs_cached w"
  shows "wp (UserInOrg uid t g) (\<lambda>_ w'. in_org (w_db w) uid t g \<and> calm w w' \<and> orgs_cached w')
    (\<lambda>e w'. calm w w' \<and> orgs_cached w' \<and> (w_faults w \<noteq> [] \<and> e = ErrService
       \<or> \<not> in_org (w_db w) uid t g \<and> e \<in> {ErrOrgRequired, ErrOrgNotFound, ErrNoAuth})) w" (is "wp _ ?Q ?E _")
proof (cases "uid = 0")
  case True
  then show ?thesis using oc by (simp add: UserInOrg_def wp_failIf in_org_def)
next
  case False
  have check: "wp (tryE (cache_read (GetOrgMemberCache g uid)) (\<lambda>(isIn, hit).
     if hit then (if isIn then ret () else throw ErrNoAuth)
     else tryAs (OrgMemberExists g uid) ErrService (\<lambda>ok.
       failIf (\<not> ok) ErrNoAuth (update (cache_set (SetOrgMemberCache g uid True)) (ret ()))))) ?Q ?E w1"
    if a: "org_of (w_db w) t g" "calm w w1" "orgs_cached w1" for w1
  proof -
    have typed: "cache_typed (w_cache w1)" using a(3) by (simp add: orgs_cached_def)
    let ?w = "w1\<lparr>w_cache := snd (Get (orgMemberCacheKey g uid) (w_now w1) (w_cache w1))\<rparr>"
    have c: "orgs_cached ?w" by (rule orgs_cached_Get [OF a(3)])
    have f: "w_db w1 = w_db w" "w_faults w = [] \<Longrightarrow> w_faults w1 = []" using calm_fields [OF a(2)] by auto
    show ?thesis
    proof (cases "live (w_now w1) (w_cache w1) (orgMemberCacheKey g uid)")
      case (Some v)
      then have "is_member g uid (w_db w)"
        using live_typed [OF typed Some] a(3) f by (auto simp: orgs_cached_def mv_view_iff)
      with Some show ?thesis
        using a(1,2) c False by (simp add: wp_tryE wp_GetOrgMemberCache typed wp_ret in_org_def)
    next
      case None
      have "orgs_cached (cache_set (SetOrgMemberCache g uid True) (db_tick ?w))" if "is_member g uid (w_db w)"
        using that c f by (intro orgs_cached_SetMember) auto
      with None show ?thesis
        using a(1,2) c f False
        by (auto simp: wp_tryE wp_tryAs wp_failIf wp_update wp_GetOrgMemberCache typed wp_ret in_org_def OrgMemberExists_def
            wp_db_query wp_throw org_of_def db_fails_def cache_set_def is_member_def [symmetric])
    qed
  qed
  show ?thesis unfolding UserInOrg_def wp_failIf if_not_P [OF False] wp_tryE [of "RequireOrg t g"]
    by (rule wp_mono [OF wp_RequireOrg [OF oc]], elim conjE, rule check) (auto simp: in_org_def)
qed

text \<open>
  C3. The membership check (\<open>UserInOrg\<close>) decides by the tables although it reads the caches: from a state whose
  live cache entries are current it lets a user through exactly when the organization exists, belongs
  to the tenant and has the user as a member; it refuses otherwise, and only a failing statement can
  refuse a member. Nothing but the caches changes, and they stay current.
\<close>

theorem UserInOrg_exact:
  assumes "orgs_cached w"
  shows "case UserInOrg uid t g w of
      (Ret _, w') \<Rightarrow> in_org (w_db w) uid t g \<and> calm w w' \<and> orgs_cached w'
    | (Err e, w') \<Rightarrow> calm w w' \<and> orgs_cached w' \<and> (w_faults w \<noteq> [] \<and> e = ErrService
         \<or> \<not> in_org (w_db w) uid t g \<and> e \<in> {ErrOrgRequired, ErrOrgNotFound, ErrNoAuth})
    | (Panic, w') \<Rightarrow> False"
  using wp_UserInOrg [OF assms, of uid t g] unfolding wp_def .

definition org_world :: "bool list \<Rightarrow> (rule list \<times> grouping list) world" where
  "org_world fs = (sample_world ([], [(genUserByUID 10001, ''cashier'', Domain 2 7)]) fs)\<lparr>w_db := (w_db (sample_world () []))\<lparr>
     organizations := [\<lparr>o_ID = 7, o_TenantID = 2, o_Name = ''hq'', o_CreateTime = 0, o_UpdateTime = 0\<rparr>],
     org_members := [\<lparr>m_OrgID = 7, m_UID = 10001, m_TenantID = 2, m_CreateTime = 0\<rparr>]\<rparr>\<rparr>"

lemma org_world_cached: "orgs_cached (org_world fs)"
  by (simp add: orgs_cached_def org_world_def sample_world_def cache_typed_def ov.view_def mv.view_def live_def)

lemma org_world_member: "in_org (w_db (org_world fs)) 10001 2 7" "\<not> in_org (w_db (org_world fs)) 10001 1 7"
  by (simp_all add: in_org_def org_of_def is_member_def find_org_def org_world_def)

theorem UserInOrg_exact_witness:
  "(case UserInOrg 10001 2 7 (org_world []) of (Ret _, w') \<Rightarrow> True | _ \<Rightarrow> False)
   \<and> (case UserInOrg 10001 1 7 (org_world []) of (Err e, w') \<Rightarrow> True | _ \<Rightarrow> False)"
proof -
  have "w_faults (org_world []) = []" by (simp add: org_world_def sample_world_def)
  then show ?thesis
    using UserInOrg_exact [OF org_world_cached [of "[]"], of 10001 2 7] UserInOrg_exact [OF org_world_cached [of "[]"], of 10001 1 7]
      org_world_member [of "[]"] by (auto split: prod.splits res.splits)
qed

section \<open>Revocation\<close>

lemma wp_lift_cb:
  assumes "cb_writes pol grp m fp fg"
  shows "wp (lift_cb m) (\<lambda>_ w'. w' = w\<lparr>w_casbin := w_casbin w'\<rparr> \<and> pol (w_casbin w') = fp (pol (w_casbin w)) \<and> grp (w_casbin w') = fg (grp (w_casbin w)))
    (\<lambda>_ w'. w' = w\<lparr>w_casbin := w_casbin w'\<rparr> \<and> pol (w_casbin w') = pol (w_casbin w) \<and> grp (w_casbin w') = grp (w_casbin w)) w"
  using assms [unfolded cb_writes_def, rule_format, of "w_casbin w"]
  by (auto simp: wp_def lift_cb_def split: prod.splits res.splits)

text \<open>The policy engine changed and nothing else.\<close>

definition ruled :: "'c world \<Rightarrow> 'c world \<Rightarrow> bool" where
  "ruled w w' \<longleftrightarrow> w' = w\<lparr>w_casbin := w_casbin w'\<rparr>"

lemma ruledI: "w' = w\<lparr>w_casbin := w_casbin w'\<rparr> \<Longrightarrow> ruled w w'"
  by (simp add: ruled_def)

lemma ruled_fields: "ruled w w' \<Longrightarrow> w_db w' = w_db w \<and> w_seqs w' = w_seqs w \<and> w_faults w' = w_faults w \<and> w_now w' = w_now w
    \<and> w_root w' = w_root w \<and> w_cache w' = w_cache w \<and> w_depcache w' = w_depcache w \<and> w_sms w' = w_sms w \<and> w_codes w' = w_codes w"
  unfolding ruled_def by (metis world.select_convs(1-7,9,10) world.surjective world.update_convs(8))

lemma wp_DeleteRoles:
  assumes "casbin_ok cb pol grp" and "g \<noteq> 0"
  shows "wp (DeleteRolesForUserInDomain cb uid t g)
    (\<lambda>_ w'. ruled w w' \<and> pol (w_casbin w') = pol (w_casbin w)
       \<and> grp (w_casbin w') = {(x, r, e) \<in> grp (w_casbin w). \<not> (x = genUserByUID uid \<and> e = Domain t g)})
    (\<lambda>_ w'. ruled w w') w"
  unfolding DeleteRolesForUserInDomain_def deleteRolesForUserInDomain_def wp_failIf wp_tryE
  using assms(2) by (auto simp: wp_ret intro!: ruledI wp_mono [OF wp_lift_cb [OF casbin_writes(5) [OF assms(1)]]])

lemma orgs_cached_ruled: "ruled w w' \<Longrightarrow> orgs_cached w' = orgs_cached w"
  by (rule orgs_cached_same) (simp_all add: ruled_fields)

lemma orgs_cached_evict_member:
  assumes oc: "orgs_cached w" and "w_now w' = w_now w" "w_cache w' = w_cache w"
    and "organizations (w_db w') = organizations (w_db w)"
    and "\<And>g' u'. (g', u') \<noteq> (g, u) \<Longrightarrow> is_member g' u' (w_db w) \<Longrightarrow> is_member g' u' (w_db w')"
  shows "orgs_cached (cache_del (DelOrgMemberCache g u) w')"
proof -
  have typed: "cache_typed (w_cache w)" using oc by (simp add: orgs_cached_def)
  have o: "ov.view now (DelOrgMemberCache g u e) i r \<longleftrightarrow> ov.view now e i r" for now e i r
    by (simp add: DelOrgMemberCache_def ov.view_def em.del_live)
  have m: "mv.view now (DelOrgMemberCache g u e) k b \<longleftrightarrow> k \<noteq> (g, u) \<and> mv.view now e k b" for now e k b
    using mv.view_del [of now "(g, u)" e k b] by (simp add: DelOrgMemberCache_def)
  show ?thesis
    using assms by (intro orgs_cachedI [OF oc])
      (auto simp: cache_del_def o m orgs_cached_def find_org_def intro: cache_step_typed [OF step_DelOrgMember typed])
qed

lemma is_member_drop:
  "is_member g' u' (d\<lparr>org_members := filter (\<lambda>m. \<not> (m_OrgID m = g \<and> m_UID m = u)) (org_members d)\<rparr>) \<longleftrightarrow>
     (g', u') \<noteq> (g, u) \<and> is_member g' u' d"
  by (auto simp: is_member_def list_ex_iff)

lemma wp_OrgRemoveMember:
  assumes oc: "orgs_cached w" and ok: "casbin_ok (enforcer E) pol grp"
  shows "wp (OrgRemoveMember E g uid t)
    (\<lambda>_ w'. orgs_cached w' \<and> w_db w' = (w_db w)\<lparr>org_members := filter (\<lambda>m. \<not> (m_OrgID m = g \<and> m_UID m = uid)) (org_members (w_db w))\<rparr>
       \<and> pol (w_casbin w') = pol (w_casbin w)
       \<and> grp (w_casbin w') = {(x, r, e) \<in> grp (w_casbin w). \<not> (x = genUserByUID uid \<and> e = Domain t g)})
    (\<lambda>e w'. orgs_cached w' \<and> w_db w' = w_db w) w" (is "wp _ ?Q ?E _")
proof (cases "g = 0 \<or> uid = 0 \<or> t = 0")
  case True
  then show ?thesis using oc by (simp add: OrgRemoveMember_def wp_failIf)
next
  case False
  have del: "wp (tryAs (OrgMemberDelete g uid) ErrService (\<lambda>_. update (cache_del (DelOrgMemberCache g uid)) (ret ()))) ?Q ?E w2"
    if a: "calm w w1" "orgs_cached w1" "ruled w1 w2" "pol (w_casbin w2) = pol (w_casbin w1)"
      "grp (w_casbin w2) = {(x, r, e) \<in> grp (w_casbin w1). \<not> (x = genUserByUID uid \<and> e = Domain t g)}" for w1 w2
  proof -
    note f1 = calm_fields [OF a(1)] and f2 = ruled_fields [OF a(3)]
    have oc2: "orgs_cached w2" using a by (simp add: orgs_cached_ruled)
    let ?d = "(w_db w)\<lparr>org_members := filter (\<lambda>m. \<not> (m_OrgID m = g \<and> m_UID m = uid)) (org_members (w_db w))\<rparr>"
    have "orgs_cached (cache_del (DelOrgMemberCache g uid) ((db_tick w2)\<lparr>w_db := ?d\<rparr>))"
      using f1 f2 by (intro orgs_cached_evict_member [OF oc2]) (auto simp: is_member_drop [simplified])
    then show ?thesis
      using False f1 f2 oc2 a(4,5) by (simp add: OrgMemberDelete_def wp_tryAs wp_failIf wp_db_exec wp_update wp_ret) (simp add: cache_del_def)
  qed
  have roles: "wp (tryAs (DeleteRolesForUserInDomain (enforcer E) uid t g) ErrService (\<lambda>_.
     tryAs (OrgMemberDelete g uid) ErrService (\<lambda>_. update (cache_del (DelOrgMemberCache g uid)) (ret ())))) ?Q ?E w1"
    if a: "calm w w1" "orgs_cached w1" for w1
    unfolding wp_tryAs [of "DeleteRolesForUserInDomain (enforcer E) uid t g"]
    by (rule wp_mono [OF wp_DeleteRoles [OF ok]], use False in simp, elim conjE, rule del [OF a])
      (use a in \<open>auto simp: orgs_cached_ruled dest!: ruled_fields calm_fields\<close>)
  show ?thesis
    unfolding OrgRemoveMember_def wp_failIf if_not_P [OF False] wp_tryE [of "RequireOrg t g"]
    by (rule wp_mono [OF wp_RequireOrg [OF oc]], elim conjE, rule roles) (auto dest: calm_fields)
qed



lemma evict_members_fields:
  "evict_members g us w = w\<lparr>w_cache := fold (DelOrgMemberCache g) us (w_cache w)\<rparr>"
proof (induction us arbitrary: w)
  case (Cons u us)
  have "evict_members g (u # us) w = evict_members g us (cache_del (DelOrgMemberCache g u) w)"
    by (simp add: evict_members_def)
  then show ?case by (simp add: Cons.IH) (simp add: cache_del_def)
qed (simp add: evict_members_def)

lemma evict_members_views:
  "ov.view now (fold (DelOrgMemberCache g) us e) i r \<longleftrightarrow> ov.view now e i r"
  "mv.view now (fold (DelOrgMemberCache g) us e) (g', u') b \<longleftrightarrow> \<not> (g' = g \<and> u' \<in> set us) \<and> mv.view now e (g', u') b"
  by (induction us arbitrary: e)
    (auto simp: DelOrgMemberCache_def ov.view_def mv.view_def em.del_live)

lemma evict_members_typed: "cache_typed e \<Longrightarrow> cache_typed (fold (DelOrgMemberCache g) us e)"
  by (induction us arbitrary: e) (auto simp: DelOrgMemberCache_def cache_typed_Delete)

lemma find_filter_other:
  "find (\<lambda>x. f x = j) (filter (\<lambda>x. \<not> (f x = i \<and> P x)) xs) = find (\<lambda>x. f x = j) xs" if "j \<noteq> i"
  using that by (induction xs) auto

text \<open>The database without the organization.\<close>

definition without_org :: "u64 \<Rightarrow> u64 \<Rightarrow> db \<Rightarrow> db" where
  "without_org t g d = d\<lparr>departments := filter (\<lambda>r. \<not> (d_TenantID r = t \<and> d_OrgID r = g)) (departments d),
     org_members := filter (\<lambda>m. m_OrgID m \<noteq> g) (org_members d),
     organizations := filter (\<lambda>r. \<not> (o_ID r = g \<and> o_TenantID r = t)) (organizations d)\<rparr>"

lemma is_member_without: "is_member g' u (without_org t g d) \<longleftrightarrow> g' \<noteq> g \<and> is_member g' u d"
  by (auto simp: is_member_def without_org_def list_ex_iff)

lemma org_without: "g' \<noteq> g \<Longrightarrow> find_org g' (without_org t g d) = find_org g' d"
  using find_filter_other [of g' g o_ID "\<lambda>r. o_TenantID r = t"] by (simp add: find_org_def without_org_def)

lemma view_typed:
  assumes "cache_typed e" and "mv.view now e (g, u) b"
  shows "g \<noteq> 0 \<and> u \<noteq> 0"
  using live_typed [of e now "orgMemberCacheKey g u"] assms by (auto simp: mv_view_iff)

text \<open>Evicting the organization and the listed members is enough, because a cached membership is a row.\<close>

lemma orgs_cached_delete:
  assumes oc: "orgs_cached w"
  shows "orgs_cached (evict_members g (filter (\<lambda>u. u > 0) (map m_UID (filter (\<lambda>m. m_OrgID m = g) (org_members (w_db w)))))
     (cache_del (DelOrgCache g) (w\<lparr>w_db := without_org t g (w_db w)\<rparr>)))"
proof -
  let ?us = "filter (\<lambda>u. u > 0) (map m_UID (filter (\<lambda>m. m_OrgID m = g) (org_members (w_db w))))"
  have typed: "cache_typed (w_cache w)" using oc by (simp add: orgs_cached_def)
  have typed': "cache_typed (fold (DelOrgMemberCache g) ?us (DelOrgCache g (w_cache w)))"
    by (rule evict_members_typed) (rule cache_step_typed [OF step_DelOrg typed])
  have o: "ov.view now (DelOrgCache g e) i r \<longleftrightarrow> i \<noteq> g \<and> ov.view now e i r" for now e i r
    by (simp add: DelOrgCache_def ov.view_del)
  have m: "mv.view now (DelOrgCache g e) (g', u) b \<longleftrightarrow> mv.view now e (g', u) b" for now e g' u b
    by (simp add: DelOrgCache_def mv.view_def em.del_live)
  have listed: "u \<in> set ?us" if "mv.view (w_now w) (w_cache w) (g, u) True" for u
  proof -
    have "is_member g u (w_db w)" using that oc by (simp add: orgs_cached_def)
    moreover have "u > 0" using view_typed [OF typed that] by (simp add: word_neq_0_conv)
    ultimately show ?thesis by (auto simp: is_member_def list_ex_iff image_iff)
  qed
  show ?thesis unfolding evict_members_fields cache_del_def
    using oc typed' by (intro orgs_cachedI [OF oc])
      (auto simp: evict_members_views o m orgs_cached_def org_without is_member_without dest: listed)
qed

lemma ruled_trans: "ruled w w' \<Longrightarrow> ruled w' w'' \<Longrightarrow> ruled w w''"
  by (cases w; cases w'; cases w'') (auto simp: ruled_def)

lemma wp_RemoveDomain:
  assumes ok: "casbin_ok cb pol grp" and "d \<noteq> []"
  shows "wp (RemoveDomain cb d)
    (\<lambda>_ w'. ruled w w' \<and> pol (w_casbin w') = {(x, e, y, a) \<in> pol (w_casbin w). e \<noteq> d}
       \<and> grp (w_casbin w') = {(x, r, e) \<in> grp (w_casbin w). e \<noteq> d})
    (\<lambda>_ w'. ruled w w') w" (is "wp _ ?Q ?E _")
proof -
  have grp: "wp (tryE (lift_cb (cb_RemoveFilteredGrouping cb d)) (\<lambda>_. ret ())) ?Q ?E w1"
    if "ruled w w1" "pol (w_casbin w1) = {(x, e, y, a) \<in> pol (w_casbin w). e \<noteq> d}" "grp (w_casbin w1) = grp (w_casbin w)" for w1
    unfolding wp_tryE using that
    by (intro wp_mono [OF wp_lift_cb [OF casbin_writes(7) [OF ok]]]) (auto simp: wp_ret intro: ruled_trans ruledI)
  show ?thesis unfolding RemoveDomain_def if_not_P [OF assms(2)] wp_tryE [of "lift_cb (cb_RemoveFilteredPolicy cb d)"]
    by (rule wp_mono [OF wp_lift_cb [OF casbin_writes(6) [OF ok]]], elim conjE, rule grp) (auto intro: ruledI)
qed

lemma db_tick_w_db: "db_tick (v\<lparr>w_db := d\<rparr>) = (db_tick v)\<lparr>w_db := d\<rparr>"
  by (simp add: db_tick_def)

lemma wp_OrgMemberUIDs:
  "wp (OrgMemberUIDs g) Q E w = (if g = 0 then E ErrParam w else if db_fails w then E DbError (db_tick w)
     else Q (filter (\<lambda>u. u > 0) (map m_UID (filter (\<lambda>m. m_OrgID m = g) (org_members (w_db w))))) (db_tick w))"
  by (simp add: OrgMemberUIDs_def wp_failIf wp_db_query)

lemma wp_OrgDelete:
  assumes oc: "orgs_cached w" and ok: "casbin_ok (enforcer E) pol grp"
  shows "wp (OrgDelete E t g)
    (\<lambda>_ w'. org_of (w_db w) t g \<and> orgs_cached w' \<and> w_db w' = without_org t g (w_db w)
       \<and> pol (w_casbin w') = {(x, e, y, a) \<in> pol (w_casbin w). e \<noteq> Domain t g}
       \<and> grp (w_casbin w') = {(x, r, e) \<in> grp (w_casbin w). e \<noteq> Domain t g})
    (\<lambda>e w'. True) w" (is "wp _ ?Q ?E _")
proof -
  let ?us = "filter (\<lambda>u. u > 0) (map m_UID (filter (\<lambda>m. m_OrgID m = g) (org_members (w_db w))))"
  have dels: "wp (tryAs (DepartmentDeleteByOrg t g) ErrService (\<lambda>_.
     tryAs (OrgMemberDeleteByOrg g) ErrService (\<lambda>_.
     tryAs (OrgDelete_dao g t) ErrService (\<lambda>_.
     update (cache_del (DelOrgCache g)) (update (evict_members g ?us) (ret ())))))) ?Q ?E w2"
    if a: "org_of (w_db w) t g" "orgs_cached w2" "w_db w2 = w_db w"
      "pol (w_casbin w2) = {(x, e, y, a) \<in> pol (w_casbin w). e \<noteq> Domain t g}"
      "grp (w_casbin w2) = {(x, r, e) \<in> grp (w_casbin w). e \<noteq> Domain t g}" for w2
  proof -
    have "t \<noteq> 0" "g \<noteq> 0" using a(1) by (auto simp: org_of_def)
    moreover have "orgs_cached (evict_members g ?us (cache_del (DelOrgCache g) ((db_tick (db_tick (db_tick w2)))\<lparr>w_db := without_org t g (w_db w)\<rparr>)))"
      using orgs_cached_delete [of "db_tick (db_tick (db_tick w2))" g t] a(2,3) by simp
    ultimately show ?thesis
      using a by (simp add: wp_tryAs wp_failIf DepartmentDeleteByOrg_def OrgMemberDeleteByOrg_def OrgDelete_dao_def wp_db_exec
          wp_update wp_ret without_org_def db_tick_w_db) (simp add: evict_members_fields cache_del_def)
  qed
  have dom: "wp (tryAs (OrgMemberUIDs g) ErrService (\<lambda>uids. tryAs (RemoveDomain (enforcer E) (Domain t g)) ErrService (\<lambda>_.
     tryAs (DepartmentDeleteByOrg t g) ErrService (\<lambda>_.
     tryAs (OrgMemberDeleteByOrg g) ErrService (\<lambda>_.
     tryAs (OrgDelete_dao g t) ErrService (\<lambda>_.
     update (cache_del (DelOrgCache g)) (update (evict_members g uids) (ret ())))))))) ?Q ?E w1"
    if a: "org_of (w_db w) t g" "calm w w1" "orgs_cached w1" for w1
  proof -
    have "wp (tryAs (RemoveDomain (enforcer E) (Domain t g)) ErrService (\<lambda>_.
       tryAs (DepartmentDeleteByOrg t g) ErrService (\<lambda>_.
       tryAs (OrgMemberDeleteByOrg g) ErrService (\<lambda>_.
       tryAs (OrgDelete_dao g t) ErrService (\<lambda>_.
       update (cache_del (DelOrgCache g)) (update (evict_members g ?us) (ret ()))))))) ?Q ?E (db_tick w1)"
      unfolding wp_tryAs [of "RemoveDomain (enforcer E) (Domain t g)"]
      by (rule wp_mono [OF wp_RemoveDomain [OF ok Domain_not_Nil]], elim conjE, rule dels [OF a(1)])
        (use a calm_fields [OF a(2)] ruled_fields [of "db_tick w1"] orgs_cached_ruled [of "db_tick w1"] in auto)
    moreover have "g \<noteq> 0" using a(1) by (simp add: org_of_def)
    ultimately show ?thesis using calm_fields [OF a(2)]
      unfolding wp_tryAs [of "OrgMemberUIDs g"] wp_OrgMemberUIDs by simp
  qed
  show ?thesis unfolding OrgDelete_def wp_tryE [of "RequireOrg t g"]
    by (rule wp_mono [OF wp_RequireOrg [OF oc]], elim conjE, rule dom) auto
qed

text \<open>
  C5. Deleting an organization (\<open>OrgDelete\<close>): when it succeeds, the organization belonged to the tenant, its row,
  its memberships and its departments are gone and every other row is kept, the policy domain of the
  organization is empty, and the membership check refuses every user for it at once.
\<close>

theorem OrgDelete_revokes:
  assumes "orgs_cached w" and "casbin_ok (enforcer E) pol grp"
  shows "case OrgDelete E t g w of
      (Ret _, w') \<Rightarrow> org_of (w_db w) t g \<and> w_db w' = without_org t g (w_db w)
        \<and> (\<forall>u t'. fst (UserInOrg u t' g w') \<noteq> Ret ())
        \<and> (\<forall>x r. (x, r, Domain t g) \<notin> grp (w_casbin w')) \<and> (\<forall>x y a. (x, Domain t g, y, a) \<notin> pol (w_casbin w'))
        \<and> orgs_cached w'
    | (Err e, w') \<Rightarrow> True
    | (Panic, w') \<Rightarrow> False"
proof -
  have deny: "fst (UserInOrg u t' g w') \<noteq> Ret ()" if "orgs_cached w'" "w_db w' = without_org t g (w_db w)" for u t' w'
    using wp_UserInOrg [OF that(1), of u t' g] unfolding that(2) in_org_def is_member_without
    by (auto simp: wp_def split: prod.splits res.splits)
  have "wp (OrgDelete E t g) (\<lambda>_ w'. org_of (w_db w) t g \<and> w_db w' = without_org t g (w_db w)
        \<and> (\<forall>u t'. fst (UserInOrg u t' g w') \<noteq> Ret ())
        \<and> (\<forall>x r. (x, r, Domain t g) \<notin> grp (w_casbin w')) \<and> (\<forall>x y a. (x, Domain t g, y, a) \<notin> pol (w_casbin w'))
        \<and> orgs_cached w') (\<lambda>e w'. True) w"
    by (rule wp_mono [OF wp_OrgDelete [OF assms, of t g]]) (auto simp: deny)
  then show ?thesis unfolding wp_def .
qed

theorem OrgDelete_revokes_witness:
  "case OrgDelete sample_env 2 7 (org_world []) of
      (Ret _, w') \<Rightarrow> fst (UserInOrg 10001 2 7 w') \<noteq> Ret () | (Err e, w') \<Rightarrow> True | (Panic, w') \<Rightarrow> False"
proof -
  have "casbin_ok (enforcer sample_env) (\<lambda>c. set (fst c)) (\<lambda>c. set (snd c))"
    using ref_casbin_ok by (simp add: sample_env_def)
  from OrgDelete_revokes [OF org_world_cached [of "[]"] this, of 2 7]
  show ?thesis by (auto split: prod.splits res.splits)
qed

lemma Get_hit: "live now e k = Some v \<Longrightarrow> Get k now e = (Some v, e)"
  by (auto simp: live_def Get_def split: option.splits if_splits)

lemma UserInOrg_hit:
  assumes "live (w_now w) (w_cache w) (orgCacheKey g) = Some (COrg r)" and "live (w_now w) (w_cache w) (orgMemberCacheKey g uid) = Some (CBool True)"
    and "o_TenantID r = t" and "t \<noteq> 0" and "g \<noteq> 0" and "uid \<noteq> 0"
  shows "RequireOrg t g w = (Ret r, w)" and "UserInOrg uid t g w = (Ret (), w)"
proof -
  show req: "RequireOrg t g w = (Ret r, w)"
    using assms by (simp add: RequireOrg_def OrgGet_def go_defs cache_read_def GetOrgCache_def Get_hit)
  show "UserInOrg uid t g w = (Ret (), w)"
    using assms req by (simp add: UserInOrg_def go_defs cache_read_def GetOrgMemberCache_def Get_hit)
qed

text \<open>
  A deletion that fails at its last statement leaves the caches behind: the memberships are already gone from
  the table, but nothing has been evicted, so the check goes on admitting a user whose membership is
  cached, until the entries expire.
\<close>

theorem OrgDelete_failure_stale:
  assumes "casbin_ok (enforcer E) pol grp" and "fst (RemoveDomain (enforcer E) (Domain t g) (db_tick w)) = Ret ()"
    and "ov.view (w_now w) (w_cache w) g r" and "mv.view (w_now w) (w_cache w) (g, uid) True" and "o_TenantID r = t"
    and "t \<noteq> 0" and "g \<noteq> 0" and "uid \<noteq> 0" and "w_faults w = [False, False, False, True]"
  shows "let (res, w') = OrgDelete E t g w in
     res = Err ErrService \<and> \<not> is_member g uid (w_db w') \<and> fst (UserInOrg uid t g w') = Ret ()"
proof -
  have live: "live (w_now w) (w_cache w) (orgCacheKey g) = Some (COrg r)"
    "live (w_now w) (w_cache w) (orgMemberCacheKey g uid) = Some (CBool True)"
    using assms(3,4) by (simp_all add: ov.view_def mv.view_def)
  obtain w2 where rd: "RemoveDomain (enforcer E) (Domain t g) (db_tick w) = (Ret (), w2)"
    using assms(2) by (metis prod.collapse)
  have "ruled (db_tick w) w2" using wp_RemoveDomain [OF assms(1) Domain_not_Nil, of t g "db_tick w"] rd by (simp add: wp_def)
  note f = ruled_fields [OF this]
  have "wp (OrgDelete E t g) (\<lambda>_ _. False)
      (\<lambda>e w'. e = ErrService \<and> \<not> is_member g uid (w_db w') \<and> w_now w' = w_now w \<and> w_cache w' = w_cache w) w"
  proof -
    have "wp (RemoveDomain (enforcer E) (Domain t g)) Q X (db_tick w) = Q () w2" for Q X by (simp add: wp_def rd)
    moreover have "wp (RequireOrg t g) Q X w = Q r w" for Q X
      by (simp add: wp_def UserInOrg_hit(1) [OF live assms(5-8)])
    ultimately show ?thesis
      using assms(6,7,9) f
      by (simp add: OrgDelete_def wp_tryE wp_tryAs wp_OrgMemberUIDs db_fails_def wp_failIf wp_throw wp_db_exec
          DepartmentDeleteByOrg_def OrgMemberDeleteByOrg_def OrgDelete_dao_def is_member_def list_ex_iff)
  qed
  moreover have "fst (UserInOrg uid t g w') = Ret ()" if "w_now w' = w_now w" "w_cache w' = w_cache w" for w'
    using UserInOrg_hit(2) [of w' g r uid t] live assms(5-8) that by simp
  ultimately show ?thesis by (auto simp: wp_def split: prod.splits res.splits)
qed

theorem OrgDelete_failure_stale_witness:
  "let w = (org_world [False, False, False, True])\<lparr>w_cache :=
         [(orgCacheKey 7, \<lparr>val = COrg \<lparr>o_ID = 7, o_TenantID = 2, o_Name = ''hq'', o_CreateTime = 0, o_UpdateTime = 0\<rparr>, expiredAt = 3600\<rparr>),
          (orgMemberCacheKey 7 10001, \<lparr>val = CBool True, expiredAt = 300\<rparr>)]\<rparr>
   in fst (OrgDelete sample_env 2 7 w) = Err ErrService \<and> fst (UserInOrg 10001 2 7 (snd (OrgDelete sample_env 2 7 w))) = Ret ()"
proof -
  let ?r = "\<lparr>o_ID = 7, o_TenantID = 2, o_Name = ''hq'', o_CreateTime = 0, o_UpdateTime = 0\<rparr>"
  let ?w = "(org_world [False, False, False, True])\<lparr>w_cache := [(orgCacheKey 7, \<lparr>val = COrg ?r, expiredAt = 3600\<rparr>),
          (orgMemberCacheKey 7 10001, \<lparr>val = CBool True, expiredAt = 300\<rparr>)]\<rparr>"
  have ok: "casbin_ok (enforcer sample_env) (\<lambda>c. set (fst c)) (\<lambda>c. set (snd c))"
    using ref_casbin_ok by (simp add: sample_env_def)
  have "fst (RemoveDomain (enforcer sample_env) (Domain 2 7) (db_tick ?w)) = Ret ()"
    by (simp add: RemoveDomain_def sample_env_def ref_casbin_def Let_def go_defs lift_cb_def split: prod.splits)
  moreover have "w_now ?w = 0" "w_faults ?w = [False, False, False, True]" by (simp_all add: org_world_def sample_world_def)
  moreover then have "ov.view (w_now ?w) (w_cache ?w) 7 ?r" "mv.view (w_now ?w) (w_cache ?w) (7, 10001) True"
    by (simp_all add: ov.view_def mv.view_def live_def)
  ultimately show ?thesis
    using OrgDelete_failure_stale [OF ok, of 2 7 ?w ?r 10001] unfolding Let_def by (auto split: prod.splits)
qed

end
