(* ===== verification/Data_Scope.thy ===== *)
theory Data_Scope
  imports Org_Service
begin

text \<open>
  \<open>service/datascope.go\<close>: which users' data a user may see for a module, from the roles' policies and the
  departments. The member list is read page by page; the loop is given fuel, and the lemmas below show
  that it never runs out.
\<close>

section \<open>Reading numbers from dynamic values\<close>

text \<open>
  \<open>uint64(x)\<close> of a \<open>float64\<close> drops the fraction; beyond 64 bits Go leaves the result to the
  implementation, here the low bits.
\<close>

definition asUint64 :: "gval \<Rightarrow> u64 option" where
  "asUint64 v = (case v of
       GU64 n \<Rightarrow> Some n
     | GInt64 i \<Rightarrow> if i < 0 then None else Some (of_int i)
     | GInt i \<Rightarrow> if i < 0 then None else Some (of_int i)
     | GFloat r \<Rightarrow> if r < 0 then None else Some (of_int (trunc_float r))
     | GStr s \<Rightarrow> (case ParseUint s of (n, err) \<Rightarrow> if err then None else Some n)
     | _ \<Rightarrow> None)"

definition positive :: "u64 option \<Rightarrow> u64 option" where
  "positive n = (case n of Some k \<Rightarrow> if k > 0 then Some k else None | None \<Rightarrow> None)"

definition parseUint64Slice :: "gval \<Rightarrow> u64 list" where
  "parseUint64Slice v = (case v of
       GNil \<Rightarrow> []
     | GU64s ns \<Rightarrow> ns
     | GList vs \<Rightarrow> List.map_filter (\<lambda>x. positive (asUint64 x)) vs
     | GFloats rs \<Rightarrow> map (\<lambda>r. of_int (trunc_float r)) (filter (\<lambda>r. r > 0) rs)
     | x \<Rightarrow> (case positive (asUint64 x) of Some n \<Rightarrow> [n] | None \<Rightarrow> []))"

definition containsUint64 :: "u64 list \<Rightarrow> u64 \<Rightarrow> bool" where
  "containsUint64 xs target \<longleftrightarrow> list_ex (\<lambda>v. v = target) xs"

definition DepartmentExtKey :: string where
  "DepartmentExtKey = ''deps''"

definition DepartmentLeaderUIDsKey :: string where
  "DepartmentLeaderUIDsKey = ''leaderUids''"

section \<open>Paging loops\<close>

text \<open>
  \<open>for page := 1; ; page++ { rows := query(page); ...; if len(rows) < pageSize { break } }\<close>; the value \<open>None\<close>
  means that the fuel ran out.
\<close>

fun paged :: "nat \<Rightarrow> (u64 \<Rightarrow> ('c, 'a list) dao) \<Rightarrow> u64 \<Rightarrow> ('a list \<Rightarrow> 's \<Rightarrow> 's) \<Rightarrow> u64 \<Rightarrow> 's \<Rightarrow> ('c, 's option) dao" where
  "paged 0 query pageSize f page acc = ret None"
| "paged (Suc n) query pageSize f page acc = tryE (query page) (\<lambda>rows.
     if rows = [] then ret (Some acc)
     else if of_nat (length rows) < pageSize then ret (Some (f rows acc))
     else paged n query pageSize f (page + 1) (f rows acc))"

text \<open>Running out of fuel counts as not returning; it is mapped to \<open>Panic\<close>, which the theorems exclude.\<close>

definition within_fuel :: "('c, 'a option) dao \<Rightarrow> ('c, 'a) dao" where
  "within_fuel m = tryE m (\<lambda>r. case r of None \<Rightarrow> panic | Some x \<Rightarrow> ret x)"

section \<open>The data scope\<close>

datatype DataScopeLevel = DataScopeLevelAll | DataScopeLevelDept | DataScopeLevelSelf

fun level_name :: "DataScopeLevel \<Rightarrow> string" where
  "level_name DataScopeLevelAll = ''all''"
| "level_name DataScopeLevelDept = ''dept''"
| "level_name DataScopeLevelSelf = ''self''"

record DataScope =
  Level :: DataScopeLevel
  DepIDs :: "u64 list"
  UIDs :: "u64 list"

definition scope_obj :: "string \<Rightarrow> DataScopeLevel \<Rightarrow> string" where
  "scope_obj modName lv = ''data-scope/'' @ modName @ ''/'' @ level_name lv"

fun first_level :: "'c env \<Rightarrow> u64 \<Rightarrow> u64 \<Rightarrow> u64 \<Rightarrow> string \<Rightarrow> DataScopeLevel list \<Rightarrow> ('c, DataScopeLevel) dao" where
  "first_level E uid tenantID orgID modName [] = ret DataScopeLevelSelf"
| "first_level E uid tenantID orgID modName (lv # lvs) =
     handle (Enforce (enforcer E) uid tenantID orgID (scope_obj modName lv) ''GET'')
       (\<lambda>_. first_level E uid tenantID orgID modName lvs)
       (\<lambda>ok. if ok then ret lv else first_level E uid tenantID orgID modName lvs)"

definition resolveConfiguredLevel :: "'c env \<Rightarrow> u64 \<Rightarrow> u64 \<Rightarrow> u64 \<Rightarrow> string \<Rightarrow> ('c, DataScopeLevel) dao" where
  "resolveConfiguredLevel E uid tenantID orgID modName =
     first_level E uid tenantID orgID modName [DataScopeLevelAll, DataScopeLevelDept, DataScopeLevelSelf]"

definition isDataScopeRoot :: "'c env \<Rightarrow> u64 \<Rightarrow> u64 \<Rightarrow> u64 \<Rightarrow> ('c, bool) dao" where
  "isDataScopeRoot E uid tenantID orgID = tryE (GetRoleForUserInDomain (enforcer E) uid tenantID orgID) (\<lambda>roles.
     ret (list_ex (\<lambda>r. r = ''root'') roles))"

text \<open>\<open>add\<close>: zero and repeated identifiers are skipped.\<close>

definition add_dep :: "u64 \<Rightarrow> u64 list \<Rightarrow> u64 list" where
  "add_dep i acc = (if i = 0 \<or> i \<in> set acc then acc else acc @ [i])"

definition user_deps :: "User option \<Rightarrow> u64 \<Rightarrow> u64 \<Rightarrow> Department list \<Rightarrow> u64 list" where
  "user_deps user uid tenantID deps = (let
       own = (case user of
           Some u \<Rightarrow> if u_TenantID u = tenantID
             then filter (\<lambda>i. i \<in> set (map d_Id deps)) (parseUint64Slice (gget (u_Ext u) DepartmentExtKey)) else []
         | None \<Rightarrow> []);
       led = map d_Id (filter (\<lambda>r. containsUint64 (parseUint64Slice (gget (d_Config r) DepartmentLeaderUIDsKey)) uid) deps)
     in fold add_dep led (fold add_dep own []))"

definition resolveUserDeptIDs :: "u64 \<Rightarrow> u64 \<Rightarrow> u64 \<Rightarrow> ('c, u64 list) dao" where
  "resolveUserDeptIDs uid tenantID orgID = tryAs (UserQueryByID uid) ErrService (\<lambda>user.
     tryAs (DepartmentFind 0 tenantID orgID 0 0) ErrService (\<lambda>deps.
     ret (user_deps user uid tenantID deps)))"

definition in_deps :: "u64 list \<Rightarrow> User \<Rightarrow> bool" where
  "in_deps depIDs u \<longleftrightarrow> list_ex (\<lambda>i. i \<in> set depIDs) (parseUint64Slice (gget (u_Ext u) DepartmentExtKey))"

definition add_members :: "u64 list \<Rightarrow> User list \<Rightarrow> u64 list \<Rightarrow> u64 list" where
  "add_members depIDs us out = fold (\<lambda>u out. if in_deps depIDs u \<and> u_UID u \<notin> set out then out @ [u_UID u] else out) us out"

definition memberUIDsInDeps :: "u64 \<Rightarrow> u64 \<Rightarrow> u64 list \<Rightarrow> ('c, u64 list) dao" where
  "memberUIDsInDeps tenantID orgID depIDs =
     (if depIDs = [] then ret []
      else reads (\<lambda>w. length (users (w_db w)) div 200 + 2) (\<lambda>fuel.
        tryAs (within_fuel (paged fuel (\<lambda>page. UserQueryByOrg tenantID orgID page 200 [] []) 200 (add_members depIDs) 1 []))
          ErrService ret))"

definition ResolveDataScope :: "'c env \<Rightarrow> u64 \<Rightarrow> u64 \<Rightarrow> u64 \<Rightarrow> string \<Rightarrow> ('c, DataScope) dao" where
  "ResolveDataScope E uid tenantID orgID modName0 = failIf (uid = 0 \<or> tenantID = 0 \<or> orgID = 0) ErrParam (
     let modName = (if modName0 = [] then ''default'' else modName0) in
     tryE (isDataScopeRoot E uid tenantID orgID) (\<lambda>root.
     if root then ret \<lparr>Level = DataScopeLevelAll, DepIDs = [], UIDs = []\<rparr>
     else tryE (resolveConfiguredLevel E uid tenantID orgID modName) (\<lambda>level.
       case level of
         DataScopeLevelAll \<Rightarrow> ret \<lparr>Level = DataScopeLevelAll, DepIDs = [], UIDs = []\<rparr>
       | DataScopeLevelDept \<Rightarrow>
           tryE (resolveUserDeptIDs uid tenantID orgID) (\<lambda>depIDs.
           tryE (memberUIDsInDeps tenantID orgID depIDs) (\<lambda>members.
           ret \<lparr>Level = DataScopeLevelDept, DepIDs = depIDs,
                UIDs = if containsUint64 members uid then members else members @ [uid]\<rparr>))
       | DataScopeLevelSelf \<Rightarrow> ret \<lparr>Level = DataScopeLevelSelf, DepIDs = [], UIDs = [uid]\<rparr>)))"

section \<open>The loops read everything\<close>

lemma unat_page_offset:
  assumes "k * unat sz < 2 ^ 64"
  shows "unat (page_offset (of_nat (Suc k)) sz) = k * unat sz"
proof -
  have "page_offset (of_nat (Suc k)) sz = of_nat (k * unat sz)"
    by (simp add: page_offset_def)
  moreover have "unat (of_nat m :: u64) = m" if "m < 2 ^ 64" for m
    using that by (simp add: unsigned_of_nat take_bit_nat_eq_self)
  ultimately show ?thesis using assms by (simp only:)
qed

lemma of_nat_less_size: "m \<le> unat (sz :: u64) \<Longrightarrow> of_nat m < sz \<longleftrightarrow> m < unat sz"
  using unsigned_less [of sz, where 'a = nat] by (simp add: word_less_nat_alt unsigned_of_nat take_bit_nat_eq_self)

lemma quiet_untick: "quiet (db_tick w) w' \<Longrightarrow> quiet w w'"
  by (auto simp: quiet_def intro: touched_trans [of w "db_tick w"])

lemma wp_paged:
  assumes hom: "\<And>acc. f [] acc = acc" "\<And>xs ys acc. f (xs @ ys) acc = f ys (f xs acc)"
    and query: "\<And>page w Q E. page \<noteq> 0 \<Longrightarrow> wp (query page) Q E w = (if db_fails w then E DbError (db_tick w)
       else Q (page_of page sz (L (w_db w))) (db_tick w))"
    and sz: "0 < unat sz" and len: "length (L (w_db w)) + unat sz < 2 ^ 64"
    and k: "k * unat sz \<le> length (L (w_db w))" and fuel: "length (L (w_db w)) < (k + n) * unat sz"
  shows "wp (paged n query sz f (of_nat (Suc k)) acc) (\<lambda>r w'. quiet w w' \<and> r = Some (f (drop (k * unat sz) (L (w_db w))) acc))
     (\<lambda>e w'. e = DbError \<and> quiet w w' \<and> w_faults w \<noteq> []) w"
  using len k fuel
proof (induction n arbitrary: k acc w)
  case 0
  then show ?case by simp
next
  case (Suc n)
  let ?xs = "L (w_db w)" and ?s = "unat sz"
  let ?rows = "take ?s (drop (k * ?s) ?xs)"
  have page: "page_of (of_nat (Suc k)) sz ?xs = ?rows"
    using unat_page_offset [of k sz] Suc.prems(1,2) by (simp add: page_of_def)
  have "k \<le> k * ?s" using sz by simp
  then have "Suc k < 2 ^ 64" using Suc.prems(1,2) sz by linarith
  then have "unat (of_nat (Suc k) :: u64) = Suc k" by (simp only: unsigned_of_nat) (simp add: take_bit_nat_eq_self)
  then have nz: "(of_nat (Suc k) :: u64) \<noteq> 0" by (metis nat.distinct(1) unsigned_0)
  have small: "of_nat (length ?rows) < sz \<longleftrightarrow> length ?rows < ?s" by (rule of_nat_less_size) simp
  have next_page: "of_nat (Suc k) + 1 = (of_nat (Suc (Suc k)) :: u64)" by simp
  let ?Q = "\<lambda>r w'. quiet w w' \<and> r = Some (f (drop (k * ?s) ?xs) acc)" and ?E = "\<lambda>e w'. e = DbError \<and> quiet w w' \<and> w_faults w \<noteq> []"
  have cont: "wp (paged n query sz f (of_nat (Suc (Suc k))) (f ?rows acc)) ?Q ?E (db_tick w)" if "\<not> length ?rows < ?s"
  proof -
    have "?s \<le> length ?xs - k * ?s" using that by simp
    then have "Suc k * ?s \<le> length ?xs" using Suc.prems(2) by simp
    moreover have "drop (k * ?s) ?xs = ?rows @ drop (Suc k * ?s) ?xs"
      by (metis add.commute append_take_drop_id drop_drop mult_Suc)
    then have "f (drop (Suc k * ?s) ?xs) (f ?rows acc) = f (drop (k * ?s) ?xs) acc" by (metis hom(2))
    ultimately show ?thesis
      using Suc.prems by (intro wp_mono [OF Suc.IH [of "db_tick w" "Suc k" "f ?rows acc"]])
        (auto dest: quiet_untick)
  qed
  have rest: "drop (k * ?s) ?xs = ?rows" if "length ?rows < ?s"
    using that by simp
  show ?case
    using cont rest Suc.prems(2) sz
    by (auto simp: wp_tryE query [OF nz] page small next_page wp_ret hom(1) quiet_tick db_fails_def simp del: of_nat_Suc take_eq_Nil length_take)
qed

lemma page_of_map: "page_of p s (map f xs) = map f (page_of p s xs)"
  by (simp add: page_of_def take_map drop_map)

lemma add_members_append: "add_members ds (xs @ ys) acc = add_members ds ys (add_members ds xs acc)"
  by (simp add: add_members_def)

lemma set_add_members: "set (add_members ds us acc) = set acc \<union> {u_UID u | u. u \<in> set us \<and> in_deps ds u}"
  by (induction us arbitrary: acc) (auto simp: add_members_def)

lemma in_deps_listed [simp]: "in_deps ds (listed_user u) = in_deps ds u" "u_UID (listed_user u) = u_UID u"
  by (simp_all add: in_deps_def listed_user_def)

lemma set_add_listed: "set (add_members ds (map listed_user us) acc) = set acc \<union> {u_UID u | u. u \<in> set us \<and> in_deps ds u}"
  by (induction us arbitrary: acc) (auto simp: add_members_def)

lemma distinct_add_members: "distinct acc \<Longrightarrow> distinct (add_members ds us acc)"
  by (induction us arbitrary: acc) (auto simp: add_members_def)

text \<open>The members of the organization that are in one of the departments.\<close>

definition dep_members :: "u64 \<Rightarrow> u64 \<Rightarrow> u64 list \<Rightarrow> db \<Rightarrow> u64 set" where
  "dep_members t g ds d = {u_UID u | u. u \<in> set (users d) \<and> u_TenantID u = t
     \<and> list_ex (\<lambda>m. m_UID m = u_UID u \<and> m_OrgID m = g) (org_members d) \<and> in_deps ds u}"

lemma wp_UserQueryByOrg_page:
  "t \<noteq> 0 \<Longrightarrow> g \<noteq> 0 \<Longrightarrow> wp (UserQueryByOrg t g page 200 [] []) Q E w = (if db_fails w then E DbError (db_tick w)
     else Q (page_of (if page = 0 then 1 else page) 200 (map listed_user (org_users t g (w_db w)))) (db_tick w))"
proof -
  have "match_listed [] [] = (\<lambda>_. True)" by (rule ext) (simp add: match_listed_def)
  then show "t \<noteq> 0 \<Longrightarrow> g \<noteq> 0 \<Longrightarrow> ?thesis"
    by (simp add: UserQueryByOrg_def wp_failIf wp_db_query page_of_map)
qed

lemma wp_memberUIDsInDeps:
  assumes "t \<noteq> 0" "g \<noteq> 0" and len: "length (users (w_db w)) < 2 ^ 63"
  shows "wp (memberUIDsInDeps t g ds) (\<lambda>r w'. quiet w w' \<and> distinct r \<and> set r = dep_members t g ds (w_db w))
     (\<lambda>e w'. e = ErrService \<and> quiet w w' \<and> w_faults w \<noteq> []) w"
proof (cases "ds = []")
  case True
  have "in_deps [] u = False" for u by (auto simp: in_deps_def list_ex_iff)
  with True show ?thesis by (simp add: memberUIDsInDeps_def wp_ret dep_members_def)
next
  case False
  let ?L = "\<lambda>d. map listed_user (org_users t g d)" and ?n = "length (users (w_db w)) div 200 + 2"
  have short: "length (?L (w_db w)) \<le> length (users (w_db w))" by (simp add: org_users_def)
  have "wp (paged ?n (\<lambda>page. UserQueryByOrg t g page 200 [] []) 200 (add_members ds) (of_nat (Suc 0)) [])
     (\<lambda>r w'. quiet w w' \<and> r = Some (add_members ds (drop (0 * unat (200 :: u64)) (?L (w_db w))) []))
     (\<lambda>e w'. e = DbError \<and> quiet w w' \<and> w_faults w \<noteq> []) w"
  proof (rule wp_paged [where L = ?L])
    show "length (?L (w_db w)) < (0 + ?n) * unat (200 :: u64)" using short by simp
  qed (use short len assms in \<open>simp_all add: wp_UserQueryByOrg_page add_members_append add_members_def\<close>)
  then have "wp (paged ?n (\<lambda>page. UserQueryByOrg t g page 200 [] []) 200 (add_members ds) 1 [])
     (\<lambda>r w'. quiet w w' \<and> r = Some (add_members ds (?L (w_db w)) []))
     (\<lambda>e w'. e = DbError \<and> quiet w w' \<and> w_faults w \<noteq> []) w" by simp
  moreover have "set (add_members ds (?L (w_db w)) []) = dep_members t g ds (w_db w)"
    by (auto simp: set_add_listed dep_members_def org_users_def)
  moreover have "distinct (add_members ds (?L (w_db w)) [])" by (simp add: distinct_add_members)
  ultimately show ?thesis using False
    by (auto simp: memberUIDsInDeps_def wp_reads wp_tryAs within_fuel_def wp_tryE wp_ret elim!: wp_mono)
qed

section \<open>What a scope admits\<close>

lemma wp_GetRole:
  "wp (GetRoleForUserInDomain cb uid t g) (\<lambda>r w'. quiet w w' \<and> set r \<subseteq> set (cb_GetRoles cb (genUserByUID uid) (Domain t g) (w_casbin w))) E w"
  by (auto simp: GetRoleForUserInDomain_def UserQueryByID_def getRoleForUserInDomain_def wp_simps quiet_def)

lemma wp_Enforce:
  assumes "casbin_ok cb pol grp"
  shows "wp (Enforce cb uid t g x a) (\<lambda>b w'. w' = w \<and> (b \<longrightarrow> cb_Enforce cb (genUserByUID uid) (Domain t g) x a (w_casbin w) = Ret True)) (\<lambda>_ w'. w' = w) w"
proof -
  have "cb_Enforce cb s d x a c \<noteq> Panic" for s d x a c
  proof -
    have "enforce_ok cb pol grp" using assms by (simp add: casbin_ok_def)
    then have "case cb_Enforce cb s d x a c of Ret b \<Rightarrow> b = matcher (pol c) (grp c) (cb_GetRoles cb s d c) s d x a | Err _ \<Rightarrow> True | Panic \<Rightarrow> False"
      by (simp add: enforce_ok_def)
    then show ?thesis by (auto split: res.splits)
  qed
  then show ?thesis
    by (cases "cb_Enforce cb (genUserByUID uid) (Domain t g) x a (w_casbin w)")
      (auto simp: Enforce_def enforce_def wp_failIf wp_def failIf_def throw_def read_cb_def)
qed

lemma wp_first_level:
  assumes "casbin_ok (enforcer E) pol grp"
  shows "wp (first_level E uid t g m lvs) (\<lambda>lv w'. w' = w \<and> (lv = DataScopeLevelSelf \<or> lv \<in> set lvs
      \<and> cb_Enforce (enforcer E) (genUserByUID uid) (Domain t g) (scope_obj m lv) ''GET'' (w_casbin w) = Ret True)) X w"
proof (induction lvs)
  case (Cons lv lvs)
  show ?case unfolding first_level.simps wp_handle
    by (rule wp_mono [OF wp_Enforce [OF assms]]) (auto simp: wp_ret intro!: wp_mono [OF Cons.IH])
qed (simp add: wp_ret)

lemma set_add_dep: "set (fold add_dep is acc) \<subseteq> set acc \<union> set is"
proof (induction "is" arbitrary: acc)
  case (Cons i "is")
  have "set (add_dep i acc) \<subseteq> insert i (set acc)" by (auto simp: add_dep_def)
  then show ?case using Cons.IH [of "add_dep i acc"] by auto
qed simp

text \<open>The departments of an organization.\<close>

definition org_deps :: "u64 \<Rightarrow> u64 \<Rightarrow> db \<Rightarrow> u64 set" where
  "org_deps t g d = {d_Id r | r. r \<in> set (departments d) \<and> d_TenantID r = t \<and> d_OrgID r = g}"

lemma DepartmentFind_all_eq:
  "(DepartmentFind 0 t g p s :: ('c, Department list) dao) = failIf (t = 0) ErrParam (tryAs (DepartmentFind_dao 0 t g p s) ErrService ret)"
proof -
  have "(\<lambda>rr. case rr of [m] \<Rightarrow> if (0 :: u64) > 0 then update (depcache_set t 0 m) (ret rr) else ret rr | _ \<Rightarrow> ret rr)
      = (ret :: _ \<Rightarrow> ('c, Department list) dao)"
    by (rule ext) (auto split: list.splits)
  then show ?thesis by (simp only: DepartmentFind_def)
qed

lemma wp_DepartmentFind_all:
  assumes "t \<noteq> 0" "g \<noteq> 0"
  shows "wp (DepartmentFind 0 t g 0 0) (\<lambda>ds w'. quiet w w' \<and> set (map d_Id ds) = org_deps t g (w_db w)
       \<and> set ds = {r \<in> set (departments (w_db w)). d_TenantID r = t \<and> d_OrgID r = g})
    (\<lambda>e w'. e = ErrService \<and> quiet w w' \<and> w_faults w \<noteq> []) w"
proof -
  have "0 < g" using assms(2) by (simp add: word_neq_0_conv)
  then show ?thesis using assms
    unfolding DepartmentFind_all_eq
    by (auto simp: DepartmentFind_dao_def wp_failIf wp_tryAs wp_db_query wp_ret org_deps_def quiet_tick db_fails_def)
qed

lemma set_fold_deps: "set led \<subseteq> S \<Longrightarrow> set own \<subseteq> S \<Longrightarrow> set (fold add_dep led (fold add_dep own [])) \<subseteq> S"
  using set_add_dep [of led "fold add_dep own []"] set_add_dep [of own "[]"] by auto

lemma set_user_deps: "set (user_deps user uid t ds) \<subseteq> set (map d_Id ds)"
  unfolding user_deps_def Let_def by (rule set_fold_deps) (auto split: option.splits)

lemma wp_UserQueryByID [wp_simps]:
  "wp (UserQueryByID uid) Q E w = (if db_fails w then E DbError (db_tick w) else Q (find (\<lambda>u. u_UID u = uid) (users (w_db w))) (db_tick w))"
  by (simp add: UserQueryByID_def wp_db_query)

lemma quiet_trans: "quiet w w' \<Longrightarrow> quiet w' w'' \<Longrightarrow> quiet w w''"
  by (auto simp: quiet_def intro: touched_trans)

lemma quiet_faults: "quiet w w' \<Longrightarrow> w_faults w' \<noteq> [] \<Longrightarrow> w_faults w \<noteq> []"
  by (auto simp: quiet_def dest: touched_fields)

lemma wp_resolveUserDeptIDs:
  assumes "t \<noteq> 0" "g \<noteq> 0"
  shows "wp (resolveUserDeptIDs uid t g) (\<lambda>ds w'. quiet w w' \<and> set ds \<subseteq> org_deps t g (w_db w))
    (\<lambda>e w'. e = ErrService \<and> quiet w w' \<and> w_faults w \<noteq> []) w"
proof -
  have "wp (tryAs (DepartmentFind 0 t g 0 0) ErrService (\<lambda>deps. ret (user_deps user uid t deps)))
    (\<lambda>ds w'. quiet w w' \<and> set ds \<subseteq> org_deps t g (w_db w))
    (\<lambda>e w'. e = ErrService \<and> quiet w w' \<and> w_faults w \<noteq> []) w1" if "quiet w w1" for user w1
    unfolding wp_tryAs wp_ret
    by (rule wp_mono [OF wp_DepartmentFind_all [OF assms]])
      (use that set_user_deps [of user uid t] quietD [OF that] in \<open>auto intro: quiet_trans dest: quiet_faults\<close>)
  then show ?thesis unfolding resolveUserDeptIDs_def wp_tryAs [of "UserQueryByID uid"] wp_UserQueryByID
    by (auto simp: quiet_tick db_fails_def)
qed

text \<open>The engine lets the user do \<open>GET\<close> on the object of a level.\<close>

definition level_granted :: "'c env \<Rightarrow> u64 \<Rightarrow> u64 \<Rightarrow> u64 \<Rightarrow> string \<Rightarrow> DataScopeLevel \<Rightarrow> 'c \<Rightarrow> bool" where
  "level_granted E uid t g m lv c \<longleftrightarrow>
     cb_Enforce (enforcer E) (genUserByUID uid) (Domain t g) (scope_obj m lv) ''GET'' c = Ret True"

definition scope_ok :: "'c env \<Rightarrow> u64 \<Rightarrow> u64 \<Rightarrow> u64 \<Rightarrow> string \<Rightarrow> 'c world \<Rightarrow> DataScope \<Rightarrow> bool" where
  "scope_ok E uid t g m w s \<longleftrightarrow> (case Level s of
       DataScopeLevelAll \<Rightarrow> UIDs s = [] \<and> (''root'' \<in> set (cb_GetRoles (enforcer E) (genUserByUID uid) (Domain t g) (w_casbin w))
          \<or> level_granted E uid t g m DataScopeLevelAll (w_casbin w))
     | DataScopeLevelDept \<Rightarrow> level_granted E uid t g m DataScopeLevelDept (w_casbin w)
          \<and> set (UIDs s) = insert uid (dep_members t g (DepIDs s) (w_db w)) \<and> distinct (UIDs s)
          \<and> set (DepIDs s) \<subseteq> org_deps t g (w_db w)
     | DataScopeLevelSelf \<Rightarrow> UIDs s = [uid])"

lemma wp_dept_scope:
  assumes "t \<noteq> 0" "g \<noteq> 0" and len: "length (users (w_db w)) < 2 ^ 63" and q: "quiet w w1"
    and lv: "level_granted E uid t g m DataScopeLevelDept (w_casbin w)"
  shows "wp (tryE (resolveUserDeptIDs uid t g) (\<lambda>depIDs.
           tryE (memberUIDsInDeps t g depIDs) (\<lambda>members.
           ret \<lparr>Level = DataScopeLevelDept, DepIDs = depIDs,
                UIDs = if containsUint64 members uid then members else members @ [uid]\<rparr>)))
    (\<lambda>s w'. quiet w w' \<and> scope_ok E uid t g m w s) (\<lambda>e w'. e = ErrService \<and> quiet w w') w1" (is "wp _ ?Q ?E _")
proof -
  have mem: "wp (tryE (memberUIDsInDeps t g ds) (\<lambda>members.
       ret \<lparr>Level = DataScopeLevelDept, DepIDs = ds,
            UIDs = if containsUint64 members uid then members else members @ [uid]\<rparr>)) ?Q ?E w2"
    if a: "quiet w1 w2" "set ds \<subseteq> org_deps t g (w_db w1)" for ds w2
  proof -
    have q2: "quiet w w2" by (rule quiet_trans [OF q a(1)])
    have "length (users (w_db w2)) < 2 ^ 63" using len quietD [OF q2] by simp
    note m = wp_memberUIDsInDeps [OF assms(1,2) this, of ds]
    show ?thesis unfolding wp_tryE wp_ret
      by (rule wp_mono [OF m])
        (use q2 quietD [OF q2] quietD [OF q] a(2) lv in \<open>auto simp: scope_ok_def containsUint64_def list_ex_iff intro: quiet_trans\<close>)
  qed
  show ?thesis unfolding wp_tryE [of "resolveUserDeptIDs uid t g"]
    by (rule wp_mono [OF wp_resolveUserDeptIDs [OF assms(1,2)]], elim conjE, rule mem) (auto intro: quiet_trans [OF q])
qed

lemma wp_resolveConfiguredLevel:
  assumes "casbin_ok (enforcer E) pol grp"
  shows "wp (resolveConfiguredLevel E uid t g m) (\<lambda>lv w'. w' = w \<and> (lv = DataScopeLevelSelf \<or> level_granted E uid t g m lv (w_casbin w))) X w"
  unfolding resolveConfiguredLevel_def level_granted_def by (rule wp_mono [OF wp_first_level [OF assms]]) auto

lemma wp_scope_level:
  assumes ok: "casbin_ok (enforcer E) pol grp" and "t \<noteq> 0" "g \<noteq> 0" and len: "length (users (w_db w)) < 2 ^ 63" and q: "quiet w w1"
  shows "wp (tryE (resolveConfiguredLevel E uid t g m) (\<lambda>level. case level of
         DataScopeLevelAll \<Rightarrow> ret \<lparr>Level = DataScopeLevelAll, DepIDs = [], UIDs = []\<rparr>
       | DataScopeLevelDept \<Rightarrow>
           tryE (resolveUserDeptIDs uid t g) (\<lambda>depIDs.
           tryE (memberUIDsInDeps t g depIDs) (\<lambda>members.
           ret \<lparr>Level = DataScopeLevelDept, DepIDs = depIDs,
                UIDs = if containsUint64 members uid then members else members @ [uid]\<rparr>))
       | DataScopeLevelSelf \<Rightarrow> ret \<lparr>Level = DataScopeLevelSelf, DepIDs = [], UIDs = [uid]\<rparr>))
    (\<lambda>s w'. quiet w w' \<and> scope_ok E uid t g m w s) (\<lambda>e w'. e = ErrService \<and> quiet w w') w1"
  unfolding wp_tryE [of "resolveConfiguredLevel E uid t g m"]
proof (rule wp_mono [OF wp_resolveConfiguredLevel [OF ok]], elim conjE)
  fix lv w2
  assume a: "w2 = w1" "lv = DataScopeLevelSelf \<or> level_granted E uid t g m lv (w_casbin w1)"
  show "wp (case lv of
         DataScopeLevelAll \<Rightarrow> ret \<lparr>Level = DataScopeLevelAll, DepIDs = [], UIDs = []\<rparr>
       | DataScopeLevelDept \<Rightarrow>
           tryE (resolveUserDeptIDs uid t g) (\<lambda>depIDs.
           tryE (memberUIDsInDeps t g depIDs) (\<lambda>members.
           ret \<lparr>Level = DataScopeLevelDept, DepIDs = depIDs,
                UIDs = if containsUint64 members uid then members else members @ [uid]\<rparr>))
       | DataScopeLevelSelf \<Rightarrow> ret \<lparr>Level = DataScopeLevelSelf, DepIDs = [], UIDs = [uid]\<rparr>)
    (\<lambda>s w'. quiet w w' \<and> scope_ok E uid t g m w s) (\<lambda>e w'. e = ErrService \<and> quiet w w') w2"
    using a q quietD [OF q] wp_dept_scope [OF assms(2,3) len q, of E uid m]
    by (cases lv) (auto simp: wp_ret scope_ok_def)
qed simp



end
