(* ===== verification/Tenant_User.thy ===== *)
theory Tenant_User
  imports Data_Scope
begin

text \<open>
  \<open>service/tenant.user.service.go\<close>: the users of a tenant, their organizations and departments, and the
  disabled flag.
\<close>

section \<open>The extension map of a user\<close>

text \<open>A nil value deletes the key. A user that does not exist is dereferenced all the same.\<close>

definition TenantUpdateUserExt :: "u64 \<Rightarrow> u64 \<Rightarrow> string \<Rightarrow> gval \<Rightarrow> ('c, unit) dao" where
  "TenantUpdateUserExt uid currTenantID k v = failIf (uid = 0) ErrParam (
     failIf (k = []) ErrParam (
     tryAs (UserQueryByID uid) ErrNull (\<lambda>userInfo.
     case userInfo of None \<Rightarrow> panic | Some u \<Rightarrow>
     failIf (u_TenantID u \<noteq> currTenantID) ErrNoAuth (
     tryAs (UserUpdateExt uid (if v = GNil then AList.delete k (u_Ext u) else AList.update k v (u_Ext u))) ErrService (\<lambda>rows.
     ret ())))))"

definition TenantUserDisabledService :: "u64 \<Rightarrow> u64 \<Rightarrow> int \<Rightarrow> ('c, unit) dao" where
  "TenantUserDisabledService uid currTenantID disabled = failIf (uid = 0) ErrParam (
     failIf (\<not> IsValid disabled) ErrParam (
     TenantUpdateUserExt uid currTenantID ''disabled'' (GInt8 disabled)))"

definition TenantUserSetDepartment :: "u64 \<Rightarrow> u64 \<Rightarrow> u64 \<Rightarrow> u64 list \<Rightarrow> ('c, unit) dao" where
  "TenantUserSetDepartment uid tenantId orgID departmentIds = failIf (uid = 0) ErrParam (
     failIf (orgID = 0) ErrOrgRequired (
     tryE (DepartmentFind 0 tenantId orgID 0 0) (\<lambda>orgDeps.
     let orgDepSet = map d_Id orgDeps in
     failIf (list_ex (\<lambda>i. i \<noteq> 0 \<and> i \<notin> set orgDepSet) departmentIds) ErrParam (
     tryAs (UserQueryByID uid) ErrNull (\<lambda>userInfo.
     case userInfo of None \<Rightarrow> throw ErrNull | Some u \<Rightarrow>
     failIf (u_TenantID u \<noteq> tenantId) ErrNoAuth (
     let kept = filter (\<lambda>i. i \<notin> set orgDepSet) (parseUint64Slice (gget (u_Ext u) DepartmentExtKey))
                @ filter (\<lambda>i. i > 0) departmentIds in
     TenantUpdateUserExt uid tenantId ''deps'' (if kept = [] then GNil else GU64s kept)))))))"

section \<open>Joining and leaving\<close>

definition TenantBindUser :: "u64 \<Rightarrow> u64 \<Rightarrow> ('c, unit) dao" where
  "TenantBindUser uid currTenantID = failIf (uid = 0 \<or> currTenantID = 0) ErrParam (
     tryAs (UserUpdateTenantID uid currTenantID 0) ErrService (\<lambda>row.
     if row = 1 then ret ()
     else tryAs (UserQueryByID uid) ErrService (\<lambda>userInfo.
       case userInfo of None \<Rightarrow> throw ErrService | Some u \<Rightarrow>
       failIf (u_TenantID u \<noteq> currTenantID) ErrService (ret ()))))"

definition TenantUserAdd :: "'c env \<Rightarrow> u64 \<Rightarrow> u64 \<Rightarrow> u64 \<Rightarrow> u64 list \<Rightarrow> string list \<Rightarrow> int \<Rightarrow> ('c, unit) dao" where
  "TenantUserAdd E uid currTenantID orgID depIds roles disable = failIf (orgID = 0) ErrOrgRequired (
     tryE (RequireOrg currTenantID orgID) (\<lambda>_.
     tryAs (UserUpdateTenantID uid currTenantID 0) ErrService (\<lambda>row.
     whenE (row \<noteq> 1)
       (tryAs (UserQueryByID uid) ErrService (\<lambda>userInfo.
        case userInfo of None \<Rightarrow> throw ErrService | Some u \<Rightarrow>
        failIf (u_TenantID u \<noteq> currTenantID) ErrService (ret ()))) (
     tryE (OrgAddMember orgID uid currTenantID) (\<lambda>_.
     tryE (foreach roles (\<lambda>role.
        tryAs (AddRoleForUserInDomain (enforcer E) uid currTenantID orgID role) ErrService (\<lambda>_. ret ()))) (\<lambda>_.
     ignoreE (TenantUserSetDepartment uid currTenantID orgID depIds) (
     ignoreE (TenantUserDisabledService uid currTenantID disable) (
     ret ()))))))))"

definition TenantUserDel :: "'c env \<Rightarrow> u64 \<Rightarrow> u64 \<Rightarrow> ('c, int) dao" where
  "TenantUserDel E uid currTenantID = tryAs (OrgListByUser_dao uid currTenantID) ErrService (\<lambda>orgs.
     tryE (foreach orgs (\<lambda>r. tryAs (OrgRemoveMember E (o_ID r) uid currTenantID) ErrService (\<lambda>_. ret ()))) (\<lambda>_.
     tryAs (UserDelete uid currTenantID) ErrService ret))"

definition TenantUserLeaveOrg :: "'c env \<Rightarrow> u64 \<Rightarrow> u64 \<Rightarrow> u64 \<Rightarrow> ('c, int) dao" where
  "TenantUserLeaveOrg E uid currTenantID orgID = failIf (orgID = 0) ErrOrgRequired (
     tryE (OrgRemoveMember E orgID uid currTenantID) (\<lambda>_.
     ignoreE (TenantUserSetDepartment uid currTenantID orgID []) (
     tryAs (OrgMemberCountByUser uid currTenantID) ErrService (\<lambda>n.
     if n > 0 then ret 1 else TenantUserDel E uid currTenantID))))"

section \<open>Listing\<close>

text \<open>
  Roles and departments are filled in user by user; the error of the last role look-up stays in the result
  variable.
\<close>

fun fill_users :: "'c env \<Rightarrow> u64 \<Rightarrow> Department list \<Rightarrow> User list \<Rightarrow> gerr option \<Rightarrow> ('c, User list \<times> gerr option) dao" where
  "fill_users E orgID deps [] e = ret ([], e)"
| "fill_users E orgID deps (u # us) e =
     tryE (handle (getTenantUserRoles E (u_UID u) (u_TenantID u) orgID) (\<lambda>err. ret ([], Some err)) (\<lambda>rs. ret (rs, None))) (\<lambda>(roles, e').
     let ds = List.map_filter (\<lambda>i. find (\<lambda>r. d_Id r = i) deps) (parseUint64Slice (gget (u_Ext u) DepartmentExtKey)) in
     tryE (fill_users E orgID deps us e') (\<lambda>(us', e'').
     ret (u\<lparr>u_Roles := roles, u_Departments := u_Departments u @ ds\<rparr> # us', e'')))"

definition TenantUserGet :: "'c env \<Rightarrow> u64 \<Rightarrow> u64 \<Rightarrow> u64 \<Rightarrow> u64 \<Rightarrow> string \<Rightarrow> u64 list \<Rightarrow> bool \<Rightarrow> ('c, User list \<times> u64) dao" where
  "TenantUserGet E tenantID orgID page pageSize nickname uids hasTotal = failIf (orgID = 0) ErrOrgRequired (
     tryE (RequireOrg tenantID orgID) (\<lambda>_.
     tryAs (UserQueryByOrg tenantID orgID page pageSize nickname uids) ErrService (\<lambda>rr.
     failIf (rr = []) ErrNull (
     tryAs (DepartmentFind 0 tenantID orgID 0 0) ErrService (\<lambda>deps.
     tryE (fill_users E orgID deps rr None) (\<lambda>(us, e).
     if hasTotal then tryAs (UserCountByOrg tenantID orgID nickname uids) ErrService (\<lambda>total. ret (us, total))
     else case e of Some err \<Rightarrow> throw err | None \<Rightarrow> ret (us, 0)))))))"

section \<open>The disabled flag\<close>

text \<open>The tables after the extension map of one user has been replaced.\<close>

definition with_ext :: "u64 \<Rightarrow> MapStruct \<Rightarrow> db \<Rightarrow> db" where
  "with_ext uid ext d = d\<lparr>users := map (\<lambda>u. if u_UID u = uid then u\<lparr>u_Ext := stored_map ext\<rparr> else u) (users d)\<rparr>"

lemma users_ok_ext: "users_ok us \<Longrightarrow> users_violation (map (\<lambda>u. if P u then u\<lparr>u_Ext := x\<rparr> else u) us) = None"
  by (rule users_violation_map) auto

lemma wp_TenantUpdateUserExt:
  assumes ok: "users_ok (users (w_db w))" and found: "find (\<lambda>u. u_UID u = uid) (users (w_db w)) = Some u"
  shows "wp (TenantUpdateUserExt uid t k v)
    (\<lambda>_ w'. uid \<noteq> 0 \<and> k \<noteq> [] \<and> u_TenantID u = t \<and> touched w w'
       \<and> w_db w' = with_ext uid (if v = GNil then AList.delete k (u_Ext u) else AList.update k v (u_Ext u)) (w_db w))
    (\<lambda>e w'. w_db w' = w_db w \<and> touched w w') w"
proof -
  have "users_violation (map (\<lambda>u. if u_UID u = uid then u\<lparr>u_Ext := x\<rparr> else u) (users (w_db w))) = None" for x
    by (rule users_ok_ext [OF ok])
  with found show ?thesis
    by (simp add: TenantUpdateUserExt_def UserUpdateExt_def with_ext_def wp_simps)
qed

lemma gget_update: "gget (AList.update k v m) k = v"
  by (simp add: gget_def update_conv')

lemma ext_disabled_flag: "ext_disabled (stored_map (AList.update ''disabled'' (GInt8 s) m)) \<longleftrightarrow> (s + 128) mod 256 - 128 = UserDisabled"
  by (simp add: ext_disabled_def gget_stored_map gget_update int8_of_float_def trunc_float_def)

text \<open>A login never answers a disabled row.\<close>

lemma login_refuses_disabled:
  assumes ok: "users_ok (users (w_db w))" and u: "u \<in> set (users (w_db w))" "ext_disabled (u_Ext u)"
    and fresh: "users_uid_seq (w_seqs w) + 1 \<noteq> u_UID u" and login: "UserLogin E p w = (Ret one, w')"
  shows "u_UID one \<noteq> u_UID u"
proof
  assume same: "u_UID one = u_UID u"
  obtain v w2 where v: "found_user (fst (userPreTreat E p)) w w2 v" "u_UID one = u_UID v" "\<not> ext_disabled (u_Ext v)"
    using wp_Ret [OF login wp_UserLogin] by blast
  with same fresh have "v \<in> set (users (w_db w))" by (auto simp: found_user_def)
  moreover have "distinct_by u_UID (users (w_db w))" using ok by (simp add: users_ok_def)
  ultimately have "v = u" using u(1) same v(2) by (auto intro: distinct_by_inj)
  with u(2) v(3) show False by simp
qed



section \<open>Departments\<close>

text \<open>Identifiers up to \<open>2 ^ 53\<close> survive the trip through a JSON number.\<close>

lemma trunc_of_nat: "trunc_float (of_nat m) = int m"
  by (simp add: trunc_float_def)

lemma float_uid:
  assumes "unat n \<le> 2 ^ 53"
  shows "float64_of_nat (unat n) \<ge> 0" and "of_int (trunc_float (float64_of_nat (unat n))) = n"
proof -
  have *: "float64_of_nat (unat n) = of_nat (unat n)" using assms by (simp only: float64_of_nat_def if_True)
  show "float64_of_nat (unat n) \<ge> 0" unfolding * by (rule of_nat_0_le_iff)
  show "of_int (trunc_float (float64_of_nat (unat n))) = n" unfolding * trunc_of_nat by simp
qed

lemma parse_stored: "\<forall>n \<in> set ns. unat n \<le> 2 ^ 53 \<Longrightarrow> parseUint64Slice (json_roundtrip (GU64s ns)) = filter (\<lambda>n. n > 0) ns"
proof (induction ns)
  case (Cons n ns)
  have "\<not> float64_of_nat (unat n) < 0" using Cons.prems float_uid(1) [of n] by (simp add: not_less)
  with Cons float_uid(2) [of n] show ?case
    by (simp add: parseUint64Slice_def List.map_filter_simps asUint64_def positive_def)
qed (simp add: parseUint64Slice_def List.map_filter_simps)

definition ext_deps :: "MapStruct \<Rightarrow> u64 set" where
  "ext_deps ext = set (parseUint64Slice (gget ext DepartmentExtKey))"

lemma gget_update_other: "k \<noteq> j \<Longrightarrow> gget (AList.update j v m) k = gget m k"
  by (simp add: gget_def update_conv')

lemma gget_delete: "gget (AList.delete j m) k = (if k = j then GNil else gget m k)"
  by (simp add: gget_def delete_conv')

text \<open>The map that \<open>TenantUserSetDepartment\<close> writes for the departments to keep.\<close>

lemma ext_deps_written:
  assumes "\<forall>n \<in> set kept. unat n \<le> 2 ^ 53"
    and "ext = (if (if kept = [] then GNil else GU64s kept) = GNil then AList.delete ''deps'' m
                else AList.update ''deps'' (if kept = [] then GNil else GU64s kept) m)"
  shows "ext_deps (stored_map ext) = set kept - {0} \<and> (\<forall>k. k \<noteq> ''deps'' \<longrightarrow> gget ext k = gget m k)"
  using parse_stored [OF assms(1)] unfolding assms(2)
  by (auto simp: ext_deps_def gget_stored_map DepartmentExtKey_def gget_update gget_update_other gget_delete
      parseUint64Slice_def word_neq_0_conv simp del: json_roundtrip.simps(5))

text \<open>The user's departments have become \<open>ids\<close> together with those of other organizations.\<close>

definition deps_set :: "u64 \<Rightarrow> u64 \<Rightarrow> u64 \<Rightarrow> u64 list \<Rightarrow> db \<Rightarrow> db \<Rightarrow> bool" where
  "deps_set uid t g ids d d' \<longleftrightarrow> set ids - {0} \<subseteq> org_deps t g d
     \<and> (\<exists>u \<in> set (users d). \<exists>ext. u_UID u = uid \<and> u_TenantID u = t \<and> d' = with_ext uid ext d
          \<and> ext_deps (stored_map ext) = (ext_deps (u_Ext u) - org_deps t g d) \<union> set ids - {0}
          \<and> (\<forall>k. k \<noteq> ''deps'' \<longrightarrow> gget ext k = gget (u_Ext u) k))"

lemma wp_store_deps:
  assumes ok: "users_ok (users (w_db w))" and d: "w_db w2 = w_db w"
    and f: "find (\<lambda>u. u_UID u = uid) (users (w_db w)) = Some u" and t: "u_TenantID u = t"
    and sub: "set ids - {0} \<subseteq> org_deps t g (w_db w)"
    and kept: "set kept = (ext_deps (u_Ext u) - org_deps t g (w_db w)) \<union> (set ids - {0})"
    and small: "\<forall>n \<in> set kept. unat n \<le> 2 ^ 53"
  shows "wp (TenantUpdateUserExt uid t ''deps'' (if kept = [] then GNil else GU64s kept))
    (\<lambda>_ w'. deps_set uid t g ids (w_db w) (w_db w')) (\<lambda>e w'. w_db w' = w_db w) w2"
proof -
  have u: "u \<in> set (users (w_db w))" "u_UID u = uid" using f by (auto simp: find_Some_iff)
  have same: "set kept - {0} = (ext_deps (u_Ext u) - org_deps t g (w_db w)) \<union> set ids - {0}" using kept by auto
  have "users_ok (users (w_db w2))" "find (\<lambda>u. u_UID u = uid) (users (w_db w2)) = Some u" using ok d f by simp_all
  from wp_TenantUpdateUserExt [OF this] show ?thesis
  proof (rule wp_mono, elim conjE)
    fix x w' assume a: "w_db w' = with_ext uid (if (if kept = [] then GNil else GU64s kept) = GNil then AList.delete ''deps'' (u_Ext u)
        else AList.update ''deps'' (if kept = [] then GNil else GU64s kept) (u_Ext u)) (w_db w2)" (is "_ = with_ext uid ?ext _")
    show "deps_set uid t g ids (w_db w) (w_db w')"
      using ext_deps_written [OF small refl, of "u_Ext u"] u sub a d t unfolding same deps_set_def
      by (intro conjI bexI [of _ u] exI [of _ ?ext]) simp_all
  qed (simp add: d)
qed

lemma wp_set_checked_deps:
  assumes ok: "users_ok (users (w_db w))" and ids: "\<forall>i \<in> set ids. unat i \<le> 2 ^ 53"
    and old: "\<forall>u \<in> set (users (w_db w)). \<forall>i \<in> ext_deps (u_Ext u). unat i \<le> 2 ^ 53"
    and q: "quiet w w1" and ds: "set (map d_Id orgDeps) = org_deps t g (w_db w)"
  shows "wp (let orgDepSet = map d_Id orgDeps in
         failIf (list_ex (\<lambda>i. i \<noteq> 0 \<and> i \<notin> set orgDepSet) ids) ErrParam (
         tryAs (UserQueryByID uid) ErrNull (\<lambda>userInfo.
         case userInfo of None \<Rightarrow> throw ErrNull | Some u \<Rightarrow>
         failIf (u_TenantID u \<noteq> t) ErrNoAuth (
         let kept = filter (\<lambda>i. i \<notin> set orgDepSet) (parseUint64Slice (gget (u_Ext u) DepartmentExtKey))
                    @ filter (\<lambda>i. i > 0) ids in
         TenantUpdateUserExt uid t ''deps'' (if kept = [] then GNil else GU64s kept)))))
    (\<lambda>_ w'. deps_set uid t g ids (w_db w) (w_db w')) (\<lambda>e w'. w_db w' = w_db w) w1"
proof -
  have d: "w_db w1 = w_db w" "w_db (db_tick w1) = w_db w" using quietD [OF q] by simp_all
  consider (foreign) "list_ex (\<lambda>i. i \<noteq> 0 \<and> i \<notin> set (map d_Id orgDeps)) ids"
    | (none) "find (\<lambda>u. u_UID u = uid) (users (w_db w)) = None"
    | (user) u where "\<not> list_ex (\<lambda>i. i \<noteq> 0 \<and> i \<notin> set (map d_Id orgDeps)) ids" "find (\<lambda>u. u_UID u = uid) (users (w_db w)) = Some u"
    by blast
  then show ?thesis
  proof cases
    case (user u)
    then have sub: "set ids - {0} \<subseteq> org_deps t g (w_db w)" using ds by (auto simp: list_ex_iff)
    obtain kept where k: "kept = filter (\<lambda>i. i \<notin> set (map d_Id orgDeps)) (parseUint64Slice (gget (u_Ext u) DepartmentExtKey)) @ filter (\<lambda>i. i > 0) ids"
      by simp
    have kept: "set kept = (ext_deps (u_Ext u) - org_deps t g (w_db w)) \<union> (set ids - {0})"
      unfolding k set_append set_filter ds ext_deps_def by (auto simp: word_neq_0_conv)
    moreover have "\<forall>n \<in> set kept. unat n \<le> 2 ^ 53" using kept ids old user(2) by (auto simp: find_Some_iff)
    ultimately show ?thesis
      using wp_store_deps [OF ok d(2) user(2) _ sub, of kept]
      unfolding Let_def wp_failIf wp_tryAs wp_UserQueryByID d(1) user(2) option.case k [symmetric]
      using user(1) d by (auto split: if_splits)
  qed (use d in \<open>auto simp: Let_def wp_failIf wp_tryAs wp_UserQueryByID wp_throw\<close>)
qed

text \<open>
  C10. Assigning departments (\<open>TenantUserSetDepartment\<close>), whatever statement fails: it succeeds only for a user of
  the tenant and only for departments of the organization, and then the user's departments, as the code
  reads them back from the JSON column, are the given ones together with those of other organizations;
  no other key of the map and no other row changes. A failure changes nothing. Identifiers up to
  \<open>2 ^ 53\<close> survive the column exactly.
\<close>

theorem TenantUserSetDepartment_exact:
  assumes "users_ok (users (w_db w))" and "\<forall>i \<in> set ids. unat i \<le> 2 ^ 53"
    and "\<forall>u \<in> set (users (w_db w)). \<forall>i \<in> ext_deps (u_Ext u). unat i \<le> 2 ^ 53"
  shows "case TenantUserSetDepartment uid t g ids w of
      (Ret _, w') \<Rightarrow> set ids - {0} \<subseteq> org_deps t g (w_db w)
         \<and> (\<exists>u \<in> set (users (w_db w)). \<exists>ext. u_UID u = uid \<and> u_TenantID u = t \<and> w_db w' = with_ext uid ext (w_db w)
              \<and> ext_deps (stored_map ext) = (ext_deps (u_Ext u) - org_deps t g (w_db w)) \<union> set ids - {0}
              \<and> (\<forall>k. k \<noteq> ''deps'' \<longrightarrow> gget ext k = gget (u_Ext u) k))
    | (Err e, w') \<Rightarrow> w_db w' = w_db w
    | (Panic, w') \<Rightarrow> False"
proof (cases "uid = 0 \<or> g = 0 \<or> t = 0")
  case True
  then show ?thesis by (auto simp: TenantUserSetDepartment_def DepartmentFind_all_eq failIf_def throw_def tryE_def handle_def)
next
  case False
  then have nz: "uid \<noteq> 0" "g \<noteq> 0" "t \<noteq> 0" by simp_all
  have "wp (TenantUserSetDepartment uid t g ids) (\<lambda>_ w'. deps_set uid t g ids (w_db w) (w_db w')) (\<lambda>e w'. w_db w' = w_db w) w"
    unfolding TenantUserSetDepartment_def wp_failIf wp_tryE [of "DepartmentFind 0 t g 0 0"] if_not_P [OF nz(1)] if_not_P [OF nz(2)]
    by (rule wp_mono [OF wp_DepartmentFind_all [OF nz(3,2)]], elim conjE, erule wp_set_checked_deps [OF assms, unfolded wp_failIf], assumption)
      (simp add: quietD)
  then show ?thesis unfolding wp_def deps_set_def .
qed


theorem TenantUserSetDepartment_exact_witness:
  "case TenantUserSetDepartment 10001 2 7 [4] user_world of
      (Ret _, w') \<Rightarrow> (\<exists>ext. w_db w' = with_ext 10001 ext (w_db user_world)) | (Err e, w') \<Rightarrow> w_db w' = w_db user_world | (Panic, w') \<Rightarrow> False"
  using TenantUserSetDepartment_exact [OF user_world_ok, where ids = "[4]" and uid = 10001 and t = 2 and g = 7]
  by (auto simp: ext_deps_def gget_def parseUint64Slice_def split: prod.splits res.splits)


section \<open>Deleting a user of a tenant\<close>

text \<open>The state after the user has been taken out of some organizations of the tenant.\<close>

definition left_orgs :: "('c \<Rightarrow> grouping set) \<Rightarrow> u64 \<Rightarrow> u64 \<Rightarrow> u64 set \<Rightarrow> 'c world \<Rightarrow> 'c world \<Rightarrow> bool" where
  "left_orgs grp uid t G w w' \<longleftrightarrow> orgs_cached w'
     \<and> w_db w' = (w_db w)\<lparr>org_members := filter (\<lambda>m. \<not> (m_OrgID m \<in> G \<and> m_UID m = uid)) (org_members (w_db w))\<rparr>
     \<and> grp (w_casbin w') = {(x, r, e) \<in> grp (w_casbin w). \<not> (x = genUserByUID uid \<and> e \<in> Domain t ` G)}"

lemma left_orgs_step:
  assumes "left_orgs grp uid t G w w1" and "orgs_cached w2"
    and "w_db w2 = (w_db w1)\<lparr>org_members := filter (\<lambda>m. \<not> (m_OrgID m = g \<and> m_UID m = uid)) (org_members (w_db w1))\<rparr>"
    and "grp (w_casbin w2) = {(x, r, e) \<in> grp (w_casbin w1). \<not> (x = genUserByUID uid \<and> e = Domain t g)}"
  shows "left_orgs grp uid t (insert g G) w w2"
proof -
  have d1: "w_db w1 = (w_db w)\<lparr>org_members := filter (\<lambda>m. \<not> (m_OrgID m \<in> G \<and> m_UID m = uid)) (org_members (w_db w))\<rparr>"
    using assms(1) by (simp add: left_orgs_def)
  have "w_db w2 = (w_db w)\<lparr>org_members := filter (\<lambda>m. \<not> (m_OrgID m \<in> insert g G \<and> m_UID m = uid)) (org_members (w_db w))\<rparr>"
    unfolding assms(3) d1 by (simp, intro arg_cong [of _ _ "\<lambda>ms. (w_db w)\<lparr>org_members := ms\<rparr>"] filter_cong) auto
  moreover have "grp (w_casbin w2) = {(x, r, e) \<in> grp (w_casbin w). \<not> (x = genUserByUID uid \<and> e \<in> Domain t ` insert g G)}"
    using assms(1,4) by (auto simp: left_orgs_def)
  ultimately show ?thesis using assms(2) by (simp add: left_orgs_def)
qed

lemma wp_leave_all:
  assumes ok: "casbin_ok (enforcer E) pol grp" and "left_orgs grp uid t G w w1"
  shows "wp (foreach rs (\<lambda>r. tryAs (OrgRemoveMember E (o_ID r) uid t) ErrService (\<lambda>_. ret ())))
    (\<lambda>_ w'. left_orgs grp uid t (G \<union> o_ID ` set rs) w w')
    (\<lambda>e w'. e = ErrService \<and> orgs_cached w' \<and> users (w_db w') = users (w_db w)) w1"
  using assms(2)
proof (induction rs arbitrary: G w1)
  case Nil
  then show ?case by (simp add: wp_simps)
next
  case (Cons r rs)
  let ?E = "\<lambda>e w'. e = ErrService \<and> orgs_cached w' \<and> users (w_db w') = users (w_db w)"
  have oc: "orgs_cached w1" and us: "users (w_db w1) = users (w_db w)" using Cons.prems by (simp_all add: left_orgs_def)
  show ?case
    unfolding foreach.simps wp_tryE wp_tryAs
  proof (rule wp_mono [OF wp_OrgRemoveMember [OF oc ok, of "o_ID r" uid t]], elim conjE)
    fix x w2 assume a: "orgs_cached w2"
      "w_db w2 = (w_db w1)\<lparr>org_members := filter (\<lambda>m. \<not> (m_OrgID m = o_ID r \<and> m_UID m = uid)) (org_members (w_db w1))\<rparr>"
      "grp (w_casbin w2) = {(x, r', e) \<in> grp (w_casbin w1). \<not> (x = genUserByUID uid \<and> e = Domain t (o_ID r))}"
    have "left_orgs grp uid t (insert (o_ID r) G) w w2" by (rule left_orgs_step [OF Cons.prems a])
    from Cons.IH [OF this] show "wp (ret ()) (\<lambda>x. wp (foreach rs (\<lambda>r. tryAs (OrgRemoveMember E (o_ID r) uid t) ErrService (\<lambda>_. ret ())))
        (\<lambda>_ w'. left_orgs grp uid t (G \<union> o_ID ` set (r # rs)) w w') ?E) ?E w2"
      by (simp add: wp_ret)
  qed (simp add: us)
qed

text \<open>The user has left every organization of the tenant and the row is gone.\<close>

lemma wp_TenantUserDel:
  assumes oc: "orgs_cached w" and ok: "casbin_ok (enforcer E) pol grp"
  shows "wp (TenantUserDel E uid t)
    (\<lambda>r w'. \<exists>G w2. left_orgs grp uid t G w w2 \<and> (\<forall>g. in_org (w_db w) uid t g \<longrightarrow> g \<in> G) \<and> orgs_cached w'
       \<and> uid \<noteq> 0 \<and> t \<noteq> 0 \<and> w_casbin w' = w_casbin w2
       \<and> (\<exists>uc. w_db w' = (w_db w2)\<lparr>users := filter (\<lambda>u. \<not> (u_UID u = uid \<and> u_TenantID u = t)) (users (w_db w)), user_closure := uc\<rparr>))
    (\<lambda>e w'. e = ErrService \<and> orgs_cached w' \<and> users (w_db w') = users (w_db w)) w" (is "wp _ ?Q ?E _")
proof (cases "uid = 0 \<or> t = 0")
  case True
  then show ?thesis using oc by (simp add: TenantUserDel_def OrgListByUser_dao_def wp_simps)
next
  case False
  let ?orgs = "sort_key o_ID (filter (\<lambda>r. o_TenantID r = t
         \<and> list_ex (\<lambda>m. m_OrgID m = o_ID r \<and> m_UID m = uid) (org_members (w_db w))) (organizations (w_db w)))"
  have "left_orgs grp uid t {} w (db_tick w)" using oc by (simp add: left_orgs_def)
  note leave = wp_leave_all [OF ok this, of ?orgs]
  have all: "g \<in> o_ID ` set ?orgs" if "in_org (w_db w) uid t g" for g
    using that by (auto simp: in_org_def org_of_def is_member_def find_org_def find_Some_iff split: option.splits)
  have del: "wp (tryAs (UserDelete uid t) ErrService ret) ?Q ?E w2" if l: "left_orgs grp uid t ({} \<union> o_ID ` set ?orgs) w w2" for w2
  proof -
    have us: "users (w_db w2) = users (w_db w)" and oc2: "orgs_cached w2" using l by (simp_all add: left_orgs_def)
    let ?w3 = "\<lambda>uc. (db_tick w2)\<lparr>w_db := (w_db w2)\<lparr>users := filter (\<lambda>u. \<not> (u_UID u = uid \<and> u_TenantID u = t)) (users (w_db w)), user_closure := uc\<rparr>\<rparr>"
    have "orgs_cached (?w3 uc)" for uc
      by (rule orgs_cachedI [OF oc2]) (use oc2 in \<open>simp_all add: orgs_cached_def find_org_def is_member_def\<close>)
    then have "?Q r (?w3 uc)" for r uc
      using l all False by (intro exI [of _ "{} \<union> o_ID ` set ?orgs"] exI [of _ w2]) auto
    then show ?thesis unfolding UserDelete_def wp_tryAs wp_db_exec Let_def
      using oc2 us by (simp add: wp_ret)
  qed
  have main: "wp (tryE (foreach ?orgs (\<lambda>r. tryAs (OrgRemoveMember E (o_ID r) uid t) ErrService (\<lambda>_. ret ())))
      (\<lambda>_. tryAs (UserDelete uid t) ErrService ret)) ?Q ?E (db_tick w)"
    unfolding wp_tryE by (rule wp_mono [OF leave]) (erule del, assumption)
  have "wp (OrgListByUser_dao uid t) (\<lambda>orgs. wp (tryE (foreach orgs (\<lambda>r. tryAs (OrgRemoveMember E (o_ID r) uid t) ErrService (\<lambda>_. ret ())))
      (\<lambda>_. tryAs (UserDelete uid t) ErrService ret)) ?Q ?E) (\<lambda>_. ?E ErrService) w"
    unfolding OrgListByUser_dao_def wp_failIf wp_db_query if_not_P [OF False] using main oc by (cases "db_fails w") simp_all
  then show ?thesis unfolding TenantUserDel_def by (simp only: wp_tryAs [of "OrgListByUser_dao uid t"])
qed



end
