(* ===== verification/Admin_Service.thy ===== *)
theory Admin_Service
  imports Tenant_User
begin

text \<open>
  \<open>service/admin.service.go\<close>: what the administrators of the root tenant do with other tenants, creation,
  re-parenting and changes (\<open>Admin_Delete\<close> holds the deletion). The session user is a non-nil pointer at every
  call. A failing \<open>Commit\<close> is noticed by none of these functions.
\<close>

section \<open>Creating a tenant\<close>

record NewTenantReq =
  n_ParentID :: u64
  n_TenantName :: string
  n_TenantType :: string
  n_Cellphone :: string
  n_Nickname :: string
  n_Password :: string
  n_Info :: MapStruct
  n_Configuration :: "TenantConfiguration option"

definition addUserServiceWithTx :: "'c env \<Rightarrow> UserReq \<Rightarrow> ('c, u64) dao" where
  "addUserServiceWithTx E p =
     failIf (r_Cellphone p = [] \<and> r_Email p = [] \<and> r_Nickname p = []) ErrUserNmae (
     failIf (r_Password p = []) ErrPWDNil (
     case userPreTreat E p of (p0, e) \<Rightarrow> failIf (e \<noteq> None) ErrParam (
     tryE (userCheckDuplicates p0) (\<lambda>p1.
     tryAs (UserInsert (p1\<lparr>r_Password := EncryPWD E (r_Password p1)\<rparr>)) ErrService ret))))"

text \<open>The row to insert: the administrator's phone number goes into \<open>info\<close>, an empty dictionary gets the root role.\<close>

definition new_tenant :: "NewTenantReq \<Rightarrow> u64 \<Rightarrow> u64 \<Rightarrow> Tenant" where
  "new_tenant m adminUID ancestorID = (let
       cfg = (case n_Configuration m of None \<Rightarrow> empty_config | Some c \<Rightarrow> c)
     in \<lparr>t_ID = 0, t_UID = adminUID, t_ParentID = ancestorID, t_TenantName = n_TenantName m, t_TenantType = n_TenantType m,
         t_CreateTime = 0, t_UpdateTime = 0,
         t_Info = (if map_of (n_Info m) ''adminCellphone'' = None \<and> TrimSpace (n_Cellphone m) \<noteq> []
                   then AList.update ''adminCellphone'' (GStr (TrimSpace (n_Cellphone m))) (n_Info m) else n_Info m),
         t_Configuration = Some (if Roles cfg = [] then cfg\<lparr>Roles := [root_role]\<rparr> else cfg), t_Depth = 0\<rparr>)"

definition new_tenant_tx :: "'c env \<Rightarrow> NewTenantReq \<Rightarrow> bool \<Rightarrow> u64 \<Rightarrow> ('c, u64 \<times> u64) dao" where
  "new_tenant_tx E m wantAdmin ancestorID =
     tryE (if wantAdmin
           then tryE (addUserServiceWithTx E (empty_UserReq\<lparr>r_Cellphone := TrimSpace (n_Cellphone m),
                   r_Nickname := TrimSpace (n_Nickname m), r_Password := TrimSpace (n_Password m)\<rparr>)) (\<lambda>uid.
                failIf (uid = 0) ErrService (ret uid))
           else ret 0) (\<lambda>adminUID.
     handle (TenantInsert (new_tenant m adminUID ancestorID)) (\<lambda>insErr. throw (MapPostgresTenantInsertError insErr)) (\<lambda>tenantID.
     failIf (tenantID = 0) ErrService (
     tryAs (TenantClosureInsert ancestorID tenantID) ErrService (\<lambda>_.
     ret (adminUID, tenantID)))))"

definition AdminTenantNew :: "'c env \<Rightarrow> User \<Rightarrow> NewTenantReq \<Rightarrow> ('c, u64 \<times> u64) dao" where
  "AdminTenantNew E sess m = reads w_root (\<lambda>root.
     failIf (u_TenantID sess \<noteq> root) ErrNoAuth (
     failIf (n_TenantName m = []) ErrTenantNameNull (
     failIf (n_TenantType m = []) ErrTenantTypeNull (
     let nick = TrimSpace (n_Nickname m); cell = TrimSpace (n_Cellphone m); pass = TrimSpace (n_Password m);
         wantAdmin = (nick \<noteq> [] \<or> cell \<noteq> [] \<or> pass \<noteq> []) in
     failIf (wantAdmin \<and> (nick = [] \<and> cell = [] \<or> pass = [])) ErrUserNmae (
     tryE (if n_ParentID m > 0
           then tryAs (TenantClosureIsDescendant (u_TenantID sess) (n_ParentID m)) ErrService (\<lambda>depth.
                failIf (depth < 0) ErrNoAuth (ret (n_ParentID m)))
           else ret (u_TenantID sess)) (\<lambda>ancestorID.
     tryAs (TenantNameExists (n_TenantName m)) ErrService (\<lambda>dup.
     failIf dup ErrTenantNameDup (
     tryAs (db_query (\<lambda>_. ())) ErrService (\<lambda>_.
     tryE (run_tx (new_tenant_tx E m wantAdmin ancestorID)) (\<lambda>((adminUID, tenantID), committed).
     update (evictTenantCache [tenantID]) (ret (adminUID, tenantID))))))))))))"

definition AdminTenantList :: "u64 \<Rightarrow> u64 \<Rightarrow> bool \<Rightarrow> ('c, Tenant list \<times> u64) dao" where
  "AdminTenantList page pageSize hasTotal = tryAs (TenantList page pageSize) ErrService (\<lambda>rr.
     failIf (rr = []) ErrNull (
     if hasTotal then tryAs TenantCount ErrService (\<lambda>total. ret (rr, total)) else ret (rr, 0)))"

section \<open>Moving a tenant\<close>

text \<open>
  The body of the serializable transaction answers an error as a value when \<open>err\<close> is nil at that return: the
  deferred function then commits.
\<close>

definition set_parent_tx :: "u64 \<Rightarrow> u64 \<Rightarrow> u64 \<Rightarrow> ('c, gerr option) dao" where
  "set_parent_tx rootTenantID descendantId ancestorId =
     tryE (if ancestorId \<noteq> rootTenantID
           then tryAs (db_query (closure_count (\<lambda>a d. a = descendantId \<and> d = ancestorId))) ErrService (\<lambda>count. ret (count > 0))
           else ret False) (\<lambda>cycle.
     if cycle then ret (Some ErrTenantCircularRef)
     else tryE (TenantClosureUpdateSubtreeV2Safe descendantId ancestorId) (\<lambda>_. ret None))"

definition AdminTenantSetParent :: "User \<Rightarrow> u64 \<Rightarrow> u64 \<Rightarrow> ('c, unit) dao" where
  "AdminTenantSetParent sessUser descendantId ancestorId = reads w_root (\<lambda>root.
     failIf (root = 0 \<or> u_TenantID sessUser \<noteq> root) ErrNoAuth (
     failIf (descendantId = 0 \<or> ancestorId = 0) ErrParam (
     failIf (descendantId = ancestorId) ErrTenantSame (
     failIf (descendantId = root) ErrTenantRoot (
     finally_do (evictTenantCache [descendantId, ancestorId]) (
     tryAs (TenantGetByID descendantId) ErrService (\<lambda>tenant.
     failIf (tenant = None) ErrTenantNotFound (
     tryAs (TenantGetByID ancestorId) ErrService (\<lambda>parentTenant.
     failIf (parentTenant = None) ErrTenantNotFound (
     tryAs (TenantClosureIsDescendant ancestorId descendantId) ErrService (\<lambda>depth.
     if depth = 1 then ret ()
     else tryAs (db_query (\<lambda>_. ())) ErrService (\<lambda>_.
          tryE (run_tx (set_parent_tx root descendantId ancestorId)) (\<lambda>(err, committed).
          case err of Some e \<Rightarrow> throw e | None \<Rightarrow> ret ())))))))))))))"

section \<open>Changing a tenant\<close>

record UpdateTenantReq =
  ut_TenantID :: u64
  ut_TenantName :: string
  ut_TenantType :: string
  ut_Info :: "MapStruct option"

record UpdateTenantConfigReq =
  uc_TenantID :: u64
  uc_LastUpdateTime :: string
  uc_Configuration :: "TenantConfiguration option"

text \<open>\<open>parseTime\<close> is \<open>time.Parse(time.RFC3339, _)\<close>; \<open>None\<close> stands for its error.\<close>

definition AdminTenantUpdateConfig :: "(string \<Rightarrow> int option) \<Rightarrow> User \<Rightarrow> UpdateTenantConfigReq \<Rightarrow> ('c, unit) dao" where
  "AdminTenantUpdateConfig parseTime sessUser req = reads w_root (\<lambda>root.
     finally_do (evictTenantCache [uc_TenantID req]) (
     failIf (u_TenantID sessUser \<noteq> root \<and> u_TenantID sessUser \<noteq> uc_TenantID req) ErrNoAuth (
     failIf (uc_TenantID req = 0 \<or> uc_Configuration req = None \<or> uc_LastUpdateTime req = []) ErrParam (
     case parseTime (uc_LastUpdateTime req) of None \<Rightarrow> throw ErrParam | Some updateTime \<Rightarrow>
     tryAs (TenantGetByID (uc_TenantID req)) ErrService (\<lambda>tenant.
     case tenant of None \<Rightarrow> throw ErrTenantNotFound | Some t \<Rightarrow>
     handle (TenantUpdateConfiguration_dao (t\<lparr>t_Configuration := uc_Configuration req, t_UpdateTime := updateTime\<rparr>))
       (\<lambda>err. throw (if err = ErrTenantNotFound then ErrTenantNotFound else if err = ErrModify then ErrModify else ErrService))
       (\<lambda>_. ret ()))))))"

definition AdminTenantUpdate :: "User \<Rightarrow> UpdateTenantReq \<Rightarrow> ('c, unit) dao" where
  "AdminTenantUpdate sessUser req = finally_do (evictTenantCache [ut_TenantID req]) (
     failIf (u_UID sessUser = 0 \<or> u_TenantID sessUser = 0) ErrNoAuth (
     failIf (ut_TenantID req = 0) ErrParam (
     failIf (ut_TenantName req = [] \<or> ut_TenantType req = []) ErrParam (
     tryAs (TenantGetByID (ut_TenantID req)) ErrService (\<lambda>tenant.
     case tenant of None \<Rightarrow> throw ErrTenantNotFound | Some t \<Rightarrow>
     handle (TenantUpdateBase (t\<lparr>t_TenantName := ut_TenantName req, t_TenantType := ut_TenantType req,
          t_Info := (case ut_Info req of Some info \<Rightarrow> info | None \<Rightarrow> t_Info t)\<rparr>))
       (\<lambda>err. throw (if err = ErrTenantNotFound then err else ErrService)) (\<lambda>_. ret ()))))))"

section \<open>The tree and the cache under these operations\<close>

lemma evict_Cons: "evictTenantCache (i # is) w = evictTenantCache is (evictTenantCache [i] w)"
  by (simp add: evictTenantCache_def)

lemma evict_keeps: "tenant_state N p w \<Longrightarrow> tenant_state N p (evictTenantCache is w)"
proof (induction "is" arbitrary: w)
  case (Cons i "is")
  then show ?case
    using evict_after_read [of N p w w w i] by (subst evict_Cons) (simp add: tenant_state_def)
qed (simp add: evictTenantCache_def)

lemma evict_db [simp]: "w_db (evictTenantCache is w) = w_db w"
proof (induction "is" arbitrary: w)
  case (Cons i "is")
  then show ?case by (subst evict_Cons) (simp add: evict_fields)
qed (simp add: evictTenantCache_def)

text \<open>Nothing but the cache and the tables (and the faults) differs.\<close>

definition tree_step :: "'c world \<Rightarrow> 'c world \<Rightarrow> bool" where
  "tree_step w w' \<longleftrightarrow> w' = w\<lparr>w_db := w_db w', w_cache := w_cache w', w_faults := w_faults w'\<rparr> \<and> (w_faults w = [] \<longrightarrow> w_faults w' = [])"

lemma evict_is_update: "\<exists>c. evictTenantCache is w = w\<lparr>w_cache := c\<rparr>"
proof (induction "is" arbitrary: w)
  case Nil
  show ?case by (intro exI [of _ "w_cache w"]) (simp add: evictTenantCache_def)
next
  case (Cons i "is")
  obtain c where "evictTenantCache is (evictTenantCache [i] w) = (evictTenantCache [i] w)\<lparr>w_cache := c\<rparr>"
    using Cons by blast
  then show ?case by (subst evict_Cons) (auto simp: evict_fields)
qed

lemma tree_step_evict:
  assumes "touched w w'"
  shows "tree_step w (evictTenantCache is w')"
proof -
  obtain d f where w': "w' = w\<lparr>w_db := d, w_faults := f\<rparr>" and f: "w_faults w = [] \<longrightarrow> f = []"
    using assms unfolding touched_def by (cases w') auto
  obtain c where c: "evictTenantCache is w' = w'\<lparr>w_cache := c\<rparr>" using evict_is_update by blast
  show ?thesis unfolding tree_step_def c unfolding w' using f by simp
qed

lemma move_evict_state:
  assumes st: "tenant_state N p w" and x: "x \<in> N" and y: "y \<in> N" and ny: "\<not> is_anc p x y" and t: "touched w w'"
    and db: "w_db w' = (w_db w)\<lparr>tenant_closure := moved x y (tenant_closure (w_db w))\<rparr>"
  shows "tenant_state N (p(x \<mapsto> y)) (evictTenantCache [x, y] w')"
proof -
  have tree: "tenant_tree N (p(x \<mapsto> y)) (w_db w')"
    using tree_move [OF _ x y ny, of "w_db w"] st db by (simp add: tenant_state_def)
  have x0: "x \<noteq> 0" using tree x by (auto simp: tenant_tree_def)
  have "tenant_state N (p(x \<mapsto> y)) (evictTenantCache [x] w')"
  proof (rule evict_state [OF x0 tree])
    show "distinct_by t_ID (tenants (w_db w'))" using st db by (simp add: tenant_state_def)
    show "cache_typed (w_cache w')" "0 \<le> w_now w'"
      using st touched_fields [OF t] by (auto simp: tenant_state_def tenants_cached_def)
    fix j s assume "j \<noteq> x" and "tv.view (w_now w') (w_cache w') j s"
    then have "fresh_tenant p (w_db w) j = Some s"
      using st touched_fields [OF t] by (auto simp: tenant_state_def tenants_cached_def)
    with \<open>j \<noteq> x\<close> show "fresh_tenant (p(x \<mapsto> y)) (w_db w') j = Some s"
      by (simp add: fresh_tenant_def find_tenant_def parent_id_def db)
  qed
  then show ?thesis by (subst evict_Cons) (rule evict_keeps)
qed

lemma wp_set_parent_tx:
  assumes tree: "tenant_tree N p (w_db w)" and x: "x \<in> N" and y: "y \<in> N"
  shows "wp (set_parent_tx r x y)
    (\<lambda>err w'. touched w w' \<and> (case err of
        Some e \<Rightarrow> e = ErrTenantCircularRef \<and> is_anc p x y \<and> w_db w' = w_db w
      | None \<Rightarrow> \<not> is_anc p x y \<and> w_db w' = (w_db w)\<lparr>tenant_closure := moved x y (tenant_closure (w_db w))\<rparr>))
    (\<lambda>e w'. touched w w' \<and> (is_anc p x y \<or> w_faults w \<noteq> [])) w" (is "wp _ ?Q ?E w")
proof -
  have inv: "closure_inv N p (tenant_closure (w_db w))" using tree by (simp add: tenant_tree_def)
  have cnt: "closure_count (\<lambda>a d. a = x \<and> d = y) (w_db w) > 0 \<longleftrightarrow> is_anc p x y"
    using closure_count_zero [OF invD(2) [OF inv], of x y] invD(3) [OF inv, of x y] y by auto
  have move: "wp (TenantClosureUpdateSubtreeV2Safe x y) (\<lambda>_. wp (ret None) ?Q ?E) ?E w'"
    if "touched w w'" "w_db w' = w_db w" for w'
  proof (cases "is_anc p x y")
    case True
    show ?thesis
      by (rule wp_mono [OF wp_V2Safe_cycle [of N p w' y x]]) (use tree y True that in \<open>auto dest: touched_trans\<close>)
  next
    case False
    show ?thesis
      by (rule wp_mono [OF wp_V2Safe [of N p w' x y]])
        (use tree x y False that touched_fields [OF that(1)] in \<open>auto simp: wp_ret dest: touched_trans\<close>)
  qed
  show ?thesis
    unfolding set_parent_tx_def
    using move [of w] move [of "db_tick w"] cnt by (auto simp: wp_simps db_fails_def)
qed

text \<open>What a call of \<open>AdminTenantSetParent\<close> may leave behind.\<close>

definition parent_set :: "u64 set \<Rightarrow> (u64 \<rightharpoonup> u64) \<Rightarrow> u64 \<Rightarrow> u64 \<Rightarrow> 'c world \<Rightarrow> 'c world \<Rightarrow> bool" where
  "parent_set N p x y w w' \<longleftrightarrow> x \<noteq> w_root w \<and> x \<noteq> y \<and> tree_step w w' \<and>
     (if w_db w' = w_db w then (p x = Some y \<or> w_faults w \<noteq> []) \<and> tenant_state N p w'
      else \<not> is_anc p x y \<and> w_db w' = (w_db w)\<lparr>tenant_closure := moved x y (tenant_closure (w_db w))\<rparr>
        \<and> tenant_state N (p(x \<mapsto> y)) w')"

lemma moved_noop_parent:
  assumes "tenant_tree N p d" and x: "x \<in> N" and "y \<in> N" and "\<not> is_anc p x y" and "d\<lparr>tenant_closure := moved x y (tenant_closure d)\<rparr> = d"
  shows "p x = Some y"
proof -
  have "tenant_tree N (p(x \<mapsto> y)) d" using tree_move [OF assms(1-4)] assms(5) by simp
  then have inv': "closure_inv N (p(x \<mapsto> y)) (tenant_closure d)" by (simp add: tenant_tree_def)
  have inv: "closure_inv N p (tenant_closure d)" using assms(1) by (simp add: tenant_tree_def)
  show ?thesis using invD(5) [OF inv', of y x] invD(5) [OF inv, of y x] by simp
qed

lemma wp_AdminTenantSetParent:
  assumes st: "tenant_state N p w" and x: "x \<in> N" and y: "y \<in> N"
  shows "wp (AdminTenantSetParent s x y)
    (\<lambda>_ w'. u_TenantID s = w_root w \<and> parent_set N p x y w w')
    (\<lambda>e w'. w_db w' = w_db w \<and> tree_step w w' \<and> tenant_state N p w'
       \<and> (u_TenantID s \<noteq> w_root w \<or> w_root w = 0 \<or> x = w_root w \<or> is_anc p x y \<or> w_faults w \<noteq> [])) w" (is "wp _ ?Q ?E w")
proof -
  have tree: "tenant_tree N p (w_db w)" and dist: "distinct_by t_ID (tenants (w_db w))"
    using st by (simp_all add: tenant_state_def)
  then have inv: "closure_inv N p (tenant_closure (w_db w))" and x0: "x \<noteq> 0" and y0: "y \<noteq> 0"
    using x y by (auto simp: tenant_tree_def)
  have found: "find_tenant i (w_db w) \<noteq> None" if "i \<in> N" for i
    using that tree by (auto simp: tenant_tree_def tenant_ids_def find_tenant_def find_None_iff)
  let ?ev = "evictTenantCache [x, y]"
  let ?R = "\<lambda>w'. touched w w' \<and> w_db w' = w_db w"
  have keep: "tenant_state N p (?ev w')" "tree_step w (?ev w')" if "?R w'" for w'
  proof -
    have "tenant_state N p w'" using st that touched_fields [of w w'] by (auto simp: tenant_state_def tenants_cached_def)
    then show "tenant_state N p (?ev w')" by (rule evict_keeps)
    show "tree_step w (?ev w')" using that tree_step_evict by blast
  qed
  show ?thesis
  proof (cases "w_root w = 0 \<or> u_TenantID s \<noteq> w_root w \<or> x = y \<or> x = w_root w")
    case True
    have "tree_step w w" by (cases w) (simp add: tree_step_def)
    with True x0 y0 st show ?thesis unfolding AdminTenantSetParent_def by (auto simp: wp_simps)
  next
    case False
    then have guards: "\<not> (w_root w = 0 \<or> u_TenantID s \<noteq> w_root w)" "\<not> (x = 0 \<or> y = 0)" "x \<noteq> y" "x \<noteq> w_root w"
      using x0 y0 by auto
    let ?Q1 = "\<lambda>r w'. ?Q r (?ev w')" and ?E1 = "\<lambda>e w'. ?E e (?ev w')"
    have err: "?E1 e w'" if "?R w'" "is_anc p x y \<or> w_faults w \<noteq> []" for e w'
      using that keep [OF that(1)] by auto
    let ?fin = "\<lambda>(err, committed). case err of Some e \<Rightarrow> throw e | None \<Rightarrow> ret ()"
    have tx: "wp (run_tx (set_parent_tx (w_root w) x y)) (\<lambda>r. wp (?fin r) ?Q1 ?E1) ?E1 v" if v: "?R v" for v
    proof -
      have vf: "w_faults v \<noteq> [] \<Longrightarrow> w_faults w \<noteq> []" using v touched_fields [of w v] by auto
      have ok: "?Q1 () v'" if c: "touched v v'" and d: "\<not> is_anc p x y"
          "w_db v' = (w_db v)\<lparr>tenant_closure := moved x y (tenant_closure (w_db v))\<rparr>" for v'
      proof -
        have t: "touched w v'" using touched_trans v c by blast
        have st': "tenant_state N (p(x \<mapsto> y)) (?ev v')"
          by (rule move_evict_state [OF st x y d(1) t]) (use d v in simp)
        show ?thesis
        proof (cases "w_db v' = w_db w")
          case True
          then have "p x = Some y" using moved_noop_parent [OF tree x y d(1)] d v by simp
          then show ?thesis using False True t v st' tree_step_evict [OF t] by (simp add: parent_set_def fun_upd_idem)
        next
          case neq: False
          then show ?thesis using False t v st' d tree_step_evict [OF t] by (simp add: parent_set_def)
        qed
      qed
      have lost: "?Q1 () (v'\<lparr>w_db := w_db v\<rparr>)" if c: "touched v v'" and f: "w_faults v \<noteq> []" for v'
      proof -
        have "?R (v'\<lparr>w_db := w_db v\<rparr>)" using touched_trans v c by fastforce
        from keep [OF this] False vf [OF f] v show ?thesis by (simp add: parent_set_def)
      qed
      show ?thesis unfolding wp_run_tx
      proof (rule wp_mono [OF wp_set_parent_tx [of N p v x y]])
        show "tenant_tree N p (w_db v)" using tree v by simp
      next
        fix res v' assume a: "touched v v' \<and> (case res of
            Some e \<Rightarrow> e = ErrTenantCircularRef \<and> is_anc p x y \<and> w_db v' = w_db v
          | None \<Rightarrow> \<not> is_anc p x y \<and> w_db v' = (w_db v)\<lparr>tenant_closure := moved x y (tenant_closure (w_db v))\<rparr>)"
        show "if db_fails v' then wp (?fin (res, False)) ?Q1 ?E1 ((db_tick v')\<lparr>w_db := w_db v\<rparr>)
              else wp (?fin (res, True)) ?Q1 ?E1 (db_tick v')"
        proof (cases res)
          case None
          then show ?thesis
            using a ok [of "db_tick v'"] lost [of "db_tick v'"] touched_faults [of v v'] by (auto simp: wp_ret)
        next
          case (Some e)
          then have "?R (db_tick v')" "?R ((db_tick v')\<lparr>w_db := w_db v\<rparr>)" "is_anc p x y"
            using a v touched_trans [of w v v'] by auto
          with Some err show ?thesis by (auto simp: wp_throw)
        qed
      next
        fix e v' assume a: "touched v v' \<and> (is_anc p x y \<or> w_faults v \<noteq> [])"
        then have "?R (v'\<lparr>w_db := w_db v\<rparr>)" using v touched_trans [of w v v'] by auto
        with err a vf show "?E1 e (v'\<lparr>w_db := w_db v\<rparr>)" by blast
      qed (rule x, rule y)
    qed
    let ?start = "tryAs (db_query (\<lambda>_. ())) ErrService (\<lambda>_. tryE (run_tx (set_parent_tx (w_root w) x y)) ?fin)"
    have start: "wp ?start ?Q1 ?E1 v" if v: "?R v" for v
    proof -
      have tick: "?R (db_tick v)" using v by simp
      show ?thesis using tx [OF tick] err [OF tick] touched_faults [of w v] v by (simp add: wp_tryAs wp_tryE wp_db_query)
    qed
    let ?desc = "tryAs (TenantClosureIsDescendant y x) ErrService (\<lambda>depth. if depth = 1 then ret () else ?start)"
    have desc: "wp ?desc ?Q1 ?E1 v" if v: "?R v" for v
    proof -
      have vf: "w_faults v \<noteq> [] \<Longrightarrow> w_faults w \<noteq> []" using v touched_fields [of w v] by auto
      show ?thesis unfolding wp_tryAs
      proof (rule wp_mono [OF wp_IsDescendant [of N p v y x]])
        show "tenant_tree N p (w_db v)" using tree v by simp
      next
        fix r v' assume a: "touched v v' \<and> w_db v' = w_db v \<and> (0 \<le> r \<longleftrightarrow> x \<in> N \<and> is_anc p y x) \<and> (r = 1 \<longleftrightarrow> p x = Some y)"
        then have R: "?R v'" using v touched_trans [of w v v'] by auto
        with keep [OF R] False start [OF R] a show "wp (if r = 1 then ret () else ?start) ?Q1 ?E1 v'"
          by (simp add: wp_ret parent_set_def)
      next
        fix e v' assume "e = DbError \<and> touched v v' \<and> w_db v' = w_db v \<and> w_faults v \<noteq> []"
        then show "?E1 ErrService v'" using v touched_trans [of w v v'] vf by (intro err) auto
      qed
    qed
    have look: "wp (tryAs (TenantGetByID i) ErrService (\<lambda>r. failIf (r = None) ErrTenantNotFound k)) ?Q1 ?E1 v"
      if v: "?R v" and i: "i \<in> N" and k: "wp k ?Q1 ?E1 (db_tick v)" for i k v
      unfolding wp_tryAs
    proof (rule wp_mono [OF wp_TenantGetByID [of N p v i]])
      show "closure_inv N p (tenant_closure (w_db v))" "distinct_by t_ID (tenants (w_db v))" using inv dist v by simp_all
    next
      fix r v' assume "v' = db_tick v \<and> r = map_option (\<lambda>t. t\<lparr>t_ParentID := parent_id p i\<rparr>) (find_tenant i (w_db v))"
      then show "wp (failIf (r = None) ErrTenantNotFound k) ?Q1 ?E1 v'"
        using found [OF i] v k by (auto simp: wp_failIf)
    next
      fix e v' assume "e = DbError \<and> v' = db_tick v \<and> w_faults v \<noteq> []"
      then show "?E1 ErrService v'" using v touched_fields [of w v] by (intro err) auto
    qed
    show ?thesis
      unfolding AdminTenantSetParent_def wp_reads
      unfolding wp_failIf [where ?c = "w_root w = 0 \<or> u_TenantID s \<noteq> w_root w"] wp_failIf [where ?c = "x = 0 \<or> y = 0"]
        wp_failIf [where ?c = "x = y"] wp_failIf [where ?c = "x = w_root w"]
        if_not_P [OF guards(1)] if_not_P [OF guards(2)] if_not_P [OF guards(3)] if_not_P [OF guards(4)] wp_finally_do
      by (intro look x y desc) simp_all
  qed
qed

text \<open>
  C11. Re-parenting a tenant (\<open>AdminTenantSetParent\<close>), whatever statement fails: only a session of the root
  tenant succeeds, never on the root tenant itself. After success either exactly the parent link of that
  tenant has changed (it was not an ancestor of the new parent), or nothing has and the link was there already
  or the database failed. After an error no table has changed. Always the cached tenants are current
  for the tree that results, so no later look-up shows the old parent; and the call never panics.
\<close>

theorem AdminTenantSetParent_moves:
  assumes "tenant_state N p w" and "x \<in> N" and "y \<in> N"
  shows "case AdminTenantSetParent s x y w of
      (Ret _, w') \<Rightarrow> u_TenantID s = w_root w \<and> x \<noteq> w_root w \<and> x \<noteq> y \<and> tree_step w w'
        \<and> (w_db w' = w_db w \<and> (p x = Some y \<or> w_faults w \<noteq> []) \<and> tenant_state N p w'
           \<or> \<not> is_anc p x y \<and> w_db w' = (w_db w)\<lparr>tenant_closure := tenant_closure (w_db w')\<rparr> \<and> tenant_state N (p(x \<mapsto> y)) w')
    | (Err e, w') \<Rightarrow> w_db w' = w_db w \<and> tree_step w w' \<and> tenant_state N p w'
        \<and> (u_TenantID s \<noteq> w_root w \<or> w_root w = 0 \<or> x = w_root w \<or> is_anc p x y \<or> w_faults w \<noteq> [])
    | (Panic, w') \<Rightarrow> False"
proof -
  have "w_db w' = (w_db w)\<lparr>tenant_closure := tenant_closure (w_db w')\<rparr>"
    if "w_db w' = (w_db w)\<lparr>tenant_closure := t\<rparr>" for w' t using that by simp
  with wp_AdminTenantSetParent [OF assms, of s] show ?thesis
    by (auto simp: wp_def parent_set_def split: prod.splits res.splits if_splits)
qed

definition root_user :: User where
  "root_user = sample_user\<lparr>u_TenantID := 1\<rparr>"

theorem AdminTenantSetParent_moves_witness:
  "case AdminTenantSetParent root_user 3 2 (sample_world () []) of
      (Ret _, w') \<Rightarrow> tenant_state {1, 2, 3, 4} (sample_tree(3 \<mapsto> 2)) w' | _ \<Rightarrow> False"
proof -
  have "w_root (sample_world () []) = 1" "w_faults (sample_world () []) = []" "u_TenantID root_user = 1"
    by (simp_all add: sample_world_def root_user_def)
  moreover have "sample_tree 3 \<noteq> Some 2" by (simp add: sample_tree_def)
  ultimately show ?thesis
    using AdminTenantSetParent_moves [OF sample_tenant_state [of "()" "[]"], of 3 2 root_user] sample_not_anc
    by (auto split: prod.splits res.splits)
qed

text \<open>
  The failed \<open>COMMIT\<close> goes unnoticed: the last statement of this call fails, the caller is told that tenant 3
  was moved below tenant 2, and the tree is as before.
\<close>

theorem AdminTenantSetParent_lost_commit:
  "(let w = sample_world () (replicate 19 False @ [True]); (r, w') = AdminTenantSetParent root_user 3 2 w
    in r = Ret () \<and> tenant_closure (w_db w') = tenant_closure (w_db w) \<and> map_of (tenant_closure (w_db w')) (2, 3) = None)"
  by code_simp

section \<open>The optimistic lock of the configuration\<close>

lemma wp_UpdateConfiguration_stale:
  assumes "distinct_by t_ID (tenants (w_db w))" and f: "find_tenant (t_ID m) (w_db w) = Some t" and ne: "t_UpdateTime m \<noteq> t_UpdateTime t"
  shows "wp (TenantUpdateConfiguration_dao m) (\<lambda>_ _. False)
    (\<lambda>e w'. touched w w' \<and> w_db w' = w_db w \<and> (e = ErrModify \<or> w_faults w \<noteq> [])) w"
proof -
  let ?P = "\<lambda>t. t_ID t = t_ID m \<and> t_UpdateTime t = t_UpdateTime m"
  have one: "filter (\<lambda>t. t_ID t = t_ID m) (tenants (w_db w)) = [t]"
    using filter_key_find [OF assms(1), of "t_ID m"] f by (simp add: find_tenant_def)
  have no: "\<not> ?P s" if "s \<in> set (tenants (w_db w))" for s
  proof
    assume "?P s"
    then have "s \<in> set (filter (\<lambda>t. t_ID t = t_ID m) (tenants (w_db w)))" using that by simp
    then show False using one ne \<open>?P s\<close> by simp
  qed
  have len: "length (filter ?P (tenants (w_db w))) = 0" using no by (simp add: filter_empty_conv)
  have map: "map (\<lambda>t. if ?P t then g t else t) (tenants (w_db w)) = tenants (w_db w)" for g
    using no by (intro map_idI) auto
  have "t \<in> set (tenants (w_db w))" "t_ID t = t_ID m"
    using f by (auto simp: find_tenant_def find_Some_iff)
  then have ex: "list_ex (\<lambda>t. t_ID t = t_ID m) (tenants (w_db w))" by (auto simp: list_ex_iff)
  show ?thesis
    unfolding TenantUpdateConfiguration_dao_def wp_reads wp_tryE wp_db_exec Let_def fst_conv snd_conv len map
    using ex by (simp add: wp_simps) (auto simp: db_fails_def)
qed

lemma wp_UpdateConfiguration_lock:
  assumes "distinct_by t_ID (tenants (w_db w))" and "find_tenant (t_ID m) (w_db w) = Some t"
  shows "wp (TenantUpdateConfiguration_dao m)
    (\<lambda>_ w'. t_UpdateTime m = t_UpdateTime t \<and> touched w w'
       \<and> w_db w' = upd_tenant (t_ID m) (set_config (t_Configuration m) (w_now w)) (w_db w))
    (\<lambda>e w'. touched w w' \<and> w_db w' = w_db w \<and> (e = ErrModify \<or> w_faults w \<noteq> [])) w"
proof (cases "t_UpdateTime m = t_UpdateTime t")
  case True
  show ?thesis by (rule wp_mono [OF wp_UpdateConfiguration_dao [OF assms True]]) (use True in simp_all)
next
  case False
  show ?thesis by (rule wp_mono [OF wp_UpdateConfiguration_stale [OF assms False]]) simp_all
qed

text \<open>The tenant of the request, read with the time the request names.\<close>

definition lock_holds :: "(string \<Rightarrow> int option) \<Rightarrow> UpdateTenantConfigReq \<Rightarrow> db \<Rightarrow> bool" where
  "lock_holds parseTime req d \<longleftrightarrow> uc_Configuration req \<noteq> None
     \<and> (\<exists>t. find_tenant (uc_TenantID req) d = Some t \<and> parseTime (uc_LastUpdateTime req) = Some (t_UpdateTime t))"

lemma wp_AdminTenantUpdateConfig:
  assumes st: "tenant_state N p w"
  shows "wp (AdminTenantUpdateConfig parseTime s req)
    (\<lambda>_ w'. (u_TenantID s = w_root w \<or> u_TenantID s = uc_TenantID req) \<and> lock_holds parseTime req (w_db w)
       \<and> w_db w' = upd_tenant (uc_TenantID req) (set_config (uc_Configuration req) (w_now w)) (w_db w)
       \<and> tree_step w w' \<and> tenant_state N p w')
    (\<lambda>e w'. w_db w' = w_db w \<and> tree_step w w' \<and> tenant_state N p w') w" (is "wp _ ?Q ?E w")
proof -
  let ?i = "uc_TenantID req"
  let ?ev = "evictTenantCache [?i]"
  let ?Q1 = "\<lambda>r w'. ?Q r (?ev w')" and ?E1 = "\<lambda>e w'. ?E e (?ev w')"
  have inv: "closure_inv N p (tenant_closure (w_db w))" and dist: "distinct_by t_ID (tenants (w_db w))"
    and cached: "tenants_cached p w"
    using st by (simp_all add: tenant_state_def tenant_tree_def)
  have err: "?E1 e w'" if "touched w w'" "w_db w' = w_db w" for e w'
    using that evict_after_read [OF st calm_simps(1) cached that, of ?i] tree_step_evict [OF that(1), of "[?i]"] by simp
  show ?thesis
  proof (cases "\<not> (u_TenantID s \<noteq> w_root w \<and> u_TenantID s \<noteq> ?i)
      \<and> \<not> (?i = 0 \<or> uc_Configuration req = None \<or> uc_LastUpdateTime req = [])")
    case False
    then show ?thesis using err [of w] unfolding AdminTenantUpdateConfig_def wp_reads wp_finally_do by (auto simp: wp_failIf)
  next
    case True
    then have guards: "\<not> (u_TenantID s \<noteq> w_root w \<and> u_TenantID s \<noteq> ?i)"
      "\<not> (?i = 0 \<or> uc_Configuration req = None \<or> uc_LastUpdateTime req = [])" by auto
    show ?thesis
    proof (cases "parseTime (uc_LastUpdateTime req)")
      case None
      then show ?thesis using err [of w] guards unfolding AdminTenantUpdateConfig_def wp_reads wp_finally_do
        by (simp add: wp_failIf wp_throw)
    next
      case (Some ut)
      let ?store = "\<lambda>t. handle (TenantUpdateConfiguration_dao (t\<lparr>t_Configuration := uc_Configuration req, t_UpdateTime := ut\<rparr>))
         (\<lambda>err. throw (if err = ErrTenantNotFound then ErrTenantNotFound else if err = ErrModify then ErrModify else ErrService)) (\<lambda>_. ret ())"
      have wr: "wp (?store (t\<lparr>t_ParentID := parent_id p ?i\<rparr>)) ?Q1 ?E1 (db_tick w)" if t: "find_tenant ?i (w_db w) = Some t" for t
      proof -
        let ?m = "t\<lparr>t_ParentID := parent_id p ?i, t_Configuration := uc_Configuration req, t_UpdateTime := ut\<rparr>"
        have id: "t_ID ?m = ?i" using find_tenant_ID [OF t] by simp
        have fnd: "find_tenant (t_ID ?m) (w_db (db_tick w)) = Some t" and dst: "distinct_by t_ID (tenants (w_db (db_tick w)))"
          using t id dist by simp_all
        show ?thesis unfolding wp_handle wp_throw wp_ret
        proof (rule wp_mono [OF wp_UpdateConfiguration_lock [OF dst fnd]])
          fix r w' assume a: "t_UpdateTime ?m = t_UpdateTime t \<and> touched (db_tick w) w' \<and> w_db w' = upd_tenant (t_ID ?m)
              (set_config (t_Configuration ?m) (w_now (db_tick w))) (w_db (db_tick w))"
          then have t': "touched w w'" using touched_trans [of w "db_tick w" w'] by simp
          have "tenant_state N p (?ev w')"
            by (rule evict_after_update [OF st calm_simps(1) cached t', where g = "set_config (uc_Configuration req) (w_now w)"])
              (use a id guards in auto)
          then show "?Q1 () w'"
            using a id t Some guards tree_step_evict [OF t', of "[?i]"] by (auto simp: lock_holds_def)
        next
          fix e w' assume "touched (db_tick w) w' \<and> w_db w' = w_db (db_tick w) \<and> (e = ErrModify \<or> w_faults (db_tick w) \<noteq> [])"
          then show "?E1 (if e = ErrTenantNotFound then ErrTenantNotFound else if e = ErrModify then ErrModify else ErrService) w'"
            using touched_trans [of w "db_tick w" w'] by (intro err) auto
        qed
      qed
      show ?thesis
        unfolding AdminTenantUpdateConfig_def wp_reads wp_finally_do
        unfolding wp_failIf if_not_P [OF guards(1)] if_not_P [OF guards(2)] Some option.case wp_tryAs
      proof (rule wp_mono [OF wp_TenantGetByID [OF inv dist]])
        fix r w' assume a: "w' = db_tick w \<and> r = map_option (\<lambda>t. t\<lparr>t_ParentID := parent_id p ?i\<rparr>) (find_tenant ?i (w_db w))"
        show "wp (case r of None \<Rightarrow> throw ErrTenantNotFound | Some t \<Rightarrow> ?store t) ?Q1 ?E1 w'"
        proof (cases "find_tenant ?i (w_db w)")
          case None
          then show ?thesis using a err [of "db_tick w"] by (simp add: wp_throw)
        next
          case (Some t)
          then show ?thesis using a wr [OF Some] by simp
        qed
      next
        fix e w' assume "e = DbError \<and> w' = db_tick w \<and> w_faults w \<noteq> []"
        then show "?E1 ErrService w'" using err [of "db_tick w"] by simp
      qed
    qed
  qed
qed

text \<open>
  C14. The optimistic lock (\<open>AdminTenantUpdateConfig\<close>), whatever statement fails: a success rewrites the
  configuration of exactly the tenant of the request, was asked by the root tenant or that tenant itself, and the
  request named the time of the last change; afterwards a second request that names the same time is refused,
  whoever sends it and whatever it carries (unless the first one ran at that very time). After an error no table
  has changed. The cached tenants stay current.
\<close>

theorem AdminTenantUpdateConfig_locks:
  assumes "tenant_state N p w"
  shows "case AdminTenantUpdateConfig parseTime s req w of
      (Ret _, w') \<Rightarrow> (u_TenantID s = w_root w \<or> u_TenantID s = uc_TenantID req) \<and> lock_holds parseTime req (w_db w)
        \<and> w_db w' = upd_tenant (uc_TenantID req) (set_config (uc_Configuration req) (w_now w)) (w_db w)
        \<and> tree_step w w' \<and> tenant_state N p w'
        \<and> (\<forall>s2 req2. uc_TenantID req2 = uc_TenantID req \<and> uc_LastUpdateTime req2 = uc_LastUpdateTime req
             \<and> parseTime (uc_LastUpdateTime req) \<noteq> Some (w_now w)
             \<longrightarrow> fst (AdminTenantUpdateConfig parseTime s2 req2 w') \<noteq> Ret ())
    | (Err e, w') \<Rightarrow> w_db w' = w_db w \<and> tree_step w w' \<and> tenant_state N p w'
    | (Panic, w') \<Rightarrow> False"
proof -
  have second: "fst (AdminTenantUpdateConfig parseTime s2 req2 w') \<noteq> Ret ()"
    if st: "tenant_state N p w'" and d: "w_db w' = upd_tenant (uc_TenantID req) (set_config c (w_now w)) (w_db w)"
      and r: "uc_TenantID req2 = uc_TenantID req" "parseTime (uc_LastUpdateTime req2) \<noteq> Some (w_now w)" for s2 req2 w' c
  proof
    assume "fst (AdminTenantUpdateConfig parseTime s2 req2 w') = Ret ()"
    then have "lock_holds parseTime req2 (w_db w')"
      using wp_AdminTenantUpdateConfig [OF st, of parseTime s2 req2] by (auto simp: wp_def split: prod.splits)
    then show False
      using r by (auto simp: lock_holds_def d find_tenant_def upd_tenant_def find_map_if set_config_def)
  qed
  from wp_AdminTenantUpdateConfig [OF assms, of parseTime s req] show ?thesis
    by (auto simp: wp_def split: prod.splits res.splits intro: second dest!: second [rotated 2])
qed

definition config_req :: UpdateTenantConfigReq where
  "config_req = \<lparr>uc_TenantID = 4, uc_LastUpdateTime = ''t0'', uc_Configuration = Some empty_config\<rparr>"

definition later_world :: "unit world" where
  "later_world = (sample_world () [])\<lparr>w_now := 5\<rparr>"

theorem AdminTenantUpdateConfig_locks_witness:
  "fst (AdminTenantUpdateConfig (\<lambda>_. Some 0) root_user config_req later_world) = Ret ()
   \<and> fst (AdminTenantUpdateConfig (\<lambda>_. Some 0) root_user config_req
        (snd (AdminTenantUpdateConfig (\<lambda>_. Some 0) root_user config_req later_world))) \<noteq> Ret ()"
proof -
  have "tenant_state {1, 2, 3, 4} sample_tree later_world"
    using sample_tenant_state [of "()" "[]"]
    by (auto simp: tenant_state_def tenants_cached_def later_world_def tv.view_def live_def sample_world_def)
  moreover have "fst (AdminTenantUpdateConfig (\<lambda>_. Some 0) root_user config_req later_world) = Ret ()" by code_simp
  moreover have "w_now later_world = 5" by (simp add: later_world_def)
  ultimately show ?thesis
    using AdminTenantUpdateConfig_locks [of "{1, 2, 3, 4}" sample_tree later_world root_user config_req "\<lambda>_. Some 0"]
    by (auto split: prod.splits)
qed

section \<open>A new tenant\<close>

text \<open>Only the tables, the sequences and the faults differ.\<close>

definition grown :: "'c world \<Rightarrow> 'c world \<Rightarrow> bool" where
  "grown w w' \<longleftrightarrow> w_now w' = w_now w \<and> w_root w' = w_root w \<and> w_cache w' = w_cache w \<and> w_depcache w' = w_depcache w
     \<and> w_casbin w' = w_casbin w \<and> (w_faults w = [] \<longrightarrow> w_faults w' = [])"

lemma grown_simps [simp]:
  "grown w w" "grown w w' \<Longrightarrow> grown w (db_tick w')" "grown w (w'\<lparr>w_db := d\<rparr>) = grown w w'"
  "grown w (w'\<lparr>w_seqs := s\<rparr>) = grown w w'"
  by (auto simp: grown_def)

lemma grown_trans: "grown w w' \<Longrightarrow> grown w' w'' \<Longrightarrow> grown w w''"
  by (auto simp: grown_def)

lemma touched_grown: "touched w w' \<Longrightarrow> grown w w'"
  using touched_fields [of w w'] by (simp add: grown_def)

lemma quiet_grown: "quiet w w' \<Longrightarrow> grown w w'"
  by (simp add: quiet_def touched_grown)

lemma wp_addUserServiceWithTx:
  "wp (addUserServiceWithTx E p)
    (\<lambda>uid v'. grown v v' \<and> (\<exists>q. w_db v' = (w_db v)\<lparr>users := users (w_db v) @ [user_row uid (w_now v) q]\<rparr>
       \<and> users_ok (users (w_db v) @ [user_row uid (w_now v) q]) \<and> r_TenantID q = r_TenantID p
       \<and> r_Password q = EncryPWD E (r_Password p)))
    (\<lambda>_ v'. grown v v') v" (is "wp _ ?Q ?E v")
proof -
  obtain p0 e where pt: "userPreTreat E p = (p0, e)" by fastforce
  have pw: "r_Password p0 = r_Password p" and tn: "r_TenantID p0 = r_TenantID p"
    using userPreTreat_password [of E p] userPreTreat_tenant [of E p] pt by auto
  have ins: "wp (UserInsert q) ?Q (\<lambda>_. ?E ErrService) v'"
    if v': "quiet v v'" and q: "r_TenantID q = r_TenantID p" "r_Password q = EncryPWD E (r_Password p)" for q v'
  proof -
    have f: "w_db v' = w_db v" "w_now v' = w_now v" "grown v v'" using quietD [OF v'] quiet_grown [OF v'] by auto
    show ?thesis
      using users_violation_None [of "users (w_db v) @ [user_row (users_uid_seq (w_seqs v') + 1) (w_now v) q]"] q f
      by (auto simp: wp_UserInsert Let_def split: option.splits)
  qed
  show ?thesis
    unfolding addUserServiceWithTx_def pt prod.case wp_failIf wp_tryE wp_tryAs
    by (auto intro!: wp_userCheckDuplicates [of v] ins simp: wp_ret pw tn quiet_grown)
qed

lemma wp_branch:
  "wp (\<lambda>w. case f w of None \<Rightarrow> (Ret (x w), h w) | Some c \<Rightarrow> (Err (e c w), g c w)) Q E w
     = (case f w of None \<Rightarrow> Q (x w) (h w) | Some c \<Rightarrow> E (e c w) (g c w))"
  by (simp add: wp_def split: option.splits)

lemma wp_TenantInsert:
  "wp (TenantInsert m)
    (\<lambda>tid v'. grown v v' \<and> tid \<notin> tenant_ids (w_db v)
       \<and> distinct_by t_ID (tenants (w_db v) @ [tenant_row tid (w_now v) m])
       \<and> (let P = (\<lambda>u. u_UID u = t_UID m \<and> u_TenantID u = 0) in
          w_db v' = (w_db v)\<lparr>tenants := tenants (w_db v) @ [tenant_row tid (w_now v) m],
             users := (if t_UID m = 0 then users (w_db v)
                       else map (\<lambda>u. if P u then u\<lparr>u_TenantID := tid\<rparr> else u) (users (w_db v)))\<rparr>
          \<and> (t_UID m \<noteq> 0 \<longrightarrow> length (filter P (users (w_db v))) = 1)))
    (\<lambda>_ v'. grown v v') v"
proof -
  let ?tid = "tenants_id_seq (w_seqs v) + 1"
  have "?tid \<notin> tenant_ids (w_db v) \<and> distinct_by t_ID (tenants (w_db v) @ [tenant_row ?tid (w_now v) m])"
    if "tenants_violation (tenants (w_db v) @ [tenant_row ?tid (w_now v) m]) = None"
    using that by (auto simp: tenants_violation_def distinct_by_def tenant_ids_def tenant_row_def split: if_splits)
  then show ?thesis
    unfolding TenantInsert_def Let_def
    by (auto simp: wp_simps wp_branch split: option.splits)
qed

text \<open>
  What creation adds: one tenant row under a fresh identifier, its rows of the closure table below \<open>a\<close>, and,
  when an administrator was asked for, one user bound to the new tenant.
\<close>

definition tenant_created :: "'c env \<Rightarrow> NewTenantReq \<Rightarrow> u64 \<Rightarrow> u64 \<Rightarrow> u64 \<Rightarrow> int \<Rightarrow> db \<Rightarrow> db \<Rightarrow> bool" where
  "tenant_created E m a uid tid now d d' \<longleftrightarrow> tid \<noteq> 0 \<and> tid \<notin> tenant_ids d
     \<and> distinct_by t_ID (tenants d @ [tenant_row tid now (new_tenant m uid a)])
     \<and> (\<exists>us. d' = d\<lparr>tenants := tenants d @ [tenant_row tid now (new_tenant m uid a)], users := users d @ us,
            tenant_closure := insert_rows a tid (tenant_closure d)\<rparr>
          \<and> (uid = 0 \<and> us = [] \<or> uid \<noteq> 0 \<and> (\<exists>u. us = [u] \<and> u_UID u = uid \<and> u_TenantID u = tid
                \<and> u_Password u = EncryPWD E (TrimSpace (n_Password m)))))"

text \<open>Binding the administrator that was just inserted touches no other user.\<close>

lemma bind_new_user:
  assumes "users_ok (us @ [u])" and "u_UID u = i" and "u_TenantID u = 0"
  shows "map (\<lambda>v. if u_UID v = i \<and> u_TenantID v = 0 then v\<lparr>u_TenantID := t\<rparr> else v) (us @ [u]) = us @ [u\<lparr>u_TenantID := t\<rparr>]"
proof -
  have "u_UID u \<notin> u_UID ` set us" using assms(1) by (simp add: users_ok_def distinct_by_def)
  then have "u_UID v \<noteq> i" if "v \<in> set us" for v using that imageI [of v "set us" u_UID] assms(2) by metis
  then have "map (\<lambda>v. if u_UID v = i \<and> u_TenantID v = 0 then v\<lparr>u_TenantID := t\<rparr> else v) us = us"
    by (intro map_idI) auto
  with assms(2,3) show ?thesis by simp
qed

lemma wp_insert_new_tenant:
  assumes inv: "closure_inv N p (tenant_closure d)" and ids: "N \<subseteq> tenant_ids d" and a: "a \<in> N"
    and db: "w_db v = d\<lparr>users := users d @ us\<rparr>" and us: "uid = 0 \<and> us = []
      \<or> uid \<noteq> 0 \<and> (\<exists>u. us = [u] \<and> u_UID u = uid \<and> u_TenantID u = 0 \<and> users_ok (users d @ us)
         \<and> u_Password u = EncryPWD E (TrimSpace (n_Password m)))"
  shows "wp (handle (TenantInsert (new_tenant m uid a)) (\<lambda>insErr. throw (MapPostgresTenantInsertError insErr)) (\<lambda>tenantID.
     failIf (tenantID = 0) ErrService (tryAs (TenantClosureInsert a tenantID) ErrService (\<lambda>_. ret (uid, tenantID)))))
    (\<lambda>(uid', tid) v'. grown v v' \<and> uid' = uid \<and> tenant_created E m a uid tid (w_now v) d (w_db v'))
    (\<lambda>_ v'. grown v v') v" (is "wp _ ?Q ?E v")
proof -
  have uid: "t_UID (new_tenant m uid a) = uid" by (simp add: new_tenant_def Let_def)
  have close: "wp (failIf (tid = 0) ErrService (tryAs (TenantClosureInsert a tid) ErrService (\<lambda>_. ret (uid, tid)))) ?Q ?E v'"
    if g: "grown v v'" and new: "tid \<notin> tenant_ids d"
      and dist: "distinct_by t_ID (tenants d @ [tenant_row tid (w_now v) (new_tenant m uid a)])"
      and db': "w_db v' = d\<lparr>tenants := tenants d @ [tenant_row tid (w_now v) (new_tenant m uid a)], users := users d @ us'\<rparr>"
      and us': "uid = 0 \<and> us' = [] \<or> uid \<noteq> 0 \<and> (\<exists>u. us' = [u] \<and> u_UID u = uid \<and> u_TenantID u = tid
         \<and> u_Password u = EncryPWD E (TrimSpace (n_Password m)))" for tid v' us'
  proof (cases "tid = 0")
    case True
    then show ?thesis using g by (simp add: wp_failIf)
  next
    case False
    have tids: "insert tid N \<subseteq> tenant_ids (w_db v')" using ids by (auto simp: tenant_ids_def db' tenant_row_def)
    have inv': "closure_inv N p (tenant_closure (w_db v'))" using inv by (simp add: db')
    have x: "tid \<notin> N" using new ids by blast
    show ?thesis unfolding wp_failIf if_not_P [OF False] wp_tryAs
      by (rule wp_mono [OF wp_TenantClosureInsert [OF inv' tids x a]])
        (use g False new dist us' db' in \<open>auto simp: wp_ret tenant_created_def dest: grown_trans touched_grown\<close>)
  qed
  show ?thesis unfolding wp_handle wp_throw
  proof (rule wp_mono [OF wp_TenantInsert [of "new_tenant m uid a" v]], goal_cases)
    case (1 tid v')
    have ids': "tenant_ids (w_db v) = tenant_ids d" by (simp add: db tenant_ids_def)
    show ?case
    proof (cases "uid = 0")
      case True
      then show ?thesis using 1 us uid ids' by (intro close [where us' = "[]"]) (auto simp: db)
    next
      case False
      then obtain u where u: "us = [u]" "u_UID u = uid" "u_TenantID u = 0" "users_ok (users d @ [u])"
        "u_Password u = EncryPWD E (TrimSpace (n_Password m))" using us by auto
      show ?thesis
        by (rule close [where us' = "[u\<lparr>u_TenantID := tid\<rparr>]"])
          (use 1 u uid ids' False bind_new_user [OF u(4,2,3), of tid] in \<open>auto simp: db Let_def\<close>)
    qed
  qed
qed

lemma wp_new_tenant_tx:
  assumes inv: "closure_inv N p (tenant_closure (w_db v))" and ids: "N \<subseteq> tenant_ids (w_db v)" and a: "a \<in> N"
  shows "wp (new_tenant_tx E m wantAdmin a)
    (\<lambda>(uid, tid) v'. grown v v' \<and> (uid \<noteq> 0 \<longleftrightarrow> wantAdmin) \<and> tenant_created E m a uid tid (w_now v) (w_db v) (w_db v'))
    (\<lambda>_ v'. grown v v') v" (is "wp _ ?Q ?E v")
proof -
  let ?rest = "\<lambda>uid. handle (TenantInsert (new_tenant m uid a)) (\<lambda>insErr. throw (MapPostgresTenantInsertError insErr)) (\<lambda>tenantID.
     failIf (tenantID = 0) ErrService (tryAs (TenantClosureInsert a tenantID) ErrService (\<lambda>_. ret (uid, tenantID))))"
  have rest: "wp (?rest uid) ?Q ?E v'" if g: "grown v v'" and w: "uid \<noteq> 0 \<longleftrightarrow> wantAdmin"
      and db: "w_db v' = (w_db v)\<lparr>users := users (w_db v) @ us\<rparr>" and us: "uid = 0 \<and> us = []
      \<or> uid \<noteq> 0 \<and> (\<exists>u. us = [u] \<and> u_UID u = uid \<and> u_TenantID u = 0 \<and> users_ok (users (w_db v) @ us)
         \<and> u_Password u = EncryPWD E (TrimSpace (n_Password m)))" for uid us v'
  proof (rule wp_mono [OF wp_insert_new_tenant [OF inv ids a db us]], goal_cases)
    case (1 x w')
    then show ?case using g w by (auto simp: grown_def)
  next
    case (2 e w')
    then show ?case using g grown_trans by blast
  qed
  show ?thesis
  proof (cases wantAdmin)
    case False
    then show ?thesis unfolding new_tenant_tx_def wp_tryE using rest [of v 0 "[]"] by (simp add: wp_ret)
  next
    case True
    let ?req = "empty_UserReq\<lparr>r_Cellphone := TrimSpace (n_Cellphone m), r_Nickname := TrimSpace (n_Nickname m), r_Password := TrimSpace (n_Password m)\<rparr>"
    have "wp (addUserServiceWithTx E ?req) (\<lambda>uid. wp (failIf (uid = 0) ErrService (ret uid)) (\<lambda>uid. wp (?rest uid) ?Q ?E) ?E) ?E v"
    proof (rule wp_mono [OF wp_addUserServiceWithTx [of E ?req v]], goal_cases)
      case (1 uid v')
      then obtain q where q: "w_db v' = (w_db v)\<lparr>users := users (w_db v) @ [user_row uid (w_now v) q]\<rparr>"
        "users_ok (users (w_db v) @ [user_row uid (w_now v) q])" "r_TenantID q = 0"
        "r_Password q = EncryPWD E (TrimSpace (n_Password m))" and g: "grown v v'" by (auto simp: empty_UserReq_def)
      show ?case
      proof (cases "uid = 0")
        case True
        then show ?thesis using g by (simp add: wp_failIf)
      next
        case False
        then show ?thesis unfolding wp_failIf if_not_P [OF False] wp_ret
          by (intro rest [OF g _ q(1)]) (use q True in \<open>auto simp: user_row_def\<close>)
      qed
    qed
    with True show ?thesis unfolding new_tenant_tx_def by (simp add: wp_tryE)
  qed
qed

lemma created_state:
  assumes st: "tenant_state N p w" and a: "a \<in> N" and g: "grown w v"
    and cr: "tenant_created E m a uid tid now (w_db w) (w_db v)"
  shows "tenant_state (insert tid N) (p(tid \<mapsto> a)) (evictTenantCache [tid] v)"
proof (rule evict_state)
  have inv: "closure_inv N p (tenant_closure (w_db w))" and ids: "N \<subseteq> tenant_ids (w_db w)" and N0: "0 \<notin> N"
    and cached: "tenants_cached p w" using st by (simp_all add: tenant_state_def tenant_tree_def)
  have tid: "tid \<notin> N" "tid \<noteq> 0" using cr ids by (auto simp: tenant_created_def)
  have ids': "tenant_ids (w_db v) = insert tid (tenant_ids (w_db w))"
    using cr by (auto simp: tenant_created_def tenant_ids_def tenant_row_def)
  show "tid \<noteq> 0" by (rule tid)
  show "tenant_tree (insert tid N) (p(tid \<mapsto> a)) (w_db v)"
    unfolding tenant_tree_def ids' using insert_inv [OF inv tid(1) a] ids N0 tid cr by (auto simp: tenant_created_def)
  show "distinct_by t_ID (tenants (w_db v))" using cr by (auto simp: tenant_created_def)
  show "cache_typed (w_cache v)" "0 \<le> w_now v" using cached g by (auto simp: tenants_cached_def grown_def)
  fix j t assume "j \<noteq> tid" and "tv.view (w_now v) (w_cache v) j t"
  then have "fresh_tenant p (w_db w) j = Some t" using cached g by (auto simp: tenants_cached_def grown_def)
  with \<open>j \<noteq> tid\<close> cr show "fresh_tenant (p(tid \<mapsto> a)) (w_db v) j = Some t"
    by (auto simp: tenant_created_def fresh_tenant_def find_tenant_def parent_id_def find_append split: option.splits)
qed

lemma wp_name_check:
  assumes "\<And>v'. quiet v v' \<Longrightarrow> wp k Q E v'" and "\<And>e v'. quiet v v' \<Longrightarrow> E e v'"
  shows "wp (tryAs (TenantNameExists nm) ErrService (\<lambda>dup. failIf dup ErrTenantNameDup (
       tryAs (db_query (\<lambda>_. ())) ErrService (\<lambda>_. k)))) Q E v"
  using assms by (simp add: wp_simps TenantNameExists_def Let_def quiet_tick)

lemma wp_AdminTenantNew:
  assumes st: "tenant_state N p w" and r: "w_root w \<in> N"
  shows "wp (AdminTenantNew E s m)
    (\<lambda>(uid, tid) w'. u_TenantID s = w_root w \<and> n_TenantName m \<noteq> [] \<and> n_TenantType m \<noteq> [] \<and>
      (w_db w' = w_db w \<and> w_faults w \<noteq> [] \<or>
       (\<exists>a \<in> N. a = (if n_ParentID m = 0 then w_root w else n_ParentID m) \<and> is_anc p (w_root w) a
          \<and> tenant_created E m a uid tid (w_now w) (w_db w) (w_db w') \<and> tenant_state (insert tid N) (p(tid \<mapsto> a)) w')))
    (\<lambda>e w'. w_db w' = w_db w \<and> tenant_state N p w') w" (is "wp _ ?Q ?E w")
proof -
  have tree: "tenant_tree N p (w_db w)" using st by (simp add: tenant_state_def)
  then have inv: "closure_inv N p (tenant_closure (w_db w))" and ids: "N \<subseteq> tenant_ids (w_db w)"
    by (simp_all add: tenant_tree_def)
  have err: "?E e v" if "grown w v" "w_db v = w_db w" for e v
    using st that by (auto simp: tenant_state_def tenants_cached_def grown_def)
  have errq: "?E e v" if "quiet w v" for e v
    by (rule err) (use that quiet_grown quietD in auto)
  define wantAdmin where "wantAdmin \<longleftrightarrow> TrimSpace (n_Nickname m) \<noteq> [] \<or> TrimSpace (n_Cellphone m) \<noteq> [] \<or> TrimSpace (n_Password m) \<noteq> []"
  show ?thesis
  proof (cases "u_TenantID s = w_root w \<and> n_TenantName m \<noteq> [] \<and> n_TenantType m \<noteq> []")
    case False
    then show ?thesis using err [of w] unfolding AdminTenantNew_def wp_reads by (auto simp: wp_failIf)
  next
    case True
    let ?tx = "\<lambda>a. tryE (run_tx (new_tenant_tx E m wantAdmin a)) (\<lambda>((adminUID, tenantID), committed).
        update (evictTenantCache [tenantID]) (ret (adminUID, tenantID)))"
    have tx: "wp (?tx a) ?Q ?E v" if v: "quiet w v" and a: "a \<in> N"
        "a = (if n_ParentID m = 0 then w_root w else n_ParentID m)" "is_anc p (w_root w) a" for v a
    proof -
      note q = quietD [OF v] and g = quiet_grown [OF v]
      show ?thesis unfolding wp_tryE wp_run_tx
      proof (rule wp_mono [OF wp_new_tenant_tx [of N p v a E m wantAdmin]], goal_cases)
        case (4 x v')
        obtain uid tid where x: "x = (uid, tid)" by fastforce
        have g': "grown w v'" by (rule grown_trans [OF g]) (use 4 x in auto)
        then have g2: "grown w (db_tick v')" by simp
        have cr: "tenant_created E m a uid tid (w_now w) (w_db w) (w_db v')" using 4 x q by auto
        have "tenant_state (insert tid N) (p(tid \<mapsto> a)) (evictTenantCache [tid] (db_tick v'))"
          by (rule created_state [OF st a(1) g2]) (use cr in simp)
        moreover have "w_faults w \<noteq> []" if "db_fails v'" using that g' by (auto simp: grown_def db_fails_def)
        ultimately show ?case using x True a cr q by (auto simp: wp_update wp_ret)
      next
        case (5 e v')
        then show ?case using g grown_trans [of w v v'] q by (intro err) auto
      qed (use inv ids a q in auto)
    qed
    let ?rest = "\<lambda>a. tryAs (TenantNameExists (n_TenantName m)) ErrService (\<lambda>dup. failIf dup ErrTenantNameDup (
       tryAs (db_query (\<lambda>_. ())) ErrService (\<lambda>_. ?tx a)))"
    have rest: "wp (?rest a) ?Q ?E v" if v: "quiet w v" and a: "a \<in> N"
        "a = (if n_ParentID m = 0 then w_root w else n_ParentID m)" "is_anc p (w_root w) a" for v a
      by (rule wp_name_check, rule tx [OF quiet_trans [OF v] a], assumption, rule errq [OF quiet_trans [OF v]], assumption)
    have anc: "wp (tryE (if n_ParentID m > 0
           then tryAs (TenantClosureIsDescendant (u_TenantID s) (n_ParentID m)) ErrService (\<lambda>depth.
                failIf (depth < 0) ErrNoAuth (ret (n_ParentID m)))
           else ret (u_TenantID s)) ?rest) ?Q ?E w"
    proof (cases "n_ParentID m = 0")
      case par: True
      then show ?thesis using rest [of w "w_root w"] True r by (simp add: wp_tryE wp_ret)
    next
      case par: False
      then have pos: "n_ParentID m > 0" by (simp add: word_neq_0_conv)
      have "wp (TenantClosureIsDescendant (w_root w) (n_ParentID m))
          (\<lambda>depth. wp (failIf (depth < 0) ErrNoAuth (ret (n_ParentID m))) (\<lambda>a. wp (?rest a) ?Q ?E) ?E) (\<lambda>_. ?E ErrService) w"
      proof (rule wp_mono [OF wp_IsDescendant [OF tree]], goal_cases)
        case (1 depth v)
        then have v: "quiet w v" by (simp add: quiet_def)
        show ?case
        proof (cases "depth < 0")
          case True
          with errq [OF v] show ?thesis by (simp add: wp_failIf)
        next
          case False
          with 1 have "n_ParentID m \<in> N" "is_anc p (w_root w) (n_ParentID m)" by auto
          with False rest [OF v] par show ?thesis by (simp add: wp_failIf wp_ret)
        qed
      next
        case (2 e v)
        then show ?case by (intro errq) (simp add: quiet_def)
      qed
      with pos True show ?thesis by (simp add: wp_tryE wp_tryAs)
    qed
    show ?thesis
      unfolding AdminTenantNew_def wp_reads wp_failIf Let_def wantAdmin_def [symmetric]
      using True anc err [of w] by (simp add: wp_failIf)
  qed
qed

text \<open>
  C12. Creating a tenant (\<open>AdminTenantNew\<close>), whatever statement fails, when the table has exact depths: only a
  session of the root tenant succeeds. After success one tenant row stands under a fresh identifier below the
  requested parent (the root tenant when none is given), which is the root tenant or below it; the closure table
  is exact for the tree with the new leaf; the identifier of the administrator is 0 and no user was added, or it
  is that of one new user, bound to the tenant, with the digest of the given password; nothing else changed and
  the cached tenants are current. The one exception is a failed commit, which is reported as success while
  nothing was written. After an error no table has changed, and the call never panics.
\<close>

theorem AdminTenantNew_grows:
  assumes "tenant_state N p w" and "w_root w \<in> N" and "closure_exact N p (tenant_closure (w_db w))"
  shows "case AdminTenantNew E s m w of
      (Ret (uid, tid), w') \<Rightarrow> u_TenantID s = w_root w \<and>
        (w_db w' = w_db w \<and> w_faults w \<noteq> [] \<or>
         (\<exists>a. a = (if n_ParentID m = 0 then w_root w else n_ParentID m) \<and> a \<in> N \<and> is_anc p (w_root w) a
            \<and> tenant_created E m a uid tid (w_now w) (w_db w) (w_db w')
            \<and> tenant_state (insert tid N) (p(tid \<mapsto> a)) w'
            \<and> closure_exact (insert tid N) (p(tid \<mapsto> a)) (tenant_closure (w_db w'))))
    | (Err e, w') \<Rightarrow> w_db w' = w_db w \<and> tenant_state N p w'
    | (Panic, w') \<Rightarrow> False"
proof -
  have "closure_exact (insert tid N) (p(tid \<mapsto> a)) (tenant_closure d')"
    if "tenant_created E m a uid tid now (w_db w) d'" and "a \<in> N" for a uid tid now d'
  proof -
    have "N \<subseteq> tenant_ids (w_db w)" using assms(1) by (simp add: tenant_state_def tenant_tree_def)
    then have "tid \<notin> N" using that(1) by (auto simp: tenant_created_def)
    then show ?thesis using insert_exact [OF assms(3) _ that(2)] that(1) by (auto simp: tenant_created_def)
  qed
  with wp_AdminTenantNew [OF assms(1,2), of E s m] show ?thesis
    by (auto simp: wp_def split: prod.splits res.splits)
qed

definition new_shop :: NewTenantReq where
  "new_shop = \<lparr>n_ParentID = 3, n_TenantName = ''shop'', n_TenantType = ''retail'', n_Cellphone = [], n_Nickname = ''bob'',
     n_Password = ''secret'', n_Info = [], n_Configuration = None\<rparr>"

definition shop_world :: "(rule list \<times> grouping list) world" where
  "shop_world = sample_world ([], []) []"

theorem AdminTenantNew_grows_witness:
  "case AdminTenantNew sample_env root_user new_shop shop_world of
      (Ret (uid, tid), w') \<Rightarrow> closure_exact (insert tid {1, 2, 3, 4}) (sample_tree(tid \<mapsto> 3)) (tenant_closure (w_db w'))
    | (Err e, w') \<Rightarrow> w_db w' = w_db shop_world | _ \<Rightarrow> False"
proof -
  have "w_root shop_world \<in> {1, 2, 3, 4}" "w_faults shop_world = []"
    "closure_exact {1, 2, 3, 4} sample_tree (tenant_closure (w_db shop_world))"
    "tenant_state {1, 2, 3, 4} sample_tree shop_world"
    using sample_exact sample_tenant_state by (simp_all add: shop_world_def sample_world_def)
  moreover have "n_ParentID new_shop = 3" by (simp add: new_shop_def)
  ultimately show ?thesis
    using AdminTenantNew_grows [of "{1, 2, 3, 4}" sample_tree shop_world, where E = sample_env and s = root_user and m = new_shop]
    by (auto split: prod.splits res.splits)
qed

end
