(* ===== verification/Admin_Delete.thy ===== *)
theory Admin_Delete
  imports Admin_Service
begin

text \<open>
  \<open>service/admin.service.go\<close>: the deletion of a tenant. Its direct children are hung below the root tenant, its
  users leave their organizations and are deleted, then its departments, permissions and its own row go. The
  theorem says what is left when all of it succeeds and what is untouched when a step fails.
\<close>

section \<open>Deleting a tenant\<close>

text \<open>The subtree is read in pages of 500; the fuel is two pages more than the tenants fill.\<close>

definition collectTenantSubtree :: "u64 \<Rightarrow> ('c, Tenant list) dao" where
  "collectTenantSubtree ancestorID = reads (\<lambda>w. length (tenants (w_db w)) div 500 + 2) (\<lambda>fuel.
     within_fuel (paged fuel (\<lambda>page. TenantListByAncestorID ancestorID page 500) 500 (\<lambda>rows out. out @ rows) 1 []))"

text \<open>The page number stays 1: every pass deletes the users it has read.\<close>

fun delete_users :: "nat \<Rightarrow> 'c env \<Rightarrow> u64 \<Rightarrow> ('c, unit option) dao" where
  "delete_users 0 E tenantID = ret None"
| "delete_users (Suc n) E tenantID =
     tryE (UserQueryByTenant tenantID 1 500 [] []) (\<lambda>us.
     if us = [] then ret (Some ())
     else tryE (foreach us (\<lambda>u. tryE (TenantUserDel E (u_UID u) tenantID) (\<lambda>_. ret ()))) (\<lambda>_.
       if of_nat (length us) < (500 :: u64) then ret (Some ()) else delete_users n E tenantID))"

definition deleteUsersByTenant :: "'c env \<Rightarrow> u64 \<Rightarrow> ('c, unit) dao" where
  "deleteUsersByTenant E tenantID = reads (\<lambda>w. length (users (w_db w)) + 1) (\<lambda>fuel. within_fuel (delete_users fuel E tenantID))"

definition deleteTenantRelatedData :: "u64 \<Rightarrow> ('c, unit) dao" where
  "deleteTenantRelatedData tenantID =
     tryE (db_exec (\<lambda>d. ((), d\<lparr>departments := filter (\<lambda>r. d_TenantID r \<noteq> tenantID) (departments d)\<rparr>))) (\<lambda>_.
     tryE (db_exec (\<lambda>d. ((), d\<lparr>permissions := filter (\<lambda>r. p_TenantID r \<noteq> tenantID) (permissions d)\<rparr>))) (\<lambda>_.
     ret ()))"

text \<open>\<open>ON DELETE CASCADE\<close> takes the rows of \<open>tenant_closure\<close> along.\<close>

definition deleteTenantRecord :: "u64 \<Rightarrow> ('c, unit) dao" where
  "deleteTenantRecord tenantID = db_exec (\<lambda>d. ((), d\<lparr>tenants := filter (\<lambda>t. t_ID t \<noteq> tenantID) (tenants d),
     tenant_closure := (if tenantID \<in> tenant_ids d then cascade_delete tenantID (tenant_closure d) else tenant_closure d)\<rparr>))"

definition AdminTenantDelete :: "'c env \<Rightarrow> User \<Rightarrow> u64 \<Rightarrow> ('c, unit) dao" where
  "AdminTenantDelete E sessUser tenantID =
     failIf (u_UID sessUser = 0 \<or> u_TenantID sessUser = 0 \<or> tenantID = 0) ErrParam (
     reads w_root (\<lambda>root.
     failIf (root = 0 \<or> u_TenantID sessUser \<noteq> root) ErrNoAuth (
     failIf (tenantID = root) ErrNoAuth (
     tryE (TenantGetByIDService tenantID) (\<lambda>_.
     tryAs (collectTenantSubtree tenantID) ErrService (\<lambda>subtree.
     tryE (foreach subtree (\<lambda>child.
        if t_Depth child \<noteq> 1 \<or> t_ID child = tenantID then ret ()
        else tryAs (AdminTenantSetParent sessUser (t_ID child) (u_TenantID sessUser)) ErrService (\<lambda>_. ret ()))) (\<lambda>_.
     tryAs (deleteUsersByTenant E tenantID) ErrService (\<lambda>_.
     tryAs (deleteTenantRelatedData tenantID) ErrService (\<lambda>_.
     tryAs (deleteTenantRecord tenantID) ErrService (\<lambda>_.
     update (evictTenantCache [tenantID]) (ret ())))))))))))"

section \<open>Independent parts of the state\<close>

lemma preserves_lift_cb: "(\<And>w c. I w \<Longrightarrow> I (w\<lparr>w_casbin := c\<rparr>)) \<Longrightarrow> preserves I (lift_cb m)"
  by (simp add: preserves_def lift_cb_def split: prod.splits)

lemma preserves_cache_read:
  "(\<And>w. I w \<Longrightarrow> I (w\<lparr>w_cache := snd (f (w_now w) (w_cache w))\<rparr>)) \<Longrightarrow> preserves I (cache_read f)"
  by (simp add: preserves_def cache_read_def case_prod_unfold)

lemma preserves_closure_exec:
  "(\<And>w. I w \<Longrightarrow> I (db_tick w)) \<Longrightarrow> (\<And>w t. I w \<Longrightarrow> I (w\<lparr>w_db := (w_db w)\<lparr>tenant_closure := t\<rparr>\<rparr>)) \<Longrightarrow> preserves I (closure_exec f)"
  by (auto simp: preserves_def closure_exec_def db_stmt_def Let_def) (metis db_tick_simps(1))

lemma preserves_run_tx:
  "preserves I m \<Longrightarrow> (\<And>w. I w \<Longrightarrow> I (db_tick w)) \<Longrightarrow> (\<And>w w'. I w \<Longrightarrow> I w' \<Longrightarrow> I (w'\<lparr>w_db := w_db w\<rparr>)) \<Longrightarrow> preserves I (run_tx m)"
  by (auto simp: preserves_def run_tx_def split: prod.splits res.splits)

lemma wp_preserves:
  assumes "wp m Q E w" and "preserves I m" and "I w"
  shows "wp m (\<lambda>x w'. Q x w' \<and> I w') (\<lambda>e w'. E e w' \<and> I w') w"
  using assms preservesD [OF assms(2,3)] by (auto simp: wp_def split: prod.splits res.splits)

text \<open>What the deletion of users leaves alone: the tenants with their tree and cache, and the tables that belong to them.\<close>

definition tenant_part :: "(u64 \<rightharpoonup> u64) \<Rightarrow> 'c world \<Rightarrow> 'c world \<Rightarrow> bool" where
  "tenant_part p w0 w \<longleftrightarrow> tenants_cached p w \<and> tenants (w_db w) = tenants (w_db w0)
     \<and> tenant_closure (w_db w) = tenant_closure (w_db w0) \<and> departments (w_db w) = departments (w_db w0)
     \<and> permissions (w_db w) = permissions (w_db w0) \<and> organizations (w_db w) = organizations (w_db w0)
     \<and> w_now w = w_now w0 \<and> w_root w = w_root w0 \<and> (w_faults w0 = [] \<longrightarrow> w_faults w = [])"

lemma tenant_part_tick: "tenant_part p w0 w \<Longrightarrow> tenant_part p w0 (db_tick w)"
  by (simp add: tenant_part_def)

lemma tenant_part_db:
  "tenant_part p w0 w \<Longrightarrow> tenants d = tenants (w_db w) \<Longrightarrow> tenant_closure d = tenant_closure (w_db w) \<Longrightarrow>
   departments d = departments (w_db w) \<Longrightarrow> permissions d = permissions (w_db w) \<Longrightarrow> organizations d = organizations (w_db w) \<Longrightarrow>
   tenant_part p w0 (w\<lparr>w_db := d\<rparr>)"
  by (auto simp: tenant_part_def tenants_cached_def fresh_tenant_def find_tenant_def)

lemma tenant_part_casbin: "tenant_part p w0 w \<Longrightarrow> tenant_part p w0 (w\<lparr>w_casbin := c\<rparr>)"
  by (simp add: tenant_part_def tenants_cached_def)

lemma tenant_part_cache:
  "tenant_part p w0 w \<Longrightarrow> cache_typed c \<Longrightarrow> (\<And>i t. tv.view (w_now w) c i t \<Longrightarrow> tv.view (w_now w) (w_cache w) i t) \<Longrightarrow>
   tenant_part p w0 (w\<lparr>w_cache := c\<rparr>)"
  by (auto simp: tenant_part_def tenants_cached_def)

lemma tenant_part_typed: "tenant_part p w0 w \<Longrightarrow> cache_typed (w_cache w) \<and> 0 \<le> w_now w"
  by (simp add: tenant_part_def tenants_cached_def)

lemma tenant_part_GetOrg: "preserves (tenant_part p w0) (cache_read (GetOrgCache g))"
proof (rule preserves_cache_read)
  fix w :: "'a world" assume a: "tenant_part p w0 w"
  then show "tenant_part p w0 (w\<lparr>w_cache := snd (GetOrgCache g (w_now w) (w_cache w))\<rparr>)"
    using tenant_part_typed [OF a]
    by (intro tenant_part_cache [OF a]) (simp_all add: snd_GetOrgCache cache_typed_Get tv.view_get)
qed

lemma tenant_part_SetOrg: "tenant_part p w0 w \<Longrightarrow> tenant_part p w0 (cache_set (SetOrgCache r) w)"
proof -
  assume a: "tenant_part p w0 w"
  have c: "cache_typed (SetOrgCache r (w_now w) (w_cache w))"
    using cache_step_typed [OF step_SetOrg] tenant_part_typed [OF a] by blast
  show ?thesis unfolding cache_set_def
    by (rule tenant_part_cache [OF a c])
      (use tenant_part_typed [OF a] in \<open>auto simp: SetOrgCache_def tv.view_set_other split: option.splits if_splits\<close>)
qed

lemma tenant_part_DelMember: "tenant_part p w0 w \<Longrightarrow> tenant_part p w0 (cache_del (DelOrgMemberCache g u) w)"
proof -
  assume a: "tenant_part p w0 w"
  have c: "cache_typed (DelOrgMemberCache g u (w_cache w))"
    using cache_step_typed [OF step_DelOrgMember] tenant_part_typed [OF a] by blast
  show ?thesis unfolding cache_del_def
    by (rule tenant_part_cache [OF a c]) (auto simp: DelOrgMemberCache_def tv.view_def em.del_live split: if_splits)
qed

lemma preserves_TenantUserDel: "preserves (tenant_part p w0) (TenantUserDel E uid t)"
  unfolding TenantUserDel_def OrgListByUser_dao_def OrgRemoveMember_def RequireOrg_def OrgGet_def OrgGetByID_def
    DeleteRolesForUserInDomain_def deleteRolesForUserInDomain_def OrgMemberDelete_def UserDelete_def Let_def
  by (intro pres_intros preserves_db_exec preserves_lift_cb tenant_part_GetOrg tenant_part_tick tenant_part_casbin
      tenant_part_SetOrg tenant_part_DelMember tenant_part_db) simp_all
section \<open>The loop over the users\<close>

lemma wp_del_each:
  assumes ok: "casbin_ok (enforcer E) pol grp" and "orgs_cached v"
  shows "wp (foreach us (\<lambda>u. tryE (TenantUserDel E (u_UID u) t) (\<lambda>_. ret ())))
    (\<lambda>_ v'. orgs_cached v' \<and> users (w_db v') = filter (\<lambda>u. \<not> (u_TenantID u = t \<and> u_UID u \<in> u_UID ` set us)) (users (w_db v)))
    (\<lambda>_ v'. orgs_cached v' \<and> filter (\<lambda>u. u_TenantID u \<noteq> t) (users (w_db v')) = filter (\<lambda>u. u_TenantID u \<noteq> t) (users (w_db v))) v"
  using assms(2)
proof (induction us arbitrary: v)
  case Nil
  then show ?case by (simp add: wp_ret)
next
  case (Cons a us)
  show ?case
    unfolding foreach.simps wp_tryE
  proof (rule wp_mono [OF wp_TenantUserDel [OF Cons.prems ok, of "u_UID a" t]], elim exE conjE)
    fix r G uc and v1 w2 :: "'a world"
    assume oc: "orgs_cached v1"
      and d: "w_db v1 = (w_db w2)\<lparr>users := filter (\<lambda>u. \<not> (u_UID u = u_UID a \<and> u_TenantID u = t)) (users (w_db v)), user_closure := uc\<rparr>"
    have others: "filter (\<lambda>u. u_TenantID u \<noteq> t) (users (w_db v1)) = filter (\<lambda>u. u_TenantID u \<noteq> t) (users (w_db v))"
      unfolding d by (simp, intro filter_cong) auto
    have rest: "filter (\<lambda>u. \<not> (u_TenantID u = t \<and> u_UID u \<in> u_UID ` set us)) (users (w_db v1)) =
        filter (\<lambda>u. \<not> (u_TenantID u = t \<and> u_UID u \<in> u_UID ` set (a # us))) (users (w_db v))"
      unfolding d by (simp, intro filter_cong) auto
    show "wp (ret ()) (\<lambda>x. wp (foreach us (\<lambda>u. tryE (TenantUserDel E (u_UID u) t) (\<lambda>_. ret ())))
        (\<lambda>_ v'. orgs_cached v' \<and> users (w_db v') = filter (\<lambda>u. \<not> (u_TenantID u = t \<and> u_UID u \<in> u_UID ` set (a # us))) (users (w_db v)))
        (\<lambda>_ v'. orgs_cached v' \<and> filter (\<lambda>u. u_TenantID u \<noteq> t) (users (w_db v')) = filter (\<lambda>u. u_TenantID u \<noteq> t) (users (w_db v))))
        (\<lambda>_ v'. orgs_cached v' \<and> filter (\<lambda>u. u_TenantID u \<noteq> t) (users (w_db v')) = filter (\<lambda>u. u_TenantID u \<noteq> t) (users (w_db v))) v1"
      unfolding wp_ret using Cons.IH [OF oc] unfolding rest others .
  qed simp
qed

lemma wp_UserQueryByTenant_all:
  "wp (UserQueryByTenant t 1 500 [] []) Q E v = (if db_fails v then E DbError (db_tick v)
     else Q (map listed_user (take 500 (filter (\<lambda>u. u_TenantID u = t) (users (w_db v))))) (db_tick v))"
  by (simp add: UserQueryByTenant_def wp_db_query match_listed_def page_of_def page_offset_def)

text \<open>Every pass that finds a user deletes it, so fuel beyond the number of users suffices.\<close>

lemma wp_delete_users:
  assumes ok: "casbin_ok (enforcer E) pol grp" and "orgs_cached v" and "length (filter (\<lambda>u. u_TenantID u = t) (users (w_db v))) < n"
  shows "wp (delete_users n E t)
    (\<lambda>r v'. r = Some () \<and> orgs_cached v' \<and> users (w_db v') = filter (\<lambda>u. u_TenantID u \<noteq> t) (users (w_db v)))
    (\<lambda>_ v'. orgs_cached v' \<and> filter (\<lambda>u. u_TenantID u \<noteq> t) (users (w_db v')) = filter (\<lambda>u. u_TenantID u \<noteq> t) (users (w_db v))) v"
  using assms(2,3)
proof (induction n arbitrary: v)
  case 0
  then show ?case by simp
next
  case (Suc n)
  let ?mine = "\<lambda>v. filter (\<lambda>u. u_TenantID u = t) (users (w_db v))" and ?other = "\<lambda>v. filter (\<lambda>u. u_TenantID u \<noteq> t) (users (w_db v))"
  let ?Q = "\<lambda>r v'. r = Some () \<and> orgs_cached v' \<and> users (w_db v') = ?other v" and ?E = "\<lambda>_ v'. orgs_cached v' \<and> ?other v' = ?other v"
  let ?us = "map listed_user (take 500 (?mine v))"
  have uid: "u_UID ` set ?us = u_UID ` set (take 500 (?mine v))" by (simp add: listed_user_def image_image)
  have next_pass: "wp (if of_nat (length ?us) < (500 :: u64) then ret (Some ()) else delete_users n E t) ?Q ?E v'"
    if oc: "orgs_cached v'" and ne: "?us \<noteq> []"
      and us: "users (w_db v') = filter (\<lambda>u. \<not> (u_TenantID u = t \<and> u_UID u \<in> u_UID ` set ?us)) (users (w_db v))" for v'
  proof -
    have other: "?other v' = ?other v" unfolding us by (simp, intro filter_cong) auto
    have short: "of_nat (length ?us) < (500 :: u64) \<longleftrightarrow> length ?us < 500"
      by (simp add: word_less_nat_alt unsigned_of_nat take_bit_nat_eq_self)
    show ?thesis
    proof (cases "length ?us < 500")
      case True
      then have "take 500 (?mine v) = ?mine v" by simp
      then have "users (w_db v') = ?other v" unfolding us uid by (intro filter_cong) auto
      then show ?thesis unfolding if_P [OF iffD2 [OF short True]] wp_ret using oc by simp
    next
      case False
      let ?u = "hd (?mine v)"
      obtain ys where ys: "?mine v = ?u # ys" using ne by (cases "?mine v") auto
      then have u: "?u \<in> set (?mine v)" by (metis list.set_intros(1))
      have "?u \<in> set (take 500 (?mine v))" by (subst ys) simp
      then have "u_UID ?u \<in> u_UID ` set ?us" unfolding uid by (rule imageI)
      note u = u this
      have "?mine v' = filter (\<lambda>u. u_UID u \<notin> u_UID ` set ?us) (?mine v)" unfolding us by (simp, intro filter_cong) auto
      then have "length (?mine v') < length (?mine v)" using u length_filter_less [of ?u "?mine v"] by simp
      then have "length (?mine v') < n" using Suc.prems(2) by simp
      from Suc.IH [OF oc this] False short show ?thesis unfolding other by simp
    qed
  qed
  have oc: "orgs_cached (db_tick v)" using Suc.prems by simp
  have body: "wp (foreach ?us (\<lambda>u. tryE (TenantUserDel E (u_UID u) t) (\<lambda>_. ret ())))
      (\<lambda>_. wp (if of_nat (length ?us) < (500 :: u64) then ret (Some ()) else delete_users n E t) ?Q ?E) ?E (db_tick v)" if "?us \<noteq> []"
  proof (rule wp_mono [OF wp_del_each [OF ok oc]])
    fix x and v' :: "'a world" assume "orgs_cached v' \<and> users (w_db v') = filter (\<lambda>u. \<not> (u_TenantID u = t \<and> u_UID u \<in> u_UID ` set ?us)) (users (w_db (db_tick v)))"
    then show "wp (if of_nat (length ?us) < (500 :: u64) then ret (Some ()) else delete_users n E t) ?Q ?E v'"
      using that by (intro next_pass) simp_all
  qed simp
  show ?case
  proof (cases "?mine v = []")
    case True
    then have "users (w_db v) = ?other v" by (metis (mono_tags, lifting) filter_True filter_empty_conv)
    with True oc show ?thesis by (simp add: wp_tryE wp_UserQueryByTenant_all wp_ret)
  next
    case False
    then have ne: "?us \<noteq> []" by simp
    then show ?thesis using body oc
      by (simp only: delete_users.simps wp_tryE wp_UserQueryByTenant_all if_False) simp
  qed
qed
section \<open>The organizations while the tree changes\<close>

definition org_part :: "'c world \<Rightarrow> 'c world \<Rightarrow> bool" where
  "org_part w0 w \<longleftrightarrow> orgs_cached w \<and> organizations (w_db w) = organizations (w_db w0) \<and> org_members (w_db w) = org_members (w_db w0)"

lemma org_part_tick: "org_part w0 w \<Longrightarrow> org_part w0 (db_tick w)"
  by (simp add: org_part_def)

lemma org_part_closure: "org_part w0 w \<Longrightarrow> org_part w0 (w\<lparr>w_db := (w_db w)\<lparr>tenant_closure := t\<rparr>\<rparr>)"
  by (auto simp: org_part_def orgs_cached_def find_org_def is_member_def)

lemma org_part_restore: "org_part w0 w \<Longrightarrow> org_part w0 w' \<Longrightarrow> org_part w0 (w'\<lparr>w_db := w_db w\<rparr>)"
  by (auto simp: org_part_def orgs_cached_def find_org_def is_member_def)

lemma org_part_cache:
  "org_part w0 w \<Longrightarrow> cache_typed c \<Longrightarrow> (\<And>i r. ov.view (w_now w) c i r \<Longrightarrow> ov.view (w_now w) (w_cache w) i r) \<Longrightarrow>
   (\<And>k b. mv.view (w_now w) c k b \<Longrightarrow> mv.view (w_now w) (w_cache w) k b) \<Longrightarrow> org_part w0 (w\<lparr>w_cache := c\<rparr>)"
  by (auto simp: org_part_def orgs_cached_def)

lemma org_part_evict: "org_part w0 w \<Longrightarrow> org_part w0 (evictTenantCache is w)"
proof (induction "is" arbitrary: w)
  case (Cons i "is")
  have "org_part w0 (evictTenantCache [i] w)"
  proof (cases "i = 0")
    case False
    have "cache_typed (w_cache w)" using Cons.prems by (simp add: org_part_def orgs_cached_def)
    then have "cache_typed (DelTenantCache i (w_cache w))" using cache_step_typed [OF step_DelTenant] by blast
    with False show ?thesis
      by (simp add: evict_fields) (intro org_part_cache [OF Cons.prems];
        auto simp: DelTenantCache_def ov.view_def mv.view_def em.del_live split: if_splits)
  qed (simp add: evict_fields Cons.prems)
  then show ?case by (subst evict_Cons) (rule Cons.IH)
qed (simp add: evictTenantCache_def)

lemma org_part_SetTenant: "org_part w0 w \<Longrightarrow> org_part w0 (cache_set (SetTenantCache t) w)"
proof -
  assume a: "org_part w0 w"
  then have typed: "cache_typed (w_cache w)" and now: "0 \<le> w_now w" by (auto simp: org_part_def orgs_cached_def)
  have c: "cache_typed (SetTenantCache t (w_now w) (w_cache w))" using cache_step_typed [OF step_SetTenant typed] .
  show ?thesis unfolding cache_set_def
    by (rule org_part_cache [OF a c]) (use now in \<open>auto simp: SetTenantCache_def ov.view_set_other mv.view_set_other\<close>)
qed

lemma org_part_GetTenant: "preserves (org_part w0) (cache_read (GetTenantCache i))"
proof (rule preserves_cache_read)
  fix w :: "'a world" assume a: "org_part w0 w"
  then have "cache_typed (w_cache w)" by (simp add: org_part_def orgs_cached_def)
  then show "org_part w0 (w\<lparr>w_cache := snd (GetTenantCache i (w_now w) (w_cache w))\<rparr>)"
    by (intro org_part_cache [OF a]) (simp_all add: snd_GetTenantCache cache_typed_Get ov.view_get mv.view_get)
qed

lemma preserves_prod: "(\<And>x y. preserves I (f x y)) \<Longrightarrow> preserves I (case z of (x, y) \<Rightarrow> f x y)"
  by (cases z) simp

lemmas org_part_rules = pres_intros preserves_run_tx preserves_closure_exec preserves_prod org_part_tick org_part_closure
  org_part_restore org_part_evict org_part_SetTenant org_part_GetTenant

lemma preserves_AdminTenantSetParent: "preserves (org_part w0) (AdminTenantSetParent s x y)"
  unfolding AdminTenantSetParent_def set_parent_tx_def TenantClosureUpdateSubtreeV2Safe_def TenantClosureUpdateSubtree_def
    EnsureTenantClosureConsistency_def DetectCircularReference_def TenantGetByID_def TenantClosureIsDescendant_def
  by (intro org_part_rules)

lemma preserves_TenantGetByIDService: "preserves (org_part w0) (TenantGetByIDService i)"
  unfolding TenantGetByIDService_def getTenantByIDCached_def TenantGetByID_def by (intro org_part_rules)

lemma org_part_touched: "org_part w0 w \<Longrightarrow> quiet w w' \<Longrightarrow> org_part w0 w'"
  using quietD [of w w'] by (auto simp: org_part_def orgs_cached_def)

section \<open>Re-hanging the children\<close>

lemma tree_step_refl [simp]: "tree_step w w"
  by (cases w) (simp add: tree_step_def)

lemma tree_step_trans:
  assumes "tree_step w w'" and "tree_step w' w''"
  shows "tree_step w w''"
proof -
  obtain d c f where a: "w' = w\<lparr>w_db := d, w_cache := c, w_faults := f\<rparr>" "w_faults w = [] \<longrightarrow> f = []"
    using assms(1) unfolding tree_step_def by metis
  obtain d' c' f' where b: "w'' = w'\<lparr>w_db := d', w_cache := c', w_faults := f'\<rparr>" "f = [] \<longrightarrow> f' = []"
    using assms(2) a(1) unfolding tree_step_def by (metis world.select_convs(3) world.surjective world.update_convs(1,3,6))
  show ?thesis unfolding tree_step_def b(1) a(1) using a(2) b(2) by simp
qed

lemma tree_step_fields: "tree_step w w' \<Longrightarrow> w_root w' = w_root w \<and> w_now w' = w_now w \<and> w_casbin w' = w_casbin w
    \<and> (w_faults w = [] \<longrightarrow> w_faults w' = [])"
  unfolding tree_step_def by (metis world.select_convs world.surjective world.update_convs)
text \<open>Of the tables only \<open>tenant_closure\<close> differs.\<close>

definition tree_only :: "'c world \<Rightarrow> 'c world \<Rightarrow> bool" where
  "tree_only w w' \<longleftrightarrow> tree_step w w' \<and> w_db w' = (w_db w)\<lparr>tenant_closure := tenant_closure (w_db w')\<rparr>"

lemma tree_only_refl [simp]: "tree_only w w"
  by (simp add: tree_only_def)

lemma tree_only_trans: "tree_only w w' \<Longrightarrow> tree_only w' w'' \<Longrightarrow> tree_only w w''"
proof -
  have db: "d'' = d\<lparr>tenant_closure := tenant_closure d''\<rparr>"
    if "d' = d\<lparr>tenant_closure := c\<rparr>" "d'' = d'\<lparr>tenant_closure := c'\<rparr>" for d d' d'' c c'
    using that by simp
  show "tree_only w w' \<Longrightarrow> tree_only w' w'' \<Longrightarrow> tree_only w w''"
    unfolding tree_only_def using tree_step_trans db by blast
qed

lemma tree_only_same: "tree_step w w' \<Longrightarrow> w_db w' = w_db w \<Longrightarrow> tree_only w w'"
  by (simp add: tree_only_def)

definition kids :: "u64 \<Rightarrow> Tenant list \<Rightarrow> u64 list" where
  "kids x ts = map t_ID (filter (\<lambda>t. t_Depth t = 1 \<and> t_ID t \<noteq> x) ts)"

lemma wp_rehang:
  assumes "tenant_state N p v" and "r \<in> N" and "set (kids x ts) \<subseteq> N"
  shows "wp (foreach ts (\<lambda>child. if t_Depth child \<noteq> 1 \<or> t_ID child = x then ret ()
        else tryAs (AdminTenantSetParent s (t_ID child) r) ErrService (\<lambda>_. ret ())))
    (\<lambda>_ v'. tree_only v v' \<and> (\<exists>p'. tenant_state N p' v'
       \<and> (w_faults v = [] \<longrightarrow> p' = (\<lambda>i. if i \<in> set (kids x ts) then Some r else p i))))
    (\<lambda>_ v'. tree_only v v' \<and> (\<exists>p'. tenant_state N p' v')) v"
  using assms(1,3)
proof (induction ts arbitrary: p v)
  case Nil
  then show ?case by (auto simp: wp_ret kids_def)
next
  case (Cons c ts)
  let ?f = "\<lambda>child. if t_Depth child \<noteq> 1 \<or> t_ID child = x then ret ()
        else tryAs (AdminTenantSetParent s (t_ID child) r) ErrService (\<lambda>_. ret ())"
  show ?case
  proof (cases "t_Depth c \<noteq> 1 \<or> t_ID c = x")
    case True
    then have "kids x (c # ts) = kids x ts" by (auto simp: kids_def)
    with Cons True show ?thesis by (simp add: wp_tryE wp_ret)
  next
    case False
    then have k: "kids x (c # ts) = t_ID c # kids x ts" by (auto simp: kids_def)
    have c: "t_ID c \<in> N" and ts: "set (kids x ts) \<subseteq> N" using Cons.prems(2) by (simp_all add: k)
    let ?E = "\<lambda>_ v'. tree_only v v' \<and> (\<exists>p'. tenant_state N p' v')"
    have rest: "wp (foreach ts ?f) (\<lambda>_ v'. tree_only v v' \<and> (\<exists>p'. tenant_state N p' v'
         \<and> (w_faults v = [] \<longrightarrow> p' = (\<lambda>i. if i \<in> set (kids x (c # ts)) then Some r else p i)))) ?E v1"
      if st: "tenant_state N q v1" and t: "tree_only v v1" and q: "w_faults v = [] \<longrightarrow> q = p(t_ID c \<mapsto> r)" for v1 q
    proof (rule wp_mono [OF Cons.IH [OF st ts]], goal_cases)
      case (1 u v')
      then obtain p' where p': "tree_only v1 v'" "tenant_state N p' v'"
        "w_faults v1 = [] \<longrightarrow> p' = (\<lambda>i. if i \<in> set (kids x ts) then Some r else q i)" by blast
      have "w_faults v = [] \<longrightarrow> p' = (\<lambda>i. if i \<in> set (kids x (c # ts)) then Some r else p i)"
        using p'(3) q t tree_step_fields [of v v1] by (auto simp: k tree_only_def fun_eq_iff)
      then show ?case using p'(1,2) tree_only_trans [OF t] by blast
    next
      case (2 e v')
      then show ?case using tree_only_trans [OF t] by blast
    qed
    show ?thesis unfolding foreach.simps if_not_P [OF False] wp_tryE wp_tryAs
    proof (rule wp_mono [OF wp_AdminTenantSetParent [OF Cons.prems(1) c assms(2)], of s], goal_cases)
      case (1 u v')
      then have ps: "parent_set N p (t_ID c) r v v'" by simp
      show ?case unfolding wp_ret
      proof (cases "w_db v' = w_db v")
        case True
        then have "tree_only v v'" "tenant_state N p v'" "w_faults v = [] \<longrightarrow> p = p(t_ID c \<mapsto> r)"
          using ps by (auto simp: parent_set_def tree_only_def fun_upd_idem)
        then show "wp (foreach ts ?f) (\<lambda>_ v'. tree_only v v' \<and> (\<exists>p'. tenant_state N p' v'
         \<and> (w_faults v = [] \<longrightarrow> p' = (\<lambda>i. if i \<in> set (kids x (c # ts)) then Some r else p i)))) ?E v'"
          by (intro rest)
      next
        case False
        then have st': "tenant_state N (p(t_ID c \<mapsto> r)) v'" and t: "tree_only v v'"
          using ps by (auto simp: parent_set_def tree_only_def)
        show "wp (foreach ts ?f) (\<lambda>_ v'. tree_only v v' \<and> (\<exists>p'. tenant_state N p' v'
         \<and> (w_faults v = [] \<longrightarrow> p' = (\<lambda>i. if i \<in> set (kids x (c # ts)) then Some r else p i)))) ?E v'"
          by (rule rest [OF st' t]) simp
      qed
    next
      case (2 e v')
      then show ?case using tree_only_same by blast
    qed
  qed
qed

section \<open>The subtree listing\<close>

lemma depth_rows_inv:
  assumes inv: "closure_inv N p c"
  shows "depth_rows x c t = (case map_of c (x, t_ID t) of None \<Rightarrow> []
     | Some n \<Rightarrow> [t\<lparr>t_ParentID := parent_id p (t_ID t), t_Depth := int n\<rparr>])"
proof -
  have gen: "concat (map (\<lambda>((a, d), n). if a = x \<and> d = i then g n else []) c) = (case map_of c (x, i) of None \<Rightarrow> [] | Some n \<Rightarrow> g n)"
    if "distinct (map fst c)" for c :: closure and i and g :: "nat \<Rightarrow> Tenant list"
    using that
  proof (induction c)
    case (Cons r c)
    obtain a d n where r: "r = ((a, d), n)" by (cases r) auto
    have "concat (map (\<lambda>((a, d), n). if a = x \<and> d = i then g n else []) c) = []" if "a = x \<and> d = i"
      using Cons.prems that by (auto simp: r image_iff split: if_splits)
    with Cons r show ?case by auto
  qed simp
  show ?thesis unfolding depth_rows_def gen [OF invD(2) [OF inv]] join_parent_inv [OF inv] by (simp cong: option.case_cong)
qed

definition subtree_list :: "u64 \<Rightarrow> db \<Rightarrow> Tenant list" where
  "subtree_list x d = sort_key t_ID (concat (map (depth_rows x (tenant_closure d)) (tenants d)))"

lemma subtree_rows:
  assumes inv: "closure_inv N p (tenant_closure d)" and ids: "N \<subseteq> tenant_ids d" and x: "x \<in> N"
  shows "length (subtree_list x d) \<le> length (tenants d)"
    and "set (kids x (subtree_list x d)) = {i. p i = Some x}"
proof -
  let ?rows = "concat (map (depth_rows x (tenant_closure d)) (tenants d))"
  have "length (concat (map (depth_rows x (tenant_closure d)) ts)) \<le> length ts" for ts
    by (induction ts) (auto simp: depth_rows_inv [OF inv] split: option.split)
  then show "length (subtree_list x d) \<le> length (tenants d)" by (simp add: subtree_list_def)
  have one: "map_of (tenant_closure d) (x, i) = Some 1 \<longleftrightarrow> p i = Some x" for i using invD(5) [OF inv, of x i] by simp
  have f: "forest N p" by (rule invD(1) [OF inv])
  have px: "p x \<noteq> Some x" using forest_acyclic [OF f, of 1 x] by auto
  have sub: "i \<in> tenant_ids d" if "p i = Some x" for i using f that ids by (auto simp: forest_def)
  have mem: "t \<in> set ?rows \<longleftrightarrow> (\<exists>t0 \<in> set (tenants d). \<exists>n. map_of (tenant_closure d) (x, t_ID t0) = Some n
      \<and> t = t0\<lparr>t_ParentID := parent_id p (t_ID t0), t_Depth := int n\<rparr>)" for t
  proof -
    have row: "set (depth_rows x (tenant_closure d) t0) = {t. \<exists>n. map_of (tenant_closure d) (x, t_ID t0) = Some n
        \<and> t = t0\<lparr>t_ParentID := parent_id p (t_ID t0), t_Depth := int n\<rparr>}" for t0
      by (cases "map_of (tenant_closure d) (x, t_ID t0)") (auto simp: depth_rows_inv [OF inv])
    show ?thesis unfolding set_concat set_map image_image row by blast
  qed
  show "set (kids x (subtree_list x d)) = {i. p i = Some x}" unfolding subtree_list_def
  proof (intro equalityI subsetI)
    fix i assume "i \<in> set (kids x (sort_key t_ID ?rows))"
    then obtain t where t: "t \<in> set ?rows" "t_Depth t = 1" "i = t_ID t" by (auto simp: kids_def)
    then have "map_of (tenant_closure d) (x, i) = Some 1" unfolding mem by auto
    then show "i \<in> {i. p i = Some x}" using one by simp
  next
    fix i assume "i \<in> {i. p i = Some x}"
    then have i: "p i = Some x" by simp
    then obtain t0 where t0: "t0 \<in> set (tenants d)" "t_ID t0 = i" using sub by (auto simp: tenant_ids_def)
    let ?t = "t0\<lparr>t_ParentID := parent_id p (t_ID t0), t_Depth := int 1\<rparr>"
    have "?t \<in> set ?rows" unfolding mem using t0 one i by (intro bexI [of _ t0] exI [of _ 1]) auto
    moreover have "i \<noteq> x" using px i by auto
    ultimately show "i \<in> set (kids x (sort_key t_ID ?rows))"
      unfolding kids_def using t0 by (auto intro!: image_eqI [of _ _ ?t])
  qed
qed
lemma wp_collectTenantSubtree:
  assumes inv: "closure_inv N p (tenant_closure (w_db w))" and ids: "N \<subseteq> tenant_ids (w_db w)" and x: "x \<in> N"
    and size: "length (tenants (w_db w)) + 500 < 2 ^ 64"
  shows "wp (collectTenantSubtree x) (\<lambda>r w'. quiet w w' \<and> r = subtree_list x (w_db w)) (\<lambda>e w'. quiet w w' \<and> w_faults w \<noteq> []) w"
proof -
  let ?n = "length (tenants (w_db w)) div 500 + 2"
  have len: "length (subtree_list x (w_db w)) \<le> length (tenants (w_db w))" by (rule subtree_rows [OF inv ids x])
  have "wp (paged ?n (\<lambda>page. TenantListByAncestorID x page 500) 500 (\<lambda>rows out. out @ rows) (of_nat (Suc 0)) [])
      (\<lambda>r w'. quiet w w' \<and> r = Some ([] @ drop (0 * unat (500 :: u64)) (subtree_list x (w_db w))))
      (\<lambda>e w'. e = DbError \<and> quiet w w' \<and> w_faults w \<noteq> []) w"
  proof (rule wp_paged)
    show "wp (TenantListByAncestorID x page 500) Q E v = (if db_fails v then E DbError (db_tick v)
        else Q (page_of page 500 (subtree_list x (w_db v))) (db_tick v))" for page v Q E
      by (simp add: TenantListByAncestorID_def wp_db_query subtree_list_def)
    show "length (subtree_list x (w_db w)) < (0 + ?n) * unat (500 :: u64)" using len by simp
    show "length (subtree_list x (w_db w)) + unat (500 :: u64) < 2 ^ 64" using len size by simp
  qed simp_all
  then have "wp (paged ?n (\<lambda>page. TenantListByAncestorID x page 500) 500 (\<lambda>rows out. out @ rows) 1 [])
      (\<lambda>r w'. quiet w w' \<and> r = Some (subtree_list x (w_db w)))
      (\<lambda>e w'. e = DbError \<and> quiet w w' \<and> w_faults w \<noteq> []) w" by simp
  then show ?thesis unfolding collectTenantSubtree_def within_fuel_def wp_reads wp_tryE
    by (rule wp_mono) (auto simp: wp_ret)
qed

lemma preserves_delete_users: "preserves (tenant_part p w0) (delete_users n E t)"
proof (induction n)
  case 0
  then show ?case by (simp add: preserves_ret)
next
  case (Suc n)
  then show ?case unfolding delete_users.simps UserQueryByTenant_def
    by (intro pres_intros tenant_part_tick preserves_TenantUserDel)
qed

lemma wp_deleteUsersByTenant:
  assumes ok: "casbin_ok (enforcer E) pol grp" and oc: "orgs_cached v" and tc: "tenants_cached p v"
  shows "wp (deleteUsersByTenant E t)
    (\<lambda>_ v'. (orgs_cached v' \<and> users (w_db v') = filter (\<lambda>u. u_TenantID u \<noteq> t) (users (w_db v))) \<and> tenant_part p v v')
    (\<lambda>_ v'. (orgs_cached v' \<and> filter (\<lambda>u. u_TenantID u \<noteq> t) (users (w_db v')) = filter (\<lambda>u. u_TenantID u \<noteq> t) (users (w_db v)))
       \<and> tenant_part p v v') v"
proof -
  have "length (filter (\<lambda>u. u_TenantID u = t) (users (w_db v))) < length (users (w_db v)) + 1"
    by (simp add: le_imp_less_Suc)
  note d = wp_delete_users [OF ok oc this]
  have "tenant_part p v v" using tc by (simp add: tenant_part_def)
  from wp_preserves [OF d preserves_delete_users this] show ?thesis
    unfolding deleteUsersByTenant_def within_fuel_def wp_reads wp_tryE
    by (rule wp_mono) (auto simp: wp_ret)
qed

text \<open>Deleting the row of a tenant without children.\<close>

definition dropped :: "u64 \<Rightarrow> db \<Rightarrow> db" where
  "dropped x d = d\<lparr>departments := filter (\<lambda>r. d_TenantID r \<noteq> x) (departments d), permissions := filter (\<lambda>r. p_TenantID r \<noteq> x) (permissions d),
     tenants := filter (\<lambda>t. t_ID t \<noteq> x) (tenants d),
     tenant_closure := (if x \<in> tenant_ids d then cascade_delete x (tenant_closure d) else tenant_closure d)\<rparr>"

lemma find_tenant_filter: "j \<noteq> x \<Longrightarrow> find (\<lambda>t. t_ID t = j) (filter (\<lambda>t. t_ID t \<noteq> x) ts) = find (\<lambda>t. t_ID t = j) ts"
  by (induction ts) auto

lemma dropped_state:
  assumes st: "tenant_state N p v" and x: "x \<in> N" and leaf: "\<forall>d. p d \<noteq> Some x"
    and db: "w_db v' = dropped x (w_db v)" and same: "w_cache v' = w_cache v" "w_now v' = w_now v"
  shows "tenant_state (N - {x}) (p(x := None)) (evictTenantCache [x] v')"
proof (rule evict_state)
  have tree: "tenant_tree N p (w_db v)" and cached: "tenants_cached p v" and dist: "distinct_by t_ID (tenants (w_db v))"
    using st by (simp_all add: tenant_state_def)
  then have inv: "closure_inv N p (tenant_closure (w_db v))" and ids: "N \<subseteq> tenant_ids (w_db v)" and N0: "0 \<notin> N"
    by (simp_all add: tenant_tree_def)
  have xid: "x \<in> tenant_ids (w_db v)" using x ids by blast
  show "x \<noteq> 0" using x N0 by blast
  have "tenant_ids (w_db v') = tenant_ids (w_db v) - {x}" by (auto simp: db dropped_def tenant_ids_def)
  then show "tenant_tree (N - {x}) (p(x := None)) (w_db v')"
    unfolding tenant_tree_def using delete_leaf_inv [OF inv leaf] ids N0 xid by (auto simp: db dropped_def)
  show "distinct_by t_ID (tenants (w_db v'))" using dist by (simp add: db dropped_def distinct_by_def distinct_map_filter)
  show "cache_typed (w_cache v')" "0 \<le> w_now v'" using cached same by (simp_all add: tenants_cached_def)
  fix j t assume "j \<noteq> x" and "tv.view (w_now v') (w_cache v') j t"
  then have "fresh_tenant p (w_db v) j = Some t" using cached same by (simp add: tenants_cached_def)
  with \<open>j \<noteq> x\<close> show "fresh_tenant (p(x := None)) (w_db v') j = Some t"
    by (simp add: fresh_tenant_def find_tenant_def parent_id_def db dropped_def find_tenant_filter)
qed
lemma tenant_state_cong:
  "tenants (w_db v') = tenants (w_db v) \<Longrightarrow> tenant_closure (w_db v') = tenant_closure (w_db v) \<Longrightarrow> w_cache v' = w_cache v \<Longrightarrow>
   w_now v' = w_now v \<Longrightarrow> tenant_state N p v' = tenant_state N p v"
  by (simp add: tenant_state_def tenant_tree_def tenant_ids_def tenants_cached_def fresh_tenant_def find_tenant_def)

lemma orgs_cached_cong:
  "organizations (w_db v') = organizations (w_db v) \<Longrightarrow> org_members (w_db v') = org_members (w_db v) \<Longrightarrow> w_cache v' = w_cache v \<Longrightarrow>
   w_now v' = w_now v \<Longrightarrow> orgs_cached v' = orgs_cached v"
  by (simp add: orgs_cached_def find_org_def is_member_def)

lemma orgs_cached_evict: "orgs_cached w \<Longrightarrow> orgs_cached (evictTenantCache is w)"
  using org_part_evict [of w w "is"] by (simp add: org_part_def)

definition drop_tenant :: "u64 \<Rightarrow> ('c, unit) dao" where
  "drop_tenant tenantID = tryAs (deleteTenantRelatedData tenantID) ErrService (\<lambda>_.
     tryAs (deleteTenantRecord tenantID) ErrService (\<lambda>_. update (evictTenantCache [tenantID]) (ret ())))"

lemma wp_drop_tenant:
  assumes st: "tenant_state N q v" and oc: "orgs_cached v" and x: "x \<in> N"
  shows "wp (drop_tenant x)
    (\<lambda>_ w'. orgs_cached w' \<and> w_db w' = dropped x (w_db v) \<and> ((\<forall>d. q d \<noteq> Some x) \<longrightarrow> tenant_state (N - {x}) (q(x := None)) w'))
    (\<lambda>_ w'. orgs_cached w' \<and> tenant_state N q w' \<and> tenants (w_db w') = tenants (w_db v) \<and> users (w_db w') = users (w_db v)
       \<and> organizations (w_db w') = organizations (w_db v)) v" (is "wp _ ?Q ?E v")
proof -
  have err: "?E ErrService w'" if "tenants (w_db w') = tenants (w_db v)" "tenant_closure (w_db w') = tenant_closure (w_db v)"
      "users (w_db w') = users (w_db v)" "organizations (w_db w') = organizations (w_db v)" "org_members (w_db w') = org_members (w_db v)"
      "w_cache w' = w_cache v" "w_now w' = w_now v" for w'
    using that st oc tenant_state_cong [of w' v N q] orgs_cached_cong [of w' v] by simp
  have fin: "?Q () (evictTenantCache [x] w')" if "w_db w' = dropped x (w_db v)" "w_cache w' = w_cache v" "w_now w' = w_now v" for w'
  proof -
    have "orgs_cached w'" using oc orgs_cached_cong [of w' v] that by (simp add: dropped_def)
    then show ?thesis using orgs_cached_evict dropped_state [OF st x _ that] that(1) by auto
  qed
  define v1 where "v1 = (db_tick v)\<lparr>w_db := (w_db v)\<lparr>departments := filter (\<lambda>r. d_TenantID r \<noteq> x) (departments (w_db v))\<rparr>\<rparr>"
  define v2 where "v2 = (db_tick v1)\<lparr>w_db := (w_db v1)\<lparr>permissions := filter (\<lambda>r. p_TenantID r \<noteq> x) (permissions (w_db v1))\<rparr>\<rparr>"
  have data: "wp (deleteTenantRelatedData x) (\<lambda>_ w'. w' = v2) (\<lambda>_ w'. w' = db_tick v \<or> w' = db_tick v1) v"
    by (simp add: deleteTenantRelatedData_def wp_tryE wp_db_exec wp_ret v1_def v2_def)
  have "tenant_ids (w_db v2) = tenant_ids (w_db v)" by (simp add: tenant_ids_def v1_def v2_def)
  then have d: "(w_db v2)\<lparr>tenants := filter (\<lambda>t. t_ID t \<noteq> x) (tenants (w_db v2)), tenant_closure :=
      (if x \<in> tenant_ids (w_db v2) then cascade_delete x (tenant_closure (w_db v2)) else tenant_closure (w_db v2))\<rparr> = dropped x (w_db v)"
    by (simp add: dropped_def v1_def v2_def)
  have fields: "tenants (w_db v2) = tenants (w_db v)" "tenant_closure (w_db v2) = tenant_closure (w_db v)" "users (w_db v2) = users (w_db v)"
    "organizations (w_db v2) = organizations (w_db v)" "org_members (w_db v2) = org_members (w_db v)" "w_cache v2 = w_cache v" "w_now v2 = w_now v"
    by (simp_all add: v1_def v2_def)
  have rec: "wp (tryAs (deleteTenantRecord x) ErrService (\<lambda>_. update (evictTenantCache [x]) (ret ()))) ?Q ?E v2"
    unfolding deleteTenantRecord_def wp_tryAs wp_db_exec fst_conv snd_conv d wp_update wp_ret
    using err [of "db_tick v2"] fin [of "(db_tick v2)\<lparr>w_db := dropped x (w_db v)\<rparr>"] by (simp add: fields)
  show ?thesis unfolding drop_tenant_def wp_tryAs [of "deleteTenantRelatedData x"]
  proof (rule wp_mono [OF data], goal_cases)
    case (2 e w')
    then show ?case by (intro err) (auto simp: v1_def)
  qed (use rec in simp)
qed

lemma calm_tree_only: "calm w w' \<Longrightarrow> tree_only w w'"
  using calm_fields [of w w'] by (cases w; cases w') (auto simp: tree_only_def tree_step_def calm_def)

lemma quiet_tree_only: "quiet w w' \<Longrightarrow> tree_only w w'"
  using quietD [of w w'] by (cases w; cases w') (auto simp: tree_only_def tree_step_def quiet_def touched_def)

text \<open>What an interrupted deletion keeps.\<close>

definition kept :: "u64 set \<Rightarrow> u64 \<Rightarrow> 'c world \<Rightarrow> 'c world \<Rightarrow> bool" where
  "kept N x w w' \<longleftrightarrow> tenants (w_db w') = tenants (w_db w) \<and> organizations (w_db w') = organizations (w_db w)
     \<and> filter (\<lambda>u. u_TenantID u \<noteq> x) (users (w_db w')) = filter (\<lambda>u. u_TenantID u \<noteq> x) (users (w_db w))
     \<and> orgs_cached w' \<and> (\<exists>p'. tenant_state N p' w')"

text \<open>What a complete one leaves.\<close>

definition tenant_gone :: "u64 \<Rightarrow> db \<Rightarrow> db \<Rightarrow> bool" where
  "tenant_gone x d d' \<longleftrightarrow> users d' = filter (\<lambda>u. u_TenantID u \<noteq> x) (users d) \<and> tenants d' = filter (\<lambda>t. t_ID t \<noteq> x) (tenants d)
     \<and> departments d' = filter (\<lambda>r. d_TenantID r \<noteq> x) (departments d) \<and> permissions d' = filter (\<lambda>r. p_TenantID r \<noteq> x) (permissions d)
     \<and> organizations d' = organizations d"

lemma wp_delete_content:
  assumes st: "tenant_state N q v" and oc: "orgs_cached v" and x: "x \<in> N" and ok: "casbin_ok (enforcer E) pol grp"
  shows "wp (tryAs (deleteUsersByTenant E x) ErrService (\<lambda>_. drop_tenant x))
    (\<lambda>_ w'. orgs_cached w' \<and> tenant_gone x (w_db v) (w_db w')
       \<and> ((\<forall>d. q d \<noteq> Some x) \<longrightarrow> tenant_state (N - {x}) (q(x := None)) w'))
    (\<lambda>_ w'. kept N x v w') v" (is "wp _ ?Q ?E v")
proof -
  have tc: "tenants_cached q v" using st by (simp add: tenant_state_def)
  have state: "tenant_state N q v1" if "tenant_part q v v1" for v1
    using that st by (auto simp: tenant_part_def tenant_state_def tenant_tree_def tenant_ids_def)
  show ?thesis unfolding wp_tryAs
  proof (rule wp_mono [OF wp_deleteUsersByTenant [OF ok oc tc]], goal_cases)
    case (1 r v1)
    then have p: "tenant_part q v v1" and oc1: "orgs_cached v1"
      and us: "users (w_db v1) = filter (\<lambda>u. u_TenantID u \<noteq> x) (users (w_db v))" by auto
    show ?case
    proof (rule wp_mono [OF wp_drop_tenant [OF state [OF p] oc1 x]], goal_cases)
      case (1 u w')
      then show ?case using p us by (auto simp: tenant_gone_def dropped_def tenant_part_def)
    next
      case (2 e w')
      then show ?case using p us by (auto simp: kept_def tenant_part_def)
    qed
  next
    case (2 e v1)
    then show ?case using state [of v1] by (auto simp: kept_def tenant_part_def)
  qed
qed
definition rehung :: "u64 \<Rightarrow> u64 \<Rightarrow> (u64 \<rightharpoonup> u64) \<Rightarrow> u64 \<rightharpoonup> u64" where
  "rehung x r p = (\<lambda>i. if i = x then None else if p i = Some x then Some r else p i)"

lemma AdminTenantDelete_eq:
  "AdminTenantDelete E s x =
     failIf (u_UID s = 0 \<or> u_TenantID s = 0 \<or> x = 0) ErrParam (
     reads w_root (\<lambda>root.
     failIf (root = 0 \<or> u_TenantID s \<noteq> root) ErrNoAuth (
     failIf (x = root) ErrNoAuth (
     tryE (TenantGetByIDService x) (\<lambda>_.
     tryAs (collectTenantSubtree x) ErrService (\<lambda>subtree.
     tryE (foreach subtree (\<lambda>child. if t_Depth child \<noteq> 1 \<or> t_ID child = x then ret ()
        else tryAs (AdminTenantSetParent s (t_ID child) (u_TenantID s)) ErrService (\<lambda>_. ret ()))) (\<lambda>_.
     tryAs (deleteUsersByTenant E x) ErrService (\<lambda>_. drop_tenant x))))))))"
  by (simp add: AdminTenantDelete_def drop_tenant_def)

lemma kept_trans:
  assumes "tree_only w v" and "org_part w v" and "kept N x v w'"
  shows "kept N x w w'"
proof -
  have "users (w_db v) = users (w_db w)" "tenants (w_db v) = tenants (w_db w)" "organizations (w_db v) = organizations (w_db w)"
    using assms(1) unfolding tree_only_def by (metis db.select_convs(1,2,7) db.surjective db.update_convs(3))+
  then show ?thesis using assms(3) by (simp add: kept_def)
qed

lemma kept_tree:
  assumes "tree_only w v" and "org_part w v" and "tenant_state N p v"
  shows "kept N x w v"
  by (rule kept_trans [OF assms(1,2)]) (use assms(2,3) in \<open>auto simp: kept_def org_part_def\<close>)

lemma wp_AdminTenantDelete:
  assumes st: "tenant_state N p w" and oc: "orgs_cached w" and ok: "casbin_ok (enforcer E) pol grp"
    and x: "x \<in> N" and r: "w_root w \<in> N" and small: "length (tenants (w_db w)) + 500 < 2 ^ 64"
  shows "wp (AdminTenantDelete E s x)
    (\<lambda>_ w'. u_TenantID s = w_root w \<and> x \<noteq> w_root w \<and> orgs_cached w' \<and> tenant_gone x (w_db w) (w_db w')
       \<and> (w_faults w = [] \<longrightarrow> tenant_state (N - {x}) (rehung x (w_root w) p) w'))
    (\<lambda>_ w'. kept N x w w') w" (is "wp _ ?Q ?E w")
proof -
  have op: "org_part w w" using oc by (simp add: org_part_def)
  have kw: "kept N x w w" by (rule kept_tree [OF tree_only_refl op st])
  have tree: "tenant_tree N p (w_db w)" using st by (simp add: tenant_state_def)
  then have inv: "closure_inv N p (tenant_closure (w_db w))" and ids: "N \<subseteq> tenant_ids (w_db w)" and x0: "x \<noteq> 0"
    using x by (auto simp: tenant_tree_def)
  show ?thesis
  proof (cases "(u_UID s = 0 \<or> u_TenantID s = 0 \<or> x = 0) \<or> (w_root w = 0 \<or> u_TenantID s \<noteq> w_root w) \<or> x = w_root w")
    case True
    then show ?thesis using kw unfolding AdminTenantDelete_eq by (auto simp: wp_failIf wp_reads)
  next
    case False
    then have guards: "\<not> (u_UID s = 0 \<or> u_TenantID s = 0 \<or> x = 0)" "\<not> (w_root w = 0 \<or> u_TenantID s \<noteq> w_root w)" "x \<noteq> w_root w"
      and sr: "u_TenantID s = w_root w" and rN: "u_TenantID s \<in> N" using r by auto
    let ?content = "tryAs (deleteUsersByTenant E x) ErrService (\<lambda>_. drop_tenant x)"
    let ?rehang = "\<lambda>subtree. foreach subtree (\<lambda>child. if t_Depth child \<noteq> 1 \<or> t_ID child = x then ret ()
        else tryAs (AdminTenantSetParent s (t_ID child) (u_TenantID s)) ErrService (\<lambda>_. ret ()))"
    have content: "wp ?content ?Q ?E v" if t: "tree_only w v" and o: "org_part w v" and st': "tenant_state N q v"
        and q: "w_faults w = [] \<longrightarrow> q = (\<lambda>i. if p i = Some x then Some (w_root w) else p i)" for v q
    proof (rule wp_mono [OF wp_delete_content [OF st' _ x ok]], goal_cases)
      case 1
      then show ?case using o by (simp add: org_part_def)
    next
      case (2 u w')
      have "tenant_gone x (w_db w) (w_db w')"
        using 2 t by (auto simp: tenant_gone_def tree_only_def) (metis db.select_convs db.surjective db.update_convs(3))+
      moreover have "tenant_state (N - {x}) (rehung x (w_root w) p) w'" if f: "w_faults w = []"
      proof -
        have "q(x := None) = rehung x (w_root w) p" and "\<forall>d. q d \<noteq> Some x"
          using q f guards(3) by (auto simp: rehung_def fun_eq_iff)
        with 2 show ?thesis by metis
      qed
      ultimately show ?case using 2 guards sr by blast
    next
      case (3 e w')
      then show ?case using kept_trans [OF t o] by blast
    qed
    have kids: "wp (?rehang (subtree_list x (w_db w))) (\<lambda>_. wp ?content ?Q ?E) ?E v"
      if t: "tree_only w v" and o: "org_part w v" and st': "tenant_state N p v" for v
    proof -
      have sub: "set (kids x (subtree_list x (w_db w))) = {i. p i = Some x}" by (rule subtree_rows(2) [OF inv ids x])
      have "dom p \<subseteq> N" using invD(1) [OF inv] by (simp add: forest_def)
      then have "set (kids x (subtree_list x (w_db w))) \<subseteq> N" unfolding sub by auto
      note h = wp_rehang [OF st' rN this, of s]
      have "preserves (org_part w) (?rehang (subtree_list x (w_db w)))"
        by (intro preserves_foreach preserves_if preserves_ret preserves_tryAs preserves_AdminTenantSetParent)
      from wp_preserves [OF h this o] show ?thesis
      proof (rule wp_mono, goal_cases)
        case (1 u v')
        then obtain q where q: "tree_only v v'" "org_part w v'" "tenant_state N q v'"
          "w_faults v = [] \<longrightarrow> q = (\<lambda>i. if p i = Some x then Some (w_root w) else p i)" unfolding sub sr by auto
        have "w_faults w = [] \<longrightarrow> w_faults v = []" using t tree_step_fields [of w v] by (simp add: tree_only_def)
        then show ?case by (intro content [OF tree_only_trans [OF t q(1)] q(2,3)]) (use q(4) in blast)
      next
        case (2 e v')
        then show ?case using kept_tree tree_only_trans [OF t] by blast
      qed
    qed
    have walk: "wp (tryAs (collectTenantSubtree x) ErrService (\<lambda>subtree. tryE (?rehang subtree) (\<lambda>_. ?content))) ?Q ?E v"
      if c: "calm w v" and o: "org_part w v" and tc: "tenants_cached p v" for v
    proof -
      note f = calm_fields [OF c] and t = calm_tree_only [OF c]
      have st': "tenant_state N p v" using st f tc by (simp add: tenant_state_def)
      show ?thesis unfolding wp_tryAs [of "collectTenantSubtree x"] wp_tryE
      proof (rule wp_mono [OF wp_collectTenantSubtree [of N p v x]], goal_cases)
        case (5 r' v')
        then have q: "quiet v v'" and r': "r' = subtree_list x (w_db w)" using f by auto
        have "tenant_state N p v'" using st' quietD [OF q] by (simp add: tenant_state_def tenants_cached_def)
        then show ?case unfolding r'
          using tree_only_trans [OF t quiet_tree_only [OF q]] org_part_touched [OF o q] by (intro kids)
      next
        case (6 e v')
        then have q: "quiet v v'" by simp
        have "tenant_state N p v'" using st' quietD [OF q] by (simp add: tenant_state_def tenants_cached_def)
        then show ?case using tree_only_trans [OF t quiet_tree_only [OF q]] org_part_touched [OF o q] kept_tree by blast
      qed (use inv ids x small f in auto)
    qed
    have look: "wp (TenantGetByIDService x) (\<lambda>_ v. (calm w v \<and> tenants_cached p v) \<and> org_part w v)
        (\<lambda>_ v. (calm w v \<and> tenants_cached p v) \<and> org_part w v) w"
    proof (rule wp_preserves [OF _ preserves_TenantGetByIDService op])
      show "wp (TenantGetByIDService x) (\<lambda>_ v. calm w v \<and> tenants_cached p v) (\<lambda>_ v. calm w v \<and> tenants_cached p v) w"
        unfolding TenantGetByIDService_def wp_failIf if_not_P [OF x0] wp_tryAs
        by (rule wp_mono [OF wp_getTenantByIDCached [OF st x0]]) (auto simp: wp_simps split: option.splits)
    qed
    show ?thesis
      unfolding AdminTenantDelete_eq
      unfolding wp_failIf [where ?c = "u_UID s = 0 \<or> u_TenantID s = 0 \<or> x = 0"] wp_reads
        wp_failIf [where ?c = "w_root w = 0 \<or> u_TenantID s \<noteq> w_root w"] wp_failIf [where ?c = "x = w_root w"]
        if_not_P [OF guards(1)] if_not_P [OF guards(2)] if_not_P [OF guards(3)] wp_tryE [of "TenantGetByIDService x"]
    proof (rule wp_mono [OF look], goal_cases)
      case (1 u v)
      then show ?case by (intro walk) auto
    next
      case (2 e v)
      then have "tenant_state N p v" using st calm_fields [of w v] by (simp add: tenant_state_def)
      then show ?case using 2 kept_tree calm_tree_only by blast
    qed
  qed
qed
text \<open>
  C13. Deleting a tenant (\<open>AdminTenantDelete\<close>), whatever statement fails: both loops end and nothing panics. Only
  a session of the root tenant succeeds, and never on the root tenant. After success every user, department and
  permission of the tenant and its own row are gone, all rows of other tenants are as before, and (when no
  statement failed on the way) the tree has lost exactly that node, its children now hanging below the root
  tenant; cached tenants and organizations are current. The organizations of the deleted tenant stay behind. After
  an error every tenant row, every organization and the users of all other tenants are still there, and the
  closure table still describes a tree.
\<close>

theorem AdminTenantDelete_removes:
  assumes "tenant_state N p w" and "orgs_cached w" and "casbin_ok (enforcer E) pol grp"
    and "x \<in> N" and "w_root w \<in> N" and "length (tenants (w_db w)) + 500 < 2 ^ 64"
  shows "case AdminTenantDelete E s x w of
      (Ret _, w') \<Rightarrow> u_TenantID s = w_root w \<and> x \<noteq> w_root w \<and> orgs_cached w' \<and> tenant_gone x (w_db w) (w_db w')
        \<and> (w_faults w = [] \<longrightarrow> tenant_state (N - {x}) (rehung x (w_root w) p) w')
    | (Err e, w') \<Rightarrow> kept N x w w'
    | (Panic, w') \<Rightarrow> False"
  using wp_AdminTenantDelete [OF assms, of s] unfolding wp_def .

lemma org_world_tenants: "tenant_state {1, 2, 3, 4} sample_tree (org_world fs)"
proof -
  have "tenant_state {1, 2, 3, 4} sample_tree (org_world fs) = tenant_state {1, 2, 3, 4} sample_tree (sample_world ([] :: rule list, [] :: grouping list) fs)"
    by (simp add: org_world_def sample_world_def tenant_state_def tenant_tree_def tenant_ids_def tenants_cached_def
        fresh_tenant_def find_tenant_def)
  then show ?thesis using sample_tenant_state by simp
qed

theorem AdminTenantDelete_removes_witness:
  "case AdminTenantDelete sample_env root_user 3 (org_world []) of
      (Ret _, w') \<Rightarrow> tenant_gone 3 (w_db (org_world [])) (w_db w') \<and> tenant_state {1, 2, 4} (rehung 3 1 sample_tree) w'
    | (Err e, w') \<Rightarrow> tenants (w_db w') = tenants (w_db (org_world [])) | _ \<Rightarrow> False"
proof -
  have "w_root (org_world []) = 1" "w_faults (org_world []) = []" "length (tenants (w_db (org_world []))) = 4"
    by (simp_all add: org_world_def sample_world_def)
  moreover have "{1, 2, 3, 4} - {3} = {1, 2, 4 :: u64}" by auto
  moreover have "casbin_ok (enforcer sample_env) (\<lambda>c. set (fst c)) (\<lambda>c. set (snd c))"
    using ref_casbin_ok by (simp add: sample_env_def)
  ultimately show ?thesis
    using AdminTenantDelete_removes [OF org_world_tenants [of "[]"] org_world_cached, where x = 3 and s = root_user and E = sample_env]
    by (auto simp: kept_def split: prod.splits res.splits)
qed

end
