(* ===== verification/Secure_Cookie.thy ===== *)
theory Secure_Cookie
  imports Prelude
begin

text \<open>
  \<open>sessions/securecookie.go\<close>, \<open>sessions/error.go\<close>: authenticated and encrypted cookie values. Byte slices are
  strings of 8-bit characters. Base64 and the decimal time stamp are modelled; the keyed hash, the cipher in
  counter mode, \<open>encoding/gob\<close> and \<open>encoding/json\<close> are the fields of the record \<open>crypto\<close>, and \<open>crypto_ok\<close> states
  the documented facts about them that the theorems use.
\<close>

section \<open>Errors\<close>

datatype errorType = usageError | decodeError | internalError

text \<open>\<open>cookieError\<close>, \<open>MultiError\<close>, and an error of another package with its message.\<close>

datatype cerr = CookieError errorType string "cerr option" | MultiError "cerr list" | PlainError string

definition errGeneratingIV :: cerr where "errGeneratingIV = CookieError internalError ''failed to generate random iv'' None"
definition errNoCodecs :: cerr where "errNoCodecs = CookieError usageError ''no codecs provided'' None"
definition errHashKeyNotSet :: cerr where "errHashKeyNotSet = CookieError usageError ''hash key is not set'' None"
definition errBlockKeyNotSet :: cerr where "errBlockKeyNotSet = CookieError usageError ''block key is not set'' None"
definition errEncodedValueTooLong :: cerr where "errEncodedValueTooLong = CookieError usageError ''the value is too long'' None"
definition errValueToDecodeTooLong :: cerr where "errValueToDecodeTooLong = CookieError decodeError ''the value is too long'' None"
definition errTimestampInvalid :: cerr where "errTimestampInvalid = CookieError decodeError ''invalid timestamp'' None"
definition errTimestampTooNew :: cerr where "errTimestampTooNew = CookieError decodeError ''timestamp is too new'' None"
definition errTimestampExpired :: cerr where "errTimestampExpired = CookieError decodeError ''expired timestamp'' None"
definition errDecryptionFailed :: cerr where "errDecryptionFailed = CookieError decodeError ''the value could not be decrypted'' None"
definition ErrMacInvalid :: cerr where "ErrMacInvalid = CookieError decodeError ''the value is not valid'' None"

text \<open>The three predicates of the interface \<open>Error\<close>; an error of another package does not implement it.\<close>

fun is_type :: "errorType \<Rightarrow> cerr \<Rightarrow> bool" where
  "is_type t (CookieError typ msg cause) \<longleftrightarrow> typ = t"
| "is_type t (MultiError es) \<longleftrightarrow> list_ex (is_type t) es"
| "is_type t (PlainError s) \<longleftrightarrow> False"

definition IsUsage :: "cerr \<Rightarrow> bool" where "IsUsage = is_type usageError"
definition IsDecode :: "cerr \<Rightarrow> bool" where "IsDecode = is_type decodeError"
definition IsInternal :: "cerr \<Rightarrow> bool" where "IsInternal = is_type internalError"

fun error_text :: "cerr \<Rightarrow> string" where
  "error_text (CookieError typ msg cause) = ''securecookie: '' @ (if msg = [] then ''error'' else msg)
     @ (case cause of None \<Rightarrow> [] | Some c \<Rightarrow> '' - caused by: '' @ error_text c)"
| "error_text (MultiError es) = (case es of
       [] \<Rightarrow> ''(0 errors)''
     | [e] \<Rightarrow> error_text e
     | [e, f] \<Rightarrow> error_text e @ '' (and 1 other error)''
     | e # fs \<Rightarrow> error_text e @ '' (and '' @ show_nat (length fs) @ '' other errors)'')"
| "error_text (PlainError s) = s"

section \<open>Base64 with the URL alphabet\<close>

definition alphabet :: string where
  "alphabet = ''ABCDEFGHIJKLMNOPQRSTUVWXYZabcdefghijklmnopqrstuvwxyz0123456789-_''"

definition c64 :: "nat \<Rightarrow> char" where
  "c64 n = alphabet ! n"

definition v64 :: "char \<Rightarrow> nat option" where
  "v64 c = (if c \<in> set alphabet then Some (length (takeWhile (\<lambda>x. x \<noteq> c) alphabet)) else None)"

definition byte :: "char \<Rightarrow> nat" where
  "byte c = of_char c"

fun encode :: "string \<Rightarrow> string" where
  "encode [] = []"
| "encode [a] = [c64 (byte a div 4), c64 (byte a mod 4 * 16), CHR ''='', CHR ''='']"
| "encode [a, b] = [c64 (byte a div 4), c64 (byte a mod 4 * 16 + byte b div 16), c64 (byte b mod 16 * 4), CHR ''='']"
| "encode (a # b # c # s) = c64 (byte a div 4) # c64 (byte a mod 4 * 16 + byte b div 16)
     # c64 (byte b mod 16 * 4 + byte c div 64) # c64 (byte c mod 64) # encode s"

text \<open>Line breaks are skipped anywhere; a padded quantum must be the last one; surplus bits are not checked.\<close>

fun quanta :: "string \<Rightarrow> string option" where
  "quanta [] = Some []"
| "quanta (p # q # r # s # rest) = (case (v64 p, v64 q) of
       (Some a, Some b) \<Rightarrow>
         if r = CHR ''='' then (if s = CHR ''='' \<and> rest = [] then Some [char_of (a * 4 + b div 16)] else None)
         else (case v64 r of
             None \<Rightarrow> None
           | Some c \<Rightarrow>
               if s = CHR ''='' then (if rest = [] then Some [char_of (a * 4 + b div 16), char_of (b mod 16 * 16 + c div 4)] else None)
               else (case v64 s of
                   None \<Rightarrow> None
                 | Some d \<Rightarrow> map_option (\<lambda>bs. char_of (a * 4 + b div 16) # char_of (b mod 16 * 16 + c div 4)
                       # char_of (c mod 4 * 64 + d) # bs) (quanta rest)))
     | _ \<Rightarrow> None)"
| "quanta _ = None"

definition decode :: "string \<Rightarrow> cerr + string" where
  "decode value = (case quanta (filter (\<lambda>c. c \<notin> {CHR 0x0A, CHR 0x0D}) value) of
       None \<Rightarrow> Inl (CookieError decodeError ''base64 decode failed'' (Some (PlainError ''illegal base64 data'')))
     | Some b \<Rightarrow> Inr b)"

section \<open>Parameters\<close>

text \<open>
  \<open>mac key m\<close> is \<open>hmac.New(sha256.New, key)\<close> over \<open>m\<close>; \<open>ctr key iv x\<close> is the key stream of AES in counter mode
  applied to \<open>x\<close>. The encoders answer their value or the message of their error.
\<close>

record 'v crypto =
  mac :: "string \<Rightarrow> string \<Rightarrow> string"
  ctr :: "string \<Rightarrow> string \<Rightarrow> string \<Rightarrow> string"
  gob_enc :: "'v \<Rightarrow> string + string"
  gob_dec :: "string \<Rightarrow> string + 'v"
  gob_view :: "'v \<Rightarrow> 'v"
  json_enc :: "'v \<Rightarrow> string + string"
  json_dec :: "string \<Rightarrow> string + 'v"

text \<open>
  A stream cipher undoes itself. Gob never writes nothing and reads back \<open>gob_view\<close> of what was written: it sends
  what a pointer points to, not the pointer.
\<close>

definition crypto_ok :: "'v crypto \<Rightarrow> bool" where
  "crypto_ok E \<longleftrightarrow> (\<forall>k iv x. ctr E k iv (ctr E k iv x) = x) \<and> (\<forall>k iv x. length (ctr E k iv x) = length x)
     \<and> (\<forall>v b. gob_enc E v = Inr b \<longrightarrow> b \<noteq> [] \<and> gob_dec E b = Inr (gob_view E v))"

datatype serializer = GobEncoder | JSONEncoder

definition Serialize :: "'v crypto \<Rightarrow> serializer \<Rightarrow> 'v \<Rightarrow> cerr + string" where
  "Serialize E sz v = (case (case sz of GobEncoder \<Rightarrow> gob_enc E v | JSONEncoder \<Rightarrow> json_enc E v) of
       Inl m \<Rightarrow> Inl (CookieError usageError [] (Some (PlainError m))) | Inr b \<Rightarrow> Inr b)"

definition Deserialize :: "'v crypto \<Rightarrow> serializer \<Rightarrow> string \<Rightarrow> cerr + 'v" where
  "Deserialize E sz b = (case (case sz of GobEncoder \<Rightarrow> gob_dec E b | JSONEncoder \<Rightarrow> json_dec E b) of
       Inl m \<Rightarrow> Inl (CookieError decodeError [] (Some (PlainError m))) | Inr v \<Rightarrow> Inr v)"
section \<open>The codec\<close>

text \<open>
  The secret keys may be nil (\<open>None\<close>). \<open>block\<close> is the key of the initialised cipher. Lengths and ages are Go
  integers; \<open>wrap64\<close> is the wrap-around of a 64-bit difference.
\<close>

record SecureCookie =
  hashKey :: "string option"
  blockKey :: "string option"
  block :: "string option"
  maxLength :: int
  maxAge :: int
  minAge :: int
  sc_err :: "cerr option"
  sz :: serializer

definition wrap64 :: "int \<Rightarrow> int" where
  "wrap64 i = sint (word_of_int i :: 64 word)"

text \<open>\<open>aes.NewCipher\<close> accepts keys of 16, 24 and 32 bytes.\<close>

definition BlockFunc :: "SecureCookie \<Rightarrow> SecureCookie" where
  "BlockFunc s = (case blockKey s of
       None \<Rightarrow> s\<lparr>sc_err := Some errBlockKeyNotSet\<rparr>
     | Some k \<Rightarrow> if length k \<in> {16, 24, 32} then s\<lparr>block := Some k\<rparr>
         else s\<lparr>sc_err := Some (CookieError usageError [] (Some (PlainError (''crypto/aes: invalid key size '' @ show_nat (length k)))))\<rparr>)"

definition NewSecureCookie :: "string option \<Rightarrow> string option \<Rightarrow> SecureCookie" where
  "NewSecureCookie hk bk = (let
       s = \<lparr>hashKey = hk, blockKey = bk, block = None, maxLength = 4096, maxAge = 86400 * 30, minAge = 0,
            sc_err = (if hk = None \<or> hk = Some [] then Some errHashKeyNotSet else None), sz = GobEncoder\<rparr>
     in if bk \<noteq> None then BlockFunc s else s)"

definition MaxLength :: "int \<Rightarrow> SecureCookie \<Rightarrow> SecureCookie" where
  "MaxLength value s = s\<lparr>maxLength := value\<rparr>"

definition MaxAge :: "int \<Rightarrow> SecureCookie \<Rightarrow> SecureCookie" where
  "MaxAge value s = s\<lparr>maxAge := value\<rparr>"

definition MinAge :: "int \<Rightarrow> SecureCookie \<Rightarrow> SecureCookie" where
  "MinAge value s = s\<lparr>minAge := value\<rparr>"

definition SetSerializer :: "serializer \<Rightarrow> SecureCookie \<Rightarrow> SecureCookie" where
  "SetSerializer z s = s\<lparr>sz := z\<rparr>"

text \<open>\<open>%d\<close> of an \<open>int64\<close> and \<open>strconv.ParseInt(s, 10, 64)\<close>.\<close>

definition show_int :: "int \<Rightarrow> string" where
  "show_int i = (if i < 0 then CHR ''-'' # show_nat (nat (- i)) else show_nat (nat i))"

definition ParseInt :: "string \<Rightarrow> int option" where
  "ParseInt s = (case s of [] \<Rightarrow> None | c # cs \<Rightarrow>
     let neg = (c = CHR ''-''); ds = (if c = CHR ''-'' \<or> c = CHR ''+'' then cs else s); n = int (nat_of_digits ds) in
     if ds = [] \<or> \<not> list_all is_digit ds then None
     else if neg then (if n \<le> 2 ^ 63 then Some (- n) else None)
     else (if n < 2 ^ 63 then Some n else None))"

text \<open>\<open>bytes.SplitN(b, "|", 3)\<close>\<close>

fun cut_bar :: "string \<Rightarrow> (string \<times> string) option" where
  "cut_bar [] = None"
| "cut_bar (c # s) = (if c = CHR ''|'' then Some ([], s) else map_option (\<lambda>(x, y). (c # x, y)) (cut_bar s))"

definition split3 :: "string \<Rightarrow> string list" where
  "split3 b = (case cut_bar b of None \<Rightarrow> [b] | Some (x, r) \<Rightarrow>
     (case cut_bar r of None \<Rightarrow> [x, r] | Some (y, z) \<Rightarrow> [x, y, z]))"

definition createMac :: "'v crypto \<Rightarrow> string \<Rightarrow> string \<Rightarrow> string" where
  "createMac E key value = mac E key value"

definition verifyMac :: "'v crypto \<Rightarrow> string \<Rightarrow> string \<Rightarrow> string \<Rightarrow> cerr option" where
  "verifyMac E key value m = (let mac2 = createMac E key value in
     if length m = length mac2 \<and> m = mac2 then None else Some ErrMacInvalid)"

text \<open>\<open>rnd\<close> is what \<open>GenerateRandomKey(block.BlockSize())\<close> answers, 16 random bytes or nil.\<close>

definition encrypt :: "'v crypto \<Rightarrow> string \<Rightarrow> string option \<Rightarrow> string \<Rightarrow> cerr + string" where
  "encrypt E key rnd value = (case rnd of None \<Rightarrow> Inl errGeneratingIV | Some iv \<Rightarrow> Inr (iv @ ctr E key iv value))"

definition decrypt :: "'v crypto \<Rightarrow> string \<Rightarrow> string \<Rightarrow> cerr + string" where
  "decrypt E key value = (if length value > 16 then Inr (ctr E key (take 16 value) (drop 16 value)) else Inl errDecryptionFailed)"

definition bind_err :: "cerr + 'a \<Rightarrow> ('a \<Rightarrow> cerr + 'b) \<Rightarrow> cerr + 'b" where
  "bind_err m k = (case m of Inl e \<Rightarrow> Inl e | Inr x \<Rightarrow> k x)"

definition wrap_err :: "cerr + 'a \<Rightarrow> cerr + 'a" where
  "wrap_err m = (case m of Inl e \<Rightarrow> Inl (CookieError usageError [] (Some e)) | Inr x \<Rightarrow> Inr x)"

text \<open>Steps 1 and 2 of \<open>Encode\<close>, and the steps of \<open>Decode\<close> that undo them.\<close>

definition sealed :: "'v crypto \<Rightarrow> SecureCookie \<Rightarrow> string option \<Rightarrow> 'v \<Rightarrow> cerr + string" where
  "sealed E s rnd value = bind_err (wrap_err (Serialize E (sz s) value)) (\<lambda>b.
     case block s of None \<Rightarrow> Inr b | Some k \<Rightarrow> wrap_err (encrypt E k rnd b))"

definition opened :: "'v crypto \<Rightarrow> SecureCookie \<Rightarrow> string \<Rightarrow> cerr + 'v" where
  "opened E s b = bind_err (case block s of None \<Rightarrow> Inr b | Some k \<Rightarrow> decrypt E k b) (\<lambda>b2.
     case Deserialize E (sz s) b2 of
       Inl e \<Rightarrow> Inl (CookieError decodeError [] (Some e))
     | Inr v \<Rightarrow> Inr v)"

text \<open>
  The error stored in the codec when its key is nil is the one every later call reports anyway, so the codec is
  not returned. \<open>now\<close> is \<open>timestamp()\<close>.
\<close>

definition Encode :: "'v crypto \<Rightarrow> SecureCookie \<Rightarrow> string option \<Rightarrow> int \<Rightarrow> string \<Rightarrow> 'v \<Rightarrow> cerr + string" where
  "Encode E s rnd now name value = (case sc_err s of Some e \<Rightarrow> Inl e | None \<Rightarrow>
    (case hashKey s of None \<Rightarrow> Inl errHashKeyNotSet | Some key \<Rightarrow>
    bind_err (sealed E s rnd value) (\<lambda>b.
    let signed = show_int now @ ''|'' @ encode b;
        m = createMac E key (name @ ''|'' @ signed);
        out = encode (signed @ ''|'' @ m)
    in if maxLength s \<noteq> 0 \<and> int (length out) > maxLength s
       then Inl (PlainError (error_text errEncodedValueTooLong @ '': '' @ show_nat (length out)))
       else Inr out)))"

definition Decode :: "'v crypto \<Rightarrow> SecureCookie \<Rightarrow> int \<Rightarrow> string \<Rightarrow> string \<Rightarrow> cerr + 'v" where
  "Decode E s now name value = (case sc_err s of Some e \<Rightarrow> Inl e | None \<Rightarrow>
    (case hashKey s of None \<Rightarrow> Inl errHashKeyNotSet | Some key \<Rightarrow>
    if maxLength s \<noteq> 0 \<and> int (length value) > maxLength s
    then Inl (PlainError (error_text errValueToDecodeTooLong @ '': '' @ show_nat (length value)))
    else bind_err (decode value) (\<lambda>b.
    (case split3 b of
       [ts, payload, m] \<Rightarrow>
         (case verifyMac E key (name @ ''|'' @ take (length b - length m - 1) b) m of Some e \<Rightarrow> Inl e | None \<Rightarrow>
         (case ParseInt ts of None \<Rightarrow> Inl errTimestampInvalid | Some t1 \<Rightarrow>
          if minAge s \<noteq> 0 \<and> t1 > wrap64 (now - minAge s) then Inl errTimestampTooNew
          else if maxAge s \<noteq> 0 \<and> t1 < wrap64 (now - maxAge s) then Inl errTimestampExpired
          else bind_err (decode payload) (opened E s)))
     | _ \<Rightarrow> Inl ErrMacInvalid))))"

section \<open>Groups of codecs\<close>

fun CodecsFromPairs :: "string option list \<Rightarrow> SecureCookie list" where
  "CodecsFromPairs [] = []"
| "CodecsFromPairs [hk] = [NewSecureCookie hk None]"
| "CodecsFromPairs (hk # bk # ks) = NewSecureCookie hk bk # CodecsFromPairs ks"

fun first_ok :: "('a \<Rightarrow> cerr + 'b) \<Rightarrow> 'a list \<Rightarrow> cerr list \<Rightarrow> cerr + 'b" where
  "first_ok f [] errors = Inl (MultiError errors)"
| "first_ok f (c # cs) errors = (case f c of Inr x \<Rightarrow> Inr x | Inl e \<Rightarrow> first_ok f cs (errors @ [e]))"

definition EncodeMulti :: "'v crypto \<Rightarrow> string option \<Rightarrow> int \<Rightarrow> string \<Rightarrow> 'v \<Rightarrow> SecureCookie list \<Rightarrow> cerr + string" where
  "EncodeMulti E rnd now name value codecs =
     (if codecs = [] then Inl errNoCodecs else first_ok (\<lambda>c. Encode E c rnd now name value) codecs [])"

definition DecodeMulti :: "'v crypto \<Rightarrow> int \<Rightarrow> string \<Rightarrow> string \<Rightarrow> SecureCookie list \<Rightarrow> cerr + 'v" where
  "DecodeMulti E now name value codecs =
     (if codecs = [] then Inl errNoCodecs else first_ok (\<lambda>c. Decode E c now name value) codecs [])"

section \<open>Base64 reads back what it wrote\<close>

lemma alphabet_table: "list_all (\<lambda>n. v64 (c64 n) = Some n \<and> c64 n \<notin> {CHR ''='', CHR ''|'', CHR 0x0A, CHR 0x0D}) [0..<64]"
  by code_simp

lemma v64_c64 [simp]: "n < 64 \<Longrightarrow> v64 (c64 n) = Some n"
  and c64_other [simp]: "n < 64 \<Longrightarrow> c64 n \<noteq> CHR ''=''" "n < 64 \<Longrightarrow> c64 n \<noteq> CHR ''|''"
    "n < 64 \<Longrightarrow> c64 n \<noteq> CHR 0x0A" "n < 64 \<Longrightarrow> c64 n \<noteq> CHR 0x0D"
  using alphabet_table by (auto simp: list_all_iff)

lemmas c64_other_sym [simp] = c64_other [symmetric]

lemma byte_less: "byte c < 256"
  using of_char_of [where ?'a = nat, of "byte c"] by (simp add: byte_def)

lemma char_of_byte [simp]: "char_of (byte c) = c"
  by (simp add: byte_def)

text \<open>The four sextets of three bytes, and what each byte is of them.\<close>

lemma sextets:
  fixes a b c :: nat
  assumes "a < 256" "b < 256" "c < 256"
  shows "a div 4 < 64" "a mod 4 * 16 < 64" "a mod 4 * 16 + b div 16 < 64" "b mod 16 * 4 < 64"
    "b mod 16 * 4 + c div 64 < 64" "c mod 64 < 64"
  using assms by auto

lemma join_div: "b div (n::nat) < m \<Longrightarrow> (a * m + b div n) div m = a"
  and join_mod: "b div (n::nat) < m \<Longrightarrow> (a * m + b div n) mod m = b div n"
  by auto

lemmas quantum_bounds [simp] = sextets [OF byte_less byte_less byte_less]

lemma byte_div [simp]: "byte b div 16 < 16" "byte b div 64 < 4"
  using byte_less [of b] by auto

lemma quanta_encode [simp]: "quanta (encode s) = Some s"
  by (induction s rule: encode.induct) (simp_all add: join_div join_mod)

lemma encode_chars: "CHR ''|'' \<notin> set (encode s) \<and> CHR 0x0A \<notin> set (encode s) \<and> CHR 0x0D \<notin> set (encode s)"
  by (induction s rule: encode.induct) auto

lemma decode_encode [simp]: "decode (encode s) = Inr s"
proof -
  have "filter (\<lambda>c. c \<notin> {CHR 0x0A, CHR 0x0D}) (encode s) = encode s"
    using encode_chars [of s] by (intro filter_True) auto
  then show ?thesis by (simp add: decode_def)
qed

section \<open>The signed text\<close>

lemma digits_no_bar: "list_all is_digit s \<Longrightarrow> CHR ''|'' \<notin> set s"
  by (auto simp: list_all_iff is_digit_def)

lemma digits_no_minus: "list_all is_digit (c # s) \<Longrightarrow> c \<noteq> CHR ''-'' \<and> c \<noteq> CHR ''+''"
  by (auto simp: is_digit_def)

lemma show_int_no_bar [simp]: "CHR ''|'' \<notin> set (show_int i)"
  by (simp add: show_int_def digits_no_bar [OF show_nat_digits])

lemma encode_no_bar [simp]: "CHR ''|'' \<notin> set (encode s)"
  using encode_chars by blast

lemma ParseInt_show [simp]:
  assumes "- (2 ^ 63) \<le> i" "i < 2 ^ 63"
  shows "ParseInt (show_int i) = Some i"
proof (cases "i < 0")
  case True
  then show ?thesis using assms by (simp add: ParseInt_def show_int_def show_nat_digits)
next
  case False
  obtain c cs where c: "show_nat (nat i) = c # cs"
    using show_nat_not_Nil [of "nat i"] by (cases "show_nat (nat i)") auto
  then have "list_all is_digit (c # cs)" "nat_of_digits (c # cs) = nat i"
    using show_nat_digits [of "nat i"] nat_of_digits_show [of "nat i"] by simp_all
  then show ?thesis using False assms c digits_no_minus [of c cs] by (simp add: ParseInt_def show_int_def)
qed

lemma cut_bar_join [simp]: "CHR ''|'' \<notin> set x \<Longrightarrow> cut_bar (x @ CHR ''|'' # y) = Some (x, y)"
  by (induction x) auto

lemma cut_bar_SomeD: "cut_bar b = Some (x, y) \<Longrightarrow> b = x @ CHR ''|'' # y \<and> CHR ''|'' \<notin> set x"
  by (induction b arbitrary: x) (auto split: if_splits)

lemma split3_join [simp]:
  "CHR ''|'' \<notin> set x \<Longrightarrow> CHR ''|'' \<notin> set y \<Longrightarrow> split3 (x @ CHR ''|'' # y @ CHR ''|'' # z) = [x, y, z]"
  by (simp add: split3_def)

lemma split3_threeD:
  "split3 b = [x, y, z] \<Longrightarrow> b = x @ CHR ''|'' # y @ CHR ''|'' # z \<and> CHR ''|'' \<notin> set x \<and> CHR ''|'' \<notin> set y"
  by (auto simp: split3_def split: option.splits dest!: cut_bar_SomeD)

lemma last_field_eq:
  "a @ c # y = a' @ c # y' \<Longrightarrow> c \<notin> set y \<Longrightarrow> c \<notin> set y' \<Longrightarrow> a = a' \<and> y = y'"
  by (auto simp: append_eq_append_conv2 append_eq_Cons_conv Cons_eq_append_conv)

text \<open>The name may contain bars; the other two fields may not, so the three are recovered from the right.\<close>

lemma signed_text_inject:
  assumes "n @ CHR ''|'' # x @ CHR ''|'' # y = n' @ CHR ''|'' # x' @ CHR ''|'' # y'"
    and "CHR ''|'' \<notin> set x" "CHR ''|'' \<notin> set y" "CHR ''|'' \<notin> set x'" "CHR ''|'' \<notin> set y'"
  shows "n = n' \<and> x = x' \<and> y = y'"
  using last_field_eq [of "n @ CHR ''|'' # x" "CHR ''|''" y "n' @ CHR ''|'' # x'" y']
    last_field_eq [of n "CHR ''|''" x n' x'] assms by simp

section \<open>Round trip and authenticity\<close>

definition int64 :: "int \<Rightarrow> bool" where
  "int64 i \<longleftrightarrow> - (2 ^ 63) \<le> i \<and> i < 2 ^ 63"

lemma wrap64_int64 [simp]: "int64 i \<Longrightarrow> wrap64 i = i"
  by (simp add: wrap64_def int64_def sint_sbintrunc' signed_take_bit_int_eq_self)

text \<open>A random key, when there is one, has the 16 bytes of the block size.\<close>

definition rnd_ok :: "string option \<Rightarrow> bool" where
  "rnd_ok rnd \<longleftrightarrow> (\<forall>iv \<in> set_option rnd. length iv = 16)"

text \<open>The age window: not issued later than \<open>minAge\<close> ago, nor earlier than \<open>maxAge\<close> ago.\<close>

definition in_window :: "SecureCookie \<Rightarrow> int \<Rightarrow> int \<Rightarrow> bool" where
  "in_window s now t \<longleftrightarrow> (minAge s \<noteq> 0 \<longrightarrow> t \<le> wrap64 (now - minAge s)) \<and> (maxAge s \<noteq> 0 \<longrightarrow> wrap64 (now - maxAge s) \<le> t)"

lemma opened_sealed:
  assumes "crypto_ok E" "sz s = GobEncoder" "rnd_ok rnd" "sealed E s rnd v = Inr b"
  shows "opened E s b = Inr (gob_view E v)"
proof -
  obtain b0 where b0: "gob_enc E v = Inr b0"
    using assms(2,4) by (cases "gob_enc E v") (auto simp: sealed_def Serialize_def wrap_err_def bind_err_def)
  then have b0_ok: "b0 \<noteq> []" "gob_dec E b0 = Inr (gob_view E v)" using assms(1) by (auto simp: crypto_ok_def)
  show ?thesis
  proof (cases "block s")
    case None
    then show ?thesis using assms(2,4) b0 b0_ok
      by (auto simp: sealed_def opened_def Serialize_def Deserialize_def wrap_err_def bind_err_def)
  next
    case (Some k)
    then obtain iv where iv: "rnd = Some iv" "b = iv @ ctr E k iv b0"
      using assms(2,4) b0 by (cases rnd) (auto simp: sealed_def Serialize_def wrap_err_def bind_err_def encrypt_def)
    have "length iv = 16" using assms(3) iv by (simp add: rnd_ok_def)
    moreover have "length (ctr E k iv b0) = length b0" "ctr E k iv (ctr E k iv b0) = b0"
      using assms(1) by (auto simp: crypto_ok_def)
    ultimately show ?thesis using Some iv b0_ok assms(2)
      by (simp add: opened_def decrypt_def bind_err_def Deserialize_def)
  qed
qed

text \<open>What an issued cookie is, and what an accepted cookie is.\<close>

lemma Encode_InrD:
  assumes "Encode E s rnd t name v = Inr c"
  obtains key b where "sc_err s = None" "hashKey s = Some key" "sealed E s rnd v = Inr b"
    "c = encode (show_int t @ CHR ''|'' # encode b @ CHR ''|'' # mac E key (name @ CHR ''|'' # show_int t @ CHR ''|'' # encode b))"
    "maxLength s = 0 \<or> int (length c) \<le> maxLength s"
  using assms
  by (auto simp: Encode_def bind_err_def Let_def createMac_def split: option.splits sum.splits if_splits)

lemma split3_shape: "(case split3 b of [ts, p, m] \<Rightarrow> f ts p m | _ \<Rightarrow> Inl e) = Inr v \<Longrightarrow> \<exists>ts p m. split3 b = [ts, p, m] \<and> f ts p m = Inr v"
  by (auto split: list.splits)

lemma Decode_Inr_iff:
  "Decode E s now name value = Inr v \<longleftrightarrow> (\<exists>key ts p t b1. sc_err s = None \<and> hashKey s = Some key
     \<and> (maxLength s = 0 \<or> int (length value) \<le> maxLength s)
     \<and> decode value = Inr (ts @ CHR ''|'' # p @ CHR ''|'' # mac E key (name @ CHR ''|'' # ts @ CHR ''|'' # p))
     \<and> CHR ''|'' \<notin> set ts \<and> CHR ''|'' \<notin> set p
     \<and> ParseInt ts = Some t \<and> in_window s now t \<and> decode p = Inr b1 \<and> opened E s b1 = Inr v)"
  (is "?L \<longleftrightarrow> ?R")
proof
  assume L: ?L
  then obtain key where key: "sc_err s = None" "hashKey s = Some key" "maxLength s = 0 \<or> int (length value) \<le> maxLength s"
    by (auto simp: Decode_def split: option.splits if_splits)
  then obtain b where b: "decode value = Inr b"
    using L by (cases "decode value") (auto simp: Decode_def bind_err_def)
  then obtain ts p m where sp: "split3 b = [ts, p, m]"
    using L key by (auto simp: Decode_def bind_err_def split: list.splits if_splits)
  note parts = split3_threeD [OF sp]
  then have tk: "take (length b - length m - 1) b = ts @ CHR ''|'' # p" by simp
  show ?R using L key b sp parts unfolding Decode_def tk
    by (fastforce simp: bind_err_def verifyMac_def createMac_def Let_def in_window_def tk split: option.splits if_splits sum.splits)
next
  assume ?R
  then obtain key ts p t b1 where R: "sc_err s = None" "hashKey s = Some key" "maxLength s = 0 \<or> int (length value) \<le> maxLength s"
    "decode value = Inr (ts @ CHR ''|'' # p @ CHR ''|'' # mac E key (name @ CHR ''|'' # ts @ CHR ''|'' # p))"
    "CHR ''|'' \<notin> set ts" "CHR ''|'' \<notin> set p" "ParseInt ts = Some t" "in_window s now t" "decode p = Inr b1" "opened E s b1 = Inr v"
    by blast
  then show ?L
    by (auto simp: Decode_def bind_err_def verifyMac_def createMac_def Let_def in_window_def)
qed

text \<open>The cookie that was issued opens with the same name and codec while it is in the window, and only then.\<close>

lemma Decode_of_Encode:
  assumes "crypto_ok E" "sz s = GobEncoder" "rnd_ok rnd" "int64 t" "Encode E s rnd t name v = Inr c"
  shows "in_window s now t \<Longrightarrow> Decode E s now name c = Inr (gob_view E v)"
    and "\<not> in_window s now t \<Longrightarrow> \<exists>e. Decode E s now name c = Inl e"
proof -
  obtain key b where c: "sc_err s = None" "hashKey s = Some key" "sealed E s rnd v = Inr b"
    "decode c = Inr (show_int t @ CHR ''|'' # encode b @ CHR ''|'' # mac E key (name @ CHR ''|'' # show_int t @ CHR ''|'' # encode b))"
    "maxLength s = 0 \<or> int (length c) \<le> maxLength s"
    using Encode_InrD [OF assms(5)] by (metis decode_encode)
  have t: "ParseInt (show_int t) = Some t" using assms(4) by (simp add: int64_def)
  show "Decode E s now name c = Inr (gob_view E v)" if "in_window s now t"
    unfolding Decode_Inr_iff
    by (intro exI [of _ key] exI [of _ "show_int t"] exI [of _ "encode b"] exI [of _ t] exI [of _ b])
      (simp add: c t that opened_sealed [OF assms(1-3) c(3)])
  show "\<exists>e. Decode E s now name c = Inl e" if "\<not> in_window s now t"
  proof (cases "Decode E s now name c")
    case (Inr v')
    then obtain key' ts p t' where "decode c = Inr (ts @ CHR ''|'' # p @ CHR ''|'' # mac E key' (name @ CHR ''|'' # ts @ CHR ''|'' # p))"
      "CHR ''|'' \<notin> set ts" "CHR ''|'' \<notin> set p" "ParseInt ts = Some t'" "in_window s now t'"
      unfolding Decode_Inr_iff by blast
    then have "split3 (show_int t @ CHR ''|'' # encode b @ CHR ''|'' # mac E key (name @ CHR ''|'' # show_int t @ CHR ''|'' # encode b)) = [ts, p, mac E key' (name @ CHR ''|'' # ts @ CHR ''|'' # p)]"
      using c(4) by simp
    then have "ts = show_int t" by simp
    then show ?thesis using t \<open>ParseInt ts = Some t'\<close> \<open>in_window s now t'\<close> that by simp
  qed auto
qed

lemma first_ok_Inr: "first_ok f cs errors = Inr x \<Longrightarrow> \<exists>c\<in>set cs. f c = Inr x"
  by (induction cs arbitrary: errors) (auto split: sum.splits)

text \<open>
  Nobody without the key makes a tag: when the presented value carries the tag of the text it stands for, that text
  is the one of a cookie in \<open>issued\<close>, a set of (name, time, value).
\<close>

definition unforged :: "'v crypto \<Rightarrow> SecureCookie \<Rightarrow> string \<Rightarrow> (string \<times> int \<times> 'v) set \<Rightarrow> string \<Rightarrow> string \<Rightarrow> bool" where
  "unforged E s key issued name value \<longleftrightarrow> (\<forall>b ts p. decode value = Inr b \<and> split3 b = [ts, p, mac E key (name @ ''|'' @ ts @ ''|'' @ p)] \<longrightarrow>
     (\<exists>(n0, t0, v0) \<in> issued. \<exists>rnd b0. rnd_ok rnd \<and> sealed E s rnd v0 = Inr b0
        \<and> name @ ''|'' @ ts @ ''|'' @ p = n0 @ ''|'' @ show_int t0 @ ''|'' @ encode b0))"

lemma Decode_issued:
  assumes "crypto_ok E" "sz s = GobEncoder" "hashKey s = Some key" "unforged E s key issued name value"
    and "\<forall>(n, t, v) \<in> issued. int64 t" "Decode E s now name value = Inr v"
  shows "\<exists>t v0. (name, t, v0) \<in> issued \<and> v = gob_view E v0 \<and> in_window s now t"
proof -
  obtain ts p t b1 where D: "decode value = Inr (ts @ CHR ''|'' # p @ CHR ''|'' # mac E key (name @ CHR ''|'' # ts @ CHR ''|'' # p))"
    "CHR ''|'' \<notin> set ts" "CHR ''|'' \<notin> set p" "ParseInt ts = Some t" "in_window s now t" "decode p = Inr b1" "opened E s b1 = Inr v"
    using assms(3,6) unfolding Decode_Inr_iff by auto
  then have "split3 (ts @ CHR ''|'' # p @ CHR ''|'' # mac E key (name @ CHR ''|'' # ts @ CHR ''|'' # p)) = [ts, p, mac E key (name @ ''|'' @ ts @ ''|'' @ p)]"
    by simp
  then obtain n0 t0 v0 rnd b0 where iss: "(n0, t0, v0) \<in> issued" "rnd_ok rnd" "sealed E s rnd v0 = Inr b0"
    "name @ CHR ''|'' # ts @ CHR ''|'' # p = n0 @ CHR ''|'' # show_int t0 @ CHR ''|'' # encode b0"
    using assms(4) D(1) unfolding unforged_def by fastforce
  then have eq: "name = n0" "ts = show_int t0" "p = encode b0"
    using signed_text_inject [OF iss(4)] D(2,3) by auto
  have "int64 t0" using assms(5) iss(1) by auto
  then have "t = t0" using D(4) eq(2) by (simp add: int64_def)
  moreover have "v = gob_view E v0"
    using D(6,7) eq(3) opened_sealed [OF assms(1,2) iss(2,3)] by simp
  ultimately show ?thesis using iss(1) D(5) eq(1) by blast
qed

section \<open>A concrete instance of the parameters\<close>

definition plain_crypto :: "string crypto" where
  "plain_crypto = \<lparr>mac = (@), ctr = (\<lambda>k iv x. x), gob_enc = (\<lambda>v. Inr (CHR ''g'' # v)),
     gob_dec = (\<lambda>b. case b of [] \<Rightarrow> Inl ''EOF'' | c # v \<Rightarrow> Inr v), gob_view = (\<lambda>v. v), json_enc = Inr, json_dec = Inr\<rparr>"

lemma plain_crypto_ok: "crypto_ok plain_crypto"
  by (auto simp: crypto_ok_def plain_crypto_def)

definition plain_codec :: SecureCookie where
  "plain_codec = NewSecureCookie (Some ''k'') None"

lemma plain_cookie: "Encode plain_crypto plain_codec None 100 ''n'' ''v'' = Inr ''MTAwfFozWT18a258MTAwfFozWT0=''"
  by code_simp

lemma plain_accepted: "DecodeMulti plain_crypto 150 ''n'' ''MTAwfFozWT18a258MTAwfFozWT0='' [plain_codec] = Inr ''v''"
  by code_simp

section \<open>Properties\<close>

text \<open>
  C22. A cookie that some codec of the group accepts under a name was issued under that very name, carries the value
  it was issued with (as gob transmits it), was issued within the age limits of that codec and does not exceed its length limit.
  The hypothesis \<open>unforged\<close> is the unforgeability of the keyed hash for this one presented value.
\<close>

theorem DecodeMulti_authentic:
  assumes "crypto_ok E"
    and "\<forall>s \<in> set codecs. sz s = GobEncoder \<and> (\<forall>key. hashKey s = Some key \<longrightarrow> unforged E s key issued name value)"
    and "\<forall>(n, t, v) \<in> issued. int64 t"
    and "DecodeMulti E now name value codecs = Inr v"
  shows "\<exists>s \<in> set codecs. \<exists>t v0. (name, t, v0) \<in> issued \<and> v = gob_view E v0 \<and> in_window s now t
    \<and> (maxLength s = 0 \<or> int (length value) \<le> maxLength s)"
proof -
  obtain s where s: "s \<in> set codecs" "Decode E s now name value = Inr v"
    using assms(4) by (auto simp: DecodeMulti_def split: if_splits dest!: first_ok_Inr)
  then obtain key where key: "hashKey s = Some key" "maxLength s = 0 \<or> int (length value) \<le> maxLength s"
    unfolding Decode_Inr_iff by blast
  show ?thesis using Decode_issued [OF assms(1) _ key(1) _ assms(3) s(2)] s(1) key assms(2) by blast
qed

theorem DecodeMulti_authentic_witness:
  "\<exists>s \<in> set [plain_codec]. \<exists>t v0. (''n'', t, v0) \<in> {(''n'', 100, ''v'')} \<and> ''v'' = gob_view plain_crypto v0
    \<and> in_window s 150 t \<and> (maxLength s = 0 \<or> int (length ''MTAwfFozWT18a258MTAwfFozWT0='') \<le> maxLength s)"
proof (rule DecodeMulti_authentic [OF plain_crypto_ok _ _ plain_accepted])
  have "unforged plain_crypto plain_codec ''k'' {(''n'', 100, ''v'')} ''n'' ''MTAwfFozWT18a258MTAwfFozWT0=''"
  proof -
    have d: "decode ''MTAwfFozWT18a258MTAwfFozWT0='' = Inr ''100|Z3Y=|kn|100|Z3Y=''"
      "split3 ''100|Z3Y=|kn|100|Z3Y='' = [''100'', ''Z3Y='', ''kn|100|Z3Y='']"
      "sealed plain_crypto plain_codec None ''v'' = Inr ''gv''" "show_int 100 = ''100''" "encode ''gv'' = ''Z3Y=''" "rnd_ok None"
      by code_simp+
    then show ?thesis unfolding unforged_def by auto
  qed
  moreover have "sz plain_codec = GobEncoder \<and> hashKey plain_codec = Some ''k''" by code_simp
  ultimately show "\<forall>s \<in> set [plain_codec]. sz s = GobEncoder
      \<and> (\<forall>key. hashKey s = Some key \<longrightarrow> unforged plain_crypto s key {(''n'', 100, ''v'')} ''n'' ''MTAwfFozWT18a258MTAwfFozWT0='')"
    by simp
  show "\<forall>(n, t, v) \<in> {(''n'', 100, ''v'')}. int64 t" by (simp add: int64_def)
qed

end
