(* ===== verification/Sessions.thy ===== *)
theory Sessions
  imports Secure_Cookie
begin

text \<open>
  \<open>sessions/lex.go\<close>, \<open>sessions/options.go\<close>, \<open>sessions/cookie.go\<close>, \<open>sessions/sessions.go\<close> and the \<open>CookieStore\<close> of
  \<open>sessions/store.go\<close>: a session lives in the cookie itself, sealed by a codec, and the registry of a request keeps
  one session object per name. Times are in seconds, and \<open>Expires\<close> in nanoseconds.
\<close>

section \<open>Names\<close>

definition token_chars :: string where
  "token_chars = ''!#$%&*+-.0123456789ABCDEFGHIJKLMNOPQRSTUWVXYZ^_`abcdefghijklmnopqrstuvwxyz|~'' @ [CHR 0x27]"

definition isToken :: "char \<Rightarrow> bool" where
  "isToken r \<longleftrightarrow> r \<in> set token_chars"

definition isCookieNameValid :: "string \<Rightarrow> bool" where
  "isCookieNameValid raw \<longleftrightarrow> raw \<noteq> [] \<and> list_all isToken raw"

section \<open>Options and cookies\<close>

datatype SameSite = SameSiteUnset | SameSiteDefaultMode | SameSiteLaxMode | SameSiteStrictMode | SameSiteNoneMode

record Options =
  so_Path :: string
  so_Domain :: string
  so_MaxAge :: int
  so_Secure :: bool
  so_HttpOnly :: bool
  so_Partitioned :: bool
  so_SameSite :: SameSite

definition no_options :: Options where
  "no_options = \<lparr>so_Path = [], so_Domain = [], so_MaxAge = 0, so_Secure = False, so_HttpOnly = False, so_Partitioned = False, so_SameSite = SameSiteUnset\<rparr>"

record Cookie =
  ck_Name :: string
  ck_Value :: string
  ck_Options :: Options
  ck_Expires :: "int option"

definition newCookieFromOptions :: "string \<Rightarrow> string \<Rightarrow> Options \<Rightarrow> Cookie" where
  "newCookieFromOptions name value options = \<lparr>ck_Name = name, ck_Value = value, ck_Options = options, ck_Expires = None\<rparr>"

text \<open>The product of a duration wraps around at 64 bits.\<close>

definition NewCookie :: "int \<Rightarrow> string \<Rightarrow> string \<Rightarrow> Options \<Rightarrow> Cookie" where
  "NewCookie now name value options = (let cookie = newCookieFromOptions name value options in
     if so_MaxAge options > 0 then cookie\<lparr>ck_Expires := Some (now * 10 ^ 9 + wrap64 (so_MaxAge options * 10 ^ 9))\<rparr>
     else if so_MaxAge options < 0 then cookie\<lparr>ck_Expires := Some (10 ^ 9)\<rparr>
     else cookie)"

text \<open>\<open>r.Cookie(name)\<close> of \<open>net/http\<close>: the first cookie of that name that the request carries.\<close>

definition request_cookie :: "(string \<times> string) list \<Rightarrow> string \<Rightarrow> string option" where
  "request_cookie cookies name = (if name = [] then None else map_of cookies name)"

section \<open>Sessions\<close>

text \<open>A value of a session is a list of flash messages or a value of the program; the keys in use are strings.\<close>

datatype 'v sval = Flash "'v sval list" | Val 'v

type_synonym 'v svalues = "string \<rightharpoonup> 'v sval"

record CookieStore =
  Codecs :: "SecureCookie list"
  cs_Options :: Options

record ('v, 'st) Session =
  ss_ID :: string
  ss_Values :: "'v svalues"
  ss_Options :: Options
  ss_IsNew :: bool
  ss_store :: "'st option"
  ss_name :: string

definition NewSession :: "'st \<Rightarrow> string \<Rightarrow> ('v, 'st) Session" where
  "NewSession store name = \<lparr>ss_ID = [], ss_Values = Map.empty, ss_Options = no_options, ss_IsNew = False, ss_store = Some store, ss_name = name\<rparr>"

definition flashesKey :: string where
  "flashesKey = ''_flash''"

definition flash_key :: "string list \<Rightarrow> string" where
  "flash_key vars = (case vars of [] \<Rightarrow> flashesKey | v # _ \<Rightarrow> v)"

text \<open>The type assertion panics on a value that is no list.\<close>

definition Flashes :: "string list \<Rightarrow> (('v, 'st) Session, unit, 'v sval list) prog" where
  "Flashes vars = reads ss_Values (\<lambda>vs. case vs (flash_key vars) of
       None \<Rightarrow> ret []
     | Some (Flash fs) \<Rightarrow> update (ss_Values_update (\<lambda>m. m(flash_key vars := None))) (ret fs)
     | Some (Val v) \<Rightarrow> update (ss_Values_update (\<lambda>m. m(flash_key vars := None))) panic)"

definition AddFlash :: "'v sval \<Rightarrow> string list \<Rightarrow> (('v, 'st) Session, unit, unit) prog" where
  "AddFlash value vars = reads ss_Values (\<lambda>vs. case vs (flash_key vars) of
       None \<Rightarrow> update (ss_Values_update (\<lambda>m. m(flash_key vars \<mapsto> Flash [value]))) (ret ())
     | Some (Flash fs) \<Rightarrow> update (ss_Values_update (\<lambda>m. m(flash_key vars \<mapsto> Flash (fs @ [value])))) (ret ())
     | Some (Val v) \<Rightarrow> panic)"

section \<open>The cookie store\<close>

definition CookieStore_MaxAge :: "int \<Rightarrow> CookieStore \<Rightarrow> CookieStore" where
  "CookieStore_MaxAge age s = s\<lparr>cs_Options := (cs_Options s)\<lparr>so_MaxAge := age\<rparr>, Codecs := map (MaxAge age) (Codecs s)\<rparr>"

definition NewCookieStore :: "string option list \<Rightarrow> CookieStore" where
  "NewCookieStore keyPairs = CookieStore_MaxAge (86400 * 30) \<lparr>Codecs = CodecsFromPairs keyPairs,
     cs_Options = no_options\<lparr>so_Path := ''/'', so_MaxAge := 86400 * 30, so_SameSite := SameSiteNoneMode, so_Secure := True\<rparr>\<rparr>"

text \<open>A session whose cookie is refused is answered empty, beside the error.\<close>

definition CookieStore_New ::
  "'v svalues crypto \<Rightarrow> int \<Rightarrow> CookieStore \<Rightarrow> (string \<times> string) list \<Rightarrow> string \<Rightarrow> ('v, CookieStore) Session \<times> cerr option"
where
  "CookieStore_New E now s cookies name = (let session = (NewSession s name)\<lparr>ss_Options := cs_Options s, ss_IsNew := True\<rparr> in
     case request_cookie cookies name of
       None \<Rightarrow> (session, None)
     | Some c \<Rightarrow> (case DecodeMulti E now name c (Codecs s) of
         Inl e \<Rightarrow> (session, Some e)
       | Inr vals \<Rightarrow> (session\<lparr>ss_Values := vals, ss_IsNew := False\<rparr>, None)))"

text \<open>\<open>w\<close> is the list of the cookies set on the response.\<close>

definition CookieStore_Save ::
  "'v svalues crypto \<Rightarrow> string option \<Rightarrow> int \<Rightarrow> CookieStore \<Rightarrow> Cookie list \<Rightarrow> ('v, CookieStore) Session \<Rightarrow> cerr + Cookie list"
where
  "CookieStore_Save E rnd now s w session =
     bind_err (EncodeMulti E rnd now (ss_name session) (ss_Values session) (Codecs s)) (\<lambda>encoded.
       Inr (w @ [NewCookie now (ss_name session) encoded (ss_Options session)]))"

section \<open>The registry of a request\<close>

text \<open>
  The sessions registered so far, by name; the entry is the session object itself, so what a caller changes in a
  session it got is changed in the entry. A store is called through the interface \<open>Store\<close>: its methods are the
  arguments \<open>new\<close> and \<open>save\<close>, which also gets the state \<open>'w\<close> of the store and the response.
\<close>

type_synonym ('v, 'st) Registry = "(string \<times> (('v, 'st) Session \<times> cerr option)) list"

definition Registry_Get ::
  "('st \<Rightarrow> string \<Rightarrow> ('v, 'st) Session \<times> cerr option) \<Rightarrow> 'st \<Rightarrow> string \<Rightarrow> ('v, 'st) Registry
     \<Rightarrow> (('v, 'st) Session option \<times> cerr option) \<times> ('v, 'st) Registry"
where
  "Registry_Get new store name reg =
     (if \<not> isCookieNameValid name
      then ((None, Some (PlainError (''sessions: invalid character in cookie name: '' @ name))), reg)
      else let (session, e) = (case map_of reg name of
                  Some info \<Rightarrow> info
                | None \<Rightarrow> (let (s, e) = new store name in (s\<lparr>ss_name := name\<rparr>, e)));
               session' = session\<lparr>ss_store := Some store\<rparr>
           in ((Some session', e), AList.update name (session', e) reg))"

definition CookieStore_Get ::
  "'v svalues crypto \<Rightarrow> int \<Rightarrow> CookieStore \<Rightarrow> (string \<times> string) list \<Rightarrow> string \<Rightarrow> ('v, CookieStore) Registry
     \<Rightarrow> (('v, CookieStore) Session option \<times> cerr option) \<times> ('v, CookieStore) Registry"
where
  "CookieStore_Get E now s cookies name = Registry_Get (\<lambda>s. CookieStore_New E now s cookies) s name"

text \<open>
  \<open>Session.Save\<close> of every entry, in the order of the list (Go visits a map in any order); \<open>%q\<close> of a valid name only
  puts it in quotes.
\<close>

fun Registry_Save ::
  "(string \<Rightarrow> 'st \<Rightarrow> ('v, 'st) Session \<Rightarrow> 'w \<Rightarrow> cerr option \<times> ('v, 'st) Session \<times> 'w) \<Rightarrow> ('v, 'st) Registry \<Rightarrow> 'w \<Rightarrow> cerr list
     \<Rightarrow> cerr option \<times> ('v, 'st) Registry \<times> 'w"
where
  "Registry_Save save [] w errMulti = ((if errMulti = [] then None else Some (MultiError errMulti)), [], w)"
| "Registry_Save save ((name, session, e) # reg) w errMulti = (case ss_store session of
     None \<Rightarrow> (case Registry_Save save reg w
         (errMulti @ [PlainError (''sessions: missing store for session '' @ [CHR 0x22] @ name @ [CHR 0x22])]) of
       (r, reg', w') \<Rightarrow> (r, (name, session, e) # reg', w'))
   | Some store \<Rightarrow> (case save name store session w of (err, session', w1) \<Rightarrow>
       (case Registry_Save save reg w1 (errMulti @ (case err of None \<Rightarrow> [] | Some x \<Rightarrow>
           [PlainError (''sessions: error saving session '' @ [CHR 0x22] @ name @ [CHR 0x22] @ '' -- '' @ error_text x)])) of
         (r, reg', w') \<Rightarrow> (r, (name, session', e) # reg', w'))))"

section \<open>A saved session comes back\<close>

text \<open>The store that \<open>InitAndRunHttpApi\<close> makes: one codec, with the age limit of the configuration.\<close>

lemma store_codecs:
  "Codecs (CookieStore_MaxAge age (NewCookieStore [hk, bk])) = [MaxAge age (NewSecureCookie hk bk)]"
  by (simp add: CookieStore_MaxAge_def NewCookieStore_def MaxAge_def)

lemma store_codec_fields [simp]:
  "sz (MaxAge age (NewSecureCookie hk bk)) = GobEncoder" "minAge (MaxAge age (NewSecureCookie hk bk)) = 0"
  "maxAge (MaxAge age (NewSecureCookie hk bk)) = age"
  by (auto simp: MaxAge_def NewSecureCookie_def BlockFunc_def Let_def split: option.splits)

lemma Multi_single:
  "EncodeMulti E rnd now name v [c] = Inr x \<longleftrightarrow> Encode E c rnd now name v = Inr x"
  "DecodeMulti E now name x [c] = (case Decode E c now name x of Inr v \<Rightarrow> Inr v | Inl e \<Rightarrow> Inl (MultiError [e]))"
  by (auto simp: EncodeMulti_def DecodeMulti_def split: sum.splits)

lemma CookieStore_Save_InrD:
  assumes "CookieStore_Save E rnd now s w session = Inr w'"
  obtains c where "EncodeMulti E rnd now (ss_name session) (ss_Values session) (Codecs s) = Inr c"
    "w' = w @ [NewCookie now (ss_name session) c (ss_Options session)]"
  using assms by (auto simp: CookieStore_Save_def bind_err_def split: sum.splits)

lemma NewCookie_fields [simp]:
  "ck_Name (NewCookie now name v opts) = name" "ck_Value (NewCookie now name v opts) = v" "ck_Options (NewCookie now name v opts) = opts"
  by (simp_all add: NewCookie_def newCookieFromOptions_def Let_def)

text \<open>The second look-up in a request answers what the first one answered.\<close>

lemma Registry_Get_again:
  assumes "Registry_Get new store name reg = ((Some session, e), reg')"
  shows "Registry_Get new' store name reg' = ((Some session, e), AList.update name (session, e) reg')"
  using assms by (auto simp: Registry_Get_def Let_def update_conv split: if_splits option.splits prod.splits)

lemma CookieStore_New_after_Save:
  assumes "crypto_ok E" "rnd_ok rnd" "int64 t" "store = CookieStore_MaxAge age (NewCookieStore [hk, bk])"
    and "CookieStore_Save E rnd t store w session = Inr w'"
  obtains v where "w' = w @ [NewCookie t (ss_name session) v (ss_Options session)]"
    and "\<And>now cookies. request_cookie cookies (ss_name session) = Some v \<Longrightarrow>
      \<exists>e. CookieStore_New E now store cookies (ss_name session) =
        (let s = (NewSession store (ss_name session))\<lparr>ss_Options := cs_Options store, ss_IsNew := True\<rparr> in
         if age = 0 \<or> wrap64 (now - age) \<le> t then (s\<lparr>ss_Values := gob_view E (ss_Values session), ss_IsNew := False\<rparr>, None)
         else (s, Some e))"
proof -
  let ?c = "MaxAge age (NewSecureCookie hk bk)"
  obtain v where v: "Encode E ?c rnd t (ss_name session) (ss_Values session) = Inr v"
    "w' = w @ [NewCookie t (ss_name session) v (ss_Options session)]"
    using assms(4,5) by (elim CookieStore_Save_InrD) (simp add: store_codecs Multi_single)
  have win: "in_window ?c now t \<longleftrightarrow> age = 0 \<or> wrap64 (now - age) \<le> t" for now by (auto simp: in_window_def)
  have D: "Codecs store = [?c]" using assms(4) by (simp add: store_codecs)
  show ?thesis
  proof (rule that [OF v(2)])
    fix now cookies assume "request_cookie cookies (ss_name session) = Some v"
    then show "\<exists>e. CookieStore_New E now store cookies (ss_name session) =
        (let s = (NewSession store (ss_name session))\<lparr>ss_Options := cs_Options store, ss_IsNew := True\<rparr> in
         if age = 0 \<or> wrap64 (now - age) \<le> t then (s\<lparr>ss_Values := gob_view E (ss_Values session), ss_IsNew := False\<rparr>, None)
         else (s, Some e))"
      using Decode_of_Encode [OF assms(1) _ assms(2,3) v(1), of now] D
      by (auto simp: CookieStore_New_def Let_def Multi_single win)
  qed
qed

text \<open>
  C23. With the store the server sets up, saving a session adds one cookie of the session's name to the response, and
  a later request that carries it gets the same values back (as gob transmits them) while the cookie is at most
  \<open>age\<close> seconds old; afterwards it gets an empty new session and an error.
\<close>

theorem CookieStore_roundtrip:
  assumes "crypto_ok E" "rnd_ok rnd" "int64 t"
    and "store = CookieStore_MaxAge age (NewCookieStore [hk, bk])"
    and "CookieStore_Save E rnd t store w session = Inr w'"
    and "request_cookie cookies (ss_name session) = Some (ck_Value (last w'))"
  shows "(\<exists>c. w' = w @ [c] \<and> ck_Name c = ss_name session \<and> ck_Options c = ss_Options session)
    \<and> (case CookieStore_New E now store cookies (ss_name session) of (session', e) \<Rightarrow>
      ss_name session' = ss_name session \<and>
      (if age = 0 \<or> wrap64 (now - age) \<le> t
       then e = None \<and> \<not> ss_IsNew session' \<and> ss_Values session' = gob_view E (ss_Values session)
       else e \<noteq> None \<and> ss_IsNew session' \<and> ss_Values session' = Map.empty))"
proof -
  obtain v where v: "w' = w @ [NewCookie t (ss_name session) v (ss_Options session)]"
    and new: "\<And>now cookies. request_cookie cookies (ss_name session) = Some v \<Longrightarrow>
      \<exists>e. CookieStore_New E now store cookies (ss_name session) =
        (let s = (NewSession store (ss_name session))\<lparr>ss_Options := cs_Options store, ss_IsNew := True\<rparr> in
         if age = 0 \<or> wrap64 (now - age) \<le> t then (s\<lparr>ss_Values := gob_view E (ss_Values session), ss_IsNew := False\<rparr>, None)
         else (s, Some e))"
    using CookieStore_New_after_Save [OF assms(1-5)] by blast
  have "request_cookie cookies (ss_name session) = Some v" using assms(6) v by simp
  from new [OF this, of now] v show ?thesis by (auto simp: NewSession_def Let_def)
qed

text \<open>A gob that knows sessions with one string value under the key \<open>u\<close>.\<close>

definition toy_sessions :: "string svalues crypto" where
  "toy_sessions = \<lparr>mac = (@), ctr = (\<lambda>k iv x. x),
     gob_enc = (\<lambda>m. case m ''u'' of Some (Val c) \<Rightarrow> Inr (CHR ''g'' # c) | _ \<Rightarrow> Inl ''gob: type not registered''),
     gob_dec = (\<lambda>b. case b of [] \<Rightarrow> Inl ''EOF'' | _ # c \<Rightarrow> Inr [''u'' \<mapsto> Val c]),
     gob_view = (\<lambda>m. m |` {''u''}), json_enc = (\<lambda>m. Inl []), json_dec = (\<lambda>b. Inl [])\<rparr>"

lemma toy_sessions_ok: "crypto_ok toy_sessions"
  by (auto simp: crypto_ok_def toy_sessions_def restrict_map_def fun_eq_iff split: option.splits sval.splits)

definition toy_store :: CookieStore where
  "toy_store = CookieStore_MaxAge 3600 (NewCookieStore [Some ''key'', Some ''0123456789abcdef''])"

definition toy_session :: "(string, CookieStore) Session" where
  "toy_session = (NewSession toy_store ''s'')\<lparr>ss_Values := [''u'' \<mapsto> Val ''x'']\<rparr>"

lemma toy_save: "\<not> isl (CookieStore_Save toy_sessions (Some ''fedcba9876543210'') 1000 toy_store [] toy_session)"
  by code_simp

theorem CookieStore_roundtrip_witness:
  "\<exists>w'. CookieStore_Save toy_sessions (Some ''fedcba9876543210'') 1000 toy_store [] toy_session = Inr w'
    \<and> (case CookieStore_New toy_sessions 4600 toy_store [(''s'', ck_Value (last w'))] ''s'' of (session', e) \<Rightarrow>
        e = None \<and> ss_Values session' = [''u'' \<mapsto> Val ''x''])
    \<and> (case CookieStore_New toy_sessions 4601 toy_store [(''s'', ck_Value (last w'))] ''s'' of (session', e) \<Rightarrow> e \<noteq> None)"
proof -
  obtain w' where save: "CookieStore_Save toy_sessions (Some ''fedcba9876543210'') 1000 toy_store [] toy_session = Inr w'"
    using toy_save by (cases "CookieStore_Save toy_sessions (Some ''fedcba9876543210'') 1000 toy_store [] toy_session") auto
  have name: "ss_name toy_session = ''s''" "ss_Values toy_session = [''u'' \<mapsto> Val ''x'']"
    "gob_view toy_sessions [''u'' \<mapsto> Val ''x''] = [''u'' \<mapsto> Val ''x'']"
    by (auto simp: toy_session_def NewSession_def toy_sessions_def)
  have win: "wrap64 (4600 - 3600) \<le> 1000" "\<not> wrap64 (4601 - 3600) \<le> 1000" by code_simp+
  have "rnd_ok (Some ''fedcba9876543210'')" "int64 1000"
    "request_cookie [(''s'', ck_Value (last w'))] (ss_name toy_session) = Some (ck_Value (last w'))"
    by (simp_all add: rnd_ok_def int64_def request_cookie_def name)
  note R = CookieStore_roundtrip [OF toy_sessions_ok this(1,2) toy_store_def save this(3)]
  show ?thesis using save R [of 4600] R [of 4601] win by (auto simp: name split: prod.splits)
qed

end
