(* ===== verification/Http_Gate.thy ===== *)
theory Http_Gate
  imports Sessions Data_Scope
begin

text \<open>
  \<open>face/http/wx_api.go\<close> and \<open>face/core/api_context.go\<close>: what stands between a request and its handler. The route table
  is \<open>apis\<close>; a call of a handler is the answer \<open>Handle\<close> with the request and the session the handler receives, and
  the handlers themselves are outside. Bodies of refusals are left out, header names are compared in one spelling.
\<close>

section \<open>Requests, configuration, state\<close>

text \<open>What a session can hold under a key: a user (a pointer until gob has transmitted it), nil, or another type.\<close>

datatype sess_val = UserV User | UserPtr User | NilV | OtherV

type_synonym passport_session = "(sess_val, CookieStore) Session"

record request =
  rq_Method :: string
  rq_Header :: "(string \<times> string) list"
  rq_Cookies :: "(string \<times> string) list"
  rq_uri :: "string option"   \<comment> \<open>the path in \<open>RequestURI\<close>, \<open>None\<close> when \<open>url.Parse\<close> fails\<close>
  rq_path :: string           \<comment> \<open>\<open>r.URL.Path\<close>\<close>

definition header :: "request \<Rightarrow> string \<Rightarrow> string" where
  "header r k = (case map_of (rq_Header r) k of Some v \<Rightarrow> v | None \<Rightarrow> [])"

text \<open>
  The configuration: \<open>SessionKey\<close>, \<open>ApiConf\<close> (each with its \<open>NeedAccess\<close>), the session store and the libraries.
\<close>

record 'c server =
  sv_SessionKey :: string
  sv_ApiConf :: "(string \<times> bool) list"
  sv_store :: CookieStore
  sv_crypto :: "sess_val svalues crypto"
  sv_env :: "'c env"

text \<open>\<open>loginUserCache\<close> beside the state of the services.\<close>

record 'c gate =
  g_world :: "'c world"
  g_users :: "(u64 \<times> User) list"

type_synonym ('c, 'a) gprog = "('c gate, gerr, 'a) prog"

definition on_world :: "('c, 'a) dao \<Rightarrow> ('c, 'a) gprog" where
  "on_world m = (\<lambda>g. case m (g_world g) of (x, w') \<Rightarrow> (x, g\<lparr>g_world := w'\<rparr>))"

definition SessUserInfoKey :: string where
  "SessUserInfoKey = ''sess-user''"

section \<open>\<open>api_context.go\<close>\<close>

definition ParseOrgID :: "request \<Rightarrow> u64" where
  "ParseOrgID r = (let s = TrimSpace (header r ''X-Org-Id'') in
     if s = [] then 0 else let (v, e) = ParseUint s in if e \<or> v = 0 then 0 else v)"

text \<open>
  \<open>sessionStore.Get(r, SessionKey)\<close>. \<open>ServeHTTP\<close> replaces the context of the request, registry included, so every
  call reads the cookie anew.
\<close>

definition session_of :: "'c server \<Rightarrow> request \<Rightarrow> 'c gate \<Rightarrow> passport_session option \<times> cerr option" where
  "session_of sv r g = fst (CookieStore_Get (sv_crypto sv) (w_now (g_world g)) (sv_store sv) (rq_Cookies r) (sv_SessionKey sv) [])"

text \<open>\<open>sess.Values[common.SessUserInfoKey].(protos.User)\<close>\<close>

definition session_user :: "passport_session \<Rightarrow> User option" where
  "session_user sess = (case ss_Values sess SessUserInfoKey of Some (Val (UserV u)) \<Rightarrow> Some u | _ \<Rightarrow> None)"

text \<open>
  \<open>AuthFilter\<close>. A cached user is used as long as it was looked at in the last 600 seconds; looking at it renews the
  time. An error of \<open>GetUserInfo\<close> is dropped.
\<close>

definition AuthFilter :: "'c server \<Rightarrow> request \<Rightarrow> ('c, passport_session option \<times> bool) gprog" where
  "AuthFilter sv r = reads (session_of sv r) (\<lambda>(session, e).
     if e \<noteq> None then ret (None, False) else
     (case session of None \<Rightarrow> panic | Some sess \<Rightarrow>
     (case session_user sess of None \<Rightarrow> ret (None, False) | Some su \<Rightarrow>
     let uid = u_UID su in
     if \<not> IsRealUserUID uid then ret (None, False) else
     reads (\<lambda>g. (map_of (g_users g) uid, w_now (g_world g))) (\<lambda>(found, now).
     handle (if found = None \<or> now - u_CacheTime (the found) > 600
             then handle (on_world (GetUserInfo uid)) (\<lambda>_. ret None) (\<lambda>u. ret (Some u))
             else ret found) throw (\<lambda>cached.
     (case cached of None \<Rightarrow> ret (None, False) | Some u \<Rightarrow>
     update (g_users_update (AList.update uid (u\<lparr>u_CacheTime := now\<rparr>))) (
     if ext_disabled (u_Ext u) then ret (None, False) else ret (Some sess, True))))))))"

text \<open>\<open>None\<close> stands for the zero value of \<open>User\<close>.\<close>

definition GetSessionUser :: "'c server \<Rightarrow> request \<Rightarrow> ('c, User option) gprog" where
  "GetSessionUser sv r = tryE (AuthFilter sv r) (\<lambda>(sess, _).
     case sess of None \<Rightarrow> ret None | Some s \<Rightarrow> ret (session_user s))"

definition SessionOrgID :: "'c server \<Rightarrow> request \<Rightarrow> u64 \<Rightarrow> ('c, u64) gprog" where
  "SessionOrgID sv r tenantID = (let orgID = ParseOrgID r in
     tryE (GetSessionUser sv r) (\<lambda>su.
     tryE (on_world (UserInOrg (case su of None \<Rightarrow> 0 | Some u \<Rightarrow> u_UID u) tenantID orgID)) (\<lambda>_. ret orgID)))"

section \<open>The routes\<close>

text \<open>Name, \<open>NeedLogin\<close>, \<open>NeedAccess\<close>.\<close>

definition apis :: "(string \<times> (bool \<times> bool)) list" where
  "apis = [
    (''user/register'', (False, False)), (''user/login'', (False, False)),
    (''user/auth'', (True, False)), (''user/logout'', (True, False)),
    (''user/info'', (True, False)), (''user/infoByUID'', (True, False)),
    (''user/modify'', (True, False)), (''user/modify/password'', (True, False)),
    (''user/modify/getbackpwd'', (False, False)), (''user/modify/avatarForm'', (True, False)),
    (''user/s/1'', (False, False)), (''access/addRoleForUser'', (True, True)),
    (''access/updateRoleForUser'', (True, True)), (''access/removeRoleForUser'', (True, True)),
    (''access/getRolesForMe'', (True, False)), (''access/getRolesForUser'', (True, True)),
    (''access/getUsersForRole'', (True, True)), (''access/addPolicyToRole'', (True, True)),
    (''access/removePolicyFromRole'', (True, True)), (''access/getPolicy'', (True, True)),
    (''access/getPolicyForUser'', (True, False)), (''access/createPermission'', (True, True)),
    (''access/deletePermission'', (True, True)), (''access/listPermission'', (True, True)),
    (''tenant/add'', (True, False)), (''tenant/user/add'', (True, True)),
    (''tenant/delUser'', (True, True)), (''tenant/getUsers'', (True, True)),
    (''tenant/userDisableByUID'', (True, True)), (''tenant/userModifyExtInfo'', (True, True)),
    (''tenant/modifyUserPassword'', (True, True)), (''tenant/user/setDepartment'', (True, True)),
    (''tenant/addRole'', (True, True)), (''tenant/delRole'', (True, True)),
    (''tenant/getRoles'', (True, True)), (''tenant/updateConfiguration'', (True, True)),
    (''tenant/loadConfiguration'', (True, False)), (''tenant/tree/list'', (True, False)),
    (''tenant/department/add'', (True, True)), (''tenant/department/delete'', (True, True)),
    (''tenant/department/update'', (True, True)), (''tenant/department/updatecfg'', (True, True)),
    (''tenant/department/list'', (True, False)), (''admin/tenant/new'', (True, False)),
    (''admin/user/list'', (True, False)), (''admin/user/add'', (True, False)),
    (''admin/user/del'', (True, False)), (''admin/user/edit'', (True, False)),
    (''admin/tenant/query'', (True, False)), (''admin/tenant/setParent'', (True, False)),
    (''admin/tenant/delete'', (True, False)), (''admin/tenant/update'', (True, False)),
    (''admin/updateTenantConfiguration'', (True, False)), (''admin/modifyUserPassword'', (True, False)),
    (''admin/tenant/update_config'', (True, False)), (''sms/sendUserAddSmsCode'', (False, False)),
    (''sms/sendUserLoginSms'', (False, False)), (''sms/sendGetBackPwdSms'', (False, False)),
    (''sms/sendWxBindSms'', (False, False)), (''wx/bindCellphone'', (True, False)),
    (''wx/miniapp/updateInfo'', (True, False))]"

section \<open>\<open>AccessFilter\<close>\<close>

text \<open>The first non-empty one of the header \<open>X-Requested-By\<close>, the header \<open>X-API\<close> and the path.\<close>

definition access_object :: "request \<Rightarrow> string" where
  "access_object r = (if header r ''X-Requested-By'' \<noteq> [] then header r ''X-Requested-By''
     else if header r ''X-API'' \<noteq> [] then header r ''X-API'' else rq_path r)"

definition object_needs_access :: "'c server \<Rightarrow> string \<Rightarrow> bool option" where
  "object_needs_access sv obj = (case map_of apis obj of
       Some (_, needAccess) \<Rightarrow> Some needAccess
     | None \<Rightarrow> (case map_of (sv_ApiConf sv) obj of Some b \<Rightarrow> Some b | None \<Rightarrow> map_of (sv_ApiConf sv) ''*''))"

definition AccessFilter :: "'c server \<Rightarrow> request \<Rightarrow> ('c, bool) gprog" where
  "AccessFilter sv r = reads (session_of sv r) (\<lambda>(session, e).
     if e \<noteq> None then ret False else
     (case session of None \<Rightarrow> panic | Some sess \<Rightarrow>
     (case session_user sess of None \<Rightarrow> ret False | Some su \<Rightarrow>
     if u_UID su \<le> 0 then ret False else
     let obj = access_object r in
     if obj = [] then ret False else
     reads (\<lambda>g. w_root (g_world g)) (\<lambda>rootTenant.
     if HasPrefix obj ''admin/'' \<and> u_TenantID su \<noteq> rootTenant then ret False else
     (case object_needs_access sv obj of None \<Rightarrow> ret False
     | Some needAccess \<Rightarrow>
       if \<not> needAccess then ret True else
       let orgID = ParseOrgID r in
       if orgID = 0 then ret False else
       handle (on_world (UserInOrg (u_UID su) (u_TenantID su) orgID)) (\<lambda>_. ret False) (\<lambda>_.
       handle (on_world (Enforce (enforcer (sv_env sv)) (u_UID su) (u_TenantID su) orgID obj (rq_Method r))) (\<lambda>_. ret False) ret))))))"

section \<open>\<open>ServeHTTP\<close>\<close>

text \<open>
  A refusal with its status, or the call of the handler of a route. The headers for cross-origin requests are added
  to the request, so no answer carries them.
\<close>

datatype served = Reply nat | Handle string request "passport_session option"

definition cors_headers :: "string \<Rightarrow> (string \<times> string) list" where
  "cors_headers origin = [(''Access-Control-Allow-Origin'', origin),
     (''Access-Control-Allow-Methods'', ''POST, GET, OPTIONS, PUT, DELETE, UPDATE''),
     (''Access-Control-Allow-Headers'', ''Origin, X-Requested-With, X-Extra-Header, Content-Type, Accept, Authorization, X-API, X-Org-Id''),
     (''Access-Control-Expose-Headers'', ''Content-Length, Access-Control-Allow-Origin, Access-Control-Allow-Headers, Cache-Control, Content-Language, Content-Type''),
     (''Access-Control-Allow-Credentials'', ''true''), (''Access-Control-Max-Age'', ''86400'')]"

definition with_cors :: "request \<Rightarrow> request" where
  "with_cors r = (if header r ''Origin'' \<noteq> [] then r\<lparr>rq_Header := rq_Header r @ cors_headers (header r ''Origin'')\<rparr> else r)"

definition requested_api :: "request \<Rightarrow> string option" where
  "requested_api r = (if header r ''X-API'' \<noteq> [] then Some (header r ''X-API'') else rq_uri r)"

definition ServeHTTP :: "'c server \<Rightarrow> request \<Rightarrow> ('c, served) gprog" where
  "ServeHTTP sv r0 = (let r = with_cors r0 in
     if rq_Method r = ''OPTIONS'' then ret (Reply 204) else
     (case requested_api r of
       None \<Rightarrow> panic
     | Some apiName \<Rightarrow>
       if apiName = [] then ret (Reply 405) else
       (case map_of apis apiName of
         None \<Rightarrow> ret (Reply 405)
       | Some (needLogin, needAccess) \<Rightarrow>
         tryE (if needLogin then AuthFilter sv r else ret (None, True)) (\<lambda>(sess, auth).
         if needLogin \<and> \<not> auth \<and> sess = None then ret (Reply 401)
         else if needLogin \<and> \<not> auth then ret (Reply 403)
         else tryE (if needAccess then AccessFilter sv r else ret True) (\<lambda>access.
           if \<not> access then ret (Reply 403) else ret (Handle apiName r sess))))))"

section \<open>What the filters decide\<close>

lemma wp_on_world [wp_simps]:
  "wp (on_world m) Q E g = wp m (\<lambda>x w'. Q x (g\<lparr>g_world := w'\<rparr>)) (\<lambda>e w'. E e (g\<lparr>g_world := w'\<rparr>)) (g_world g)"
  by (simp add: wp_def on_world_def split: prod.splits res.splits)

lemma wp_ifI: "(c \<Longrightarrow> wp m Q E w) \<Longrightarrow> (\<not> c \<Longrightarrow> wp n Q E w) \<Longrightarrow> wp (if c then m else n) Q E w"
  by simp

lemma wp_optionI: "(z = None \<Longrightarrow> wp m Q E w) \<Longrightarrow> (\<And>x. z = Some x \<Longrightarrow> wp (n x) Q E w) \<Longrightarrow> wp (case z of None \<Rightarrow> m | Some x \<Rightarrow> n x) Q E w"
  by (cases z) auto

lemma wp_cong: "m w = m' w \<Longrightarrow> wp m' Q E w \<Longrightarrow> wp m Q E w"
  by (simp add: wp_def)

text \<open>The store never answers a nil session without an error.\<close>

lemma session_of_None: "session_of sv r g = (None, e) \<Longrightarrow> e \<noteq> None"
  by (auto simp: session_of_def CookieStore_Get_def Registry_Get_def Let_def split: if_splits prod.splits)

lemma session_of_time: "w_now (g_world g') = w_now (g_world g) \<Longrightarrow> session_of sv r g' = session_of sv r g"
  by (simp add: session_of_def)

definition user_row :: "u64 \<Rightarrow> 'c gate \<Rightarrow> User option" where
  "user_row uid g = find (\<lambda>u. u_UID u = uid) (users (w_db (g_world g)))"

text \<open>
  What a positive answer of \<open>AuthFilter\<close> stands for: a valid cookie of a real user who is not disabled, by the row
  in the table or by an entry of the cache that was looked at in the last 600 seconds.
\<close>

definition let_in :: "'c server \<Rightarrow> request \<Rightarrow> 'c gate \<Rightarrow> passport_session \<Rightarrow> bool" where
  "let_in sv r g sess \<longleftrightarrow> session_of sv r g = (Some sess, None) \<and> (\<exists>su u. session_user sess = Some su \<and> IsRealUserUID (u_UID su)
     \<and> \<not> ext_disabled (u_Ext u)
     \<and> (user_row (u_UID su) g = Some u
        \<or> map_of (g_users g) (u_UID su) = Some u \<and> w_now (g_world g) - u_CacheTime u \<le> 600))"

text \<open>Only the list of faults was consumed.\<close>

definition still :: "'c world \<Rightarrow> 'c world \<Rightarrow> bool" where
  "still w w' \<longleftrightarrow> calm w w' \<and> w_cache w' = w_cache w"

lemma still_simps [simp]: "still w w" "still w w' \<Longrightarrow> still w (db_tick w')"
  by (simp_all add: still_def)

lemma still_fields: "still w w' \<Longrightarrow> calm w w' \<and> w_db w' = w_db w \<and> w_now w' = w_now w \<and> w_root w' = w_root w \<and> w_casbin w' = w_casbin w \<and> orgs_cached w' = orgs_cached w"
  using calm_fields [of w w'] orgs_cached_same [of w' w] by (auto simp: still_def)

lemma wp_GetUserInfo:
  "wp (GetUserInfo uid) (\<lambda>u w'. still w w' \<and> (\<exists>row. find (\<lambda>u. u_UID u = uid) (users (w_db w)) = Some row \<and> u = row\<lparr>u_Password := []\<rparr>))
     (\<lambda>e w'. still w w') w"
  by (auto simp: GetUserInfo_def wp_failIf wp_tryE wp_UserQueryByID wp_throw wp_ret split: option.splits)

lemma wp_AuthFilter:
  "wp (AuthFilter sv r) (\<lambda>(s, auth) g'. still (g_world g) (g_world g') \<and> (auth \<longleftrightarrow> s \<noteq> None) \<and> (\<forall>sess. s = Some sess \<longrightarrow> let_in sv r g sess))
     (\<lambda>e g'. False) g" (is "wp _ ?Q ?E _")
proof -
  obtain s e where so: "session_of sv r g = (s, e)" by (cases "session_of sv r g")
  consider (refuse) "e \<noteq> None \<or> (\<exists>sess. s = Some sess \<and> (session_user sess = None \<or> (\<exists>su. session_user sess = Some su \<and> \<not> IsRealUserUID (u_UID su))))"
    | (user) sess su where "e = None" "s = Some sess" "session_user sess = Some su" "IsRealUserUID (u_UID su)"
    using session_of_None [of sv r g e] so by (cases s; cases "session_user (the s)") auto
  then show ?thesis
  proof cases
    case refuse
    then show ?thesis by (auto simp: AuthFilter_def wp_reads so wp_ret Let_def split: option.splits)
  next
    case user
    let ?uid = "u_UID su" and ?now = "w_now (g_world g)"
    let ?rest = "\<lambda>cached. case cached of None \<Rightarrow> ret (None, False) | Some u \<Rightarrow>
       update (g_users_update (AList.update ?uid (u\<lparr>u_CacheTime := ?now\<rparr>)))
         (if ext_disabled (u_Ext u) then ret (None, False) else ret (Some sess, True))"
    have ok: "wp (?rest (Some u)) ?Q ?E g1" if "still (g_world g) (g_world g1)" "\<not> ext_disabled (u_Ext u) \<longrightarrow> let_in sv r g sess" for g1 u
      using that by (simp add: wp_update wp_ret)
    have no: "wp (?rest None) ?Q ?E g1" if "still (g_world g) (g_world g1)" for g1
      using that by (simp add: wp_ret)
    have fresh: "let_in sv r g sess" if "map_of (g_users g) ?uid = Some u" "?now - u_CacheTime u \<le> 600" "\<not> ext_disabled (u_Ext u)" for u
      using that user so unfolding let_in_def by blast
    have row: "let_in sv r g sess" if "find (\<lambda>u. u_UID u = ?uid) (users (w_db (g_world g))) = Some u" "\<not> ext_disabled (u_Ext u)" for u
      using that user so unfolding let_in_def user_row_def by blast
    have load: "wp (handle (on_world (GetUserInfo ?uid)) (\<lambda>_. ret None) (\<lambda>u. ret (Some u)))
      (\<lambda>cached. wp (?rest cached) ?Q ?E) (\<lambda>e. wp (throw e) ?Q ?E) g"
      unfolding wp_handle wp_on_world wp_ret
    proof (rule wp_mono [OF wp_GetUserInfo], elim conjE exE)
      fix u w' rw
      assume "still (g_world g) w'" "find (\<lambda>u. u_UID u = ?uid) (users (w_db (g_world g))) = Some rw" "u = rw\<lparr>u_Password := []\<rparr>"
      then show "wp (?rest (Some u)) ?Q ?E (g\<lparr>g_world := w'\<rparr>)" by (intro ok) (auto intro: row)
    next
      fix e' w' assume "still (g_world g) w'"
      then show "wp (?rest None) ?Q ?E (g\<lparr>g_world := w'\<rparr>)" by (intro no) simp
    qed
    have hit: "wp (ret (Some u)) (\<lambda>cached. wp (?rest cached) ?Q ?E) (\<lambda>e. wp (throw e) ?Q ?E) g"
      if "map_of (g_users g) ?uid = Some u" "?now - u_CacheTime u \<le> 600" for u
      unfolding wp_ret by (rule ok) (use that fresh in auto)
    have fetch: "wp (if map_of (g_users g) ?uid = None \<or> 600 < ?now - u_CacheTime (the (map_of (g_users g) ?uid))
        then handle (on_world (GetUserInfo ?uid)) (\<lambda>_. ret None) (\<lambda>u. ret (Some u)) else ret (map_of (g_users g) ?uid))
      (\<lambda>cached. wp (?rest cached) ?Q ?E) (\<lambda>e. wp (throw e) ?Q ?E) g" (is "wp (if ?c then _ else _) _ _ _")
    proof (cases ?c)
      case True
      then show ?thesis using load by (simp only: if_True)
    next
      case False
      then obtain u where u: "map_of (g_users g) ?uid = Some u" "?now - u_CacheTime u \<le> 600" by auto
      show ?thesis using False hit [OF u] unfolding u(1) by (simp only: if_False)
    qed
    show ?thesis
      unfolding AuthFilter_def wp_reads so prod.case Let_def user(1-3) option.case
      using fetch user(4) by (simp only: simp_thms if_False if_True wp_reads prod.case wp_handle)
  qed
qed

text \<open>What a positive answer of \<open>AccessFilter\<close> stands for, in terms of the object it was asked for.\<close>

definition permitted :: "'c server \<Rightarrow> ('c \<Rightarrow> rule set) \<Rightarrow> ('c \<Rightarrow> grouping set) \<Rightarrow> request \<Rightarrow> 'c gate \<Rightarrow> User \<Rightarrow> bool" where
  "permitted sv pol grp r g su \<longleftrightarrow> (let cb = enforcer (sv_env sv); obj = access_object r; c = w_casbin (g_world g);
       sub = genUserByUID (u_UID su); dm = Domain (u_TenantID su) (ParseOrgID r) in
     obj \<noteq> [] \<and> (HasPrefix obj ''admin/'' \<longrightarrow> u_TenantID su = w_root (g_world g))
     \<and> (object_needs_access sv obj = Some False
        \<or> object_needs_access sv obj = Some True \<and> ParseOrgID r \<noteq> 0
          \<and> in_org (w_db (g_world g)) (u_UID su) (u_TenantID su) (ParseOrgID r)
          \<and> matcher (pol c) (grp c) (cb_GetRoles cb sub dm c) sub dm obj (rq_Method r)))"

lemma wp_AccessFilter:
  assumes oc: "orgs_cached (g_world g)" and cb: "casbin_ok (enforcer (sv_env sv)) pol grp"
  shows "wp (AccessFilter sv r) (\<lambda>b g'. calm (g_world g) (g_world g') \<and> orgs_cached (g_world g') \<and> g_users g' = g_users g
      \<and> (b \<longrightarrow> (\<exists>sess su. session_of sv r g = (Some sess, None) \<and> session_user sess = Some su \<and> permitted sv pol grp r g su)))
    (\<lambda>e g'. False) g" (is "wp _ ?Q ?E _")
proof -
  obtain s e where so: "session_of sv r g = (s, e)" by (cases "session_of sv r g")
  have no: "wp (ret False) ?Q ?E g" using oc by (simp add: wp_ret)
  consider (refuse) "e \<noteq> None \<or> (\<exists>sess. s = Some sess \<and> session_user sess = None)"
    | (user) sess su where "e = None" "s = Some sess" "session_user sess = Some su"
    using session_of_None [of sv r g e] so by (cases s; cases "session_user (the s)") auto
  then show ?thesis
  proof cases
    case refuse
    then show ?thesis using oc by (auto simp: AccessFilter_def wp_reads so wp_ret split: option.splits)
  next
    case user
    let ?obj = "access_object r" and ?org = "ParseOrgID r" and ?w = "g_world g"
    let ?cb = "enforcer (sv_env sv)" and ?sub = "genUserByUID (u_UID su)" and ?dm = "Domain (u_TenantID su) (ParseOrgID r)"
    have ask: "wp (handle (on_world (UserInOrg (u_UID su) (u_TenantID su) ?org)) (\<lambda>_. ret False) (\<lambda>_.
        handle (on_world (Enforce ?cb (u_UID su) (u_TenantID su) ?org ?obj (rq_Method r))) (\<lambda>_. ret False) ret)) ?Q ?E g"
      if need: "object_needs_access sv ?obj = Some True" "?obj \<noteq> []" "?org \<noteq> 0"
        "HasPrefix ?obj ''admin/'' \<longrightarrow> u_TenantID su = w_root ?w"
      unfolding wp_handle wp_on_world
    proof (rule wp_mono [OF wp_UserInOrg [OF oc]], elim conjE)
      fix x w' assume m: "in_org (w_db ?w) (u_UID su) (u_TenantID su) ?org" "calm ?w w'" "orgs_cached w'"
      show "wp (Enforce ?cb (u_UID su) (u_TenantID su) ?org ?obj (rq_Method r))
          (\<lambda>x w''. wp (ret x) ?Q ?E (g\<lparr>g_world := w', g_world := w''\<rparr>)) (\<lambda>e w''. wp (ret False) ?Q ?E (g\<lparr>g_world := w', g_world := w''\<rparr>)) (g_world (g\<lparr>g_world := w'\<rparr>))"
      proof (rule wp_mono [OF wp_Enforce [OF cb]])
        fix b w'' assume "w'' = g_world (g\<lparr>g_world := w'\<rparr>) \<and> (b \<longrightarrow> cb_Enforce ?cb ?sub ?dm ?obj (rq_Method r) (w_casbin (g_world (g\<lparr>g_world := w'\<rparr>))) = Ret True)"
        then have b: "w'' = w'" "b \<longrightarrow> cb_Enforce ?cb ?sub ?dm ?obj (rq_Method r) (w_casbin ?w) = Ret True"
          using calm_fields [OF m(2)] by auto
        have "permitted sv pol grp r g su" if b
          using b(2) that casbin_enforce [OF cb] need m(1) by (simp add: permitted_def Let_def)
        then show "wp (ret b) ?Q ?E (g\<lparr>g_world := w', g_world := w''\<rparr>)"
          using b(1) m user so by (simp add: wp_ret)
      qed (use m in \<open>simp add: wp_ret\<close>)
    next
      fix e' w' assume "calm ?w w' \<and> orgs_cached w' \<and> (w_faults ?w \<noteq> [] \<and> e' = ErrService
         \<or> \<not> in_org (w_db ?w) (u_UID su) (u_TenantID su) ?org \<and> e' \<in> {ErrOrgRequired, ErrOrgNotFound, ErrNoAuth})"
      then show "wp (ret False) ?Q ?E (g\<lparr>g_world := w'\<rparr>)" by (simp add: wp_ret)
    qed
    have open_obj: "wp (ret True) ?Q ?E g"
      if "object_needs_access sv ?obj = Some False" "?obj \<noteq> []" "HasPrefix ?obj ''admin/'' \<longrightarrow> u_TenantID su = w_root ?w"
      using that user so oc by (simp add: wp_ret permitted_def Let_def)
    let ?prog = "if u_UID su \<le> 0 then ret False else if ?obj = [] then ret False
       else if HasPrefix ?obj ''admin/'' \<and> u_TenantID su \<noteq> w_root ?w then ret False
       else (case object_needs_access sv ?obj of None \<Rightarrow> ret False
         | Some needAccess \<Rightarrow> if \<not> needAccess then ret True else if ?org = 0 then ret False
           else handle (on_world (UserInOrg (u_UID su) (u_TenantID su) ?org)) (\<lambda>_. ret False) (\<lambda>_.
             handle (on_world (Enforce ?cb (u_UID su) (u_TenantID su) ?org ?obj (rq_Method r))) (\<lambda>_. ret False) ret))"
    have "AccessFilter sv r g = ?prog g"
      unfolding AccessFilter_def reads_def so Let_def by (simp add: user)
    moreover have "wp ?prog ?Q ?E g"
      by (intro wp_ifI wp_optionI no) (rule open_obj ask; force)+
    ultimately show ?thesis by (rule wp_cong)
  qed
qed

section \<open>The whole gate\<close>

lemma header_with_cors:
  "k \<notin> fst ` set (cors_headers []) \<Longrightarrow> header (with_cors r) k = header r k"
  by (auto simp: header_def with_cors_def cors_headers_def map_add_def split: option.splits)

lemma with_cors_simps [simp]:
  "rq_Cookies (with_cors r) = rq_Cookies r" "rq_Method (with_cors r) = rq_Method r" "rq_uri (with_cors r) = rq_uri r"
  "rq_path (with_cors r) = rq_path r" "header (with_cors r) ''X-API'' = header r ''X-API''"
  "header (with_cors r) ''X-Requested-By'' = header r ''X-Requested-By''" "header (with_cors r) ''X-Org-Id'' = header r ''X-Org-Id''"
  by (simp_all add: header_with_cors cors_headers_def) (simp_all add: with_cors_def)

lemma with_cors_gate [simp]:
  "session_of sv (with_cors r) = session_of sv r" "ParseOrgID (with_cors r) = ParseOrgID r"
  "access_object (with_cors r) = access_object r" "requested_api (with_cors r) = requested_api r"
  "let_in sv (with_cors r) g sess = let_in sv r g sess" "permitted sv pol grp (with_cors r) g su = permitted sv pol grp r g su"
  by (simp_all add: fun_eq_iff session_of_def ParseOrgID_def access_object_def requested_api_def let_in_def permitted_def)

lemma access_needs_login: "map_of apis api = Some (login, True) \<Longrightarrow> login"
proof -
  have "list_all (\<lambda>(_, l, a). a \<longrightarrow> l) apis" by code_simp
  then show "map_of apis api = Some (login, True) \<Longrightarrow> login" by (auto simp: list_all_iff dest!: map_of_SomeD)
qed

lemma same_world:
  assumes "still (g_world g) (g_world g')"
  shows "session_of sv r g' = session_of sv r g" "permitted sv pol grp r g' su = permitted sv pol grp r g su"
  using still_fields [OF assms] by (simp_all add: session_of_def permitted_def)

lemma wp_ServeHTTP:
  assumes oc: "orgs_cached (g_world g)" and cb: "casbin_ok (enforcer (sv_env sv)) pol grp" and api: "requested_api r = Some api"
  shows "wp (ServeHTTP sv r) (\<lambda>x g'. calm (g_world g) (g_world g') \<and> orgs_cached (g_world g') \<and> (case x of
      Reply c \<Rightarrow> c = 204 \<and> rq_Method r = ''OPTIONS'' \<or> c = 405 \<and> map_of apis api = None
        \<or> c = 401 \<and> (\<exists>access. map_of apis api = Some (True, access)) \<or> c = 403 \<and> map_of apis api = Some (True, True)
    | Handle a r' s \<Rightarrow> a = api \<and> r' = with_cors r \<and> rq_Method r \<noteq> ''OPTIONS'' \<and> (case map_of apis api of None \<Rightarrow> False | Some (login, access) \<Rightarrow>
        (login \<longleftrightarrow> s \<noteq> None) \<and> (\<forall>sess. s = Some sess \<longrightarrow> let_in sv r g sess)
        \<and> (access \<longrightarrow> (\<exists>sess su. s = Some sess \<and> session_user sess = Some su \<and> permitted sv pol grp r g su)))))
    (\<lambda>e g'. False) g" (is "wp _ ?Q ?E g")
proof -
  let ?r = "with_cors r"
  have reply: "wp (ret (Reply c)) ?Q ?E g'"
    if "still (g_world g) (g_world g')" "?Q (Reply c) g" for c g'
    using that still_fields [OF that(1)] by (simp add: wp_ret)
  have access: "wp (tryE (AccessFilter sv ?r) (\<lambda>access. if \<not> access then ret (Reply 403) else ret (Handle api ?r (Some sess)))) ?Q ?E g'"
    if a: "rq_Method r \<noteq> ''OPTIONS''" "map_of apis api = Some (True, True)" "still (g_world g) (g_world g')" "let_in sv r g sess" for sess g'
    unfolding wp_tryE
  proof (rule wp_mono [OF wp_AccessFilter [OF _ cb]], goal_cases)
    case 1 then show ?case using still_fields [OF a(3)] oc by simp
  next
    case (2 b g'')
    have s: "session_of sv r g = (Some sess, None)" using a(4) by (simp add: let_in_def)
    have "calm (g_world g) (g_world g'')" using 2 still_fields [OF a(3)] calm_trans by blast
    then show ?case using 2 a s by (auto simp: wp_ret same_world [OF a(3)])
  qed simp
  have login: "wp (tryE (AuthFilter sv ?r) (\<lambda>(sess, auth).
         if True \<and> \<not> auth \<and> sess = None then ret (Reply 401) else if True \<and> \<not> auth then ret (Reply 403)
         else tryE (if access then AccessFilter sv ?r else ret True) (\<lambda>access.
           if \<not> access then ret (Reply 403) else ret (Handle api ?r sess)))) ?Q ?E g"
    if a: "rq_Method r \<noteq> ''OPTIONS''" "map_of apis api = Some (True, access)" for access
    unfolding wp_tryE [of "AuthFilter sv ?r"]
  proof (rule wp_mono [OF wp_AuthFilter], goal_cases)
    case (1 x g')
    obtain s auth where x: "x = (s, auth)" by (cases x)
    then have 1: "still (g_world g) (g_world g')" "auth \<longleftrightarrow> s \<noteq> None" "\<And>sess. s = Some sess \<Longrightarrow> let_in sv r g sess"
      using 1 by auto
    note f = still_fields [OF 1(1)]
    show ?case
    proof (cases s)
      case None
      then show ?thesis using 1 a oc f by (simp add: x wp_ret)
    next
      case (Some sess)
      then have "auth" "let_in sv r g sess" using 1 by auto
      then show ?thesis using access [OF a(1) _ 1(1)] a oc f Some
        by (cases access) (simp_all add: x wp_tryE wp_ret)
    qed
  qed simp
  have known: "map_of apis [] = None" by code_simp
  show ?thesis
  proof (cases "rq_Method r = ''OPTIONS'' \<or> map_of apis api = None")
    case True
    then show ?thesis using oc by (auto simp: ServeHTTP_def Let_def api wp_ret)
  next
    case False
    then obtain l acc where a: "rq_Method r \<noteq> ''OPTIONS''" "map_of apis api = Some (l, acc)" "api \<noteq> []"
      using known by (cases "api = []") auto
    show ?thesis
    proof (cases l)
      case True
      then show ?thesis unfolding ServeHTTP_def Let_def with_cors_gate with_cors_simps api option.case
        using login [OF a(1), of acc] a by (simp only: if_False if_True option.case prod.case)
    next
      case False
      then show ?thesis using a oc access_needs_login [of api l]
        by (cases acc) (auto simp: ServeHTTP_def Let_def api wp_tryE wp_ret)
    qed
  qed
qed

section \<open>A sample server\<close>

text \<open>The values come back as the session of the sample user; the cookie was issued at 100.\<close>

definition user_gob :: "sess_val svalues crypto" where
  "user_gob = \<lparr>mac = (@), ctr = (\<lambda>k iv x. x), gob_enc = (\<lambda>m. Inr ''gv''), gob_dec = (\<lambda>b. Inr [SessUserInfoKey \<mapsto> Val (UserV sample_user)]),
     gob_view = (\<lambda>m. [SessUserInfoKey \<mapsto> Val (UserV sample_user)]), json_enc = (\<lambda>m. Inl []), json_dec = (\<lambda>b. Inl [])\<rparr>"

definition sample_server :: "(rule list \<times> grouping list) server" where
  "sample_server = \<lparr>sv_SessionKey = ''n'', sv_ApiConf = [], sv_store = CookieStore_MaxAge 3600 (NewCookieStore [Some ''k'', None]),
     sv_crypto = user_gob, sv_env = sample_env\<rparr>"

definition sample_request :: "string \<Rightarrow> (string \<times> string) list \<Rightarrow> request" where
  "sample_request api hs = \<lparr>rq_Method = ''GET'', rq_Header = (''X-API'', api) # hs,
     rq_Cookies = [(''n'', ''MTAwfFozWT18a258MTAwfFozWT0='')], rq_uri = Some ''/usercenter'', rq_path = ''/usercenter''\<rparr>"

definition sample_gate :: "int \<Rightarrow> User list \<Rightarrow> (u64 \<times> User) list \<Rightarrow> (rule list \<times> grouping list) gate" where
  "sample_gate t us seen = \<lparr>g_world = (sample_world ([], []) [])\<lparr>w_now := t, w_db := (w_db (sample_world () []))\<lparr>users := us\<rparr>\<rparr>, g_users = seen\<rparr>"

lemma sample_Decode:
  assumes "100 \<le> t" "t \<le> 3700"
  shows "Decode user_gob (MaxAge 3600 (NewSecureCookie (Some ''k'') None)) t ''n'' ''MTAwfFozWT18a258MTAwfFozWT0='' = Inr [SessUserInfoKey \<mapsto> Val (UserV sample_user)]"
proof -
  let ?c = "MaxAge 3600 (NewSecureCookie (Some ''k'') None)"
  have d: "decode ''MTAwfFozWT18a258MTAwfFozWT0='' = Inr (''100'' @ CHR ''|'' # ''Z3Y='' @ CHR ''|'' # ''kn|100|Z3Y='')"
    "ParseInt ''100'' = Some 100" "decode ''Z3Y='' = Inr ''gv''"
    "sc_err ?c = None" "hashKey ?c = Some ''k''" "maxLength ?c = 4096" "block ?c = None"
    by code_simp+
  have "wrap64 (t - 3600) = t - 3600"
    using assms by (intro wrap64_int64) (simp add: int64_def)
  then have "in_window ?c t 100" using assms by (simp add: in_window_def)
  moreover have "opened user_gob ?c ''gv'' = Inr [SessUserInfoKey \<mapsto> Val (UserV sample_user)]"
    using d(7) by (simp add: opened_def bind_err_def Deserialize_def user_gob_def)
  moreover have "mac user_gob ''k'' m = ''k'' @ m" for m by (simp add: user_gob_def)
  ultimately show ?thesis unfolding Decode_Inr_iff
    by (intro exI [of _ "''k''"] exI [of _ "''100''"] exI [of _ "''Z3Y=''"] exI [of _ 100] exI [of _ "''gv''"]) (simp add: d)
qed

definition sample_session :: "passport_session" where
  "sample_session = (NewSession (sv_store sample_server) ''n'')\<lparr>ss_Options := cs_Options (sv_store sample_server),
     ss_Values := [SessUserInfoKey \<mapsto> Val (UserV sample_user)]\<rparr>"

lemma sample_session_of:
  assumes "100 \<le> w_now (g_world g)" "w_now (g_world g) \<le> 3700"
  shows "session_of sample_server (sample_request api hs) g = (Some sample_session, None)"
  using sample_Decode [OF assms]
  by (simp add: session_of_def CookieStore_Get_def Registry_Get_def CookieStore_New_def sample_server_def sample_request_def sample_session_def
      isCookieNameValid_def isToken_def token_chars_def request_cookie_def store_codecs Multi_single NewSession_def Let_def)

lemma sample_session_user: "session_user sample_session = Some sample_user"
  by (simp add: session_user_def sample_session_def)

lemma sample_gate_cached: "0 \<le> t \<Longrightarrow> orgs_cached (g_world (sample_gate t us seen))"
  by (simp add: orgs_cached_def sample_gate_def sample_world_def cache_typed_def ov.view_def mv.view_def live_def)

lemma sample_server_casbin: "casbin_ok (enforcer (sv_env sample_server)) (\<lambda>c. set (fst c)) (\<lambda>c. set (snd c))"
  using ref_casbin_ok by (simp add: sample_server_def sample_env_def)

text \<open>The cached user, looked at some seconds ago.\<close>

lemma AuthFilter_hit:
  assumes "session_of sv r g = (Some sess, None)" "session_user sess = Some su" "IsRealUserUID (u_UID su)"
    and "map_of (g_users g) (u_UID su) = Some u" "w_now (g_world g) - u_CacheTime u \<le> 600" "\<not> ext_disabled (u_Ext u)"
  shows "AuthFilter sv r g = (Ret (Some sess, True),
    g\<lparr>g_users := AList.update (u_UID su) (u\<lparr>u_CacheTime := w_now (g_world g)\<rparr>) (g_users g)\<rparr>)"
  using assms by (simp add: AuthFilter_def reads_def Let_def handle_def ret_def update_def)

lemma sample_real: "IsRealUserUID (u_UID sample_user)" "\<not> ext_disabled (u_Ext sample_user)" "u_CacheTime sample_user = 0" "u_UID sample_user = 10001"
  by code_simp+

lemma sample_AuthFilter:
  assumes "100 \<le> t" "t \<le> 600"
  shows "AuthFilter sample_server (sample_request api hs) (sample_gate t us [(10001, sample_user)]) =
    (Ret (Some sample_session, True), sample_gate t us [(10001, sample_user\<lparr>u_CacheTime := t\<rparr>)])"
proof -
  have "w_now (g_world (sample_gate t us [(10001, sample_user)])) = t" "g_users (sample_gate t us [(10001, sample_user)]) = [(10001, sample_user)]"
    by (simp_all add: sample_gate_def)
  note f = this
  show ?thesis
    using AuthFilter_hit [OF sample_session_of sample_session_user sample_real(1), of "sample_gate t us [(10001, sample_user)]" sample_user] assms sample_real
    by (simp add: f) (simp add: sample_gate_def)
qed

section \<open>Properties\<close>

text \<open>
  C16. The gate in front of the handlers (\<open>ServeHTTP\<close>). A handler is called only for a route of the table and not for
  \<open>OPTIONS\<close>; with \<open>NeedLogin\<close> only with the session of a valid cookie of a real user who is not disabled (by the
  table, or by the cache within 600 seconds), and without it with no session; with \<open>NeedAccess\<close> only when the access
  check passed for the object the request names, which means, when the request has no header \<open>X-Requested-By\<close> but
  \<open>X-API\<close>, that the user is a member of the organization of the request and the policies allow that very route.
  Otherwise the answer is 204, 405, 401 or 403, each in its case (403 never for the login check). The tables stay as
  they are, the caches stay current, and nothing panics.
\<close>

theorem ServeHTTP_gate:
  assumes "orgs_cached (g_world g)" and "casbin_ok (enforcer (sv_env sv)) pol grp" and "requested_api r = Some api"
  shows "case ServeHTTP sv r g of
      (Ret (Reply c), g') \<Rightarrow> calm (g_world g) (g_world g') \<and> orgs_cached (g_world g')
        \<and> (c = 204 \<and> rq_Method r = ''OPTIONS'' \<or> c = 405 \<and> map_of apis api = None
          \<or> c = 401 \<and> (\<exists>access. map_of apis api = Some (True, access)) \<or> c = 403 \<and> map_of apis api = Some (True, True))
    | (Ret (Handle a r' s), g') \<Rightarrow> calm (g_world g) (g_world g') \<and> orgs_cached (g_world g')
        \<and> a = api \<and> r' = with_cors r \<and> rq_Method r \<noteq> ''OPTIONS'' \<and> (case map_of apis api of None \<Rightarrow> False | Some (login, access) \<Rightarrow>
          (login \<longleftrightarrow> s \<noteq> None) \<and> (\<forall>sess. s = Some sess \<longrightarrow> let_in sv r g sess)
          \<and> (access \<longrightarrow> (\<exists>sess su. s = Some sess \<and> session_user sess = Some su \<and> permitted sv pol grp r g su
            \<and> (header r ''X-Requested-By'' = [] \<and> header r ''X-API'' \<noteq> [] \<longrightarrow>
                in_org (w_db (g_world g)) (u_UID su) (u_TenantID su) (ParseOrgID r)
                \<and> (let c = w_casbin (g_world g); sub = genUserByUID (u_UID su); dm = Domain (u_TenantID su) (ParseOrgID r) in
                   matcher (pol c) (grp c) (cb_GetRoles (enforcer (sv_env sv)) sub dm c) sub dm api (rq_Method r))))))
    | (Err e, g') \<Rightarrow> False
    | (Panic, g') \<Rightarrow> False"
proof -
  have own: "in_org (w_db (g_world g)) (u_UID su) (u_TenantID su) (ParseOrgID r)
      \<and> (let c = w_casbin (g_world g); sub = genUserByUID (u_UID su); dm = Domain (u_TenantID su) (ParseOrgID r) in
         matcher (pol c) (grp c) (cb_GetRoles (enforcer (sv_env sv)) sub dm c) sub dm api (rq_Method r))"
    if "permitted sv pol grp r g su" "map_of apis api = Some (l, True)" "header r ''X-Requested-By'' = []" "header r ''X-API'' \<noteq> []" for su l
    using that assms(3) by (simp add: permitted_def requested_api_def access_object_def object_needs_access_def Let_def)
  show ?thesis using wp_ServeHTTP [OF assms] own unfolding wp_def
    by (auto split: prod.splits res.splits served.splits option.splits)
qed

lemma sample_Handle:
  assumes "map_of apis api = Some (True, False)" "api \<noteq> []" "100 \<le> t" "t \<le> 600"
  shows "ServeHTTP sample_server (sample_request api []) (sample_gate t us [(10001, sample_user)]) =
    (Ret (Handle api (sample_request api []) (Some sample_session)), sample_gate t us [(10001, sample_user\<lparr>u_CacheTime := t\<rparr>)])"
proof -
  have r: "with_cors (sample_request api []) = sample_request api []" "requested_api (sample_request api []) = Some api"
    "rq_Method (sample_request api []) = ''GET''"
    using assms(2) by (simp_all add: with_cors_def header_def requested_api_def sample_request_def)
  show ?thesis
    using assms sample_AuthFilter [of t api "[]" us] by (simp add: ServeHTTP_def Let_def r tryE_def handle_def ret_def)
qed

theorem ServeHTTP_gate_witness:
  "case ServeHTTP sample_server (sample_request ''user/info'' []) (sample_gate 150 [] [(10001, sample_user)]) of
      (Ret (Handle a r' s), g') \<Rightarrow> a = ''user/info'' \<and> s = Some sample_session
        \<and> let_in sample_server (sample_request ''user/info'' []) (sample_gate 150 [] [(10001, sample_user)]) sample_session
    | _ \<Rightarrow> False"
proof -
  have a: "map_of apis ''user/info'' = Some (True, False)" by code_simp
  have "requested_api (sample_request ''user/info'' []) = Some ''user/info''" by code_simp
  from ServeHTTP_gate [OF sample_gate_cached sample_server_casbin this, of 150 "[]" "[(10001, sample_user)]"] show ?thesis
    using sample_Handle [OF a, of 150 "[]"] a by simp
qed

text \<open>
  C24. \<open>AccessFilter\<close> decides about the object that the client names in the header \<open>X-Requested-By\<close>, not about the
  route that is called. Any logged-in user who names there some route without \<open>NeedAccess\<close> reaches the handler of
  every route, those with \<open>NeedAccess\<close> included, without being a member of an organization and whatever the
  policies say (the routes of the platform administration all need a login only).
\<close>

theorem ServeHTTP_names_other_object:
  assumes "AuthFilter sv (with_cors r) g = (Ret (Some sess, True), g')"
    and "rq_Method r \<noteq> ''OPTIONS''" and "header r ''X-API'' = api" and "map_of apis api = Some (True, True)"
    and "header r ''X-Requested-By'' = obj" and "map_of apis obj = Some (l, False)" and "\<not> HasPrefix obj ''admin/''"
  shows "ServeHTTP sv r g = (Ret (Handle api (with_cors r) (Some sess)), g')"
proof -
  have known: "map_of apis [] = None" by code_simp
  have "still (g_world g) (g_world g')" and li: "let_in sv r g sess"
    using wp_Ret [OF assms(1) wp_AuthFilter] by simp_all
  then have now: "w_now (g_world g') = w_now (g_world g)" by (simp add: still_fields)
  from li obtain su where su: "session_of sv r g = (Some sess, None)" "session_user sess = Some su" "IsRealUserUID (u_UID su)"
    by (auto simp: let_in_def)
  then have real: "u_UID su \<noteq> 0" by (auto simp: IsRealUserUID_def RealUserMinUID_def)
  have ne: "api \<noteq> []" "obj \<noteq> []" using known assms(4,6) by auto
  then have "access_object r = obj" "requested_api r = Some api"
    using assms(3,5) by (auto simp: access_object_def requested_api_def)
  moreover have "session_of sv r g' = (Some sess, None)" using now su(1) session_of_time [of g' g] by simp
  ultimately have "AccessFilter sv (with_cors r) g' = (Ret True, g')" "requested_api r = Some api"
    using assms ne su real by (auto simp: AccessFilter_def reads_def ret_def Let_def object_needs_access_def)
  then show ?thesis
    using assms ne by (simp add: ServeHTTP_def Let_def tryE_def handle_def ret_def)
qed

theorem ServeHTTP_names_other_object_witness:
  "organizations (w_db (g_world (sample_gate 150 [] [(10001, sample_user)]))) = []
   \<and> (case ServeHTTP sample_server (sample_request ''access/addRoleForUser'' [(''X-Requested-By'', ''user/info'')])
         (sample_gate 150 [] [(10001, sample_user)]) of
      (Ret (Handle a r' s), g') \<Rightarrow> a = ''access/addRoleForUser'' \<and> s = Some sample_session | _ \<Rightarrow> False)"
proof -
  let ?r = "sample_request ''access/addRoleForUser'' [(''X-Requested-By'', ''user/info'')]" and ?g = "sample_gate 150 [] [(10001, sample_user)]"
  have c: "map_of apis ''access/addRoleForUser'' = Some (True, True)" "map_of apis ''user/info'' = Some (True, False)"
    "\<not> HasPrefix ''user/info'' ''admin/''" "header ?r ''X-API'' = ''access/addRoleForUser''" "header ?r ''X-Requested-By'' = ''user/info''"
    "rq_Method ?r \<noteq> ''OPTIONS''"
    by code_simp+
  have w: "with_cors ?r = ?r" by (simp add: with_cors_def header_def sample_request_def)
  have a: "AuthFilter sample_server (with_cors ?r) ?g = (Ret (Some sample_session, True), sample_gate 150 [] [(10001, sample_user\<lparr>u_CacheTime := 150\<rparr>)])"
    unfolding w by (rule sample_AuthFilter) simp_all
  show ?thesis
    using ServeHTTP_names_other_object [OF a c(6,4,1,5,2,3)]
    by (simp add: sample_gate_def sample_world_def)
qed

text \<open>
  A run of requests of one process: before each one the rest of the program may have changed everything but
  \<open>loginUserCache\<close>, so the world is given for each. \<open>all_let_in\<close>: every one passes \<open>AuthFilter\<close>.
\<close>

fun all_let_in :: "'c server \<Rightarrow> request \<Rightarrow> 'c world list \<Rightarrow> (u64 \<times> User) list \<Rightarrow> bool" where
  "all_let_in sv r [] seen = True"
| "all_let_in sv r (w # ws) seen = (case AuthFilter sv r \<lparr>g_world = w, g_users = seen\<rparr> of
     (Ret (s, auth), g') \<Rightarrow> auth \<and> all_let_in sv r ws (g_users g') | _ \<Rightarrow> False)"

fun steps_within :: "int \<Rightarrow> int \<Rightarrow> 'c world list \<Rightarrow> bool" where
  "steps_within d t [] = True"
| "steps_within d t (w # ws) = (w_now w - t \<le> d \<and> steps_within d (w_now w) ws)"

lemma all_let_in_hit:
  assumes "map_of seen (u_UID su) = Some u" "\<not> ext_disabled (u_Ext u)" "IsRealUserUID (u_UID su)" "steps_within 600 (u_CacheTime u) ws"
    and "\<forall>w \<in> set ws. \<exists>sess. session_of sv r \<lparr>g_world = w, g_users = []\<rparr> = (Some sess, None) \<and> session_user sess = Some su"
  shows "all_let_in sv r ws seen"
  using assms
proof (induction ws arbitrary: seen u)
  case (Cons w ws)
  let ?g = "\<lparr>g_world = w, g_users = seen\<rparr>" and ?u = "u\<lparr>u_CacheTime := w_now w\<rparr>"
  obtain sess where s: "session_of sv r ?g = (Some sess, None)" "session_user sess = Some su"
    using Cons.prems(5) session_of_time [of ?g "\<lparr>g_world = w, g_users = []\<rparr>"] by auto
  have "AuthFilter sv r ?g = (Ret (Some sess, True), ?g\<lparr>g_users := AList.update (u_UID su) ?u seen\<rparr>)"
    using AuthFilter_hit [OF s Cons.prems(3), of u] Cons.prems by simp
  moreover have "all_let_in sv r ws (AList.update (u_UID su) ?u seen)"
    by (rule Cons.IH [of _ ?u]) (use Cons.prems in auto)
  ultimately show ?case by simp
qed simp

text \<open>
  C25. A login that \<open>AuthFilter\<close> has once accepted is never checked against the table again while the requests of that
  user are at most 600 seconds apart, because every look at the cache entry renews its time. So a user who
  is disabled (or deleted) in the table passes every one of these requests, however many, until the cookie expires, although a process without
  the cache entry refuses the user at once.
\<close>

theorem AuthFilter_never_rereads:
  assumes "map_of seen (u_UID su) = Some u" and "\<not> ext_disabled (u_Ext u)" and "IsRealUserUID (u_UID su)"
    and "steps_within 600 (u_CacheTime u) ws"
    and "\<forall>w \<in> set ws. \<exists>sess. session_of sv r \<lparr>g_world = w, g_users = []\<rparr> = (Some sess, None) \<and> session_user sess = Some su"
    and "\<forall>w \<in> set ws. \<forall>row. find (\<lambda>u. u_UID u = u_UID su) (users (w_db w)) = Some row \<longrightarrow> ext_disabled (u_Ext row)"
  shows "all_let_in sv r ws seen \<and> (\<forall>w \<in> set ws. \<not> all_let_in sv r [w] [])"
proof (intro conjI ballI)
  show "all_let_in sv r ws seen" by (rule all_let_in_hit [OF assms(1-5)])
next
  fix w assume w: "w \<in> set ws"
  let ?g = "\<lparr>g_world = w, g_users = []\<rparr>"
  show "\<not> all_let_in sv r [w] []"
  proof (cases "AuthFilter sv r ?g")
    case (Pair x g')
    have "\<not> let_in sv r ?g sess" for sess using assms(5,6) w by (force simp: let_in_def user_row_def)
    then show ?thesis using wp_AuthFilter [of sv r ?g] Pair by (cases x) (auto simp: wp_def)
  qed
qed

theorem AuthFilter_never_rereads_witness:
  "all_let_in sample_server (sample_request ''user/info'' []) (map (\<lambda>t. g_world (sample_gate t [] [])) [600, 1200, 1800]) [(10001, sample_user)]
   \<and> \<not> all_let_in sample_server (sample_request ''user/info'' []) [g_world (sample_gate 1200 [] [])] []"
proof -
  let ?ws = "map (\<lambda>t. g_world (sample_gate t [] [])) [600, 1200, 1800]"
  have now: "w_now (g_world (sample_gate t [] [])) = t" "users (w_db (g_world (sample_gate t [] []))) = []" for t
    by (simp_all add: sample_gate_def)
  have st: "steps_within 600 (u_CacheTime sample_user) ?ws" by (simp add: now sample_real)
  have ss: "\<forall>w \<in> set ?ws. \<exists>sess. session_of sample_server (sample_request ''user/info'' []) \<lparr>g_world = w, g_users = []\<rparr> = (Some sess, None)
      \<and> session_user sess = Some sample_user"
    using sample_session_of sample_session_user by (auto simp: now)
  have m: "map_of [(10001, sample_user)] (u_UID sample_user) = Some sample_user" by (simp add: sample_real)
  have rows: "\<forall>w \<in> set ?ws. \<forall>row. find (\<lambda>u. u_UID u = u_UID sample_user) (users (w_db w)) = Some row \<longrightarrow> ext_disabled (u_Ext row)"
    by (auto simp: now)
  note R = AuthFilter_never_rereads [OF m sample_real(2,1) st ss rows]
  have "g_world (sample_gate 1200 [] []) \<in> set ?ws" by simp
  then show ?thesis using R by blast
qed

end
