(* ===== verification/Face.thy ===== *)
theory Face
  imports Http_Gate
begin

text \<open>
  What the handlers of \<open>face/\<close> have in common. A handler is a program on the state of the gate: \<open>Ret x\<close> is the
  answer with code 0 and the data \<open>x\<close>, and \<open>Err (status, e)\<close> the answer \<open>HttpJsonErr(w, status, e)\<close> (or \<open>HttpErr\<close>
  with code \<open>-1\<close> and a text). A decoded body is an argument, \<open>None\<close> when \<open>ReadJSONBodyFromRequest\<close> reported an
  error (unreadable, too long, malformed, or invalid by its struct tags); the form values are a function \<open>form\<close>.
  A handler whose name a function of \<open>service/\<close> or \<open>accessctl/\<close> has too carries the suffix \<open>_h\<close>, and one whose name another
  package of \<open>face/\<close> uses as well has its package as prefix.
\<close>

type_synonym ('c, 'a) handler = "('c gate, nat \<times> gerr, 'a) prog"
type_synonym form = "string \<Rightarrow> string"

text \<open>\<open>x, err := service.F(...)\<close>; \<open>if err != nil { HttpJsonErr(w, status, err) }\<close>\<close>

definition svc :: "nat \<Rightarrow> ('c, 'a) dao \<Rightarrow> ('a \<Rightarrow> ('c, 'b) handler) \<Rightarrow> ('c, 'b) handler" where
  "svc status m k = handle (on_world m) (\<lambda>e. throw (status, e)) k"

text \<open>The same with a fixed error.\<close>

definition svcAs :: "('c, 'a) dao \<Rightarrow> gerr \<Rightarrow> ('a \<Rightarrow> ('c, 'b) handler) \<Rightarrow> ('c, 'b) handler" where
  "svcAs m e k = handle (on_world m) (\<lambda>_. throw (200, e)) k"

definition need_body :: "'r option \<Rightarrow> ('r \<Rightarrow> ('c, 'a) handler) \<Rightarrow> ('c, 'a) handler" where
  "need_body body k = (case body of None \<Rightarrow> throw (200, ErrParam) | Some req \<Rightarrow> k req)"

text \<open>\<open>core.GetSessionUser(r)\<close>; without a login the user is the zero value.\<close>

definition zero_User :: User where
  "zero_User = \<lparr>u_UID = 0, u_TenantID = 0, u_Password = [], u_Cellphone = None, u_Email = None, u_Nickname = None,
     u_AvatarURL = None, u_Addr = None, u_Gender = None, u_WxOpenId = None, u_Ext = [], u_CreateTime = 0, u_UpdateTime = 0,
     u_LoginTime = None, u_Tenant = None, u_Roles = [], u_Departments = [], u_CacheTime = 0\<rparr>"

definition with_user :: "'c server \<Rightarrow> request \<Rightarrow> (User \<Rightarrow> ('c, 'a) handler) \<Rightarrow> ('c, 'a) handler" where
  "with_user sv r k = handle (GetSessionUser sv r) (\<lambda>e. throw (200, e)) (\<lambda>su.
     k (case su of None \<Rightarrow> zero_User | Some u \<Rightarrow> u))"

text \<open>\<open>core.SessionOrgID(r, sessionUser.TenantID)\<close>\<close>

definition with_org :: "'c server \<Rightarrow> request \<Rightarrow> u64 \<Rightarrow> (u64 \<Rightarrow> ('c, 'a) handler) \<Rightarrow> ('c, 'a) handler" where
  "with_org sv r tenantID k = handle (SessionOrgID sv r tenantID) (\<lambda>e. throw (200, e)) k"

text \<open>\<open>v, _ := strconv.ParseUint(r.FormValue(k), 10, 64)\<close>\<close>

definition FormUint :: "form \<Rightarrow> string \<Rightarrow> u64" where
  "FormUint form k = fst (ParseUint (form k))"

text \<open>The page and its size with their defaults and bounds.\<close>

definition page_form :: "form \<Rightarrow> string \<Rightarrow> u64 \<Rightarrow> u64 \<Rightarrow> u64 \<times> u64" where
  "page_form form sizeKey dflt maxSize = (let page = FormUint form ''page''; size = FormUint form sizeKey;
       size1 = (if size < 1 then dflt else size)
     in (if page < 1 then 1 else page, if size1 > maxSize then maxSize else size1))"

section \<open>Handlers that change nothing before they know the user\<close>

text \<open>
  \<open>calmly\<close>: the handler leaves everything but the caches as it was. \<open>guarded P\<close>: it does so from every state
  without \<open>P\<close>. The rules follow the handlers: a step that keeps even the caches, then the rest.
\<close>

definition stays :: "('c gate, 'e, 'a) prog \<Rightarrow> bool" where
  "stays m \<longleftrightarrow> (\<forall>g. still (g_world g) (g_world (snd (m g))))"

definition guarded :: "('c world \<Rightarrow> bool) \<Rightarrow> ('c gate, 'e, 'a) prog \<Rightarrow> bool" where
  "guarded P m \<longleftrightarrow> (\<forall>g. \<not> P (g_world g) \<longrightarrow> calm (g_world g) (g_world (snd (m g))))"

text \<open>A condition that only the tables, the caches, the clock, the configuration and the policies decide.\<close>

definition steady :: "('c world \<Rightarrow> bool) \<Rightarrow> bool" where
  "steady P \<longleftrightarrow> (\<forall>w w'. still w w' \<longrightarrow> P w' = P w)"

named_theorems guard_intros \<open>rules for handlers that are guarded by a condition\<close>

lemma guarded_ret [guard_intros]: "guarded P (ret x)" and guarded_throw [guard_intros]: "guarded P (throw e)"
  and guarded_panic [guard_intros]: "guarded P panic"
  by (simp_all add: guarded_def ret_def throw_def panic_def)

lemma guarded_if [guard_intros]: "(c \<Longrightarrow> guarded P m) \<Longrightarrow> (\<not> c \<Longrightarrow> guarded P n) \<Longrightarrow> guarded P (if c then m else n)"
  by simp

lemma guarded_failIf [guard_intros]: "(\<not> c \<Longrightarrow> guarded P m) \<Longrightarrow> guarded P (failIf c e m)"
  by (simp add: failIf_def guarded_throw)

lemma guarded_need_body [guard_intros]: "(\<And>req. body = Some req \<Longrightarrow> guarded P (k req)) \<Longrightarrow> guarded P (need_body body k)"
  by (cases body) (simp_all add: need_body_def guarded_throw)

lemma guarded_option [guard_intros]:
  "(z = None \<Longrightarrow> guarded P m) \<Longrightarrow> (\<And>x. z = Some x \<Longrightarrow> guarded P (n x)) \<Longrightarrow> guarded P (case z of None \<Rightarrow> m | Some x \<Rightarrow> n x)"
  by (cases z) auto

lemma guarded_prod [guard_intros]: "(\<And>x y. z = (x, y) \<Longrightarrow> guarded P (k x y)) \<Longrightarrow> guarded P (case z of (x, y) \<Rightarrow> k x y)"
  by (cases z) auto

lemma guarded_reads [guard_intros]: "(\<And>x. guarded P (k x)) \<Longrightarrow> guarded P (reads f k)"
  by (simp add: guarded_def reads_def)

lemma guarded_after:
  assumes "steady P" "stays m" "\<And>e. guarded P (h e)" "\<And>x. guarded P (k x)"
  shows "guarded P (handle m h k)"
proof (unfold guarded_def, intro allI impI)
  fix g :: "'a gate" assume n: "\<not> P (g_world g)"
  obtain x g' where m: "m g = (x, g')" by (cases "m g")
  then have s: "still (g_world g) (g_world g')" using assms(2) unfolding stays_def by (metis snd_conv)
  then have "\<not> P (g_world g')" "calm (g_world g) (g_world g')"
    using assms(1) n by (auto simp: steady_def still_fields)
  then have "calm (g_world g) (g_world (snd (q g')))" if "guarded P q" for q :: "('a gate, 'd, 'e) prog"
    using that unfolding guarded_def by (meson calm_trans)
  then show "calm (g_world g) (g_world (snd (handle m h k g)))"
    using assms(3,4) m \<open>calm (g_world g) (g_world g')\<close> by (cases x) (simp_all add: handle_def)
qed

lemma stays_on_world: "(\<And>w. still w (snd (m w))) \<Longrightarrow> stays (on_world m)"
  by (simp add: stays_def on_world_def split_beta)

lemma guarded_svc:
  "steady P \<Longrightarrow> (\<And>w. still w (snd (m w))) \<Longrightarrow> (\<And>x. guarded P (k x)) \<Longrightarrow> guarded P (svc status m k)"
  by (simp add: svc_def guarded_after stays_on_world guarded_throw)

lemma still_wp: "wp m (\<lambda>_ w'. still w w') (\<lambda>_ w'. still w w') w \<Longrightarrow> still w (snd (m w))"
  by (rule wp_snd)

lemma still_GetUserInfo: "still w (snd (GetUserInfo uid w))"
  by (rule still_wp [OF wp_mono [OF wp_GetUserInfo]]) auto

text \<open>The user a handler sees is nobody or the one of a session that \<open>AuthFilter\<close> let in.\<close>

lemma wp_GetSessionUser:
  "wp (GetSessionUser sv r) (\<lambda>su g'. still (g_world g) (g_world g')
      \<and> (\<forall>u. su = Some u \<longrightarrow> (\<exists>sess. let_in sv r g sess \<and> session_user sess = Some u))) (\<lambda>e g'. False) g"
proof -
  have "\<exists>u. session_user sess = Some u" if "let_in sv r g sess" for sess using that by (auto simp: let_in_def)
  then show ?thesis unfolding GetSessionUser_def wp_tryE
    by (intro wp_mono [OF wp_AuthFilter]) (fastforce simp: wp_ret split: option.splits)+
qed

lemma with_user_cases:
  fixes k :: "User \<Rightarrow> ('c, 'a) handler"
  obtains su g' where "with_user sv r k g = k su g'" "still (g_world g) (g_world g')"
    "su = zero_User \<or> (\<exists>sess. let_in sv r g sess \<and> session_user sess = Some su)"
proof -
  have w: "wp (GetSessionUser sv r) (\<lambda>su g'. still (g_world g) (g_world g')
      \<and> (\<forall>u. su = Some u \<longrightarrow> (\<exists>sess. let_in sv r g sess \<and> session_user sess = Some u))) (\<lambda>e g'. False) g"
    by (rule wp_GetSessionUser)
  then obtain s g' where g: "GetSessionUser sv r g = (Ret s, g')"
    by (cases "GetSessionUser sv r g" rule: prod.exhaust, rename_tac x y, case_tac x) (auto simp: wp_def)
  show thesis
  proof (cases s)
    case None
    then show thesis using that [of zero_User g'] w g by (simp add: with_user_def handle_def wp_def)
  next
    case (Some u)
    then show thesis using that [of u g'] w g by (simp add: with_user_def handle_def wp_def)
  qed
qed

section \<open>What a handler knows after its checks\<close>

lemma wp_svc: "wp (svc status m k) Q E g =
    wp m (\<lambda>x w'. wp (k x) Q E (g\<lparr>g_world := w'\<rparr>)) (\<lambda>e w'. E (status, e) (g\<lparr>g_world := w'\<rparr>)) (g_world g)"
  by (simp add: svc_def wp_handle wp_on_world wp_throw)

lemma wp_svcAs: "wp (svcAs m e k) Q E g =
    wp m (\<lambda>x w'. wp (k x) Q E (g\<lparr>g_world := w'\<rparr>)) (\<lambda>_ w'. E (200, e) (g\<lparr>g_world := w'\<rparr>)) (g_world g)"
  by (simp add: svcAs_def wp_handle wp_on_world wp_throw)

lemma wp_need_body:
  "(\<And>req. body = Some req \<Longrightarrow> wp (k req) Q E g) \<Longrightarrow> E (200, ErrParam) g \<Longrightarrow> wp (need_body body k) Q E g"
  by (cases body) (simp_all add: need_body_def wp_throw)

text \<open>The user of the session, by the cookie of the request.\<close>

definition session_is :: "'c server \<Rightarrow> request \<Rightarrow> 'c gate \<Rightarrow> User \<Rightarrow> bool" where
  "session_is sv r g su \<longleftrightarrow> (\<exists>sess. let_in sv r g sess \<and> session_user sess = Some su)"

lemma session_is_unique:
  "session_is sv r g su \<Longrightarrow> session_is sv r g' su' \<Longrightarrow> w_now (g_world g') = w_now (g_world g) \<Longrightarrow> su' = su"
  using session_of_time [of g' g sv r] by (auto simp: session_is_def let_in_def)

lemma wp_with_user:
  assumes "\<And>su g'. still (g_world g) (g_world g') \<Longrightarrow> su = zero_User \<or> session_is sv r g su \<Longrightarrow> wp (k su) Q E g'"
  shows "wp (with_user sv r k) Q E g"
proof -
  obtain su g' where "with_user sv r k g = k su g'" and st: "still (g_world g) (g_world g')"
    and su: "su = zero_User \<or> (\<exists>sess. let_in sv r g sess \<and> session_user sess = Some su)"
    by (rule with_user_cases)
  with assms [OF st] show ?thesis by (simp add: wp_def session_is_def)
qed

text \<open>\<open>SessionOrgID\<close> answers the organization of the header after the membership check.\<close>

lemma wp_with_org:
  assumes oc: "orgs_cached (g_world g)"
    and ok: "\<And>su g'. calm (g_world g) (g_world g') \<Longrightarrow> orgs_cached (g_world g') \<Longrightarrow> session_is sv r g su
       \<Longrightarrow> in_org (w_db (g_world g)) (u_UID su) t (ParseOrgID r) \<Longrightarrow> wp (k (ParseOrgID r)) Q E g'"
    and no: "\<And>e g'. calm (g_world g) (g_world g') \<Longrightarrow> E e g'"
  shows "wp (with_org sv r t k) Q E g"
  unfolding with_org_def SessionOrgID_def Let_def wp_handle wp_tryE wp_throw
proof (rule wp_mono [OF wp_GetSessionUser], goal_cases)
  case (1 s g1)
  let ?uid = "case s of None \<Rightarrow> 0 | Some u \<Rightarrow> u_UID u"
  have st: "still (g_world g) (g_world g1)" using 1 by simp
  then have oc1: "orgs_cached (g_world g1)" "calm (g_world g) (g_world g1)" "w_db (g_world g1) = w_db (g_world g)"
    using oc still_fields [OF st] by auto
  show ?case unfolding wp_on_world
  proof (rule wp_mono [OF wp_UserInOrg [OF oc1(1)]], goal_cases)
    case (1 u w')
    then have "in_org (w_db (g_world g)) ?uid t (ParseOrgID r)" using oc1 by simp
    moreover from this obtain su where su: "s = Some su" by (cases s) (auto simp: in_org_def)
    moreover have "session_is sv r g su" using \<open>still (g_world g) (g_world g1) \<and> _\<close> su by (auto simp: session_is_def)
    ultimately show ?case using 1 oc1 by (simp add: wp_ret) (rule ok, auto intro: calm_trans)
  next
    case (2 e w')
    then show ?case using oc1 by (intro no) (auto intro: calm_trans)
  qed
qed simp

lemma wp_failIfI: "(\<not> c \<Longrightarrow> wp k Q E g) \<Longrightarrow> E e g \<Longrightarrow> wp (failIf c e k) Q E g"
  by (simp add: wp_failIf)

end
