(* ===== verification/Admin_Face.thy ===== *)
theory Admin_Face
  imports Face Admin_Delete
begin

text \<open>
  \<open>face/admin/\<close>: the handlers of the platform administration. Their routes ask for a login only; who may use them is
  decided by \<open>authorizeAdminTenant\<close> in every handler.
\<close>

section \<open>Who is a platform administrator\<close>

definition authorizeAdminTenant :: "'c env \<Rightarrow> User \<Rightarrow> ('c, unit) dao" where
  "authorizeAdminTenant E sessionUser = reads w_root (\<lambda>root.
     failIf (u_UID sessionUser \<le> 0 \<or> u_TenantID sessionUser \<le> 0 \<or> u_TenantID sessionUser \<noteq> root) ErrNoAuth (
     tryE (AdminTenantTake (u_TenantID sessionUser)) (\<lambda>found.
     case found of None \<Rightarrow> panic | Some myTenant \<Rightarrow>
     tryE (if t_UID myTenant = u_UID sessionUser then ret True
           else UserHasRoleInTenant E (u_UID sessionUser) (u_TenantID sessionUser) ''root'') (\<lambda>isRootAdmin.
     failIf (\<not> isRootAdmin) ErrNoAuth (ret ())))))"

section \<open>Tenants\<close>

definition AdminTenantNew_h :: "'c server \<Rightarrow> request \<Rightarrow> NewTenantReq option \<Rightarrow> ('c, string) handler" where
  "AdminTenantNew_h sv r body = with_user sv r (\<lambda>sessionUser.
     svc 401 (authorizeAdminTenant (sv_env sv) sessionUser) (\<lambda>_.
     need_body body (\<lambda>req0.
     let req = req0\<lparr>n_TenantName := TrimSpace (n_TenantName req0), n_TenantType := TrimSpace (n_TenantType req0),
           n_Cellphone := TrimSpace (n_Cellphone req0), n_Nickname := TrimSpace (n_Nickname req0), n_Password := TrimSpace (n_Password req0)\<rparr>;
         wantAdmin = (n_Nickname req \<noteq> [] \<or> n_Password req \<noteq> [] \<or> n_Cellphone req \<noteq> [])
     in failIf (n_TenantName req = [] \<or> n_TenantType req = []) (200, ErrParam) (
        failIf (wantAdmin \<and> (n_Nickname req = [] \<and> n_Cellphone req = [] \<or> n_Password req = [])) (200, ErrParam) (
        svc 200 (AdminTenantNew (sv_env sv) sessionUser req) (\<lambda>_. ret ''OK''))))))"

text \<open>\<open>jsonText\<close> is the operator \<open>->>\<close> of the database.\<close>

definition AdminTenantQuery_h ::
  "'c server \<Rightarrow> (gval \<Rightarrow> string option) \<Rightarrow> request \<Rightarrow> form \<Rightarrow> ('c, Tenant list \<times> u64) handler"
where
  "AdminTenantQuery_h sv jsonText r form = with_user sv r (\<lambda>sessionUser.
     svc 401 (authorizeAdminTenant (sv_env sv) sessionUser) (\<lambda>_.
     let (page, pageSize) = page_form form ''pageSize'' 100 1000 in
     svc 200 (AdminTenantQuery jsonText (form ''name'') (form ''cellphone'') page pageSize (FormUint form ''hasTotal'' = 1)) ret))"

definition AdminSetParent :: "'c server \<Rightarrow> request \<Rightarrow> form \<Rightarrow> ('c, unit) handler" where
  "AdminSetParent sv r form = with_user sv r (\<lambda>sessionUser.
     let tenantID = FormUint form ''tid''; parentID = FormUint form ''pid'' in
     failIf (tenantID \<le> 0 \<or> parentID \<le> 0) (200, ErrParam) (
     svc 401 (authorizeAdminTenant (sv_env sv) sessionUser) (\<lambda>_.
     svc 200 (AdminTenantSetParent sessionUser tenantID parentID) ret)))"

definition AdminTenantDelete_h :: "'c server \<Rightarrow> request \<Rightarrow> form \<Rightarrow> ('c, unit) handler" where
  "AdminTenantDelete_h sv r form = with_user sv r (\<lambda>sessionUser.
     let tenantID = FormUint form ''tid'' in
     reads (\<lambda>g. w_root (g_world g)) (\<lambda>root.
     failIf (tenantID \<le> 0 \<or> tenantID = root) (200, ErrParam) (
     svc 401 (authorizeAdminTenant (sv_env sv) sessionUser) (\<lambda>_.
     svc 200 (AdminTenantDelete (sv_env sv) sessionUser tenantID) ret))))"

text \<open>The body is a JSON object; its number becomes an unsigned integer by truncation.\<close>

definition AdminUpdateTenantConfiguration :: "'c server \<Rightarrow> request \<Rightarrow> MapStruct option \<Rightarrow> ('c, unit) handler" where
  "AdminUpdateTenantConfiguration sv r body = with_user sv r (\<lambda>sessionUser.
     need_body body (\<lambda>req.
     case (gget req ''tenant_id'', gget req ''data'') of
       (GFloat tenantID, GMap data) \<Rightarrow>
         svc 401 (authorizeAdminTenant (sv_env sv) sessionUser) (\<lambda>_.
         svc 200 (TenantUpdateConfiguration (of_int (trunc_float tenantID)) data) ret)
     | _ \<Rightarrow> throw (200, ErrParam)))"

definition AdminTenantUpdateConfig_h ::
  "'c server \<Rightarrow> (string \<Rightarrow> int option) \<Rightarrow> request \<Rightarrow> UpdateTenantConfigReq option \<Rightarrow> ('c, string) handler"
where
  "AdminTenantUpdateConfig_h sv parseTime r body = with_user sv r (\<lambda>sessionUser.
     need_body body (\<lambda>req.
     failIf (uc_TenantID req \<le> 0 \<or> uc_Configuration req = None \<or> uc_LastUpdateTime req = []) (200, ErrParam) (
     svc 401 (authorizeAdminTenant (sv_env sv) sessionUser) (\<lambda>_.
     svc 200 (AdminTenantUpdateConfig parseTime sessionUser req) (\<lambda>_. ret ''OK'')))))"

definition AdminTenantUpdate_h :: "'c server \<Rightarrow> request \<Rightarrow> UpdateTenantReq option \<Rightarrow> ('c, string) handler" where
  "AdminTenantUpdate_h sv r body = with_user sv r (\<lambda>sessionUser.
     need_body body (\<lambda>req.
     failIf (ut_TenantID req \<le> 0 \<or> TrimSpace (ut_TenantName req) = [] \<or> TrimSpace (ut_TenantType req) = []) (200, ErrParam) (
     svc 401 (authorizeAdminTenant (sv_env sv) sessionUser) (\<lambda>_.
     svc 200 (AdminTenantUpdate sessionUser (req\<lparr>ut_TenantName := TrimSpace (ut_TenantName req), ut_TenantType := TrimSpace (ut_TenantType req)\<rparr>))
       (\<lambda>_. ret ''OK'')))))"

section \<open>Users\<close>

record AdminUserAddReq =
  aa_UID :: u64
  aa_TenantID :: u64
  aa_Nickname :: string
  aa_Password :: string
  aa_Cellphone :: string
  aa_Email :: string
  aa_Roles :: "string list"
  aa_Ext :: MapStruct

text \<open>An absent field of the request is \<open>None\<close>.\<close>

record AdminUserEditReq =
  ae_UID :: u64
  ae_Disable :: "int option"
  ae_Pwd :: string
  ae_DepIds :: "u64 list option"
  ae_Roles :: "string list option"
  ae_Description :: "string option"
  ae_MacAddr :: "string option"

definition admin_UserAdd :: "'c server \<Rightarrow> request \<Rightarrow> AdminUserAddReq option \<Rightarrow> ('c, u64) handler" where
  "admin_UserAdd sv r body = with_user sv r (\<lambda>sessionUser.
     need_body body (\<lambda>req.
     let nickname = TrimSpace (aa_Nickname req); password = TrimSpace (aa_Password req) in
     reads (\<lambda>g. w_root (g_world g)) (\<lambda>root.
     failIf (aa_TenantID req \<le> 0) (200, ErrParam) (
     failIf (aa_TenantID req = root) (200, ErrParam) (
     failIf (nickname = [] \<or> password = []) (200, ErrParam) (
     svc 401 (authorizeAdminTenant (sv_env sv) sessionUser) (\<lambda>_.
     svc 200 (AdminTenantTake (aa_TenantID req)) (\<lambda>_.
     svc 200 (AddUserService (sv_env sv) (empty_UserReq\<lparr>r_Nickname := nickname, r_Password := password,
         r_Cellphone := TrimSpace (aa_Cellphone req), r_Email := TrimSpace (aa_Email req), r_Roles := [''root''], r_Ext := aa_Ext req\<rparr>)) (\<lambda>uid.
     failIf (uid \<le> 0) (200, ErrService) (
     svc 200 (TenantBindUser uid (aa_TenantID req)) (\<lambda>_.
     svc 200 (AddRoleForUserInAllOrgs (sv_env sv) uid (aa_TenantID req) ''root'') (\<lambda>_. ret uid))))))))))))"

definition UserList :: "'c server \<Rightarrow> request \<Rightarrow> form \<Rightarrow> ('c, User list \<times> u64) handler" where
  "UserList sv r form = with_user sv r (\<lambda>sessionUser.
     let tenantID = FormUint form ''tenantID''; (page, pageSize) = page_form form ''pageSize'' 100 1000 in
     failIf (tenantID = 0) (200, ErrParam) (
     svc 401 (authorizeAdminTenant (sv_env sv) sessionUser) (\<lambda>_.
     svc 200 (AdminUserList tenantID page pageSize (FormUint form ''hasTotal'' = 1) (TrimSpace (form ''nickname''))) ret)))"

text \<open>The request is a \<open>Tenant\<close> of which only the field \<open>UID\<close> is used.\<close>

definition admin_UserDel :: "'c server \<Rightarrow> request \<Rightarrow> u64 option \<Rightarrow> ('c, unit) handler" where
  "admin_UserDel sv r body = with_user sv r (\<lambda>sessionUser.
     need_body body (\<lambda>uid.
     failIf (uid = 0) (200, ErrParam) (
     svc 200 (GetUserInfo uid) (\<lambda>userInfo.
     failIf (u_UID userInfo = 0 \<or> u_TenantID userInfo = 0) (200, ErrParam) (
     svc 401 (authorizeAdminTenant (sv_env sv) sessionUser) (\<lambda>_.
     svc 200 (TenantUserDel (sv_env sv) uid (u_TenantID userInfo)) (\<lambda>_. ret ())))))))"

text \<open>The new roles of one organization: what is missing is added, what is left over is removed.\<close>

definition role_set :: "string list \<Rightarrow> string list" where
  "role_set roles = remdups (filter (\<lambda>role. role \<noteq> []) (map TrimSpace roles))"

definition edit_roles :: "'c env \<Rightarrow> u64 \<Rightarrow> u64 \<Rightarrow> string list \<Rightarrow> Organization \<Rightarrow> ('c, unit) dao" where
  "edit_roles E uid tenantID roles org =
     tryE (GetRoleForUserInDomain (enforcer E) uid tenantID (o_ID org)) (\<lambda>oldRoles.
     tryE (foreach (filter (\<lambda>role. role \<notin> set (role_set oldRoles)) (role_set roles)) (\<lambda>role.
       tryAs (AddRoleForUserInDomain (enforcer E) uid tenantID (o_ID org) role) ErrService ret)) (\<lambda>_.
     foreach (filter (\<lambda>role. role \<notin> set (role_set roles)) (role_set oldRoles)) (\<lambda>role.
       tryAs (DeleteRoleForUserInDomain (enforcer E) uid tenantID (o_ID org) role) ErrService ret)))"

text \<open>The changes one after the other; each is written before the next one is looked at.\<close>

definition edit_user :: "'c server \<Rightarrow> u64 \<Rightarrow> AdminUserEditReq \<Rightarrow> ('c, unit) handler" where
  "edit_user sv tenantID req = (let uid = ae_UID req; E = sv_env sv; pwd = TrimSpace (ae_Pwd req) in
     tryE (case ae_Disable req of None \<Rightarrow> ret () | Some d \<Rightarrow>
       failIf (\<not> IsValid d) (200, ErrParam) (svc 200 (TenantUserDisabledService uid tenantID d) ret)) (\<lambda>_.
     tryE (case ae_Description req of None \<Rightarrow> ret () | Some d \<Rightarrow>
       svc 200 (TenantUpdateUserExt uid tenantID ''description'' (GStr (TrimSpace d))) ret) (\<lambda>_.
     tryE (case ae_MacAddr req of None \<Rightarrow> ret () | Some m \<Rightarrow>
       svc 200 (TenantUpdateUserExt uid tenantID ''macAddr'' (GStr (TrimSpace m))) ret) (\<lambda>_.
     tryE (case ae_DepIds req of None \<Rightarrow> ret () | Some depIds \<Rightarrow>
       svc 200 (OrgListByTenant tenantID) (\<lambda>orgs.
       case orgs of [] \<Rightarrow> ret () | org # _ \<Rightarrow> svc 200 (TenantUserSetDepartment uid tenantID (o_ID org) depIds) ret)) (\<lambda>_.
     tryE (case ae_Roles req of None \<Rightarrow> ret () | Some roles \<Rightarrow>
       svc 200 (OrgListByTenant tenantID) (\<lambda>orgs. svc 200 (foreach orgs (edit_roles E uid tenantID roles)) ret)) (\<lambda>_.
     if pwd \<noteq> [] then failIf (length pwd < 4 \<or> length pwd > 16) (200, ErrParam) (svc 200 (SetUserPWD E uid tenantID pwd) (\<lambda>_. ret ()))
     else ret ()))))))"

definition UserEdit :: "'c server \<Rightarrow> request \<Rightarrow> AdminUserEditReq option \<Rightarrow> ('c, unit) handler" where
  "UserEdit sv r body = with_user sv r (\<lambda>sessionUser.
     need_body body (\<lambda>req.
     failIf (ae_UID req = 0) (200, ErrParam) (
     svc 200 (GetUserInfo (ae_UID req)) (\<lambda>userInfo.
     failIf (u_UID userInfo = 0 \<or> u_TenantID userInfo = 0) (200, ErrParam) (
     svc 401 (authorizeAdminTenant (sv_env sv) sessionUser) (\<lambda>_.
     edit_user sv (u_TenantID userInfo) req))))))"

text \<open>
  \<open>ModifyPWDByUIDWithTenant\<close> of \<open>face/tenant/tenant_user.go\<close>: \<open>withTenant\<close> says whether the user must be of the tenant
  of the session.
\<close>

definition ModifyPWDByUIDWithTenant :: "'c server \<Rightarrow> request \<Rightarrow> MapStruct option \<Rightarrow> bool \<Rightarrow> ('c, string) handler" where
  "ModifyPWDByUIDWithTenant sv r body withTenant = with_user sv r (\<lambda>sessionUser.
     failIf (withTenant \<and> (u_UID sessionUser \<le> 0 \<or> u_TenantID sessionUser \<le> 0)) (200, ErrNoAuth) (
     need_body body (\<lambda>req.
     case (gget req ''uid'', gget req ''pwd'') of
       (GFloat f, GStr pwd0) \<Rightarrow>
         let uid = of_int (trunc_float f); pwd = TrimSpace pwd0 in
         failIf (uid \<le> 0 \<or> length pwd < 4 \<or> length pwd > 16) (200, ErrParam) (
         svc 200 (SetUserPWD (sv_env sv) uid (if withTenant then u_TenantID sessionUser else 0) pwd) (\<lambda>_. ret ''OK''))
     | _ \<Rightarrow> throw (200, ErrParam))))"

definition admin_ModifyUserPassword :: "'c server \<Rightarrow> request \<Rightarrow> MapStruct option \<Rightarrow> ('c, string) handler" where
  "admin_ModifyUserPassword sv r body = with_user sv r (\<lambda>sessionUser.
     svc 401 (authorizeAdminTenant (sv_env sv) sessionUser) (\<lambda>_.
     ModifyPWDByUIDWithTenant sv r body False))"

section \<open>Only platform administrators change anything\<close>

text \<open>
  The user is of the root tenant and its owner, or holds the role \<open>root\<close> in some domain of it.
\<close>

definition admin_ok :: "'c env \<Rightarrow> (u64 \<rightharpoonup> u64) \<Rightarrow> User \<Rightarrow> 'c world \<Rightarrow> bool" where
  "admin_ok E p su w \<longleftrightarrow> u_UID su \<noteq> 0 \<and> u_TenantID su = w_root w \<and> (\<exists>t. fresh_tenant p (w_db w) (w_root w) = Some t
     \<and> (t_UID t = u_UID su \<or> (\<exists>g. ''root'' \<in> set (cb_GetRoles (enforcer E) (genUserByUID (u_UID su)) (Domain (w_root w) g) (w_casbin w)))))"

lemma quiet_still: "quiet w w' \<Longrightarrow> still w w'"
  unfolding quiet_def touched_def still_def calm_def
  by (cases w; cases w') auto

lemma wp_AdminTenantTake:
  assumes "tenant_state N p w" "i \<noteq> 0"
  shows "wp (AdminTenantTake i) (\<lambda>r w'. r = fresh_tenant p (w_db w) i \<and> calm w w') (\<lambda>e w'. calm w w') w"
proof -
  have typed: "cache_typed (w_cache w)" using assms(1) by (simp add: tenant_state_def tenants_cached_def)
  have "wp (getTenantByIDCached i) (\<lambda>r w'. r = fresh_tenant p (w_db w) i \<and> calm w w') (\<lambda>e w'. calm w w') w"
    by (rule wp_mono [OF wp_getTenantByIDCached [OF assms]]) auto
  then show ?thesis
    using assms(2) by (simp add: AdminTenantTake_def getTenantByIDCached_def wp_failIf wp_tryE wp_tryAs wp_GetTenantCache typed split: option.splits)
qed

lemma wp_has_role_in:
  "wp (has_role_in E uid t role orgs) (\<lambda>b w'. quiet w w' \<and> (b \<longrightarrow> (\<exists>g. role \<in> set (cb_GetRoles (enforcer E) (genUserByUID uid) (Domain t g) (w_casbin w)))))
     (\<lambda>e w'. quiet w w') w"
proof (induction orgs arbitrary: w)
  case Nil
  then show ?case by (simp add: wp_ret)
next
  case (Cons r rs)
  show ?case unfolding has_role_in.simps wp_tryE
  proof (rule wp_mono [OF wp_GetRole], goal_cases)
    case (1 roles w')
    note q = quietD [of w w']
    have "wp (has_role_in E uid t role rs) (\<lambda>b w'. quiet w w' \<and> (b \<longrightarrow> (\<exists>g. role \<in> set (cb_GetRoles (enforcer E) (genUserByUID uid) (Domain t g) (w_casbin w)))))
        (\<lambda>e w'. quiet w w') w'"
      by (rule wp_mono [OF Cons.IH]) (use 1 q in \<open>auto intro: quiet_trans\<close>)
    then show ?case using 1 by (auto simp: wp_ret list_ex_iff)
  qed simp
qed

lemma wp_UserHasRoleInTenant:
  "wp (UserHasRoleInTenant E uid t role) (\<lambda>b w'. still w w' \<and> (b \<longrightarrow> (\<exists>g. role \<in> set (cb_GetRoles (enforcer E) (genUserByUID uid) (Domain t g) (w_casbin w)))))
     (\<lambda>e w'. still w w') w"
proof (cases "uid = 0 \<or> t = 0 \<or> role = []")
  case False
  have roles: "wp (has_role_in E uid t role orgs) (\<lambda>b w'. still w w' \<and> (b \<longrightarrow> (\<exists>g. role \<in> set (cb_GetRoles (enforcer E) (genUserByUID uid) (Domain t g) (w_casbin w)))))
     (\<lambda>e w'. still w w') (db_tick w)" for orgs
  proof (rule wp_mono [OF wp_has_role_in], goal_cases)
    case (1 x w')
    then have "quiet w w'" using quiet_trans quiet_tick quiet_refl by blast
    then show ?case using 1 quiet_still by auto
  next
    case (2 e w')
    then show ?case using quiet_still quiet_trans quiet_tick quiet_refl by blast
  qed
  show ?thesis using False roles
    by (simp add: UserHasRoleInTenant_def wp_handle OrgListByUser_dao_def wp_failIf wp_db_query wp_ret)
qed (auto simp: UserHasRoleInTenant_def wp_ret)

lemma tryE_run:
  "m w = (x, w1) \<Longrightarrow> tryE m k w = (case x of Ret r \<Rightarrow> k r w1 | Err e \<Rightarrow> (Err e, w1) | Panic \<Rightarrow> (Panic, w1))"
  by (simp add: tryE_def handle_def throw_def split: res.splits)

lemma authorize_outcome:
  assumes "tenant_state N p w"
  shows "calm w (snd (authorizeAdminTenant E su w)) \<and> (fst (authorizeAdminTenant E su w) = Ret () \<longrightarrow> admin_ok E p su w)"
proof (cases "u_UID su \<le> 0 \<or> u_TenantID su \<le> 0 \<or> u_TenantID su \<noteq> w_root w")
  case True
  then show ?thesis by (auto simp: authorizeAdminTenant_def reads_def failIf_def throw_def)
next
  case False
  let ?take = "AdminTenantTake (u_TenantID su)"
  let ?ask = "\<lambda>t. tryE (if t_UID t = u_UID su then ret True else UserHasRoleInTenant E (u_UID su) (u_TenantID su) ''root'') (\<lambda>isRootAdmin.
     failIf (\<not> isRootAdmin) ErrNoAuth (ret ()))"
  have eq: "authorizeAdminTenant E su w = tryE ?take (\<lambda>found. case found of None \<Rightarrow> panic | Some t \<Rightarrow> ?ask t) w"
    unfolding authorizeAdminTenant_def reads_def failIf_def [of "u_UID su \<le> 0 \<or> _"] if_not_P [OF False] ..
  have take: "wp ?take (\<lambda>r w'. r = fresh_tenant p (w_db w) (w_root w) \<and> calm w w') (\<lambda>e w'. calm w w') w"
    using wp_AdminTenantTake [OF assms, of "u_TenantID su"] False by auto
  have ask: "wp (?ask t) (\<lambda>_ w'. calm w w' \<and> admin_ok E p su w) (\<lambda>e w'. calm w w') w1"
    if t: "fresh_tenant p (w_db w) (w_root w) = Some t" and c: "calm w w1" for t w1
  proof (cases "t_UID t = u_UID su")
    case True
    then show ?thesis using False t c by (auto simp: wp_tryE wp_ret wp_failIf admin_ok_def)
  next
    case other: False
    show ?thesis unfolding if_not_P [OF other] wp_tryE
      by (rule wp_mono [OF wp_UserHasRoleInTenant])
        (use False t c in \<open>auto simp: wp_failIf wp_ret wp_throw admin_ok_def calm_fields [OF c] dest!: still_fields intro: calm_trans\<close>)
  qed
  obtain x w1 where run: "?take w = (x, w1)" by (cases "?take w")
  have c: "calm w w1" using take run by (cases x) (simp_all add: wp_def)
  show ?thesis
  proof (cases "\<exists>t. x = Ret (Some t)")
    case True
    then obtain t where x: "x = Ret (Some t)" by blast
    then have "fresh_tenant p (w_db w) (w_root w) = Some t" using take run by (simp add: wp_def)
    from ask [OF this c] show ?thesis unfolding eq tryE_run [where m = "AdminTenantTake (u_TenantID su)", OF run] x
      by (auto simp: wp_def split: prod.splits res.splits)
  next
    case none: False
    then show ?thesis unfolding eq tryE_run [where m = "AdminTenantTake (u_TenantID su)", OF run] using c
      by (auto simp: panic_def split: res.splits option.splits)
  qed
qed

text \<open>In a state with the invariants of the tenant tables: the user is a platform administrator.\<close>

definition may_admin :: "'c env \<Rightarrow> u64 set \<Rightarrow> (u64 \<rightharpoonup> u64) \<Rightarrow> User \<Rightarrow> 'c world \<Rightarrow> bool" where
  "may_admin E N p su w \<longleftrightarrow> (tenant_state N p w \<longrightarrow> admin_ok E p su w)"

lemma steady_may_admin: "steady (may_admin E N p su)"
  unfolding steady_def
proof (intro allI impI)
  fix w w' :: "'a world"
  assume "still w w'"
  then have "w_db w' = w_db w" "w_now w' = w_now w" "w_root w' = w_root w" "w_casbin w' = w_casbin w" "w_cache w' = w_cache w"
    using still_fields [of w w'] by (auto simp: still_def)
  then show "may_admin E N p su w' = may_admin E N p su w"
    by (simp add: may_admin_def admin_ok_def tenant_state_def tenants_cached_def)
qed

lemma guarded_authorize [guard_intros]:
  "guarded (may_admin E N p su) (svc status (authorizeAdminTenant E su) k)"
proof (unfold guarded_def, intro allI impI)
  fix g :: "'a gate" assume "\<not> may_admin E N p su (g_world g)"
  then have st: "tenant_state N p (g_world g)" and no: "\<not> admin_ok E p su (g_world g)" by (simp_all add: may_admin_def)
  obtain x w' where run: "authorizeAdminTenant E su (g_world g) = (x, w')" by (cases "authorizeAdminTenant E su (g_world g)")
  then have "calm (g_world g) w'" "x \<noteq> Ret ()" using authorize_outcome [OF st, of E su] no by auto
  then show "calm (g_world g) (g_world (snd (svc status (authorizeAdminTenant E su) k g)))"
    using run by (cases x) (simp_all add: svc_def handle_def on_world_def throw_def)
qed

lemma guarded_GetUserInfo [guard_intros]:
  "(\<And>u. guarded (may_admin E N p su) (k u)) \<Longrightarrow> guarded (may_admin E N p su) (svc status (GetUserInfo uid) k)"
  by (rule guarded_svc [OF steady_may_admin still_GetUserInfo])

text \<open>The requests of the platform administration, and what each of them runs.\<close>

datatype admin_request =
    TenantNew "NewTenantReq option" | TenantQueryReq form | SetParentReq form | TenantDeleteReq form
  | ConfigurationReq "MapStruct option" | UpdateConfigReq "UpdateTenantConfigReq option" | UpdateReq "UpdateTenantReq option"
  | UserAddReq "AdminUserAddReq option" | UserListReq form | UserDelReq "u64 option" | UserEditReq "AdminUserEditReq option"
  | ModifyPwdReq "MapStruct option"

definition no_data :: "('c, 'a) handler \<Rightarrow> ('c, unit) handler" where
  "no_data m = tryE m (\<lambda>_. ret ())"

text \<open>The values of \<open>apis\<close> under \<open>admin/\<close>.\<close>

definition admin_handler ::
  "'c server \<Rightarrow> (gval \<Rightarrow> string option) \<Rightarrow> (string \<Rightarrow> int option) \<Rightarrow> request \<Rightarrow> admin_request \<Rightarrow> ('c, unit) handler"
where
  "admin_handler sv jsonText parseTime r q = (case q of
     TenantNew b \<Rightarrow> no_data (AdminTenantNew_h sv r b)
   | TenantQueryReq f \<Rightarrow> no_data (AdminTenantQuery_h sv jsonText r f)
   | SetParentReq f \<Rightarrow> AdminSetParent sv r f
   | TenantDeleteReq f \<Rightarrow> AdminTenantDelete_h sv r f
   | ConfigurationReq b \<Rightarrow> AdminUpdateTenantConfiguration sv r b
   | UpdateConfigReq b \<Rightarrow> no_data (AdminTenantUpdateConfig_h sv parseTime r b)
   | UpdateReq b \<Rightarrow> no_data (AdminTenantUpdate_h sv r b)
   | UserAddReq b \<Rightarrow> no_data (admin_UserAdd sv r b)
   | UserListReq f \<Rightarrow> no_data (UserList sv r f)
   | UserDelReq b \<Rightarrow> admin_UserDel sv r b
   | UserEditReq b \<Rightarrow> UserEdit sv r b
   | ModifyPwdReq b \<Rightarrow> no_data (admin_ModifyUserPassword sv r b))"

lemma snd_no_data: "snd (no_data m g) = snd (m g)"
  by (simp add: no_data_def tryE_def handle_def ret_def throw_def split: prod.splits res.splits)

text \<open>A handler that reads the user and then runs \<open>k\<close>.\<close>

lemma with_user_guarded:
  fixes k :: "User \<Rightarrow> ('c, 'a) handler"
  assumes "\<And>su. guarded (may_admin E N p su) (k su)" and "tenant_state N p (g_world g)"
    and "\<not> calm (g_world g) (g_world (snd (with_user sv r k g)))"
  shows "\<exists>sess su. let_in sv r g sess \<and> session_user sess = Some su \<and> admin_ok E p su (g_world g)"
proof -
  obtain su g' where run: "with_user sv r k g = k su g'" and st: "still (g_world g) (g_world g')"
    and who: "su = zero_User \<or> (\<exists>sess. let_in sv r g sess \<and> session_user sess = Some su)"
    by (rule with_user_cases)
  have "may_admin E N p su (g_world g')"
  proof (rule ccontr)
    assume "\<not> may_admin E N p su (g_world g')"
    then have "calm (g_world g') (g_world (snd (k su g')))" using assms(1) by (simp add: guarded_def)
    then show False using assms(3) still_fields [OF st] calm_trans unfolding run by blast
  qed
  then have "admin_ok E p su (g_world g)"
    using steady_may_admin [of E N p su] st assms(2) by (auto simp: steady_def may_admin_def)
  moreover from this have "su \<noteq> zero_User" by (auto simp: admin_ok_def zero_User_def)
  ultimately show ?thesis using who by blast
qed

text \<open>A handler that changes something runs for a platform administrator.\<close>

lemma admin_handler_effect:
  assumes "tenant_state N p (g_world g)"
    and "\<not> calm (g_world g) (g_world (snd (admin_handler sv jsonText parseTime r q g)))"
  shows "\<exists>sess su. let_in sv r g sess \<and> session_user sess = Some su \<and> admin_ok (sv_env sv) p su (g_world g)"
proof (cases q)
  case (TenantNew b)
  show ?thesis by (rule with_user_guarded [OF _ assms(1)])
     (use assms(2) TenantNew in \<open>auto simp: admin_handler_def snd_no_data AdminTenantNew_h_def Let_def intro!: guard_intros\<close>)
next
  case (TenantQueryReq f)
  show ?thesis by (rule with_user_guarded [OF _ assms(1)])
     (use assms(2) TenantQueryReq in \<open>auto simp: admin_handler_def snd_no_data AdminTenantQuery_h_def Let_def intro!: guard_intros\<close>)
next
  case (SetParentReq f)
  show ?thesis by (rule with_user_guarded [OF _ assms(1)])
     (use assms(2) SetParentReq in \<open>auto simp: admin_handler_def snd_no_data AdminSetParent_def Let_def intro!: guard_intros\<close>)
next
  case (TenantDeleteReq f)
  show ?thesis by (rule with_user_guarded [OF _ assms(1)])
     (use assms(2) TenantDeleteReq in \<open>auto simp: admin_handler_def snd_no_data AdminTenantDelete_h_def Let_def intro!: guard_intros\<close>)
next
  case (ConfigurationReq b)
  show ?thesis by (rule with_user_guarded [OF _ assms(1)])
     (use assms(2) ConfigurationReq in \<open>auto simp: admin_handler_def snd_no_data AdminUpdateTenantConfiguration_def Let_def intro!: guard_intros split: gval.split\<close>)
next
  case (UpdateConfigReq b)
  show ?thesis by (rule with_user_guarded [OF _ assms(1)])
     (use assms(2) UpdateConfigReq in \<open>auto simp: admin_handler_def snd_no_data AdminTenantUpdateConfig_h_def Let_def intro!: guard_intros\<close>)
next
  case (UpdateReq b)
  show ?thesis by (rule with_user_guarded [OF _ assms(1)])
     (use assms(2) UpdateReq in \<open>auto simp: admin_handler_def snd_no_data AdminTenantUpdate_h_def Let_def intro!: guard_intros\<close>)
next
  case (UserAddReq b)
  show ?thesis by (rule with_user_guarded [OF _ assms(1)])
     (use assms(2) UserAddReq in \<open>auto simp: admin_handler_def snd_no_data admin_UserAdd_def Let_def intro!: guard_intros\<close>)
next
  case (UserListReq f)
  show ?thesis by (rule with_user_guarded [OF _ assms(1)])
     (use assms(2) UserListReq in \<open>auto simp: admin_handler_def snd_no_data UserList_def Let_def intro!: guard_intros\<close>)
next
  case (UserDelReq b)
  show ?thesis by (rule with_user_guarded [OF _ assms(1)])
     (use assms(2) UserDelReq in \<open>auto simp: admin_handler_def snd_no_data admin_UserDel_def Let_def intro!: guard_intros\<close>)
next
  case (UserEditReq b)
  show ?thesis by (rule with_user_guarded [OF _ assms(1)])
     (use assms(2) UserEditReq in \<open>auto simp: admin_handler_def snd_no_data UserEdit_def Let_def intro!: guard_intros\<close>)
next
  case (ModifyPwdReq b)
  show ?thesis by (rule with_user_guarded [OF _ assms(1)])
     (use assms(2) ModifyPwdReq in \<open>auto simp: admin_handler_def snd_no_data admin_ModifyUserPassword_def Let_def intro!: guard_intros\<close>)
qed

text \<open>
  C17. No handler of the platform administration changes a table, a sequence, a policy or any other part of the state but
  the caches, unless the request carries the valid session of a real, enabled user of the root tenant who
  owns that tenant by the present tables or holds the role \<open>root\<close> in it by the present policies. The routes
  themselves demand only a login, so this rests on \<open>authorizeAdminTenant\<close> alone.
\<close>

theorem admin_handlers_need_admin:
  assumes "tenant_state N p (g_world g)"
    and "\<And>sess su. let_in sv r g sess \<Longrightarrow> session_user sess = Some su \<Longrightarrow> \<not> admin_ok (sv_env sv) p su (g_world g)"
  shows "calm (g_world g) (g_world (snd (admin_handler sv jsonText parseTime r q g)))"
  using admin_handler_effect [OF assms(1)] assms(2) by blast

text \<open>The sample user is logged in, and belongs to tenant 2, not to the root tenant.\<close>

theorem admin_handlers_need_admin_witness:
  "let r = sample_request ''admin/user/del'' []; g = sample_gate 150 [] [(10001, sample_user)] in
     AuthFilter sample_server r g = (Ret (Some sample_session, True), sample_gate 150 [] [(10001, sample_user\<lparr>u_CacheTime := 150\<rparr>)])
     \<and> calm (g_world g) (g_world (snd (admin_handler sample_server (\<lambda>_. None) (\<lambda>_. None) r (UserDelReq (Some 10001)) g)))"
proof -
  let ?r = "sample_request ''admin/user/del'' []" and ?g = "sample_gate 150 [] [(10001, sample_user)]"
  have "tenant_state {1, 2, 3, 4} sample_tree (g_world ?g)"
    using sample_tenant_state [of "()" "[]"]
    by (auto simp: tenant_state_def tenants_cached_def sample_gate_def tenant_tree_def tenant_ids_def tv.view_def live_def sample_world_def)
  moreover have "u_TenantID sample_user = 2" by code_simp
  then have "\<not> admin_ok (sv_env sample_server) sample_tree su (g_world ?g)"
    if "let_in sample_server ?r ?g sess" "session_user sess = Some su" for sess su
  proof -
    have "sess = sample_session" using that(1) sample_session_of [of ?g] by (simp add: let_in_def sample_gate_def)
    then show ?thesis using that(2) sample_session_user \<open>u_TenantID sample_user = 2\<close> by (simp add: admin_ok_def sample_gate_def sample_world_def)
  qed
  ultimately show ?thesis
    using admin_handlers_need_admin [of "{1, 2, 3, 4}" sample_tree ?g sample_server ?r] sample_AuthFilter [of 150] by (simp add: Let_def)
qed

end
