(* ===== verification/Tenant_Face.thy ===== *)
theory Tenant_Face
  imports Admin_Face
begin

text \<open>
  \<open>face/tenant/\<close>: the handlers for the departments, the roles, the configuration and the users of the tenant of the
  session. The organization is the one the header \<open>X-Org-Id\<close> names, once \<open>SessionOrgID\<close> has found the user in it.
\<close>

definition need_tenant :: "User \<Rightarrow> gerr \<Rightarrow> ('c, 'a) handler \<Rightarrow> ('c, 'a) handler" where
  "need_tenant su e k = failIf (u_UID su \<le> 0 \<or> u_TenantID su \<le> 0) (200, e) k"

section \<open>Departments\<close>

record KvReq =
  kv_ID :: u64
  kv_TenantID :: u64
  kv_K :: string
  kv_V :: gval

definition DepartmentAdd :: "'c server \<Rightarrow> request \<Rightarrow> Department option \<Rightarrow> ('c, u64) handler" where
  "DepartmentAdd sv r body = with_user sv r (\<lambda>su.
     need_tenant su ErrNoAuth (
     need_body body (\<lambda>req.
     with_org sv r (u_TenantID su) (\<lambda>orgID.
     svc 200 (DepartmentCreate (req\<lparr>d_TenantID := u_TenantID su, d_UserId := u_UID su, d_OrgID := orgID\<rparr>)) ret))))"

text \<open>The one department of that number in the organization.\<close>

definition owned_department :: "u64 \<Rightarrow> u64 \<Rightarrow> u64 \<Rightarrow> ('c, 'a) handler \<Rightarrow> ('c, 'a) handler" where
  "owned_department i tenantID orgID k = svcAs (DepartmentFind i tenantID orgID 0 0) ErrNull (\<lambda>owned.
     failIf (length owned \<noteq> 1) (200, ErrNull) k)"

definition DepartmentDelete_h :: "'c server \<Rightarrow> request \<Rightarrow> form \<Rightarrow> ('c, unit) handler" where
  "DepartmentDelete_h sv r form = with_user sv r (\<lambda>su.
     let i = FormUint form ''id'' in
     failIf (u_UID su \<le> 0 \<or> u_TenantID su \<le> 0 \<or> i \<le> 0) (200, ErrParam) (
     with_org sv r (u_TenantID su) (\<lambda>orgID.
     owned_department i (u_TenantID su) orgID (
     svc 200 (DepartmentDelete i (u_TenantID su)) ret))))"

text \<open>The user of the row comes from the body, and the service refuses a body without one.\<close>

definition DepartmentUpdate_h :: "'c server \<Rightarrow> request \<Rightarrow> Department option \<Rightarrow> ('c, unit) handler" where
  "DepartmentUpdate_h sv r body = with_user sv r (\<lambda>su.
     need_tenant su ErrNoAuth (
     with_org sv r (u_TenantID su) (\<lambda>orgID.
     need_body body (\<lambda>req.
     owned_department (d_Id req) (u_TenantID su) orgID (
     svc 200 (DepartmentUpdate (req\<lparr>d_TenantID := u_TenantID su\<rparr>)) ret)))))"

definition DepartmentUpdateConfig_h :: "'c server \<Rightarrow> request \<Rightarrow> KvReq option \<Rightarrow> ('c, unit) handler" where
  "DepartmentUpdateConfig_h sv r body = with_user sv r (\<lambda>su.
     need_tenant su ErrNoAuth (
     with_org sv r (u_TenantID su) (\<lambda>orgID.
     need_body body (\<lambda>req.
     owned_department (kv_ID req) (u_TenantID su) orgID (
     svc 200 (DepartmentUpdateConfig (kv_ID req) (u_UID su) (u_TenantID su) (kv_K req) (kv_V req)) ret)))))"

definition DepartmentList :: "'c server \<Rightarrow> request \<Rightarrow> form \<Rightarrow> ('c, Department list) handler" where
  "DepartmentList sv r form = with_user sv r (\<lambda>su.
     need_tenant su ErrNoAuth (
     with_org sv r (u_TenantID su) (\<lambda>orgID.
     svc 200 (DepartmentFind (FormUint form ''id'') (u_TenantID su) orgID (FormUint form ''page'') (FormUint form ''page_size'')) ret)))"

section \<open>Roles of the tenant\<close>

definition AddRole :: "'c server \<Rightarrow> request \<Rightarrow> RoleStruct option \<Rightarrow> ('c, unit) handler" where
  "AddRole sv r body = with_user sv r (\<lambda>su.
     need_tenant su ErrNoAuth (
     need_body body (\<lambda>req.
     svc 200 (TenantAddRole (u_TenantID su) req) ret)))"

definition DelRole :: "'c server \<Rightarrow> request \<Rightarrow> RoleStruct option \<Rightarrow> ('c, unit) handler" where
  "DelRole sv r body = with_user sv r (\<lambda>su.
     need_tenant su ErrNoAuth (
     need_body body (\<lambda>req.
     svc 200 (TenantDelRole (u_TenantID su) req) ret)))"

definition GetRole :: "'c server \<Rightarrow> request \<Rightarrow> ('c, RoleStruct list) handler" where
  "GetRole sv r = with_user sv r (\<lambda>su.
     need_tenant su ErrNoAuth (
     svc 200 (TenantGetRole (u_TenantID su)) ret))"

section \<open>The tenant itself\<close>

text \<open>
  The body is decoded over a tenant whose owner is the user of the session, so a field \<open>uid\<close> in the body (the first
  component) replaces the owner.
\<close>

definition tenant_Add :: "'c server \<Rightarrow> request \<Rightarrow> (u64 option \<times> Tenant) option \<Rightarrow> ('c, u64) handler" where
  "tenant_Add sv r body = with_user sv r (\<lambda>su.
     failIf (u_UID su \<le> 0) (401, OtherErr []) (
     failIf (u_TenantID su > 0) (401, ErrTenantLimit) (
     need_body body (\<lambda>(uid, t).
     let req = t\<lparr>t_UID := (case uid of None \<Rightarrow> u_UID su | Some i \<Rightarrow> i)\<rparr> in
     svc 200 (TenantAdd (req\<lparr>t_TenantName := TrimSpace (t_TenantName req), t_TenantType := TrimSpace (t_TenantType req)\<rparr>)) ret))))"

definition UpdateConfiguration :: "'c server \<Rightarrow> request \<Rightarrow> MapStruct option \<Rightarrow> ('c, unit) handler" where
  "UpdateConfiguration sv r body = with_user sv r (\<lambda>su.
     need_tenant su ErrNoAuth (
     need_body body (\<lambda>req.
     svc 200 (TenantUpdateConfiguration (u_TenantID su) req) ret)))"

definition LoadConfiguration :: "'c server \<Rightarrow> request \<Rightarrow> form \<Rightarrow> ('c, gval) handler" where
  "LoadConfiguration sv r form = with_user sv r (\<lambda>su.
     need_tenant su ErrNoAuth (
     svc 200 (TenantLoadConfiguration (u_TenantID su) (TrimSpace (form ''k''))) ret))"

definition TreeList :: "'c server \<Rightarrow> request \<Rightarrow> form \<Rightarrow> ('c, Tenant list \<times> u64) handler" where
  "TreeList sv r form = with_user sv r (\<lambda>su.
     need_tenant su ErrNoAuth (
     let (page, pageSize) = page_form form ''pageSize'' 100 1000; pid = FormUint form ''pid'' in
     svc 200 (TenantTreeList su (if pid = 0 then u_TenantID su else pid) page pageSize (Atoi (form ''hasTotal'') = 1)) ret))"

section \<open>The users of the tenant\<close>

record DisableUserReq =
  du_UID :: u64
  du_Disable :: int

record SetDepartmentReq =
  sd_UID :: u64
  sd_DepIds :: "u64 list"

text \<open>A body without a user registers one first, as the body says, its \<open>tenant_id\<close> included.\<close>

definition tenant_UserAdd :: "'c server \<Rightarrow> request \<Rightarrow> UserReq option \<Rightarrow> ('c, u64) handler" where
  "tenant_UserAdd sv r body = with_user sv r (\<lambda>su.
     need_tenant su ErrNoAuth (
     need_body body (\<lambda>req.
     with_org sv r (u_TenantID su) (\<lambda>orgID.
     failIf (length (r_Roles req) > 10) (200, ErrParam) (
     tryE (if r_UID req = 0 then svc 200 (AddUserService (sv_env sv) req) ret else ret (r_UID req)) (\<lambda>uid.
     svc 200 (TenantUserAdd (sv_env sv) uid (u_TenantID su) orgID (r_DepIds req) (r_Roles req) (r_Disable req)) (\<lambda>_.
     ret uid)))))))"

text \<open>Of the request, a \<open>Tenant\<close>, only the field \<open>UID\<close> is used.\<close>

definition tenant_UserDel :: "'c server \<Rightarrow> request \<Rightarrow> u64 option \<Rightarrow> ('c, unit) handler" where
  "tenant_UserDel sv r body = with_user sv r (\<lambda>su.
     need_tenant su ErrNoAuth (
     need_body body (\<lambda>uid.
     with_org sv r (u_TenantID su) (\<lambda>orgID.
     svc 200 (TenantUserLeaveOrg (sv_env sv) uid (u_TenantID su) orgID) (\<lambda>_. ret ())))))"

definition parse_uids :: "string \<Rightarrow> u64 list option" where
  "parse_uids s = (if s = [] then Some []
     else those (map (\<lambda>x. case ParseUint x of (v, e) \<Rightarrow> if e then None else Some v) (Split (CHR '','') s)))"

definition UserGet :: "'c server \<Rightarrow> request \<Rightarrow> form \<Rightarrow> ('c, User list \<times> u64) handler" where
  "UserGet sv r form = with_user sv r (\<lambda>su.
     need_tenant su ErrNoAuth (
     case parse_uids (form ''uids'') of
       None \<Rightarrow> throw (200, ErrParam)
     | Some uids \<Rightarrow>
       let (page, pageSize) = page_form form ''pageSize'' 1 1000 in
       with_org sv r (u_TenantID su) (\<lambda>orgID.
       svc 200 (TenantUserGet (sv_env sv) (u_TenantID su) orgID page pageSize (TrimSpace (form ''nickname'')) uids
         (FormUint form ''hasTotal'' = 1)) ret)))"

definition UserDisableByUID :: "'c server \<Rightarrow> request \<Rightarrow> DisableUserReq option \<Rightarrow> ('c, unit) handler" where
  "UserDisableByUID sv r body = with_user sv r (\<lambda>su.
     need_tenant su ErrNoAuth (
     need_body body (\<lambda>req.
     failIf (du_UID req \<le> 0 \<or> \<not> IsValid (du_Disable req)) (200, ErrParam) (
     svc 200 (TenantUserDisabledService (du_UID req) (u_TenantID su) (du_Disable req)) ret))))"

definition UserModifyExtInfo :: "'c server \<Rightarrow> request \<Rightarrow> KvReq option \<Rightarrow> ('c, unit) handler" where
  "UserModifyExtInfo sv r body = with_user sv r (\<lambda>su.
     need_tenant su ErrNoAuth (
     need_body body (\<lambda>req.
     failIf (TrimSpace (kv_K req) = DepartmentExtKey) (200, ErrParam) (
     svc 200 (TenantUpdateUserExt (kv_ID req) (u_TenantID su) (kv_K req) (kv_V req)) ret))))"

definition tenant_ModifyUserPassword :: "'c server \<Rightarrow> request \<Rightarrow> MapStruct option \<Rightarrow> ('c, string) handler" where
  "tenant_ModifyUserPassword sv r body = ModifyPWDByUIDWithTenant sv r body True"

definition UserSetDepartment :: "'c server \<Rightarrow> request \<Rightarrow> SetDepartmentReq option \<Rightarrow> ('c, unit) handler" where
  "UserSetDepartment sv r body = with_user sv r (\<lambda>su.
     need_tenant su ErrNoAuth (
     need_body body (\<lambda>req.
     failIf (sd_UID req \<le> 0) (200, ErrParam) (
     with_org sv r (u_TenantID su) (\<lambda>orgID.
     svc 200 (TenantUserSetDepartment (sd_UID req) (u_TenantID su) orgID (sd_DepIds req)) ret)))))"

section \<open>Departments stay in their organization\<close>

definition elsewhere :: "u64 \<Rightarrow> u64 \<Rightarrow> Department \<Rightarrow> bool" where
  "elsewhere t o' x \<longleftrightarrow> \<not> (d_TenantID x = t \<and> d_OrgID x = o')"

text \<open>
  Only departments of the organization of the request have changed, and only for a member of it.
\<close>

definition dep_change :: "'c server \<Rightarrow> request \<Rightarrow> 'c gate \<Rightarrow> 'c world \<Rightarrow> bool" where
  "dep_change sv r g w' \<longleftrightarrow> (let w = g_world g in
     w_casbin w' = w_casbin w \<and> w_db w' = (w_db w)\<lparr>departments := departments (w_db w')\<rparr>
     \<and> (departments (w_db w') \<noteq> departments (w_db w) \<longrightarrow> (\<exists>su. session_is sv r g su
        \<and> in_org (w_db w) (u_UID su) (u_TenantID su) (ParseOrgID r)
        \<and> filter (elsewhere (u_TenantID su) (ParseOrgID r)) (departments (w_db w'))
          = filter (elsewhere (u_TenantID su) (ParseOrgID r)) (departments (w_db w)))))"

lemma dep_change_same: "w_db w' = w_db (g_world g) \<Longrightarrow> w_casbin w' = w_casbin (g_world g) \<Longrightarrow> dep_change sv r g w'"
  by (simp add: dep_change_def Let_def)

lemma dep_change_calm: "calm (g_world g) w' \<Longrightarrow> dep_change sv r g w'"
  by (rule dep_change_same) (auto dest: calm_fields)

lemma dep_change_step:
  assumes "session_is sv r g su" "in_org (w_db (g_world g)) (u_UID su) (u_TenantID su) (ParseOrgID r)"
    and "w_db w' = (w_db (g_world g))\<lparr>departments := ds\<rparr>" "w_casbin w' = w_casbin (g_world g)"
    and "filter (elsewhere (u_TenantID su) (ParseOrgID r)) ds
      = filter (elsewhere (u_TenantID su) (ParseOrgID r)) (departments (w_db (g_world g)))"
  shows "dep_change sv r g w'"
  using assms unfolding dep_change_def Let_def by auto

lemma filter_map_outside:
  assumes "\<And>x. x \<in> set xs \<Longrightarrow> P x \<Longrightarrow> \<not> S x \<and> \<not> S (f x)"
  shows "filter S (map (\<lambda>x. if P x then f x else x) xs) = filter S xs"
  using assms by (induction xs) auto

lemma filter_filter_outside:
  assumes "\<And>x. x \<in> set xs \<Longrightarrow> \<not> P x \<Longrightarrow> \<not> S x"
  shows "filter S (filter P xs) = filter S xs"
  using assms by (induction xs) auto

text \<open>Every department of that number is one of the organization.\<close>

definition dep_row :: "u64 \<Rightarrow> u64 \<Rightarrow> u64 \<Rightarrow> db \<Rightarrow> bool" where
  "dep_row i t o' d \<longleftrightarrow> (\<forall>x \<in> set (departments d). d_Id x = i \<longrightarrow> d_TenantID x = t \<and> d_OrgID x = o')"

lemma dep_rowI:
  assumes "distinct_by d_Id (departments d)" "x \<in> set (departments d)" "d_Id x = i" "d_TenantID x = t" "d_OrgID x = o'"
  shows "dep_row i t o' d"
  using assms distinct_by_inj [OF assms(1)] by (auto simp: dep_row_def)

lemma wp_single:
  assumes "\<And>v'. w_db v' = w_db v \<Longrightarrow> w_casbin v' = w_casbin v \<Longrightarrow> Q rr v'"
  shows "wp (case rr of [] \<Rightarrow> ret rr | [m] \<Rightarrow> if c then update (depcache_set t i m) (ret rr) else ret rr | m # x # xs \<Rightarrow> ret rr) Q E v"
proof -
  have "w_db (depcache_set t i m v) = w_db v" "w_casbin (depcache_set t i m v) = w_casbin v" for m
    by (simp_all add: depcache_set_def)
  then show ?thesis using assms by (auto simp: wp_update wp_ret split: list.split)
qed

lemma wp_DepartmentFind:
  assumes "\<And>rr w'. w_db w' = w_db w \<Longrightarrow> w_casbin w' = w_casbin w
      \<Longrightarrow> set (if page = 0 then rr else []) \<subseteq> {x \<in> set (departments (w_db w)). d_TenantID x = t \<and> (i > 0 \<longrightarrow> d_Id x = i) \<and> (o' > 0 \<longrightarrow> d_OrgID x = o')} \<Longrightarrow> Q rr w'"
    and "\<And>e w'. w_db w' = w_db w \<Longrightarrow> w_casbin w' = w_casbin w \<Longrightarrow> E e w'"
  shows "wp (DepartmentFind i t o' page n) Q E w"
proof (cases "t = 0 \<or> db_fails w")
  case True
  then show ?thesis using assms(2)
    by (auto simp: DepartmentFind_def DepartmentFind_dao_def wp_failIf wp_tryAs wp_db_query)
next
  case False
  let ?rows = "rev (sort_key d_UpdateTime (rev (filter (\<lambda>x. d_TenantID x = t \<and> (i > 0 \<longrightarrow> d_Id x = i) \<and> (o' > 0 \<longrightarrow> d_OrgID x = o')) (departments (w_db w)))))"
  let ?rr = "if page > 0 \<and> n > 0 then page_of page n ?rows else ?rows"
  have "set (if page = 0 then ?rr else []) \<subseteq> {x \<in> set (departments (w_db w)). d_TenantID x = t \<and> (i > 0 \<longrightarrow> d_Id x = i) \<and> (o' > 0 \<longrightarrow> d_OrgID x = o')}"
    by auto
  then show ?thesis using False assms(1) [of _ ?rr]
    unfolding DepartmentFind_def DepartmentFind_dao_def wp_failIf wp_tryAs wp_db_query Let_def
    by (auto intro: wp_single)
qed

lemma wp_owned_department:
  assumes "distinct_by d_Id (departments (w_db (g_world g)))" "o' \<noteq> 0"
    and "\<And>g'. w_db (g_world g') = w_db (g_world g) \<Longrightarrow> w_casbin (g_world g') = w_casbin (g_world g)
       \<Longrightarrow> (i \<noteq> 0 \<Longrightarrow> dep_row i t o' (w_db (g_world g))) \<Longrightarrow> wp k Q E g'"
    and "\<And>e g'. w_db (g_world g') = w_db (g_world g) \<Longrightarrow> w_casbin (g_world g') = w_casbin (g_world g) \<Longrightarrow> E e g'"
  shows "wp (owned_department i t o' k) Q E g"
  unfolding owned_department_def wp_svcAs
proof (rule wp_DepartmentFind, goal_cases)
  case (1 rr w')
  show ?case
  proof (cases rr)
    case (Cons x xs)
    then have x: "x \<in> set (departments (w_db (g_world g)))" "d_TenantID x = t" "i > 0 \<longrightarrow> d_Id x = i" "d_OrgID x = o'"
      using 1(3) assms(2) by (auto simp: word_gt_0)
    then show ?thesis unfolding wp_failIf
      by (auto intro!: assms(3,4) dep_rowI [OF assms(1)] simp: 1(1,2) word_gt_0)
  qed (use 1 assms(4) in \<open>simp add: wp_failIf\<close>)
next
  case (2 e w')
  then show ?case by (intro assms(4)) simp_all
qed

text \<open>The requests for departments, and what each of them runs.\<close>

datatype department_request =
    DepAdd "Department option" | DepDelete form | DepUpdate "Department option" | DepConfig "KvReq option" | DepList form

definition department_handler :: "'c server \<Rightarrow> request \<Rightarrow> department_request \<Rightarrow> ('c, unit) handler" where
  "department_handler sv r q = (case q of
     DepAdd b \<Rightarrow> no_data (DepartmentAdd sv r b)
   | DepDelete f \<Rightarrow> DepartmentDelete_h sv r f
   | DepUpdate b \<Rightarrow> DepartmentUpdate_h sv r b
   | DepConfig b \<Rightarrow> DepartmentUpdateConfig_h sv r b
   | DepList f \<Rightarrow> no_data (DepartmentList sv r f))"

text \<open>The state a handler reaches its service call in.\<close>

definition in_charge :: "'c server \<Rightarrow> request \<Rightarrow> 'c gate \<Rightarrow> User \<Rightarrow> 'c world \<Rightarrow> bool" where
  "in_charge sv r g su w \<longleftrightarrow> w_db w = w_db (g_world g) \<and> w_casbin w = w_casbin (g_world g) \<and> session_is sv r g su
     \<and> in_org (w_db (g_world g)) (u_UID su) (u_TenantID su) (ParseOrgID r)"

lemma in_charge_change:
  assumes "in_charge sv r g su w" "w_db w' = (w_db w)\<lparr>departments := departments (w_db w')\<rparr>" "w_casbin w' = w_casbin w"
    and "filter (elsewhere (u_TenantID su) (ParseOrgID r)) (departments (w_db w'))
      = filter (elsewhere (u_TenantID su) (ParseOrgID r)) (departments (w_db w))"
  shows "dep_change sv r g w'"
  using assms by (intro dep_change_step [of sv r g su w' "departments (w_db w')"]) (auto simp: in_charge_def)

lemma in_charge_same: "in_charge sv r g su w \<Longrightarrow> w_db w' = w_db w \<Longrightarrow> w_casbin w' = w_casbin w \<Longrightarrow> dep_change sv r g w'"
  by (rule dep_change_same) (simp_all add: in_charge_def)

lemma wp_insert_or_fail:
  "wp (\<lambda>w. case f w of Some c \<Rightarrow> (Err (e c), b w) | None \<Rightarrow> (Ret (x w), a w)) Q E w
     = (case f w of None \<Rightarrow> Q (x w) (a w) | Some c \<Rightarrow> E (e c) (b w))"
  by (simp add: wp_def split: option.splits)

lemma wp_dup_or_service:
  "E ErrPgDupKey w \<Longrightarrow> E ErrService w \<Longrightarrow> wp (case err of PgUnique _ \<Rightarrow> throw ErrPgDupKey | _ \<Rightarrow> throw ErrService) Q E w"
  by (cases err) (simp_all add: wp_throw)

lemma wp_DepartmentCreate_in:
  assumes "in_charge sv r g su w" "d_TenantID m = u_TenantID su" "d_OrgID m = ParseOrgID r"
  shows "wp (DepartmentCreate m) (\<lambda>_. dep_change sv r g) (\<lambda>_. dep_change sv r g) w"
  unfolding DepartmentCreate_def DepartmentCreate_dao_def wp_failIf wp_handle wp_db_stmt Let_def wp_insert_or_fail wp_ret
  by (auto simp: in_charge_same [OF assms(1)] wp_throw wp_dup_or_service split: option.split)
     (rule in_charge_change [OF assms(1)], auto simp: assms(2,3) elsewhere_def)

lemma wp_DepartmentDelete_in:
  assumes "in_charge sv r g su w" "dep_row i (u_TenantID su) (ParseOrgID r) (w_db w)"
  shows "wp (DepartmentDelete i (u_TenantID su)) (\<lambda>_. dep_change sv r g) (\<lambda>_. dep_change sv r g) w"
  unfolding DepartmentDelete_def DepartmentDelete_dao_def wp_finally_do wp_tryAs wp_db_exec wp_ret Let_def
  by (simp add: depcache_del_def in_charge_same [OF assms(1)], intro impI in_charge_change [OF assms(1)])
     (use assms(2) in \<open>auto simp del: filter_filter simp: dep_row_def elsewhere_def intro!: filter_filter_outside\<close>)

lemma wp_DepartmentUpdate_in:
  assumes "in_charge sv r g su w" "d_TenantID m = u_TenantID su" "d_Id m \<noteq> 0 \<Longrightarrow> dep_row (d_Id m) (u_TenantID su) (ParseOrgID r) (w_db w)"
  shows "wp (DepartmentUpdate m) (\<lambda>_. dep_change sv r g) (\<lambda>_. dep_change sv r g) w"
  unfolding DepartmentUpdate_def DepartmentUpdate_dao_def wp_failIf wp_finally_do wp_tryAs wp_db_stmt Let_def wp_insert_or_fail wp_ret
  by (auto simp: in_charge_same [OF assms(1)] depcache_del_def split: option.split)
     (rule in_charge_change [OF assms(1)], use assms(2,3) in \<open>auto simp: dep_row_def elsewhere_def intro!: filter_map_outside\<close>)

lemma wp_DepartmentUpdateConfig_in:
  assumes "in_charge sv r g su w" "i \<noteq> 0 \<Longrightarrow> dep_row i (u_TenantID su) (ParseOrgID r) (w_db w)"
  shows "wp (DepartmentUpdateConfig i uid (u_TenantID su) k v) (\<lambda>_. dep_change sv r g) (\<lambda>_. dep_change sv r g) w"
proof -
  have change: "wp (tryAs (DepartmentUpdateConfig_dao (m\<lparr>d_Config := c\<rparr>)) ErrService (\<lambda>rows. ret ()))
      (\<lambda>_ w'. dep_change sv r g (depcache_del t u w')) (\<lambda>_ w'. dep_change sv r g (depcache_del t u w')) (db_tick w)"
    if "d_Id m = i" "i \<noteq> 0" for m c t u
    unfolding DepartmentUpdateConfig_dao_def wp_tryAs wp_db_exec wp_ret
    by (simp add: depcache_del_def in_charge_same [OF assms(1)], intro impI in_charge_change [OF assms(1)])
       (use assms(2) that in \<open>auto simp: dep_row_def elsewhere_def intro!: filter_map_outside\<close>)
  have stop: "dep_change sv r g (depcache_del t u (db_tick w))" "dep_change sv r g w" for t u
    by (auto simp: depcache_del_def intro: in_charge_same [OF assms(1)])
  show ?thesis unfolding DepartmentUpdateConfig_def DepartmentFind_dao_def wp_failIf wp_finally_do wp_tryAs [of "db_query _"] wp_db_query
    using change stop by (auto simp: wp_failIf wp_throw split: list.split)
qed

lemma wp_need_tenant:
  "(u_UID su \<noteq> 0 \<Longrightarrow> u_TenantID su \<noteq> 0 \<Longrightarrow> wp k Q E g) \<Longrightarrow> E (200, e) g \<Longrightarrow> wp (need_tenant su e k) Q E g"
  by (auto simp: need_tenant_def wp_failIf)

text \<open>From the session to the organization, with the same user at both look-ups.\<close>

lemma wp_with_org_in_charge:
  fixes g g1 :: "'c gate"
  assumes "orgs_cached (g_world g)" "still (g_world g) (g_world g1)" "su = zero_User \<or> session_is sv r g su"
    and ok: "\<And>g'. in_charge sv r g su (g_world g') \<Longrightarrow> ParseOrgID r \<noteq> 0 \<Longrightarrow> wp (k (ParseOrgID r)) Q E g'"
    and no: "\<And>e g'. calm (g_world g) (g_world g') \<Longrightarrow> E e g'" and "u_TenantID su \<noteq> 0"
  shows "wp (with_org sv r (u_TenantID su) k) Q E g1"
proof (rule wp_with_org)
  note st = still_fields [OF assms(2)]
  show "orgs_cached (g_world g1)" using assms(1) st by simp
  show "E e g'" if "calm (g_world g1) (g_world g')" for e g' using that st by (intro no) (blast intro: calm_trans)
  fix su' and g' :: "'c gate" assume c: "calm (g_world g1) (g_world g')" and s: "session_is sv r g1 su'"
    and i: "in_org (w_db (g_world g1)) (u_UID su') (u_TenantID su) (ParseOrgID r)"
  have su: "session_is sv r g su" using assms(3,6) by (auto simp: zero_User_def)
  have "su' = su" by (rule session_is_unique [OF su s]) (use st in simp)
  then have "in_charge sv r g su (g_world g')"
    using i su st calm_fields [OF c] by (auto simp: in_charge_def)
  then show "wp (k (ParseOrgID r)) Q E g'" using i by (intro ok) (simp_all add: in_org_def org_of_def)
qed

text \<open>
  C18. The handlers for departments. No request changes anything but the departments of the one organization it names in
  \<open>X-Org-Id\<close>, and those only when it carries the valid session of a real, enabled user who is a member of that
  organization of his tenant by the present tables. The numbers and the tenant in the body do not widen this. Nothing panics.
\<close>

theorem department_handlers_stay_in_org:
  assumes "orgs_cached (g_world g)" and "distinct_by d_Id (departments (w_db (g_world g)))"
  shows "fst (department_handler sv r q g) \<noteq> Panic \<and> dep_change sv r g (g_world (snd (department_handler sv r q g)))"
proof -
  let ?I = "\<lambda>g'. dep_change sv r g (g_world g')"
  have still: "?I g'" if "calm (g_world g) (g_world g')" for g' using dep_change_calm [OF that] .
  note org = wp_with_org_in_charge [OF assms(1)]
  have keep: "?I g'" if "in_charge sv r g su (g_world h)" "w_db (g_world g') = w_db (g_world h)" "w_casbin (g_world g') = w_casbin (g_world h)" for g' h su
    using in_charge_same [OF that] .
  have here: "?I h" if "in_charge sv r g su (g_world h)" for h su using in_charge_same [OF that] by simp
  have own: "wp (owned_department i (u_TenantID su) (ParseOrgID r) k) (\<lambda>_. ?I) (\<lambda>_. ?I) h"
    if "in_charge sv r g su (g_world h)" "ParseOrgID r \<noteq> 0"
      "\<And>g'. in_charge sv r g su (g_world g') \<Longrightarrow> (i \<noteq> 0 \<Longrightarrow> dep_row i (u_TenantID su) (ParseOrgID r) (w_db (g_world g'))) \<Longrightarrow> wp k (\<lambda>_. ?I) (\<lambda>_. ?I) g'"
    for i su k h
    by (rule wp_owned_department) (use that assms(2) in \<open>auto simp: in_charge_def intro: keep [OF that(1)]\<close>)
  have add: "wp (DepartmentAdd sv r b) (\<lambda>_. ?I) (\<lambda>_. ?I) g" for b
    unfolding DepartmentAdd_def
    by (intro wp_with_user wp_need_tenant wp_need_body org)
       (auto simp: wp_svc wp_ret intro!: still wp_mono [OF wp_DepartmentCreate_in] dest: still_fields)
  have delete: "wp (DepartmentDelete_h sv r f) (\<lambda>_. ?I) (\<lambda>_. ?I) g" for f
    unfolding DepartmentDelete_h_def Let_def
    by (intro wp_with_user wp_failIfI org own)
       (auto simp: wp_svc wp_ret word_gt_0 in_charge_def intro!: still wp_mono [OF wp_DepartmentDelete_in] dest: still_fields)
  have upd: "wp (DepartmentUpdate_h sv r b) (\<lambda>_. ?I) (\<lambda>_. ?I) g" for b
    unfolding DepartmentUpdate_h_def
    by (intro wp_with_user wp_need_tenant wp_need_body org own)
       (auto simp: wp_svc wp_ret intro: still here keep intro!: wp_mono [OF wp_DepartmentUpdate_in] dest: still_fields)
  have cfg: "wp (DepartmentUpdateConfig_h sv r b) (\<lambda>_. ?I) (\<lambda>_. ?I) g" for b
    unfolding DepartmentUpdateConfig_h_def
    by (intro wp_with_user wp_need_tenant wp_need_body org own)
       (auto simp: wp_svc wp_ret intro: still here keep intro!: wp_mono [OF wp_DepartmentUpdateConfig_in] dest: still_fields)
  have list: "wp (DepartmentList sv r f) (\<lambda>_. ?I) (\<lambda>_. ?I) g" for f
    unfolding DepartmentList_def
    by (intro wp_with_user wp_need_tenant org)
       (auto simp: wp_svc wp_ret intro: still here keep in_charge_same intro!: wp_DepartmentFind dest: still_fields)
  have "wp (department_handler sv r q) (\<lambda>_. ?I) (\<lambda>_. ?I) g"
    by (cases q) (simp_all add: department_handler_def no_data_def wp_tryE wp_ret add delete upd cfg list)
  then show ?thesis using wp_no_panic wp_snd by metis
qed

text \<open>The sample user, a member of organization 7, tries to delete the department 2 of organization 8.\<close>

lemma sample_session_is:
  assumes "100 \<le> w_now (g_world g)" "w_now (g_world g) \<le> 3700" "session_is sample_server (sample_request api hs) g su"
  shows "su = sample_user"
proof -
  obtain sess where "session_of sample_server (sample_request api hs) g = (Some sess, None)" "session_user sess = Some su"
    using assms(3) by (auto simp only: session_is_def let_in_def)
  then show ?thesis using sample_session_of [OF assms(1,2), of api hs] sample_session_user by simp
qed

lemma sample_org: "ParseOrgID (sample_request api [(''X-Org-Id'', ''7'')]) = 7"
  by (simp add: ParseOrgID_def header_def sample_request_def TrimSpace_def is_space_def ParseUint_def is_digit_def nat_of_digits_def digit_val_def)

definition two_departments :: "Department list" where
  "two_departments = map (\<lambda>(i, g). \<lparr>d_Id = i, d_ParentID = 0, d_UserId = 10001, d_TenantID = 2, d_OrgID = g, d_CreateTime = 0,
     d_UpdateTime = 0, d_Name = ''desk'', d_Config = []\<rparr>) [(1, 7), (2, 8)]"

definition dep_gate :: "(rule list \<times> grouping list) gate" where
  "dep_gate = \<lparr>g_world = (org_world [])\<lparr>w_now := 150, w_db := (w_db (org_world []))\<lparr>departments := two_departments\<rparr>\<rparr>, g_users = [(10001, sample_user)]\<rparr>"

lemma dep_gate_cached: "orgs_cached (g_world dep_gate)"
  by (simp add: orgs_cached_def dep_gate_def org_world_def sample_world_def cache_typed_def ov.view_def mv.view_def live_def)

theorem department_handlers_stay_in_org_witness:
  "\<exists>x \<in> set (departments (w_db (g_world (snd (department_handler sample_server (sample_request ''tenant/department/delete'' [(''X-Org-Id'', ''7'')])
     (DepDelete (\<lambda>_. ''2'')) dep_gate))))). d_Id x = 2"
proof -
  let ?r = "sample_request ''tenant/department/delete'' [(''X-Org-Id'', ''7'')]"
  let ?w' = "g_world (snd (department_handler sample_server ?r (DepDelete (\<lambda>_. ''2'')) dep_gate))"
  have org: "ParseOrgID ?r = 7" by (rule sample_org)
  have deps: "departments (w_db (g_world dep_gate)) = two_departments" "w_now (g_world dep_gate) = 150" by (simp_all add: dep_gate_def)
  have "distinct_by d_Id (departments (w_db (g_world dep_gate)))" by (simp add: deps distinct_by_def two_departments_def)
  from department_handlers_stay_in_org [OF dep_gate_cached this, of sample_server ?r "DepDelete (\<lambda>_. ''2'')"]
  have "departments (w_db ?w') \<noteq> two_departments \<longrightarrow> (\<exists>su. session_is sample_server ?r dep_gate su
      \<and> filter (elsewhere (u_TenantID su) 7) (departments (w_db ?w')) = filter (elsewhere (u_TenantID su) 7) two_departments)"
    by (auto simp: dep_change_def Let_def deps org)
  moreover have "su = sample_user" if "session_is sample_server ?r dep_gate su" for su
    by (rule sample_session_is [OF _ _ that]) (simp_all add: deps)
  moreover have "\<exists>x \<in> set (filter (elsewhere 2 7) two_departments). d_Id x = 2" "\<exists>x \<in> set two_departments. d_Id x = 2"
    by (simp_all add: two_departments_def elsewhere_def)
  ultimately have "\<exists>x \<in> set (filter (elsewhere 2 7) (departments (w_db ?w'))). d_Id x = 2"
    using sample_user_fields(3) by (metis filter_cong)
  then show ?thesis by auto
qed

end
