(* ===== verification/Access_Face.thy ===== *)
theory Access_Face
  imports Tenant_Face
begin

text \<open>
  \<open>face/access/\<close>: the handlers for the roles and policies of an organization and for the permission points of a
  tenant.
\<close>

section \<open>Roles\<close>

definition sessionOrg :: "'c server \<Rightarrow> request \<Rightarrow> (User \<Rightarrow> u64 \<Rightarrow> ('c, 'a) handler) \<Rightarrow> ('c, 'a) handler" where
  "sessionOrg sv r k = with_user sv r (\<lambda>su.
     need_tenant su ErrTenantNotFound (
     with_org sv r (u_TenantID su) (k su)))"

definition AddRoleForUser :: "'c server \<Rightarrow> request \<Rightarrow> RoleStruct option \<Rightarrow> ('c, unit) handler" where
  "AddRoleForUser sv r body = sessionOrg sv r (\<lambda>su orgID.
     need_body body (\<lambda>req.
     failIf (TrimSpace (RoleValue req) = []) (200, ErrParam) (
     svc 200 (AddRoleForUserInDomain (enforcer (sv_env sv)) (RoleUID req) (u_TenantID su) orgID (TrimSpace (RoleValue req))) ret)))"

record RoleReq =
  rr_RoleValue :: string
  rr_NewRoleValue :: string
  rr_UID :: u64

definition UpdateRoleForUser :: "'c server \<Rightarrow> request \<Rightarrow> RoleReq option \<Rightarrow> ('c, unit) handler" where
  "UpdateRoleForUser sv r body = sessionOrg sv r (\<lambda>su orgID.
     need_body body (\<lambda>req.
     failIf (TrimSpace (rr_RoleValue req) = [] \<or> TrimSpace (rr_NewRoleValue req) = []) (200, ErrParam) (
     svcAs (DeleteRoleForUserInDomain (enforcer (sv_env sv)) (rr_UID req) (u_TenantID su) orgID (TrimSpace (rr_RoleValue req))) ErrService (\<lambda>_.
     svc 200 (AddRoleForUserInDomain (enforcer (sv_env sv)) (rr_UID req) (u_TenantID su) orgID (TrimSpace (rr_NewRoleValue req))) ret))))"

text \<open>The role is removed as it came, spaces included.\<close>

definition RemoveRoleForUser :: "'c server \<Rightarrow> request \<Rightarrow> RoleStruct option \<Rightarrow> ('c, unit) handler" where
  "RemoveRoleForUser sv r body = sessionOrg sv r (\<lambda>su orgID.
     need_body body (\<lambda>req.
     failIf (TrimSpace (RoleValue req) = []) (200, ErrParam) (
     svcAs (DeleteRoleForUserInDomain (enforcer (sv_env sv)) (RoleUID req) (u_TenantID su) orgID (RoleValue req)) ErrService ret)))"

text \<open>The roles with the titles of the tenant's dictionary; the last entry of a value wins.\<close>

definition with_titles :: "RoleStruct list \<Rightarrow> string list \<Rightarrow> RoleStruct list" where
  "with_titles confs roles = map (\<lambda>role. \<lparr>RoleTitle = fold (\<lambda>c title. if role = RoleValue c then RoleTitle c else title) confs [],
     RoleValue = role, RoleUID = 0\<rparr>) roles"

definition roles_with_titles :: "'c server \<Rightarrow> u64 \<Rightarrow> u64 \<Rightarrow> u64 \<Rightarrow> ('c, RoleStruct list) handler" where
  "roles_with_titles sv uid tenantID orgID =
     svc 200 (GetRoleForUserInDomain (enforcer (sv_env sv)) uid tenantID orgID) (\<lambda>roles.
     svc 200 (TenantGetRole tenantID) (\<lambda>confs. ret (with_titles confs roles)))"

definition GetRolesForMe :: "'c server \<Rightarrow> request \<Rightarrow> ('c, RoleStruct list) handler" where
  "GetRolesForMe sv r = with_user sv r (\<lambda>su.
     need_tenant su ErrTenantNotFound (
     let orgID = ParseOrgID r in
     if orgID = 0 then ret []
     else handle (on_world (UserInOrg (u_UID su) (u_TenantID su) orgID)) (\<lambda>_. ret []) (\<lambda>_.
       roles_with_titles sv (u_UID su) (u_TenantID su) orgID)))"

definition GetRolesForUser :: "'c server \<Rightarrow> request \<Rightarrow> form \<Rightarrow> ('c, RoleStruct list) handler" where
  "GetRolesForUser sv r form = sessionOrg sv r (\<lambda>su orgID.
     let iuid = FormUint form ''uid'' in
     failIf (iuid \<le> 0) (200, ErrParam) (
     roles_with_titles sv iuid (u_TenantID su) orgID))"

definition GetUsersForRole :: "'c server \<Rightarrow> request \<Rightarrow> form \<Rightarrow> ('c, u64 list) handler" where
  "GetUsersForRole sv r form = sessionOrg sv r (\<lambda>su orgID.
     let roleName = form ''role'' in
     failIf (roleName = [] \<or> length roleName > 100) (200, ErrParam) (
     svc 200 (GetUsersForRoleInDomain (enforcer (sv_env sv)) roleName (u_TenantID su) orgID) ret))"

section \<open>Policies\<close>

record Policy =
  po_Role :: string
  po_Obj :: string
  po_Act :: string

text \<open>A rule with four fields whose subject is \<open>p\<close> or \<open>P\<close> is taken for one that starts with the policy type.\<close>

definition policyRuleToDTO :: "string list \<Rightarrow> Policy option" where
  "policyRuleToDTO rule = (if length rule < 4 then None else
     let a = map TrimSpace rule; head = ToLower (a ! 0) in
     if head = ''p'' \<and> length a \<ge> 5 then
       (if a ! 1 = [] \<or> a ! 3 = [] \<or> a ! 4 = [] then None else Some \<lparr>po_Role = a ! 1, po_Obj = a ! 3, po_Act = a ! 4\<rparr>)
     else if head = ''p'' \<and> length a \<ge> 4 then
       (if a ! 1 = [] \<or> a ! 2 = [] \<or> a ! 3 = [] then None else Some \<lparr>po_Role = a ! 1, po_Obj = a ! 2, po_Act = a ! 3\<rparr>)
     else if a ! 0 = [] \<or> a ! 2 = [] \<or> a ! 3 = [] then None
     else Some \<lparr>po_Role = a ! 0, po_Obj = a ! 2, po_Act = a ! 3\<rparr>)"

record PolicyReq =
  pr_Role :: string
  pr_Obj :: string
  pr_Act :: string

definition AddPolicyToRole_h :: "'c server \<Rightarrow> request \<Rightarrow> PolicyReq option \<Rightarrow> ('c, unit) handler" where
  "AddPolicyToRole_h sv r body = with_user sv r (\<lambda>su.
     need_tenant su ErrTenantNotFound (
     with_org sv r (u_TenantID su) (\<lambda>orgID.
     need_body body (\<lambda>req.
     svcAs (AddPolicyToRole (enforcer (sv_env sv)) (u_TenantID su) orgID (pr_Role req) (pr_Obj req) (pr_Act req)) ErrService ret))))"

definition RemovePolicyFromRole_h :: "'c server \<Rightarrow> request \<Rightarrow> PolicyReq option \<Rightarrow> ('c, unit) handler" where
  "RemovePolicyFromRole_h sv r body = with_user sv r (\<lambda>su.
     need_tenant su ErrTenantNotFound (
     with_org sv r (u_TenantID su) (\<lambda>orgID.
     need_body body (\<lambda>req.
     svcAs (RemovePolicyFromRole (enforcer (sv_env sv)) (u_TenantID su) orgID (pr_Role req) (pr_Obj req) (pr_Act req)) ErrService ret))))"

definition GetPolicy :: "'c server \<Rightarrow> request \<Rightarrow> form \<Rightarrow> ('c, Policy list) handler" where
  "GetPolicy sv r form = with_user sv r (\<lambda>su.
     need_tenant su ErrTenantNotFound (
     with_org sv r (u_TenantID su) (\<lambda>orgID.
     let req = Split (CHR '','') (form ''roles'') in
     failIf (length req > 10) (200, ErrParam) (
     svc 200 (GetFilteredPolicy (enforcer (sv_env sv)) (u_TenantID su) orgID req) (\<lambda>polices.
     ret (List.map_filter policyRuleToDTO polices))))))"

text \<open>A nil list is answered as an empty one.\<close>

definition GetPolicyForUser :: "'c server \<Rightarrow> request \<Rightarrow> ('c, Policy list) handler" where
  "GetPolicyForUser sv r = with_user sv r (\<lambda>su.
     need_tenant su ErrTenantNotFound (
     let orgID = ParseOrgID r in
     if orgID = 0 then ret []
     else handle (on_world (UserInOrg (u_UID su) (u_TenantID su) orgID)) (\<lambda>_. ret []) (\<lambda>_.
       svc 200 (GetRoleForUserInDomain (enforcer (sv_env sv)) (u_UID su) (u_TenantID su) orgID) (\<lambda>roles.
       if roles = [] then ret []
       else svc 200 (GetFilteredPolicy (enforcer (sv_env sv)) (u_TenantID su) orgID roles) (\<lambda>policys.
         ret (List.map_filter policyRuleToDTO policys))))))"

section \<open>Permission points\<close>

definition PermissionCreate_h :: "'c server \<Rightarrow> request \<Rightarrow> PermissionStruct option \<Rightarrow> ('c, nat) handler" where
  "PermissionCreate_h sv r body = with_user sv r (\<lambda>su.
     need_tenant su ErrNoAuth (
     need_body body (\<lambda>req.
     svc 200 (PermissionCreate (req\<lparr>p_TenantID := u_TenantID su\<rparr>)) ret)))"

definition PermissionDelete_h :: "'c server \<Rightarrow> request \<Rightarrow> form \<Rightarrow> ('c, unit) handler" where
  "PermissionDelete_h sv r form = with_user sv r (\<lambda>su.
     need_tenant su ErrNoAuth (
     svc 200 (PermissionDelete (FormUint form ''id'') (u_TenantID su)) ret))"

definition PermissionList_h :: "'c server \<Rightarrow> request \<Rightarrow> form \<Rightarrow> ('c, PermissionStruct list) handler" where
  "PermissionList_h sv r form = with_user sv r (\<lambda>su.
     need_tenant su ErrNoAuth (
     svc 200 (PermissionList (u_TenantID su) (form ''domain'')) ret))"

section \<open>Policies change in the organization of the request only\<close>

text \<open>The requests that write, with their routes.\<close>

datatype access_request =
    AddRoleReq "RoleStruct option" | UpdateRoleReq "RoleReq option" | RemoveRoleReq "RoleStruct option"
  | AddPolicyReq "PolicyReq option" | RemovePolicyReq "PolicyReq option"

fun access_route :: "access_request \<Rightarrow> string" where
  "access_route (AddRoleReq _) = ''access/addRoleForUser''"
| "access_route (UpdateRoleReq _) = ''access/updateRoleForUser''"
| "access_route (RemoveRoleReq _) = ''access/removeRoleForUser''"
| "access_route (AddPolicyReq _) = ''access/addPolicyToRole''"
| "access_route (RemovePolicyReq _) = ''access/removePolicyFromRole''"

fun access_handler :: "'c server \<Rightarrow> request \<Rightarrow> access_request \<Rightarrow> ('c, unit) handler" where
  "access_handler sv r (AddRoleReq b) = AddRoleForUser sv r b"
| "access_handler sv r (UpdateRoleReq b) = UpdateRoleForUser sv r b"
| "access_handler sv r (RemoveRoleReq b) = RemoveRoleForUser sv r b"
| "access_handler sv r (AddPolicyReq b) = AddPolicyToRole_h sv r b"
| "access_handler sv r (RemovePolicyReq b) = RemovePolicyFromRole_h sv r b"

text \<open>A request as the server runs it: the gate, and behind it the handler of the route.\<close>

definition serve_access :: "'c server \<Rightarrow> request \<Rightarrow> access_request \<Rightarrow> 'c gate \<Rightarrow> 'c gate" where
  "serve_access sv r q g = (case ServeHTTP sv r g of
       (Ret (Handle api r' sess), g') \<Rightarrow> if api = access_route q then snd (access_handler sv r' q g') else g'
     | (_, g') \<Rightarrow> g')"

text \<open>
  Nothing but policies has changed, and those only in the domain of the organization of the request, for a member.
\<close>

definition policy_change :: "('c \<Rightarrow> rule set) \<Rightarrow> ('c \<Rightarrow> grouping set) \<Rightarrow> 'c server \<Rightarrow> request \<Rightarrow> 'c gate \<Rightarrow> 'c world \<Rightarrow> bool" where
  "policy_change pol grp sv r g w' \<longleftrightarrow> (let w = g_world g; c = w_casbin w; c' = w_casbin w' in
     w_db w' = w_db w \<and> (pol c' \<noteq> pol c \<or> grp c' \<noteq> grp c \<longrightarrow> (\<exists>su. session_is sv r g su
        \<and> in_org (w_db w) (u_UID su) (u_TenantID su) (ParseOrgID r)
        \<and> (\<forall>d. d \<noteq> Domain (u_TenantID su) (ParseOrgID r) \<longrightarrow> same_domain d pol grp c c'))))"

text \<open>Every operation of the enforcer that a handler runs changes one domain at most.\<close>

definition one_domain :: "('c \<Rightarrow> rule set) \<Rightarrow> ('c \<Rightarrow> grouping set) \<Rightarrow> string \<Rightarrow> 'c world \<Rightarrow> 'c world \<Rightarrow> bool" where
  "one_domain pol grp d w w' \<longleftrightarrow> w_db w' = w_db w \<and> (\<forall>e. e \<noteq> d \<longrightarrow> same_domain e pol grp (w_casbin w) (w_casbin w'))"

lemma one_domain_trans: "one_domain pol grp d u v \<Longrightarrow> one_domain pol grp d v w \<Longrightarrow> one_domain pol grp d u w"
  unfolding one_domain_def by (metis same_domain_trans)

lemma one_domain_refl [simp]: "one_domain pol grp d w w"
  by (simp add: one_domain_def)

lemma wp_one_domain:
  assumes "cb_writes pol grp m fp fg" and "\<And>e P G. e \<noteq> d \<Longrightarrow> same_domain e (\<lambda>(P, G). P) (\<lambda>(P, G). G) (P, G) (fp P, fg G)"
  shows "wp (failIf c err (tryE (lift_cb m) (\<lambda>_. ret ()))) (\<lambda>_. one_domain pol grp d w) (\<lambda>_. one_domain pol grp d w) w"
proof -
  have "one_domain pol grp d w w'" if "w' = w\<lparr>w_casbin := w_casbin w'\<rparr>" "pol (w_casbin w') = fp (pol (w_casbin w))" "grp (w_casbin w') = fg (grp (w_casbin w))" for w'
  proof -
    have "w_db w' = w_db w" using that(1) by (cases w; cases w') simp
    then show ?thesis using that(2,3) assms(2) [of _ "pol (w_casbin w)" "grp (w_casbin w)"] by (auto simp: one_domain_def same_domain_def)
  qed
  moreover have "one_domain pol grp d w w'" if "w' = w\<lparr>w_casbin := w_casbin w'\<rparr>" "pol (w_casbin w') = pol (w_casbin w)" "grp (w_casbin w') = grp (w_casbin w)" for w'
  proof -
    have "w_db w' = w_db w" using that(1) by (cases w; cases w') simp
    then show ?thesis using that(2,3) by (auto simp: one_domain_def same_domain_def)
  qed
  ultimately show ?thesis
    by (simp add: wp_failIf wp_tryE wp_ret) (intro impI wp_mono [OF wp_lift_cb [OF assms(1)]], auto)
qed

lemma wp_access_ops:
  assumes ok: "casbin_ok cb pol grp"
  shows "wp (AddRoleForUserInDomain cb uid t o' role) (\<lambda>_. one_domain pol grp (Domain t o') w) (\<lambda>_. one_domain pol grp (Domain t o') w) w"
    "wp (DeleteRoleForUserInDomain cb uid t o' role) (\<lambda>_. one_domain pol grp (Domain t o') w) (\<lambda>_. one_domain pol grp (Domain t o') w) w"
    "wp (AddPolicyToRole cb t o' role obj act) (\<lambda>_. one_domain pol grp (Domain t o') w) (\<lambda>_. one_domain pol grp (Domain t o') w) w"
    "wp (RemovePolicyFromRole cb t o' role obj act) (\<lambda>_. one_domain pol grp (Domain t o') w) (\<lambda>_. one_domain pol grp (Domain t o') w) w"
  unfolding access_ops
  by (rule wp_one_domain [OF casbin_writes(3) [OF ok]], force simp: same_domain_def,
      rule wp_one_domain [OF casbin_writes(4) [OF ok]], force simp: same_domain_def,
      rule wp_one_domain [OF casbin_writes(1) [OF ok]], force simp: same_domain_def,
      rule wp_one_domain [OF casbin_writes(2) [OF ok]], force simp: same_domain_def)

lemma in_charge_policy:
  "in_charge sv r g su w \<Longrightarrow> one_domain pol grp (Domain (u_TenantID su) (ParseOrgID r)) w w' \<Longrightarrow> policy_change pol grp sv r g w'"
  unfolding policy_change_def in_charge_def one_domain_def Let_def by auto

lemma policy_change_calm: "calm (g_world g) w' \<Longrightarrow> policy_change pol grp sv r g w'"
  by (auto simp: policy_change_def Let_def dest: calm_fields)

lemma wp_access_handler:
  assumes oc: "orgs_cached (g_world g)" and cb: "casbin_ok (enforcer (sv_env sv)) pol grp"
  shows "wp (access_handler sv r q) (\<lambda>_ g'. policy_change pol grp sv r g (g_world g')) (\<lambda>_ g'. policy_change pol grp sv r g (g_world g')) g"
proof -
  let ?I = "\<lambda>g'. policy_change pol grp sv r g (g_world g')" and ?d = "\<lambda>su. Domain (u_TenantID su) (ParseOrgID r)"
  have calm: "?I g'" if "calm (g_world g) (g_world g')" for g' using policy_change_calm [OF that] .
  have org: "wp (with_user sv r (\<lambda>su. need_tenant su e (with_org sv r (u_TenantID su) (k su)))) (\<lambda>_. ?I) (\<lambda>_. ?I) g"
    if "\<And>su h. in_charge sv r g su (g_world h) \<Longrightarrow> wp (k su (ParseOrgID r)) (\<lambda>_ h'. one_domain pol grp (?d su) (g_world h) (g_world h'))
          (\<lambda>_ h'. one_domain pol grp (?d su) (g_world h) (g_world h')) h" for k :: "User \<Rightarrow> u64 \<Rightarrow> ('a, unit) handler" and e
    by (intro wp_with_user wp_need_tenant wp_with_org_in_charge [OF oc] wp_mono [OF that])
       (auto intro: calm in_charge_policy dest: still_fields)
  note step = wp_mono [OF wp_access_ops(1) [OF cb]] wp_mono [OF wp_access_ops(2) [OF cb]]
    wp_mono [OF wp_access_ops(3) [OF cb]] wp_mono [OF wp_access_ops(4) [OF cb]]
  show ?thesis
    by (cases q) (auto simp: AddRoleForUser_def UpdateRoleForUser_def RemoveRoleForUser_def AddPolicyToRole_h_def RemovePolicyFromRole_h_def
        sessionOrg_def wp_svc wp_svcAs wp_ret wp_failIf intro!: org wp_need_body step intro: one_domain_trans)
qed

lemma access_routes: "map_of apis (access_route q) = Some (True, True)"
proof -
  have "map_of apis ''access/addRoleForUser'' = Some (True, True)" "map_of apis ''access/updateRoleForUser'' = Some (True, True)"
    "map_of apis ''access/removeRoleForUser'' = Some (True, True)" "map_of apis ''access/addPolicyToRole'' = Some (True, True)"
    "map_of apis ''access/removePolicyFromRole'' = Some (True, True)"
    by code_simp+
  then show ?thesis by (cases q) (simp_all only: access_route.simps)
qed

text \<open>
  C19. Changing roles and policies over HTTP, gate and handler together. Whatever request for one of the five routes that
  write is served (with \<open>X-API\<close> and without \<open>X-Requested-By\<close>), no table changes; and if any policy or role
  assignment differs afterwards, the request carried the valid session of a real, enabled user who is a member of the
  organization it names in \<open>X-Org-Id\<close>, the policies of that organization allowed the user that very route before, and every
  other organization of every tenant has the same policies and roles as before.
\<close>

theorem serve_access_authorized:
  assumes "orgs_cached (g_world g)" and "casbin_ok (enforcer (sv_env sv)) pol grp"
    and "header r ''X-API'' = access_route q" and "header r ''X-Requested-By'' = []"
  shows "let w = g_world g; w' = g_world (serve_access sv r q g); c = w_casbin w; c' = w_casbin w' in
     w_db w' = w_db w \<and> (pol c' \<noteq> pol c \<or> grp c' \<noteq> grp c \<longrightarrow> (\<exists>su. session_is sv r g su
        \<and> in_org (w_db w) (u_UID su) (u_TenantID su) (ParseOrgID r)
        \<and> (let sub = genUserByUID (u_UID su); dm = Domain (u_TenantID su) (ParseOrgID r) in
            matcher (pol c) (grp c) (cb_GetRoles (enforcer (sv_env sv)) sub dm c) sub dm (access_route q) (rq_Method r)
            \<and> (\<forall>d. d \<noteq> dm \<longrightarrow> same_domain d pol grp c c'))))"
proof -
  note route = access_routes [of q]
  have ne: "access_route q \<noteq> []" by (cases q) simp_all
  then have api: "requested_api r = Some (access_route q)" "access_object r = access_route q"
    unfolding requested_api_def access_object_def assms(3,4) using ne by simp_all
  have object: "object_needs_access sv (access_route q) = Some True"
    unfolding object_needs_access_def route option.case prod.case ..
  obtain x g' where run: "ServeHTTP sv r g = (x, g')" by (cases "ServeHTTP sv r g")
  note gate = wp_ServeHTTP [OF assms(1,2) api(1)]
  show ?thesis
  proof (cases "\<exists>sess. x = Ret (Handle (access_route q) (with_cors r) (Some sess))")
    case False
    then have "serve_access sv r q g = g'" "calm (g_world g) (g_world g')"
      using gate run route by (auto simp: serve_access_def wp_def split: res.splits served.splits)
    then show ?thesis by (simp add: calm_fields)
  next
    case True
    then obtain sess where x: "x = Ret (Handle (access_route q) (with_cors r) (Some sess))" by blast
    then obtain su where g': "calm (g_world g) (g_world g')" "orgs_cached (g_world g')"
        and su: "session_user sess = Some su" "let_in sv r g sess" and pm: "permitted sv pol grp r g su"
      using wp_Ret [OF _ gate, of "Handle (access_route q) (with_cors r) (Some sess)" g'] run route by auto
    have here: "session_is sv r g su" using su by (auto simp: session_is_def)
    have "policy_change pol grp sv (with_cors r) g' (g_world (snd (access_handler sv (with_cors r) q g')))"
      by (rule wp_snd [OF wp_access_handler [OF g'(2) assms(2)]])
    moreover have "serve_access sv r q g = snd (access_handler sv (with_cors r) q g')"
      using run x by (simp add: serve_access_def)
    moreover have "su' = su" if "session_is sv (with_cors r) g' su'" for su'
      by (rule session_is_unique [OF here, of g']) (use that calm_fields [OF g'(1)] in \<open>simp_all add: session_is_def\<close>)
    ultimately show ?thesis
      using pm here object api(2) calm_fields [OF g'(1)] unfolding policy_change_def permitted_def Let_def by auto
  qed
qed

text \<open>The sample user is a member of organization 7 whose role has no policy; he tries to give himself the role \<open>root\<close>.\<close>

theorem serve_access_authorized_witness:
  "let q = AddRoleReq (Some \<lparr>RoleTitle = [], RoleValue = ''root'', RoleUID = 10001\<rparr>);
       g' = serve_access sample_server (sample_request ''access/addRoleForUser'' [(''X-Org-Id'', ''7'')]) q dep_gate
   in set (snd (w_casbin (g_world g'))) = {(genUserByUID 10001, ''cashier'', Domain 2 7)}"
proof -
  let ?r = "sample_request ''access/addRoleForUser'' [(''X-Org-Id'', ''7'')]"
  let ?q = "AddRoleReq (Some \<lparr>RoleTitle = [], RoleValue = ''root'', RoleUID = 10001\<rparr>)"
  have h: "header ?r ''X-API'' = access_route ?q" "header ?r ''X-Requested-By'' = []"
    by (simp_all add: header_def sample_request_def)
  have c: "w_casbin (g_world dep_gate) = ([], [(genUserByUID 10001, ''cashier'', Domain 2 7)])" "w_now (g_world dep_gate) = 150"
    by (simp_all add: dep_gate_def org_world_def sample_world_def)
  have su: "su = sample_user" if "session_is sample_server ?r dep_gate su" for su
    by (rule sample_session_is [OF _ _ that]) (simp_all add: c)
  have no: "\<not> matcher {} {(genUserByUID 10001, ''cashier'', Domain 2 7)} (cb_GetRoles (enforcer (sv_env sample_server)) (genUserByUID 10001) (Domain 2 7) (w_casbin (g_world dep_gate)))
     (genUserByUID 10001) (Domain 2 7) (access_route ?q) (rq_Method ?r)"
    by (simp add: matcher_def MyMatch_def c sample_server_def sample_env_def ref_casbin_def Let_def)
  let ?c = "w_casbin (g_world (serve_access sample_server ?r ?q dep_gate))"
  have "set (snd ?c) = set (snd (w_casbin (g_world dep_gate)))"
  proof (rule ccontr)
    assume "set (snd ?c) \<noteq> set (snd (w_casbin (g_world dep_gate)))"
    then obtain u where "session_is sample_server ?r dep_gate u" and
      m: "matcher (set (fst (w_casbin (g_world dep_gate)))) (set (snd (w_casbin (g_world dep_gate))))
        (cb_GetRoles (enforcer (sv_env sample_server)) (genUserByUID (u_UID u)) (Domain (u_TenantID u) (ParseOrgID ?r)) (w_casbin (g_world dep_gate)))
        (genUserByUID (u_UID u)) (Domain (u_TenantID u) (ParseOrgID ?r)) (access_route ?q) (rq_Method ?r)"
      using serve_access_authorized [OF dep_gate_cached sample_server_casbin h] unfolding Let_def by blast
    from su [OF this(1)] m no show False by (simp add: sample_org) (simp add: c)
  qed
  then show ?thesis by (simp add: c Let_def)
qed

end
