(* ===== verification/User_Face.thy ===== *)
theory User_Face
  imports Access_Face
begin

text \<open>
  \<open>face/user/\<close> and \<open>face/sms/\<close>: registration, login and logout, the profile and the passwords of the user of the
  session, and the codes. A login and a logout answer with the cookies they set; the upload of a picture is left out.
\<close>

section \<open>Registration\<close>

definition user_UserAdd :: "'c server \<Rightarrow> UserReq option \<Rightarrow> ('c, u64) handler" where
  "user_UserAdd sv body = need_body body (\<lambda>user.
     failIf (r_Cellphone user = [] \<and> r_Email user = [] \<and> r_Nickname user = []) (200, ErrParam) (
     failIf (r_Password user = []) (200, ErrPWD) (
     tryE (if length (r_Cellphone user) > 0 \<and> length (r_SmsCode user) > 0
           then handle (on_world (CheckSmsCode (r_Cellphone user) (r_SmsCode user)))
                  (\<lambda>e. if e = ErrSmsNotInit then ret () else throw (200, e)) ret
           else ret ()) (\<lambda>_.
     svc 200 (AddUserService (sv_env sv) user) ret))))"

section \<open>Login and logout\<close>

text \<open>
  \<open>normalizeUserExt\<close> of \<open>user_helpers.go\<close>. The maps of a user come from JSON, so none has the type
  \<open>map[interface{}]interface{}\<close>, and the copy has the same entries.
\<close>

fun normalizeValue :: "gval \<Rightarrow> gval" where
  "normalizeValue (GMap m) = GMap (map (\<lambda>(k, v). (k, normalizeValue v)) m)"
| "normalizeValue (GList vs) = GList (map normalizeValue vs)"
| "normalizeValue v = v"

definition normalizeMap :: "MapStruct \<Rightarrow> MapStruct" where
  "normalizeMap m = map (\<lambda>(k, v). (k, normalizeValue v)) m"

definition normalizeUserExt :: "User \<Rightarrow> User" where
  "normalizeUserExt user = user\<lparr>u_Ext := normalizeMap (u_Ext user),
     u_Tenant := map_option (\<lambda>t. t\<lparr>t_Configuration := map_option (More_update normalizeMap) (t_Configuration t)\<rparr>) (u_Tenant user),
     u_Departments := map (d_Config_update normalizeMap) (u_Departments user)\<rparr>"

text \<open>The fields \<open>SessionExpire\<close> and \<open>Domain\<close> of the configuration.\<close>

record login_conf =
  lc_SessionExpire :: int
  lc_Domain :: string

definition session_part :: "User \<Rightarrow> User" where
  "session_part one = zero_User\<lparr>u_UID := u_UID one, u_TenantID := u_TenantID one, u_Cellphone := u_Cellphone one,
     u_Email := u_Email one, u_Nickname := u_Nickname one, u_AvatarURL := u_AvatarURL one,
     u_CreateTime := u_CreateTime one, u_UpdateTime := u_UpdateTime one, u_LoginTime := u_LoginTime one\<rparr>"

text \<open>
  What \<open>http.SetCookie\<close> writes before the first semicolon; the session key is a valid cookie name, and a sealed value
  holds no semicolon.
\<close>

definition cookie_pair :: "Cookie \<Rightarrow> string" where
  "cookie_pair c = ck_Name c @ ''='' @ ck_Value c"

text \<open>
  \<open>rnd\<close> is the random initialisation vector of the cipher. The login without a cookie moves the sealed value to the
  entry \<open>TOKEN\<close> of the answer. A user without an error is never nil.
\<close>

definition UserLogin_h ::
  "'c server \<Rightarrow> login_conf \<Rightarrow> string option \<Rightarrow> request \<Rightarrow> UserReq option \<Rightarrow> ('c, User \<times> Cookie list) handler"
where
  "UserLogin_h sv cf rnd r body = (let useCookie = ToLower (header r ''USE-COOKIE'') \<noteq> ''false'' in
     need_body body (\<lambda>req.
     svc 200 (UserLogin (sv_env sv) req) (\<lambda>user.
     let one = normalizeUserExt user in
     reads (\<lambda>g. w_now (g_world g)) (\<lambda>now.
     case CookieStore_New (sv_crypto sv) now (sv_store sv) [] (sv_SessionKey sv) of (session, e) \<Rightarrow>
     failIf (e \<noteq> None) (200, ErrSession) (
     let session' = session\<lparr>ss_Values := (ss_Values session)(SessUserInfoKey \<mapsto> Val (UserPtr (session_part one))),
           ss_Options := (ss_Options session)\<lparr>so_MaxAge := lc_SessionExpire cf, so_Domain := lc_Domain cf, so_Secure := False,
             so_SameSite := SameSiteDefaultMode\<rparr>\<rparr> in
     (case CookieStore_Save (sv_crypto sv) rnd now (sv_store sv) [] session' of
       Inl _ \<Rightarrow> throw (200, ErrSession)
     | Inr w \<Rightarrow> if useCookie then ret (one, w)
         else ret (SetExt ''TOKEN'' (GStr (drop (length (sv_SessionKey sv) + 1) (cookie_pair (hd w)))) one, [])))))))"

text \<open>
  The session that \<open>ServeHTTP\<close> has put in the context is an argument. The cookie that is set ends at once and holds
  no user; the one it replaces stays valid.
\<close>

definition UserLogout :: "'c server \<Rightarrow> string option \<Rightarrow> request \<Rightarrow> passport_session option \<Rightarrow> ('c, Cookie list) handler" where
  "UserLogout sv rnd r sess =
     (if (case sess of None \<Rightarrow> False | Some s \<Rightarrow> session_user s = None) then panic
      else reads (\<lambda>g. w_now (g_world g)) (\<lambda>now.
        case CookieStore_New (sv_crypto sv) now (sv_store sv) (rq_Cookies r) (sv_SessionKey sv) of (session, e) \<Rightarrow>
        failIf (e \<noteq> None) (200, OtherErr ''session'') (
        let session' = session\<lparr>ss_Values := (ss_Values session)(SessUserInfoKey \<mapsto> Val NilV),
              ss_Options := (ss_Options session)\<lparr>so_MaxAge := - 1\<rparr>\<rparr> in
        (case CookieStore_Save (sv_crypto sv) rnd now (sv_store sv) [] session' of
          Inl _ \<Rightarrow> throw (200, OtherErr ''session'')
        | Inr w \<Rightarrow> ret w))))"

section \<open>The user of the session\<close>

text \<open>\<open>sess, auth := core.AuthFilter(r)\<close>, and \<open>sess.Values[...].(protos.User)\<close> after a positive answer.\<close>

definition with_auth :: "'c server \<Rightarrow> request \<Rightarrow> nat \<times> gerr \<Rightarrow> (User \<Rightarrow> ('c, 'a) handler) \<Rightarrow> ('c, 'a) handler" where
  "with_auth sv r e k = handle (AuthFilter sv r) (\<lambda>err. throw (200, err)) (\<lambda>(sess, auth).
     failIf (\<not> auth) e (
     case sess of None \<Rightarrow> panic | Some s \<Rightarrow> (case session_user s of None \<Rightarrow> panic | Some u \<Rightarrow> k u)))"

definition UserAuth :: "'c server \<Rightarrow> request \<Rightarrow> ('c, User) handler" where
  "UserAuth sv r = handle (AuthFilter sv r) (\<lambda>err. throw (200, err)) (\<lambda>(sess, auth).
     failIf (\<not> auth \<or> sess = None) (401, ErrNoLogin) (
     case sess of None \<Rightarrow> panic | Some s \<Rightarrow> (case session_user s of None \<Rightarrow> panic | Some u \<Rightarrow> ret u)))"

text \<open>A field that repeats the session's value is not updated.\<close>

definition UserModify :: "'c server \<Rightarrow> request \<Rightarrow> UserReq option \<Rightarrow> ('c, string) handler" where
  "UserModify sv r body = with_auth sv r (403, ErrNoLogin) (\<lambda>info.
     need_body body (\<lambda>req.
     let user = req\<lparr>r_UID := u_UID info,
           r_Cellphone := (if u_Cellphone info = Some (r_Cellphone req) then [] else r_Cellphone req),
           r_Email := (if u_Email info = Some (r_Email req) then [] else r_Email req),
           r_Nickname := (if u_Nickname info = Some (r_Nickname req) then [] else r_Nickname req)\<rparr> in
     svc 200 (UpdateUserService (sv_env sv) user) (\<lambda>_. ret ''OK'')))"

record ModifyPwdReq =
  mp_OldPwd :: string
  mp_NewPwd :: string

definition UserModifyPassword :: "'c server \<Rightarrow> request \<Rightarrow> ModifyPwdReq option \<Rightarrow> ('c, unit) handler" where
  "UserModifyPassword sv r body = with_auth sv r (403, ErrNoLogin) (\<lambda>info.
     need_body body (\<lambda>req.
     svc 200 (UpdateUserPWD (sv_env sv) (u_UID info) (mp_OldPwd req) (mp_NewPwd req)) (\<lambda>_. ret ())))"

record GetbackPwdReq =
  gb_Cellphone :: string
  gb_SmsCode :: string
  gb_NewPwd :: string

definition UserGetBackPassword :: "'c server \<Rightarrow> GetbackPwdReq option \<Rightarrow> ('c, unit) handler" where
  "UserGetBackPassword sv body = need_body body (\<lambda>req.
     svc 200 (UpdateUserPWDBySms (sv_env sv) (gb_Cellphone req) (gb_SmsCode req) (gb_NewPwd req)) (\<lambda>_. ret ()))"

definition UserInfo :: "'c server \<Rightarrow> request \<Rightarrow> ('c, User option) handler" where
  "UserInfo sv r = with_user sv r (\<lambda>su.
     failIf (u_UID su \<le> 0) (401, OtherErr []) (
     tryE (handle (on_world (UserInOrg (u_UID su) (u_TenantID su) (ParseOrgID r))) (\<lambda>_. ret 0) (\<lambda>_. ret (ParseOrgID r))) (\<lambda>orgID.
     svc 200 (GetUserInfoService (sv_env sv) (u_UID su) (u_TenantID su) orgID) ret)))"

text \<open>A number without a user is dereferenced all the same.\<close>

definition UserInfoByUID :: "'c server \<Rightarrow> request \<Rightarrow> form \<Rightarrow> ('c, User) handler" where
  "UserInfoByUID sv r form = with_user sv r (\<lambda>su.
     failIf (u_UID su \<le> 0) (401, OtherErr []) (
     let iuid = fst (ParseUint (TrimSpace (form ''uid''))) in
     svc 200 (GetUserInfoService (sv_env sv) iuid 0 0) (\<lambda>found.
     case found of None \<Rightarrow> panic | Some u \<Rightarrow>
       ret (if (u_TenantID su > 0 \<or> u_TenantID u > 0) \<and> u_TenantID su \<noteq> u_TenantID u
            then u\<lparr>u_Tenant := None, u_TenantID := 0\<rparr> else u))))"

definition UserSearchLite :: "form \<Rightarrow> ('c, UserLite list) handler" where
  "UserSearchLite form = (let tenant = Atoi (form ''t''); k = TrimSpace (form ''k'');
       (page, pageSize) = page_form form ''pageSize'' 1 100 in
     failIf (tenant \<le> 0 \<or> k = []) (200, ErrParam) (
     svc 200 (SelectUsersLite (empty_UserReq\<lparr>r_TenantID := of_int tenant, r_Nickname := k, r_Cellphone := k,
       r_PageNo := page, r_PageSize := pageSize\<rparr>)) ret))"

section \<open>Codes\<close>

record SmsReq =
  sr_Cellphone :: string
  sr_AliveSec :: int

text \<open>The four handlers differ in the sender they call; \<open>answer\<close> is the driver's.\<close>

definition send_code :: "(string \<Rightarrow> int \<Rightarrow> ('c, string) dao) \<Rightarrow> SmsReq option \<Rightarrow> ('c, unit) handler" where
  "send_code sender body = need_body body (\<lambda>req.
     failIf (sr_Cellphone req = []) (200, ErrParam) (
     svc 200 (sender (sr_Cellphone req) (sr_AliveSec req)) (\<lambda>_. ret ())))"

definition SendUserAddSmsCode :: "sms_answer \<Rightarrow> SmsReq option \<Rightarrow> ('c, unit) handler" where
  "SendUserAddSmsCode answer = send_code (SendUserAddSms answer)"

definition SendUserLoginSms_h :: "sms_answer \<Rightarrow> SmsReq option \<Rightarrow> ('c, unit) handler" where
  "SendUserLoginSms_h answer = send_code (SendUserLoginSms answer)"

definition SendGetBackPwdSms_h :: "sms_answer \<Rightarrow> SmsReq option \<Rightarrow> ('c, unit) handler" where
  "SendGetBackPwdSms_h answer = send_code (SendGetBackPwdSms answer)"

definition SendWxBindSms_h :: "sms_answer \<Rightarrow> SmsReq option \<Rightarrow> ('c, unit) handler" where
  "SendWxBindSms_h answer = send_code (SendWxBindSms answer)"

section \<open>Who registers\<close>

lemma wp_user_UserAdd:
  "wp (user_UserAdd sv (Some req)) (\<lambda>uid g'. let E = sv_env sv; w = g_world g; us = users (w_db w) in
         (\<exists>u. w_db (g_world g') = (w_db w)\<lparr>users := us @ [u]\<rparr> \<and> users_ok (us @ [u]) \<and> u_UID u = uid
            \<and> u_TenantID u = r_TenantID req \<and> u_Password u = EncryPWD E (r_Password req)
            \<and> u_Cellphone u = nonempty (r_Cellphone (fst (userPreTreat E req))))
         \<and> (r_SmsCode req \<noteq> [] \<and> r_Cellphone req \<noteq> [] \<and> w_sms w \<longrightarrow> live (w_now w) (w_codes w) (r_Cellphone req) = Some (r_SmsCode req)))
     (\<lambda>e g'. w_db (g_world g') = w_db (g_world g)) g" (is "wp _ ?Q ?E g")
proof -
  let ?checked = "r_SmsCode req \<noteq> [] \<and> r_Cellphone req \<noteq> [] \<and> w_sms (g_world g) \<longrightarrow>
    live (w_now (g_world g)) (w_codes (g_world g)) (r_Cellphone req) = Some (r_SmsCode req)"
  have add: "wp (svc 200 (AddUserService (sv_env sv) req) ret) ?Q ?E g'"
    if "w_db (g_world g') = w_db (g_world g)" "?checked" for g'
    unfolding wp_svc by (rule wp_mono [OF wp_AddUserService]) (use that in \<open>auto simp: wp_ret Let_def\<close>)
  show ?thesis
    unfolding user_UserAdd_def need_body_def option.case wp_failIf
      wp_tryE [of "if length (r_Cellphone req) > 0 \<and> length (r_SmsCode req) > 0 then _ else _"]
    using add by (auto simp: wp_handle wp_on_world wp_CheckSmsCode wp_ret wp_throw Let_def)
qed


text \<open>Somebody joins tenant 2 with a phone number and no code, although codes are set up.\<close>

definition joining_req :: UserReq where
  "joining_req = empty_UserReq\<lparr>r_TenantID := 2, r_Cellphone := ''13900000000'', r_Password := ''secret''\<rparr>"

definition join_gate :: "(rule list \<times> grouping list) gate" where
  "join_gate = \<lparr>g_world = (sample_world ([], []) [])\<lparr>w_sms := True\<rparr>, g_users = []\<rparr>"

definition join_request :: request where
  "join_request = \<lparr>rq_Method = ''POST'', rq_Header = [(''X-API'', ''user/register'')], rq_Cookies = [], rq_uri = Some ''/usercenter'', rq_path = ''/usercenter''\<rparr>"

lemma joining_treated: "userPreTreat sample_env joining_req = (joining_req, None)"
  by code_simp

lemma join_succeeds: "\<exists>uid g'. user_UserAdd sample_server (Some joining_req) join_gate = (Ret uid, g')"
proof -
  have f: "users (w_db (g_world join_gate)) = []" "w_faults (g_world join_gate) = []" "sv_env sample_server = sample_env"
    by (simp_all add: join_gate_def sample_world_def sample_server_def)
  have r: "r_Cellphone joining_req = ''13900000000''" "r_SmsCode joining_req = []" "r_Password joining_req = ''secret''"
    "r_Nickname joining_req = []" "r_Email joining_req = []" "r_WxOpenId joining_req = []"
    by (simp_all add: joining_req_def empty_UserReq_def)
  have v: "users_violation [u] = None" for u
    by (simp add: users_violation_None users_ok_def uniq_col_def distinct_by_def List.map_filter_simps split: option.split)
  show ?thesis
    by (simp add: user_UserAdd_def need_body_def failIf_def tryE_def handle_def ret_def svc_def on_world_def AddUserService_eq joining_treated
        r f userCheckDuplicates_def whenE_def Let_def duplicate_defs db_query_eq UserInsert_def InsertWithID_def v
        has_user_def UserQuery_def tryWrap_def db_stmt_def db_fails_def page_of_def)
qed


section \<open>A login lets the user in\<close>

text \<open>The sealed session that a login has answered, in a cookie or in the entry \<open>TOKEN\<close>.\<close>

definition login_token :: "User \<Rightarrow> Cookie list \<Rightarrow> string" where
  "login_token one cs = (case cs of c # _ \<Rightarrow> ck_Value c | [] \<Rightarrow> (case gget (u_Ext one) ''TOKEN'' of GStr s \<Rightarrow> s | _ \<Rightarrow> []))"

lemma svc_Ret:
  assumes "svc st m k g = (Ret x, g')"
  obtains y w' where "m (g_world g) = (Ret y, w')" "k y (g\<lparr>g_world := w'\<rparr>) = (Ret x, g')"
  using assms by (auto simp: svc_def handle_def on_world_def throw_def split: prod.splits res.splits)

lemma failIf_Ret: "failIf c e k g = (Ret x, g') \<longleftrightarrow> \<not> c \<and> k g = (Ret x, g')"
  by (simp add: failIf_def throw_def)

definition login_session :: "'c server \<Rightarrow> login_conf \<Rightarrow> User \<Rightarrow> passport_session" where
  "login_session sv cf one = (NewSession (sv_store sv) (sv_SessionKey sv))\<lparr>ss_Values := [SessUserInfoKey \<mapsto> Val (UserPtr (session_part one))],
     ss_IsNew := True, ss_Options := (cs_Options (sv_store sv))\<lparr>so_MaxAge := lc_SessionExpire cf, so_Domain := lc_Domain cf, so_Secure := False,
       so_SameSite := SameSiteDefaultMode\<rparr>\<rparr>"

lemma CookieStore_New_fresh:
  "CookieStore_New E now s [] name = ((NewSession s name)\<lparr>ss_Options := cs_Options s, ss_IsNew := True\<rparr>, None)"
  by (simp add: CookieStore_New_def request_cookie_def Let_def)

text \<open>A login that succeeds has saved one session and answers its sealed value.\<close>

lemma UserLogin_h_saved:
  assumes "UserLogin_h sv cf rnd r body g = (Ret (one, cs), g1)"
    and "\<And>c. CookieStore_Save (sv_crypto sv) rnd (w_now (g_world g1)) (sv_store sv) [] (login_session sv cf one) = Inr c \<Longrightarrow>
      \<exists>v. c = [NewCookie (w_now (g_world g1)) (sv_SessionKey sv) v (ss_Options (login_session sv cf one))]"
  obtains v where "CookieStore_Save (sv_crypto sv) rnd (w_now (g_world g1)) (sv_store sv) [] (login_session sv cf one) = Inr [v]"
    and "login_token one cs = ck_Value v"
proof -
  obtain req where body: "body = Some req"
    using assms(1) by (cases body) (simp_all add: UserLogin_h_def need_body_def throw_def)
  let ?s = "\<lambda>user. login_session sv cf (normalizeUserExt user)"
  obtain user w' where "UserLogin (sv_env sv) req (g_world g) = (Ret user, w')"
    and rest: "(case CookieStore_Save (sv_crypto sv) rnd (w_now w') (sv_store sv) [] (?s user) of
        Inl _ \<Rightarrow> throw (200 :: nat, ErrSession)
      | Inr w \<Rightarrow> if ToLower (header r ''USE-COOKIE'') \<noteq> ''false'' then ret (normalizeUserExt user, w)
          else ret (SetExt ''TOKEN'' (GStr (drop (length (sv_SessionKey sv) + 1) (cookie_pair (hd w)))) (normalizeUserExt user), []))
      (g\<lparr>g_world := w'\<rparr>) = (Ret (one, cs), g1)"
    using assms(1) unfolding UserLogin_h_def body need_body_def option.case Let_def
    by - (erule svc_Ret, rule that, assumption, simp add: reads_def CookieStore_New_fresh failIf_Ret login_session_def NewSession_def cong: sum.case_cong)
  then obtain c where c: "CookieStore_Save (sv_crypto sv) rnd (w_now w') (sv_store sv) [] (?s user) = Inr c"
    by (auto simp: throw_def split: sum.splits)
  have one: "g1 = g\<lparr>g_world := w'\<rparr>" "session_part one = session_part (normalizeUserExt user)"
    using rest unfolding c by (auto simp: ret_def session_part_def SetExt_def split: if_splits)
  then have ls: "login_session sv cf one = ?s user" "w_now (g_world g1) = w_now w'" by (simp_all add: login_session_def)
  obtain v where "c = [NewCookie (w_now w') (sv_SessionKey sv) v (ss_Options (?s user))]"
    using assms(2) [of c] c unfolding ls by blast
  then show thesis
    using that [of "hd c"] c rest unfolding ls
    by (auto simp: ret_def login_token_def cookie_pair_def SetExt_def gget_def update_conv' split: if_splits)
qed

lemma AuthFilter_miss:
  assumes "session_of sv r g = (Some sess, None)" "session_user sess = Some su" "IsRealUserUID (u_UID su)"
    and "map_of (g_users g) (u_UID su) = None" "user_row (u_UID su) g = Some row" "\<not> ext_disabled (u_Ext row)" "w_faults (g_world g) = []"
  shows "\<exists>g'. AuthFilter sv r g = (Ret (Some sess, True), g')"
proof -
  have "u_UID su \<noteq> 0" using assms(3) by (auto simp: IsRealUserUID_def RealUserMinUID_def)
  then show ?thesis
    using assms by (simp add: AuthFilter_def reads_def Let_def handle_def ret_def throw_def update_def on_world_def GetUserInfo_def failIf_def tryE_def
        UserQueryByID_def db_query_eq Http_Gate.user_row_def)
qed

lemma AuthFilter_refuses: "session_of sv r g = (s, Some e) \<Longrightarrow> AuthFilter sv r g = (Ret (None, False), g)"
  by (simp add: AuthFilter_def reads_def ret_def)

lemma ServeHTTP_login_route:
  assumes "requested_api r = Some api" "map_of apis api = Some (True, False)" "rq_Method r \<noteq> ''OPTIONS''"
    and "AuthFilter sv r g = (Ret (s, b), g')" "b \<longleftrightarrow> s \<noteq> None"
  shows "ServeHTTP sv r g = (Ret (if b then Handle api (with_cors r) s else Reply 401), g')"
proof -
  have "AuthFilter sv (with_cors r) = AuthFilter sv r" by (simp add: AuthFilter_def)
  moreover have "map_of apis [] = None" by code_simp
  then have "api \<noteq> []" using assms(2) by auto
  ultimately show ?thesis
    unfolding ServeHTTP_def Let_def with_cors_gate with_cors_simps using assms by (simp add: tryE_def handle_def ret_def)
qed

text \<open>The session that a request with the login's value has, while it is young enough.\<close>

lemma session_of_login:
  assumes "crypto_ok (sv_crypto sv)" "rnd_ok rnd" "int64 (w_now (g_world g1))"
    and st: "sv_store sv = CookieStore_MaxAge age (NewCookieStore [hk, bk])" and nm: "isCookieNameValid (sv_SessionKey sv)"
    and gob: "gob_view (sv_crypto sv) [SessUserInfoKey \<mapsto> Val (UserPtr (session_part one))] = [SessUserInfoKey \<mapsto> Val (UserV (session_part one))]"
    and login: "UserLogin_h sv cf rnd r0 body g = (Ret (one, cs), g1)"
    and tok: "request_cookie (rq_Cookies r) (sv_SessionKey sv) = Some (login_token one cs)"
  shows "if age = 0 \<or> wrap64 (w_now (g_world g2) - age) \<le> w_now (g_world g1)
    then \<exists>sess. session_of sv r g2 = (Some sess, None) \<and> session_user sess = Some (session_part one)
    else \<exists>sess e. session_of sv r g2 = (sess, Some e)"
proof -
  let ?t = "w_now (g_world g1)" and ?s = "login_session sv cf one"
  have n: "ss_name ?s = sv_SessionKey sv" "ss_Values ?s = [SessUserInfoKey \<mapsto> Val (UserPtr (session_part one))]"
    by (simp_all add: login_session_def NewSession_def)
  note saved = CookieStore_New_after_Save [OF assms(1-3) st, of "[]" ?s, unfolded n]
  obtain c where c: "CookieStore_Save (sv_crypto sv) rnd ?t (sv_store sv) [] ?s = Inr [c]" "login_token one cs = ck_Value c"
  proof (rule UserLogin_h_saved [OF login])
    fix c assume "CookieStore_Save (sv_crypto sv) rnd ?t (sv_store sv) [] ?s = Inr c"
    then show "\<exists>v. c = [NewCookie ?t (sv_SessionKey sv) v (ss_Options ?s)]" by (rule saved) (rule exI, simp)
  qed
  obtain v where "[c] = [] @ [NewCookie ?t (sv_SessionKey sv) v (ss_Options ?s)]"
    and new: "\<And>now cookies. request_cookie cookies (sv_SessionKey sv) = Some v \<Longrightarrow>
      \<exists>e. CookieStore_New (sv_crypto sv) now (sv_store sv) cookies (sv_SessionKey sv) =
        (let s = (NewSession (sv_store sv) (sv_SessionKey sv))\<lparr>ss_Options := cs_Options (sv_store sv), ss_IsNew := True\<rparr> in
         if age = 0 \<or> wrap64 (now - age) \<le> ?t then (s\<lparr>ss_Values := gob_view (sv_crypto sv) [SessUserInfoKey \<mapsto> Val (UserPtr (session_part one))], ss_IsNew := False\<rparr>, None)
         else (s, Some e))"
    by (rule saved [OF c(1)]) blast
  then have "request_cookie (rq_Cookies r) (sv_SessionKey sv) = Some v" using tok c(2) by simp
  from new [OF this, of "w_now (g_world g2)"] nm show ?thesis
    by (auto simp: session_of_def CookieStore_Get_def Registry_Get_def Let_def session_user_def gob)
qed


text \<open>The sample user logs in at 100 and comes back at 3700 and at 3701.\<close>

definition login_req :: UserReq where
  "login_req = empty_UserReq\<lparr>r_Nickname := ''ann'', r_Password := ''secret''\<rparr>"

definition login_gate :: "(rule list \<times> grouping list) gate" where
  "login_gate = \<lparr>g_world = user_world\<lparr>w_now := 100\<rparr>, g_users = []\<rparr>"

definition known_user :: User where
  "known_user = session_part (sample_user\<lparr>u_LoginTime := Some 100\<rparr>)"

definition login_server :: "(rule list \<times> grouping list) server" where
  "login_server = sample_server\<lparr>sv_crypto := user_gob\<lparr>gob_dec := (\<lambda>b. Inr [SessUserInfoKey \<mapsto> Val (UserV known_user)]),
     gob_view := (\<lambda>m. [SessUserInfoKey \<mapsto> Val (UserV known_user)])\<rparr>\<rparr>"

definition login_settings :: login_conf where
  "login_settings = \<lparr>lc_SessionExpire = 3600, lc_Domain = []\<rparr>"

lemma login_treated: "userPreTreat sample_env login_req = (login_req, None)"
  by code_simp

lemma login_saves:
  "case CookieStore_Save (sv_crypto login_server) None 100 (sv_store login_server) [] (login_session login_server login_settings u) of Inl _ \<Rightarrow> False | Inr _ \<Rightarrow> True"
  by code_simp

lemma login_known: "\<exists>one w'. UserLogin sample_env login_req (g_world login_gate) = (Ret one, w') \<and> session_part one = known_user \<and> w_now w' = 100"
proof -
  let ?w = "g_world login_gate"
  have f: "users (w_db ?w) = [sample_user]" "w_faults ?w = []" "w_now ?w = 100" by (simp_all add: login_gate_def)
  have r: "r_Cellphone login_req = []" "r_Nickname login_req = ''ann''" "r_Password login_req = ''secret''" "validate sample_env login_req = None"
    by (simp_all add: login_req_def empty_UserReq_def sample_env_def)
  have m: "match_req login_req sample_user" by (simp add: match_req_def login_req_def empty_UserReq_def)
  have ok: "users_violation (map (\<lambda>v. if u_UID v = 10001 then v\<lparr>u_LoginTime := Some t\<rparr> else v) [sample_user]) = None" for t
    using users_violation_map [OF user_world_ok, of "\<lambda>v. if u_UID v = 10001 then v\<lparr>u_LoginTime := Some t\<rparr> else v"] by (simp del: list.map)
  have "wp (UserLogin sample_env login_req) (\<lambda>one w'. session_part one = known_user \<and> w_now w' = 100) (\<lambda>_ _. False) ?w"
    unfolding UserLogin_def Let_def login_treated fst_conv r(4) option.case
    using f r m ok
    by (simp add: wp_failIf wp_tryE wp_tryAs wp_reads wp_ret loginByNickname_def login_lookup_def wp_handle UserQueryOne_def wp_db_query
        UserUpdateLoginTime_def wp_upd_users login_tenant_def TenantGetByID_def ext_disabled_def gget_def
        known_user_def session_part_def)
  then show ?thesis by (auto simp: wp_def split: prod.splits res.splits)
qed

lemma login_succeeds: "\<exists>one cs g1. UserLogin_h login_server login_settings None join_request (Some login_req) login_gate = (Ret (one, cs), g1)
  \<and> session_part one = known_user \<and> w_now (g_world g1) = 100"
proof -
  obtain user w' where u: "UserLogin sample_env login_req (g_world login_gate) = (Ret user, w')" "session_part user = known_user" "w_now w' = 100"
    using login_known by blast
  have s: "session_part (normalizeUserExt user) = known_user"
    using u(2) by (simp add: session_part_def normalizeUserExt_def)
  obtain c where c: "CookieStore_Save (sv_crypto login_server) None 100 (sv_store login_server) [] (login_session login_server login_settings (normalizeUserExt user)) = Inr c"
    using login_saves [of "normalizeUserExt user"] by (auto split: sum.splits)
  have "ToLower (header join_request ''USE-COOKIE'') \<noteq> ''false''" by code_simp
  moreover have "UserLogin (sv_env login_server) login_req (g_world login_gate) = (Ret user, w')"
    using u(1) by (simp add: login_server_def sample_server_def)
  ultimately have "UserLogin_h login_server login_settings None join_request (Some login_req) login_gate
      = (Ret (normalizeUserExt user, c), login_gate\<lparr>g_world := w'\<rparr>)"
    using c unfolding UserLogin_h_def need_body_def option.case Let_def
    by (simp add: svc_def handle_def on_world_def reads_def CookieStore_New_fresh failIf_def u(3) login_session_def NewSession_def ret_def)
  then show ?thesis using s u(3) by simp
qed


end
