(* ===== verification/Wx_Face.thy ===== *)
theory Wx_Face
  imports User_Face
begin

text \<open>
  \<open>face/wx/http_api.go\<close> and \<open>face/ali/http_api.go\<close>: the login through WeChat, from an official account or a mini program,
  or through Alipay, and the binding of a phone number. What the servers of both answer is an argument, and so is \<open>url.Parse\<close> of \<open>net/url\<close>, of which the code looks at
  the scheme and the host. \<open>WxLogin\<close>, which sends the browser to WeChat, is in \<open>Weixin\<close>.
\<close>

section \<open>The session\<close>

text \<open>The whole user goes into the session; the user is never nil here.\<close>

definition SetWxUserToSession :: "'c server \<Rightarrow> login_conf \<Rightarrow> string option \<Rightarrow> User \<Rightarrow> ('c, Cookie list) handler" where
  "SetWxUserToSession sv cf rnd userInfo = reads (\<lambda>g. w_now (g_world g)) (\<lambda>now.
     case CookieStore_New (sv_crypto sv) now (sv_store sv) [] (sv_SessionKey sv) of (session, e) \<Rightarrow>
     failIf (e \<noteq> None) (200, ErrSession) (
     let session' = session\<lparr>ss_IsNew := True, ss_Values := (ss_Values session)(SessUserInfoKey \<mapsto> Val (UserPtr userInfo)),
           ss_Options := (ss_Options session)\<lparr>so_MaxAge := lc_SessionExpire cf, so_Domain := lc_Domain cf, so_Secure := False,
             so_SameSite := SameSiteDefaultMode\<rparr>\<rparr> in
     (case CookieStore_Save (sv_crypto sv) rnd now (sv_store sv) [] session' of
       Inl _ \<Rightarrow> throw (200, ErrSession)
     | Inr w \<Rightarrow> ret w)))"

definition wechat_ext :: MapStruct where
  "wechat_ext = [(''kind'', GStr ''wechat''), (''wechat'', GInt 1)]"

definition mark_wechat :: "User \<Rightarrow> User" where
  "mark_wechat one = SetExt ''wechat'' (GInt 1) (SetExt ''kind'' (GStr ''wechat'') one)"

section \<open>The login of an official account\<close>

definition isSafeReturnURL :: "(string \<Rightarrow> (string \<times> string) option) \<Rightarrow> string \<Rightarrow> bool" where
  "isSafeReturnURL parse u \<longleftrightarrow> \<not> (u = [] \<or> length u > 512)
     \<and> (case parse u of None \<Rightarrow> False | Some (scheme, host) \<Rightarrow> host \<noteq> [] \<and> (scheme = ''http'' \<or> scheme = ''https''))"

record wx_user =
  wx_Nickname :: string
  wx_Headimgurl :: string
  wx_Sex :: int

text \<open>
  \<open>token\<close> answers \<open>GetAccessToken\<close> with the token and the open id, and \<open>info\<close> answers \<open>GetUserInfo\<close>; \<open>None\<close> is an error or
  nil. \<open>int32\<close> of the sex keeps 0, 1 and 2.
\<close>

definition wx_login_req :: "string \<Rightarrow> wx_user option \<Rightarrow> UserReq" where
  "wx_login_req openid info = (let req = empty_UserReq\<lparr>r_WxOpenId := openid\<rparr>;
       req' = (case info of None \<Rightarrow> req | Some i \<Rightarrow> req\<lparr>r_Nickname := wx_Nickname i, r_AvatarURL := wx_Headimgurl i, r_Gender := wx_Sex i\<rparr>)
     in req'\<lparr>r_Ext := wechat_ext\<rparr>)"

definition WxOAuthCallback ::
  "'c server \<Rightarrow> login_conf \<Rightarrow> string option \<Rightarrow> (string \<Rightarrow> (string \<times> string) option) \<Rightarrow> (string \<Rightarrow> (string \<times> string) option)
     \<Rightarrow> (string \<Rightarrow> string \<Rightarrow> wx_user option) \<Rightarrow> form \<Rightarrow> ('c, string \<times> Cookie list) handler"
where
  "WxOAuthCallback sv cf rnd parse token info form = (let code = TrimSpace (form ''code''); state = TrimSpace (form ''state'') in
     failIf (state = [] \<or> code = []) (200, ErrParam) (
     failIf (\<not> isSafeReturnURL parse state) (200, ErrParam) (
     case token code of None \<Rightarrow> throw (200, ErrWxService) | Some (accessToken, openid) \<Rightarrow>
     failIf (openid = []) (200, ErrWxService) (
     svc 200 (UserLoginByWeixin (sv_env sv) (wx_login_req openid (info accessToken openid))) (\<lambda>one.
     failIf (\<not> IsRealUserUID (u_UID one)) (200, ErrLogin) (
     tryE (SetWxUserToSession sv cf rnd (mark_wechat one)) (\<lambda>w.
     ret (state, w @ [\<lparr>ck_Name = ''wxOpenid'', ck_Value = openid,
       ck_Options = no_options\<lparr>so_Path := ''/'', so_Domain := lc_Domain cf, so_MaxAge := lc_SessionExpire cf, so_SameSite := SameSiteDefaultMode\<rparr>,
       ck_Expires = None\<rparr>]))))))))"

section \<open>The login of Alipay (\<open>face/ali/http_api.go\<close>)\<close>

text \<open>
  The open id of Alipay goes into the same column. \<open>client\<close> says whether the client could be set up from the
  configuration; \<open>info\<close> is asked only with a token that is not empty.
\<close>

definition ali_login_req :: "string \<Rightarrow> (string \<times> string) option \<Rightarrow> UserReq" where
  "ali_login_req openId info = (let req = empty_UserReq\<lparr>r_WxOpenId := openId\<rparr>;
       req' = (case info of None \<Rightarrow> req | Some (nickName, avatar) \<Rightarrow> req\<lparr>r_Nickname := nickName, r_AvatarURL := avatar\<rparr>)
     in req'\<lparr>r_Ext := [(''kind'', GStr ''alipay''), (''alipay'', GInt 1), (''wechat'', GInt 0)]\<rparr>)"

definition AliLogin ::
  "'c server \<Rightarrow> login_conf \<Rightarrow> string option \<Rightarrow> bool \<Rightarrow> (string \<Rightarrow> (string \<times> string) option) \<Rightarrow> (string \<Rightarrow> (string \<times> string) option)
     \<Rightarrow> form \<Rightarrow> ('c, Cookie list) handler"
where
  "AliLogin sv cf rnd client token info form = (let code = TrimSpace (form ''code'') in
     failIf (code = []) (200, ErrParam) (
     failIf (\<not> client) (200, ErrService) (
     case token code of None \<Rightarrow> throw (401, ErrService) | Some (accessToken, openId) \<Rightarrow>
     failIf (openId = []) (401, ErrService) (
     svc 200 (UserLoginByWeixin (sv_env sv) (ali_login_req openId (if accessToken \<noteq> [] then info accessToken else None))) (\<lambda>one.
     failIf (\<not> IsRealUserUID (u_UID one)) (200, ErrLogin) (
     tryE (SetWxUserToSession sv cf rnd (SetExt ''wechat'' (GInt 0) (SetExt ''alipay'' (GInt 1) (SetExt ''kind'' (GStr ''alipay'') one)))) (\<lambda>w.
     ret (w @ [\<lparr>ck_Name = ''aliUserId'', ck_Value = openId,
       ck_Options = no_options\<lparr>so_Path := ''/'', so_Domain := lc_Domain cf, so_MaxAge := lc_SessionExpire cf, so_SameSite := SameSiteDefaultMode\<rparr>,
       ck_Expires = None\<rparr>]))))))))"

section \<open>The mini program\<close>

text \<open>
  \<open>session\<close> answers \<open>weixin.WxMiniAppLogin\<close> with the open id of a code. \<open>nilAnswer\<close> is what the library answers when it is
  told of an error that is nil, for a user below the real ones.
\<close>

definition WxMiniAppLogin_h ::
  "'c server \<Rightarrow> login_conf \<Rightarrow> string option \<Rightarrow> nat \<times> gerr \<Rightarrow> (string \<Rightarrow> string option) \<Rightarrow> string option \<Rightarrow> ('c, string \<times> Cookie list) handler"
where
  "WxMiniAppLogin_h sv cf rnd nilAnswer session body = need_body body (\<lambda>code.
     case session code of None \<Rightarrow> throw (200, ErrParam) | Some openid \<Rightarrow>
     svc 200 (UserLoginByWeixin (sv_env sv) (wx_login_req openid None)) (\<lambda>one.
     failIf (\<not> IsRealUserUID (u_UID one)) nilAnswer (
     tryE (SetWxUserToSession sv cf rnd (mark_wechat one)) (\<lambda>w. ret (''OK'', w)))))"

definition WxMiniAppUserInfoUpdate :: "'c server \<Rightarrow> request \<Rightarrow> unit option \<Rightarrow> ('c, string) handler" where
  "WxMiniAppUserInfoUpdate sv r body = with_auth sv r (403, ErrNoLogin) (\<lambda>_. need_body body (\<lambda>_. ret ''OK''))"

section \<open>Binding a phone number\<close>

definition WxMpBindCellphone :: "'c server \<Rightarrow> request \<Rightarrow> UserReq option \<Rightarrow> ('c, string) handler" where
  "WxMpBindCellphone sv r body = with_user sv r (\<lambda>su.
     failIf (\<not> IsRealUserUID (u_UID su)) (403, ErrNoLogin) (
     case u_WxOpenId su of None \<Rightarrow> throw (403, ErrNoLogin) | Some openid \<Rightarrow>
     failIf (openid = []) (403, ErrNoLogin) (
     need_body body (\<lambda>req.
     failIf (r_Cellphone req = [] \<or> r_SmsCode req = []) (403, ErrParam) (
     failIf (case u_Cellphone su of None \<Rightarrow> False | Some c \<Rightarrow> c \<noteq> []) (403, ErrSession) (
     svc 200 (UpdateUserWxOpenIdByCellphone (r_Cellphone req) openid (r_SmsCode req)) (\<lambda>_. ret ''OK'')))))))"

section \<open>Properties\<close>

lemma uniq_col_inj:
  "uniq_col f us \<Longrightarrow> u \<in> set us \<Longrightarrow> v \<in> set us \<Longrightarrow> f u = Some x \<Longrightarrow> f v = Some x \<Longrightarrow> u = v"
proof (induction us)
  case (Cons a us)
  have "x \<in> set (List.map_filter f us)" if "v \<in> set us" "f v = Some x" for v
    using that by (force simp: List.map_filter_def)
  with Cons show ?case by (cases "f a") (auto simp: uniq_col_def List.map_filter_simps)
qed simp

lemma uniq_col_clash:
  assumes "u \<in> set us" "v \<in> set us" "u \<noteq> v" "f u = Some x" "f v = Some x"
  shows "\<not> uniq_col f us"
  using uniq_col_inj [OF _ assms(1,2,4,5)] assms(3) by blast

text \<open>An insertion with the open id of a row that is there is refused.\<close>

lemma wp_UserInsert_openid_taken:
  assumes "u \<in> set (users (w_db w))" "u_WxOpenId u = Some (r_WxOpenId p)" "r_WxOpenId p \<noteq> []"
  shows "wp (UserInsert p) (\<lambda>_ _. False) (\<lambda>_ w'. w_db w' = w_db w) w"
proof -
  have "users_violation (users (w_db w) @ [User_Dao.user_row i t p]) \<noteq> None" for i t
  proof -
    have "r_WxOpenId p \<in> set (List.map_filter u_WxOpenId (users (w_db w)))"
      using assms(1,2) by (force simp: List.map_filter_def)
    then have "\<not> uniq_col u_WxOpenId (users (w_db w) @ [User_Dao.user_row i t p])"
      using assms(3) by (auto simp: uniq_col_def List.map_filter_def User_Dao.user_row_def nonempty_def)
    then show ?thesis by (auto simp: users_violation_None users_ok_def)
  qed
  then obtain c where "users_violation (users (w_db w) @ [User_Dao.user_row (users_uid_seq (w_seqs w) + 1) (w_now w) p]) = Some c" by blast
  then show ?thesis by (simp add: wp_UserInsert Let_def)
qed

lemma treated_wx_req:
  "r_WxOpenId (fst (userPreTreat E (wx_login_req openid info))) = openid"
  by (cases info) (simp_all add: userPreTreat_def wx_login_req_def Let_def)

lemma wp_UserLoginByWeixin_other_nickname:
  assumes ok: "users_ok (users (w_db w))" and u: "u \<in> set (users (w_db w))" "u_WxOpenId u = Some openid" "openid \<noteq> []"
    and n: "r_Nickname (fst (userPreTreat E (wx_login_req openid info))) = n" "n \<noteq> []" "u_Nickname u \<noteq> Some n"
  shows "wp (UserLoginByWeixin E (wx_login_req openid info)) (\<lambda>_ _. False) (\<lambda>_ w'. w_db w' = w_db w) w"
proof -
  let ?req = "fst (userPreTreat E (wx_login_req openid info))"
  have id: "r_WxOpenId (wx_login_req openid info) = openid" by (cases info) (simp_all add: wx_login_req_def Let_def)
  have "\<not> match_req ?req v" if "v \<in> set (users (w_db w))" for v
  proof
    assume m: "match_req ?req v"
    then have "u_WxOpenId v = Some openid" "u_Nickname v = Some n"
      using u(3) n by (auto simp: match_req_def treated_wx_req)
    moreover have "v = u"
      using uniq_col_inj [of u_WxOpenId, OF _ that u(1) _ u(2)] calculation(1) ok by (simp add: users_ok_def)
    ultimately show False using n(3) by simp
  qed
  then have none: "find (match_req ?req) (users (w_db w)) = None" by (auto simp: find_None_iff)
  show ?thesis
    unfolding UserLoginByWeixin_def Let_def id wp_failIf UserQueryOne_def wp_tryAs [of "db_query (\<lambda>d. find (match_req ?req) (users d))"] wp_db_query none
    using u by (auto simp: wp_tryE wp_tryAs treated_wx_req intro!: wp_mono [OF wp_UserInsert_openid_taken [of u]])
qed

text \<open>
  C32. A WeChat user whose name differs is locked out. The login of an official account looks the user up by the open id
  and the nickname WeChat reports together. A user who is registered under that open id with another nickname (because
  the first login reported none, or because the name was changed on either side) is not found; the registration that
  follows violates the unique open id, so every such login is refused, and no table changes.
\<close>

theorem wx_nickname_locks_out:
  assumes "users_ok (users (w_db (g_world g)))" and "u \<in> set (users (w_db (g_world g)))" "u_WxOpenId u = Some openid" "openid \<noteq> []"
    and "\<forall>code. token code = Some (accessToken, openid)" and "info accessToken openid = Some i"
    and "r_Nickname (fst (userPreTreat (sv_env sv) (wx_login_req openid (Some i)))) = n" "n \<noteq> []" "u_Nickname u \<noteq> Some n"
  shows "case WxOAuthCallback sv cf rnd parse token info form g of
      (Ret _, _) \<Rightarrow> False | (Err _, g') \<Rightarrow> w_db (g_world g') = w_db (g_world g) | (Panic, _) \<Rightarrow> False"
proof -
  have "wp (WxOAuthCallback sv cf rnd parse token info form) (\<lambda>_ _. False) (\<lambda>_ g'. w_db (g_world g') = w_db (g_world g)) g"
    unfolding WxOAuthCallback_def Let_def spec [OF assms(5)] option.case prod.case assms(6)
    by (intro wp_failIfI) (auto simp: wp_svc intro!: wp_mono [OF wp_UserLoginByWeixin_other_nickname [OF assms(1-4,7-9)]])
  then show ?thesis by (auto simp: wp_def split: prod.splits res.splits)
qed

section \<open>Binding never merges two accounts\<close>

lemma wp_UserUpdateWxOpenId_taken:
  assumes "u \<in> set (users (w_db w))" "u_WxOpenId u = Some openid" "u_Cellphone u \<noteq> Some ph"
  shows "wp (UserUpdateWxOpenIdByCellphone ph openid) (\<lambda>rows w'. rows = 0 \<and> w_db w' = w_db w) (\<lambda>_ w'. w_db w' = w_db w) w"
proof -
  let ?f = "\<lambda>v. if u_Cellphone v = Some ph then v\<lparr>u_WxOpenId := Some openid, u_UpdateTime := w_now w\<rparr> else v"
  show ?thesis
  proof (cases "\<exists>v \<in> set (users (w_db w)). u_Cellphone v = Some ph")
    case True
    then obtain v where v: "v \<in> set (users (w_db w))" "u_Cellphone v = Some ph" by blast
    have "?f v \<in> set (map ?f (users (w_db w)))" "u \<in> set (map ?f (users (w_db w)))" using v(1) assms(1,3) by force+
    moreover have "u_WxOpenId (?f v) = Some openid" "u \<noteq> ?f v" using v(2) assms(3) by auto
    ultimately have "users_violation (map ?f (users (w_db w))) \<noteq> None"
      using uniq_col_clash [of u "map ?f (users (w_db w))" "?f v" u_WxOpenId openid] assms(2) by (auto simp: users_violation_None users_ok_def)
    then obtain c where "users_violation (map ?f (users (w_db w))) = Some c" by blast
    then show ?thesis
      by (simp add: UserUpdateWxOpenIdByCellphone_def wp_reads wp_upd_users split: option.split)
  next
    case False
    then have "map ?f (users (w_db w)) = users (w_db w)" "filter (\<lambda>v. u_Cellphone v = Some ph) (users (w_db w)) = []"
      by (auto intro!: map_idI simp: filter_empty_conv)
    then show ?thesis
      by (simp add: UserUpdateWxOpenIdByCellphone_def wp_reads wp_upd_users split: option.split)
  qed
qed

text \<open>
  A WeChat login is never bound to an account with a phone number (\<open>WxMpBindCellphone\<close>). Logging in through WeChat has
  registered a row with the open id of the session; as long as this row is there and does not itself carry the phone
  number, giving the open id to the account that does would violate the unique column, and with no such account there is
  no row to change. So the handler answers an error, with the right code too, and no table changes.
\<close>

theorem wx_bind_never_succeeds:
  assumes "\<forall>su openid. session_is sv r g su \<longrightarrow> u_WxOpenId su = Some openid \<longrightarrow>
    (\<exists>u \<in> set (users (w_db (g_world g))). u_WxOpenId u = Some openid \<and> u_Cellphone u \<noteq> Some (r_Cellphone req))"
  shows "case WxMpBindCellphone sv r (Some req) g of
      (Ret _, _) \<Rightarrow> False | (Err _, g') \<Rightarrow> w_db (g_world g') = w_db (g_world g) | (Panic, _) \<Rightarrow> False"
proof -
  let ?E = "\<lambda>(_ :: nat \<times> gerr) g'. w_db (g_world g') = w_db (g_world g)"
  have zero: "\<not> IsRealUserUID (u_UID zero_User)" by (simp add: zero_User_def IsRealUserUID_def RealUserMinUID_def)
  have upd: "wp (UpdateUserWxOpenIdByCellphone (r_Cellphone req) openid code) (\<lambda>_ _. False) (\<lambda>_ w'. w_db w' = w_db w) w"
    if "u \<in> set (users (w_db w))" "u_WxOpenId u = Some openid" "u_Cellphone u \<noteq> Some (r_Cellphone req)" for u openid code and w :: "'a world"
  proof -
    have "wp (tryAs (UserUpdateWxOpenIdByCellphone (r_Cellphone req) openid) ErrModify (\<lambda>rows. failIf (rows < 1) ErrModify (ret rows)))
        (\<lambda>_ _. False) (\<lambda>_ w''. w_db w'' = w_db w) w'" if "w_db w' = w_db w" for w' :: "'a world"
      unfolding wp_tryAs by (rule wp_mono [OF wp_UserUpdateWxOpenId_taken [of u]]) (use that \<open>u \<in> _\<close> \<open>u_WxOpenId u = _\<close> \<open>u_Cellphone u \<noteq> _\<close> in \<open>auto simp: wp_failIf\<close>)
    then show ?thesis by (auto simp: UpdateUserWxOpenIdByCellphone_def wp_failIf wp_tryE wp_CheckSmsCode Let_def)
  qed
  have "wp (WxMpBindCellphone sv r (Some req)) (\<lambda>_ _. False) ?E g"
    unfolding WxMpBindCellphone_def
  proof (rule wp_with_user)
    fix su and g' :: "'a gate"
    assume st: "still (g_world g) (g_world g')" and su: "su = zero_User \<or> session_is sv r g su"
    have db: "w_db (g_world g') = w_db (g_world g)" using still_fields [OF st] by simp
    have go: "wp (svc 200 (UpdateUserWxOpenIdByCellphone (r_Cellphone req) openid (r_SmsCode req)) (\<lambda>_. ret ''OK'')) (\<lambda>_ _. False) ?E g'"
      if wx: "u_WxOpenId su = Some openid" "IsRealUserUID (u_UID su)" for openid
    proof -
      obtain u where "u \<in> set (users (w_db (g_world g')))" "u_WxOpenId u = Some openid" "u_Cellphone u \<noteq> Some (r_Cellphone req)"
        using assms su wx zero db by auto
      from upd [OF this] show ?thesis unfolding wp_svc by (rule wp_mono) (simp_all add: db)
    qed
    show "wp (failIf (\<not> IsRealUserUID (u_UID su)) (403, ErrNoLogin) (case u_WxOpenId su of None \<Rightarrow> throw (403, ErrNoLogin) | Some openid \<Rightarrow>
        failIf (openid = []) (403, ErrNoLogin) (need_body (Some req) (\<lambda>req.
        failIf (r_Cellphone req = [] \<or> r_SmsCode req = []) (403, ErrParam) (
        failIf (case u_Cellphone su of None \<Rightarrow> False | Some c \<Rightarrow> c \<noteq> []) (403, ErrSession) (
        svc 200 (UpdateUserWxOpenIdByCellphone (r_Cellphone req) openid (r_SmsCode req)) (\<lambda>_. ret ''OK''))))))) (\<lambda>_ _. False) ?E g'"
      using go by (cases "u_WxOpenId su") (auto simp: wp_failIf wp_throw need_body_def db)
  qed
  then show ?thesis by (auto simp: wp_def split: prod.splits res.splits)
qed

text \<open>The sample user has come through WeChat; the phone number belongs to another account or to none.\<close>

definition wx_member :: User where
  "wx_member = sample_user\<lparr>u_WxOpenId := Some ''oW1''\<rparr>"

definition wx_server :: "(rule list \<times> grouping list) server" where
  "wx_server = sample_server\<lparr>sv_crypto := user_gob\<lparr>gob_dec := (\<lambda>b. Inr [SessUserInfoKey \<mapsto> Val (UserV wx_member)]),
     gob_view := (\<lambda>m. [SessUserInfoKey \<mapsto> Val (UserV wx_member)])\<rparr>\<rparr>"

definition wx_gate :: "(rule list \<times> grouping list) gate" where
  "wx_gate = \<lparr>g_world = user_world\<lparr>w_now := 150, w_db := (w_db user_world)\<lparr>users := [wx_member]\<rparr>\<rparr>, g_users = []\<rparr>"

lemma wx_session_is:
  assumes "session_is wx_server r g su"
  shows "su = wx_member"
proof -
  let ?c = "MaxAge 3600 (NewSecureCookie (Some ''k'') None)"
  have "block ?c = None" by code_simp
  then have dec: "v = [SessUserInfoKey \<mapsto> Val (UserV wx_member)]" if "Decode (sv_crypto wx_server) ?c now ''n'' x = Inr v" for now x v
    using that unfolding Decode_Inr_iff
    by (auto simp: opened_def Deserialize_def bind_err_def wx_server_def split: sum.splits)
  have new: "ss_Values s = [SessUserInfoKey \<mapsto> Val (UserV wx_member)] \<or> ss_Values s = Map.empty"
    if "CookieStore_New (sv_crypto wx_server) now (sv_store wx_server) cs ''n'' = (s, None)" for now cs s
  proof (cases "request_cookie cs ''n''")
    case None
    then show ?thesis using that by (auto simp: CookieStore_New_def NewSession_def Let_def)
  next
    case (Some x)
    have "Codecs (sv_store wx_server) = [?c]" by (simp add: wx_server_def sample_server_def store_codecs)
    then show ?thesis using that Some dec [of now x]
      by (cases "Decode (sv_crypto wx_server) ?c now ''n'' x") (auto simp: CookieStore_New_def NewSession_def Let_def Multi_single)
  qed
  obtain sess where s: "session_of wx_server r g = (Some sess, None)" "session_user sess = Some su"
    using assms by (auto simp only: session_is_def let_in_def)
  obtain s e where n: "CookieStore_New (sv_crypto wx_server) (w_now (g_world g)) (sv_store wx_server) (rq_Cookies r) ''n'' = (s, e)" by fastforce
  have "sv_SessionKey wx_server = ''n''" by (simp add: wx_server_def sample_server_def)
  then have "e = None" "ss_Values sess = ss_Values s"
    using s(1) n by (auto simp: session_of_def CookieStore_Get_def Registry_Get_def Let_def split: if_splits)
  then show ?thesis using new [of "w_now (g_world g)" "rq_Cookies r" s] n s(2) by (auto simp: session_user_def)
qed

theorem wx_bind_never_succeeds_witness:
  "case WxMpBindCellphone wx_server (sample_request ''wx/bindCellphone'' []) (Some joining_req) wx_gate of
      (Ret _, _) \<Rightarrow> False | (Err _, g') \<Rightarrow> users (w_db (g_world g')) = [wx_member] | (Panic, _) \<Rightarrow> False"
proof -
  have u: "users (w_db (g_world wx_gate)) = [wx_member]" by (simp add: wx_gate_def)
  have "\<forall>su openid. session_is wx_server (sample_request ''wx/bindCellphone'' []) wx_gate su \<longrightarrow> u_WxOpenId su = Some openid \<longrightarrow>
    (\<exists>u \<in> set (users (w_db (g_world wx_gate))). u_WxOpenId u = Some openid \<and> u_Cellphone u \<noteq> Some (r_Cellphone joining_req))"
    using wx_session_is by (fastforce simp: u wx_member_def)
  from wx_bind_never_succeeds [OF this] show ?thesis by (auto simp: u split: prod.splits res.splits)
qed

text \<open>WeChat reports another name than the registered one.\<close>

theorem wx_nickname_locks_out_witness:
  "case WxOAuthCallback wx_server login_settings None (\<lambda>u. Some (''https'', ''shop'')) (\<lambda>code. Some (''t'', ''oW1''))
       (\<lambda>_ _. Some \<lparr>wx_Nickname = ''bea'', wx_Headimgurl = [], wx_Sex = 2\<rparr>) (\<lambda>k. ''x'') wx_gate of
     (Ret _, _) \<Rightarrow> False | (Err _, g') \<Rightarrow> users (w_db (g_world g')) = [wx_member] | (Panic, _) \<Rightarrow> False"
proof -
  let ?i = "\<lparr>wx_Nickname = ''bea'', wx_Headimgurl = [], wx_Sex = 2\<rparr>"
  have u: "users (w_db (g_world wx_gate)) = [wx_member]" by (simp add: wx_gate_def)
  have ok: "users_ok (users (w_db (g_world wx_gate)))" "wx_member \<in> set (users (w_db (g_world wx_gate)))" "u_WxOpenId wx_member = Some ''oW1''" "''oW1'' \<noteq> []"
    by (simp_all add: u wx_member_def users_ok_def uniq_col_def distinct_by_def List.map_filter_simps)
  have n: "r_Nickname (fst (userPreTreat (sv_env wx_server) (wx_login_req ''oW1'' (Some ?i)))) = ''bea''" by code_simp
  have "''bea'' \<noteq> []" "u_Nickname wx_member \<noteq> Some ''bea''" by (simp_all add: wx_member_def)
  note R = wx_nickname_locks_out [OF ok _ _ n this, of "\<lambda>code. Some (''t'', ''oW1'')" "''t''" "\<lambda>_ _. Some ?i"]
  show ?thesis using R [of login_settings None "\<lambda>u. Some (''https'', ''shop'')" "\<lambda>k. ''x''"] by (auto simp: u split: prod.splits res.splits)
qed

end
