(* ===== verification/Seed_Root.thy ===== *)
theory Seed_Root
  imports Org_Service
begin

text \<open>
  \<open>dao/seed_root.go\<close> (PostgreSQL dialect): the first user and the root tenant are written
  in one transaction, which may run again on a filled database.
\<close>

section \<open>Options\<close>

record SeedRootOptions =
  sd_UID :: u64
  sd_TenantID :: u64
  sd_Nickname :: string
  sd_Password :: string
  sd_Cellphone :: string
  sd_Email :: string
  sd_TenantName :: string

definition default_seed :: SeedRootOptions where
  "default_seed = \<lparr>sd_UID = 10000, sd_TenantID = 10000, sd_Nickname = ''root'', sd_Password = ''Lh16888@#$'',
     sd_Cellphone = ''15360651247'', sd_Email = ''35221199@qq.com'', sd_TenantName = ''tenant-root''\<rparr>"

definition normalize_seed :: "SeedRootOptions option \<Rightarrow> SeedRootOptions" where
  "normalize_seed opt = (case opt of None \<Rightarrow> default_seed | Some o' \<Rightarrow>
     \<lparr>sd_UID = (if sd_UID o' > 0 then sd_UID o' else sd_UID default_seed),
      sd_TenantID = (if sd_TenantID o' > 0 then sd_TenantID o' else sd_TenantID default_seed),
      sd_Nickname = (if sd_Nickname o' \<noteq> [] then sd_Nickname o' else sd_Nickname default_seed),
      sd_Password = (if sd_Password o' \<noteq> [] then sd_Password o' else sd_Password default_seed),
      sd_Cellphone = (if sd_Cellphone o' \<noteq> [] then sd_Cellphone o' else sd_Cellphone default_seed),
      sd_Email = (if sd_Email o' \<noteq> [] then sd_Email o' else sd_Email default_seed),
      sd_TenantName = (if sd_TenantName o' \<noteq> [] then sd_TenantName o' else sd_TenantName default_seed)\<rparr>)"

section \<open>The statements\<close>

text \<open>\<open>INSERT ... ON CONFLICT (key) DO UPDATE\<close>: the rows with the key are rewritten, or a row is added.\<close>

definition upsert :: "('a \<Rightarrow> bool) \<Rightarrow> ('a \<Rightarrow> 'a) \<Rightarrow> 'a \<Rightarrow> 'a list \<Rightarrow> 'a list" where
  "upsert P f row xs = (if list_ex P xs then map (\<lambda>x. if P x then f x else x) xs else xs @ [row])"

definition seed_ext :: MapStruct where
  "seed_ext = [(''disabled'', GInt 0)]"

definition root_user :: "SeedRootOptions \<Rightarrow> string \<Rightarrow> int \<Rightarrow> User \<Rightarrow> User" where
  "root_user cfg passwordHash now u = u\<lparr>u_TenantID := sd_TenantID cfg, u_Nickname := Some (sd_Nickname cfg),
     u_Cellphone := Some (sd_Cellphone cfg), u_Email := Some (sd_Email cfg), u_Password := passwordHash,
     u_Ext := stored_map seed_ext, u_UpdateTime := now\<rparr>"

definition upsertRootUser :: "SeedRootOptions \<Rightarrow> string \<Rightarrow> ('c, unit) dao" where
  "upsertRootUser cfg passwordHash = tryWrap (db_stmt (\<lambda>w.
     let us = upsert (\<lambda>u. u_UID u = sd_UID cfg) (root_user cfg passwordHash (w_now w))
           (root_user cfg passwordHash (w_now w) (user_row (sd_UID cfg) (w_now w) empty_UserReq)) (users (w_db w)) in
     case users_violation us of
       Some c \<Rightarrow> (Err (PgUnique c), w)
     | None \<Rightarrow> (Ret (), w\<lparr>w_db := (w_db w)\<lparr>users := us\<rparr>\<rparr>))) ret"

text \<open>The title is the text of the source in UTF-8.\<close>

definition root_title :: string where
  "root_title = [CHR 0xE8, CHR 0xB6, CHR 0x85, CHR 0xE7, CHR 0xBA, CHR 0xA7, CHR 0xE7, CHR 0xAE, CHR 0xA1,
     CHR 0xE7, CHR 0x90, CHR 0x86, CHR 0xE5, CHR 0x91, CHR 0x98]"

definition root_tenant :: "SeedRootOptions \<Rightarrow> int \<Rightarrow> Tenant \<Rightarrow> Tenant" where
  "root_tenant cfg now t = t\<lparr>t_UID := sd_UID cfg, t_TenantName := sd_TenantName cfg, t_TenantType := ''root'',
     t_Info := stored_map [(''adminCellphone'', GStr (sd_Cellphone cfg))],
     t_Configuration := Some (stored_config \<lparr>Roles = [\<lparr>RoleTitle = root_title, RoleValue = ''root'', RoleUID = 0\<rparr>], More = []\<rparr>),
     t_UpdateTime := now\<rparr>"

definition blank_tenant :: "u64 \<Rightarrow> int \<Rightarrow> Tenant" where
  "blank_tenant i now = \<lparr>t_ID = i, t_UID = 0, t_ParentID = 0, t_TenantName = [], t_TenantType = [], t_CreateTime = now, t_UpdateTime = now,
     t_Info = [], t_Configuration = None, t_Depth = 0\<rparr>"

definition upsertRootTenant :: "SeedRootOptions \<Rightarrow> ('c, unit) dao" where
  "upsertRootTenant cfg = tryWrap (db_stmt (\<lambda>w.
     let ts = upsert (\<lambda>t. t_ID t = sd_TenantID cfg) (root_tenant cfg (w_now w))
           (root_tenant cfg (w_now w) (blank_tenant (sd_TenantID cfg) (w_now w))) (tenants (w_db w)) in
     case tenants_violation ts of
       Some c \<Rightarrow> (Err (PgUnique c), w)
     | None \<Rightarrow> (Ret (), w\<lparr>w_db := (w_db w)\<lparr>tenants := ts\<rparr>\<rparr>))) ret"

definition upsertRootClosures :: "u64 \<Rightarrow> u64 \<Rightarrow> ('c, unit) dao" where
  "upsertRootClosures uid tenantID =
     tryWrap (db_exec (\<lambda>d. ((), d\<lparr>user_closure := ins_nothing ((uid, uid), 0) (user_closure d)\<rparr>))) (\<lambda>_.
     tryWrap (db_exec (\<lambda>d. ((), d\<lparr>tenant_closure := ins_nothing ((tenantID, tenantID), 0) (tenant_closure d)\<rparr>))) ret)"

text \<open>
  \<open>setval(s, GREATEST((SELECT COALESCE(MAX(x), n) FROM t), n), true)\<close>; like every change of a sequence it is not rolled
  back, and it may also move the sequence back.
\<close>

definition greatest :: "u64 \<Rightarrow> u64 list \<Rightarrow> u64" where
  "greatest n xs = fold max xs n"

definition calibrateRootSequences :: "u64 \<Rightarrow> u64 \<Rightarrow> ('c, unit) dao" where
  "calibrateRootSequences uid tenantID =
     tryWrap (db_stmt (\<lambda>w. (Ret (), w\<lparr>w_seqs := (w_seqs w)\<lparr>users_uid_seq := greatest uid (map u_UID (users (w_db w)))\<rparr>\<rparr>))) (\<lambda>_.
     tryWrap (db_stmt (\<lambda>w. (Ret (), w\<lparr>w_seqs := (w_seqs w)\<lparr>tenants_id_seq := greatest tenantID (map t_ID (tenants (w_db w)))\<rparr>\<rparr>))) ret)"

section \<open>Seeding\<close>

definition seed_tx :: "'c env \<Rightarrow> SeedRootOptions \<Rightarrow> ('c, unit) dao" where
  "seed_tx E cfg =
     tryE (upsertRootUser cfg (EncryPWD E (sd_Password cfg))) (\<lambda>_.
     tryE (upsertRootTenant cfg) (\<lambda>_.
     tryE (upsertRootClosures (sd_UID cfg) (sd_TenantID cfg)) (\<lambda>_.
     calibrateRootSequences (sd_UID cfg) (sd_TenantID cfg))))"

text \<open>The connection is there, and encoding the maps cannot fail.\<close>

definition SeedRoot :: "'c env \<Rightarrow> SeedRootOptions option \<Rightarrow> ('c, unit) dao" where
  "SeedRoot E opt = (let cfg = normalize_seed opt in
     failIf (length (sd_Cellphone cfg) \<noteq> 11) (OtherErr ''cellphone'') (
     tryWrap (db_query (\<lambda>_. ())) (\<lambda>_.
     tryE (run_tx (seed_tx E cfg)) (\<lambda>(_, committed).
     failIf (\<not> committed) (WrapErr DbError) (ret ())))))"

section \<open>What is there afterwards\<close>

lemma greatest_ge: "n \<le> greatest n xs" "x \<in> set xs \<Longrightarrow> x \<le> greatest n xs"
proof -
  have base: "n \<le> fold max xs n" for n :: u64 and xs
  proof (induction xs arbitrary: n)
    case (Cons a xs)
    show ?case using Cons [of "max a n"] max.cobounded2 [of n a] by simp
  qed simp
  have "x \<le> fold max xs n" if "x \<in> set xs" for n
    using that
  proof (induction xs arbitrary: n)
    case (Cons a xs)
    show ?case
    proof (cases "x = a")
      case True
      then show ?thesis using base [of "max a n" xs] max.cobounded1 [of a n] by simp
    qed (use Cons in simp)
  qed simp
  then show "n \<le> greatest n xs" "x \<in> set xs \<Longrightarrow> x \<le> greatest n xs" using base by (auto simp: greatest_def)
qed

definition seeded :: "string \<Rightarrow> SeedRootOptions \<Rightarrow> int \<Rightarrow> db \<Rightarrow> db" where
  "seeded digest cfg now d = d\<lparr>
     users := upsert (\<lambda>u. u_UID u = sd_UID cfg) (root_user cfg digest now) (root_user cfg digest now (user_row (sd_UID cfg) now empty_UserReq)) (users d),
     tenants := upsert (\<lambda>t. t_ID t = sd_TenantID cfg) (root_tenant cfg now) (root_tenant cfg now (blank_tenant (sd_TenantID cfg) now)) (tenants d),
     user_closure := ins_nothing ((sd_UID cfg, sd_UID cfg), 0) (user_closure d),
     tenant_closure := ins_nothing ((sd_TenantID cfg, sd_TenantID cfg), 0) (tenant_closure d)\<rparr>"

lemma seeded_parts:
  "users (seeded h cfg now d) = upsert (\<lambda>u. u_UID u = sd_UID cfg) (root_user cfg h now) (root_user cfg h now (user_row (sd_UID cfg) now empty_UserReq)) (users d)"
  "tenants (seeded h cfg now d) = upsert (\<lambda>t. t_ID t = sd_TenantID cfg) (root_tenant cfg now) (root_tenant cfg now (blank_tenant (sd_TenantID cfg) now)) (tenants d)"
  "d\<lparr>users := users (seeded h cfg now d), tenants := tenants (seeded h cfg now d), user_closure := ins_nothing ((sd_UID cfg, sd_UID cfg), 0) (user_closure d),
     tenant_closure := ins_nothing ((sd_TenantID cfg, sd_TenantID cfg), 0) (tenant_closure d)\<rparr> = seeded h cfg now d"
  by (simp_all add: seeded_def)

lemma wp_upsertRootUser:
  assumes "\<not> db_fails w \<Longrightarrow> users_violation (users (seeded h cfg (w_now w) (w_db w))) = None \<Longrightarrow>
      Q () ((db_tick w)\<lparr>w_db := (w_db w)\<lparr>users := users (seeded h cfg (w_now w) (w_db w))\<rparr>\<rparr>)"
    and "\<And>e. db_fails w \<or> users_violation (users (seeded h cfg (w_now w) (w_db w))) \<noteq> None \<Longrightarrow> F e (db_tick w)"
  shows "wp (upsertRootUser cfg h) Q F w"
  using assms unfolding upsertRootUser_def wp_tryWrap wp_db_stmt wp_ret Let_def seeded_parts(1)
  by (simp add: wp_def split: option.split)

lemma wp_upsertRootTenant:
  assumes "\<not> db_fails w \<Longrightarrow> tenants_violation (tenants (seeded h cfg (w_now w) (w_db w))) = None \<Longrightarrow>
      Q () ((db_tick w)\<lparr>w_db := (w_db w)\<lparr>tenants := tenants (seeded h cfg (w_now w) (w_db w))\<rparr>\<rparr>)"
    and "\<And>e. db_fails w \<or> tenants_violation (tenants (seeded h cfg (w_now w) (w_db w))) \<noteq> None \<Longrightarrow> F e (db_tick w)"
  shows "wp (upsertRootTenant cfg) Q F w"
  using assms unfolding upsertRootTenant_def wp_tryWrap wp_db_stmt wp_ret Let_def seeded_parts(2)
  by (simp add: wp_def split: option.split)

lemma wp_stmtI:
  "(\<not> db_fails w \<Longrightarrow> wp f Q E (db_tick w)) \<Longrightarrow> (db_fails w \<Longrightarrow> E DbError (db_tick w)) \<Longrightarrow> wp (db_stmt f) Q E w"
  by (simp add: wp_db_stmt)

lemma wp_execI:
  "(\<not> db_fails w \<Longrightarrow> Q (fst (f (w_db w))) ((db_tick w)\<lparr>w_db := snd (f (w_db w))\<rparr>)) \<Longrightarrow> (db_fails w \<Longrightarrow> E DbError (db_tick w)) \<Longrightarrow> wp (db_exec f) Q E w"
  by (simp add: wp_db_exec)

lemma wp_step: "wp (\<lambda>w. (Ret x, f w)) Q E w = Q x (f w)"
  by (simp add: wp_def)

lemma wp_seed_rest:
  assumes "\<And>w'. \<lbrakk>w_now w' = w_now w; w_db w' = (w_db w)\<lparr>user_closure := ins_nothing ((uid, uid), 0) (user_closure (w_db w)),
        tenant_closure := ins_nothing ((tid, tid), 0) (tenant_closure (w_db w))\<rparr>;
      users_uid_seq (w_seqs w') = greatest uid (map u_UID (users (w_db w))); tenants_id_seq (w_seqs w') = greatest tid (map t_ID (tenants (w_db w)));
      w_faults w = [] \<Longrightarrow> w_faults w' = []\<rbrakk> \<Longrightarrow> Q () w'"
    and "\<And>e w'. w_faults w \<noteq> [] \<Longrightarrow> F e w'"
  shows "wp (tryE (upsertRootClosures uid tid) (\<lambda>_. calibrateRootSequences uid tid)) Q F w"
  unfolding upsertRootClosures_def calibrateRootSequences_def wp_tryE wp_tryWrap wp_ret
  by (intro wp_execI wp_stmtI wp_step [THEN iffD2], rule assms(1), simp_all) (rule assms(2), rule notI, simp add: db_fails_def)+

text \<open>Whether a seeding can succeed.\<close>

definition seed_ok :: "string \<Rightarrow> SeedRootOptions \<Rightarrow> int \<Rightarrow> db \<Rightarrow> bool" where
  "seed_ok digest cfg now d \<longleftrightarrow> users_violation (users (seeded digest cfg now d)) = None \<and> tenants_violation (tenants (seeded digest cfg now d)) = None"

lemma wp_seed_tx:
  assumes ok: "\<And>w'. \<lbrakk>seed_ok h cfg (w_now w) (w_db w); w_db w' = seeded h cfg (w_now w) (w_db w); w_now w' = w_now w;
      users_uid_seq (w_seqs w') = greatest (sd_UID cfg) (map u_UID (users (w_db w'))); tenants_id_seq (w_seqs w') = greatest (sd_TenantID cfg) (map t_ID (tenants (w_db w')));
      w_faults w = [] \<Longrightarrow> w_faults w' = []\<rbrakk> \<Longrightarrow> Q () w'"
    and no: "\<And>e w'. w_faults w \<noteq> [] \<or> \<not> seed_ok h cfg (w_now w) (w_db w) \<Longrightarrow> F e w'"
    and h: "h = EncryPWD E (sd_Password cfg)"
  shows "wp (seed_tx E cfg) Q F w"
  unfolding seed_tx_def h [symmetric] wp_tryE [of "upsertRootUser cfg h"] wp_tryE [of "upsertRootTenant cfg"]
proof (intro wp_upsertRootUser wp_upsertRootTenant [where h = h] wp_seed_rest, goal_cases)
  case (1 w')
  then show ?case by (intro ok) (simp_all add: seeded_def seed_ok_def)
next
  case (2 e w') then show ?case by (intro no) (auto simp: db_fails_def)
next
  case (3 e) then show ?case by (intro no) (auto simp: db_fails_def seed_ok_def seeded_parts)
next
  case (4 e) then show ?case by (intro no) (auto simp: db_fails_def seed_ok_def)
qed

lemma wp_SeedRoot:
  assumes ok: "\<And>w'. \<lbrakk>seed_ok h cfg (w_now w) (w_db w); w_db w' = seeded h cfg (w_now w) (w_db w); length (sd_Cellphone cfg) = 11;
      users_uid_seq (w_seqs w') = greatest (sd_UID cfg) (map u_UID (users (w_db w'))); tenants_id_seq (w_seqs w') = greatest (sd_TenantID cfg) (map t_ID (tenants (w_db w')))\<rbrakk>
      \<Longrightarrow> Q () w'"
    and no: "\<And>e w'. w_faults w \<noteq> [] \<or> \<not> seed_ok h cfg (w_now w) (w_db w) \<or> length (sd_Cellphone cfg) \<noteq> 11 \<Longrightarrow> w_db w' = w_db w \<Longrightarrow> F e w'"
    and h: "h = EncryPWD E (sd_Password cfg)" "cfg = normalize_seed opt"
  shows "wp (SeedRoot E opt) Q F w"
proof -
  have "wp (run_tx (seed_tx E cfg)) (\<lambda>x. wp (failIf (\<not> snd x) (WrapErr DbError) (ret ())) Q F) F (db_tick w)"
    if "length (sd_Cellphone cfg) = 11"
    unfolding wp_run_tx
    by (rule wp_seed_tx [where h = h]) (use h(1) that in \<open>auto simp: wp_failIf wp_ret db_fails_def intro!: ok no split: if_splits\<close>)
  then show ?thesis
    unfolding SeedRoot_def Let_def h(2) [symmetric] wp_failIf [of "length (sd_Cellphone cfg) \<noteq> 11"] wp_tryWrap wp_db_query wp_tryE case_prod_unfold
    by (auto intro: no simp: db_fails_def)
qed

section \<open>Properties\<close>

lemma upsert_find:
  assumes "P row" and "\<And>x. P x \<Longrightarrow> P (f x)"
  shows "\<exists>x. find P (upsert P f (f row) xs) = Some (f x) \<and> (x \<in> set xs \<or> x = row)"
proof (cases "list_ex P xs")
  case True
  have "find P (map (\<lambda>x. if P x then f x else x) xs) = map_option f (find P xs)"
    using assms(2) by (induction xs) auto
  moreover obtain x where "find P xs = Some x" using True by (cases "find P xs") (auto simp: find_None_iff list_ex_iff)
  ultimately show ?thesis using True by (auto simp: upsert_def find_Some_iff)
next
  case False
  then have "find P (xs @ [f row]) = Some (f row)" using assms by (induction xs) auto
  with False show ?thesis by (auto simp: upsert_def)
qed

lemma upsert_others:
  assumes "P row" and "\<And>x. P x \<Longrightarrow> P (f x)"
  shows "filter (\<lambda>x. \<not> P x) (upsert P f (f row) xs) = filter (\<lambda>x. \<not> P x) xs"
proof -
  have "filter (\<lambda>x. \<not> P x) (map (\<lambda>x. if P x then f x else x) xs) = filter (\<lambda>x. \<not> P x) xs"
    using assms(2) by (induction xs) auto
  then show ?thesis using assms by (simp add: upsert_def)
qed

lemma upsert_again:
  assumes "P row" and "\<And>x. P x \<Longrightarrow> P (f x)" and "\<And>x. P x \<Longrightarrow> g (f x) = h (f x)"
  shows "upsert P g (g row') (upsert P f (f row) xs) = map (\<lambda>x. if P x then h x else x) (upsert P f (f row) xs)"
proof -
  have "\<exists>x. P x \<and> x \<in> set (upsert P f (f row) xs)"
    using upsert_find [of P row f xs] assms(1,2) by (auto simp: find_Some_iff) (metis nth_mem)
  then have "list_ex P (upsert P f (f row) xs)" by (auto simp: list_ex_iff)
  moreover have "g x = h x" if "x \<in> set (upsert P f (f row) xs)" "P x" for x
    using that assms unfolding upsert_def by (auto split: if_splits simp: list_ex_iff)
  ultimately show ?thesis by (simp add: upsert_def [of P g])
qed

text \<open>The rows with a new update time.\<close>

definition restamped :: "SeedRootOptions \<Rightarrow> int \<Rightarrow> db \<Rightarrow> db" where
  "restamped cfg t d = d\<lparr>users := map (\<lambda>u. if u_UID u = sd_UID cfg then u\<lparr>u_UpdateTime := t\<rparr> else u) (users d),
     tenants := map (\<lambda>r. if t_ID r = sd_TenantID cfg then r\<lparr>t_UpdateTime := t\<rparr> else r) (tenants d)\<rparr>"

lemma seeded_again: "seeded h cfg t (seeded h cfg now d) = restamped cfg t (seeded h cfg now d)"
proof -
  have u: "users (seeded h cfg t (seeded h cfg now d)) = map (\<lambda>u. if u_UID u = sd_UID cfg then u\<lparr>u_UpdateTime := t\<rparr> else u) (users (seeded h cfg now d))"
    unfolding seeded_parts by (rule upsert_again) (simp_all add: root_user_def user_row_def)
  have ten: "tenants (seeded h cfg t (seeded h cfg now d)) = map (\<lambda>r. if t_ID r = sd_TenantID cfg then r\<lparr>t_UpdateTime := t\<rparr> else r) (tenants (seeded h cfg now d))"
    unfolding seeded_parts by (rule upsert_again) (simp_all add: root_tenant_def blank_tenant_def)
  have "ins_nothing ((i, i), 0) (ins_nothing ((i, i), 0) c) = ins_nothing ((i, i), 0) c" for i and c :: closure
    by (simp add: ins_nothing_def)
  then show ?thesis using u ten unfolding restamped_def by (simp add: seeded_def)
qed

lemma closure_exact_alone:
  assumes "closure_exact N p t"
  shows "closure_exact (insert r N) p (ins_nothing ((r, r), 0) t)"
proof (cases "r \<in> N")
  case True
  then have "map_of t (r, r) = Some 0" using assms by (simp add: closure_exact_def)
  then show ?thesis using assms True by (simp add: ins_nothing_def insert_absorb)
next
  case False
  have f: "dom p \<subseteq> N" "ran p \<subseteq> N" using assms by (auto simp: closure_exact_def forest_def)
  then have "p r = None" using False by blast
  then have up: "up p n r = (if n = 0 then Some r else None)" for n by (cases n) simp_all
  have look: "map_of t (a, d) = Some n \<longleftrightarrow> d \<in> N \<and> up p n d = Some a" for a d n
    using assms unfolding closure_exact_def by blast
  have none: "map_of t (a, r) = None" for a
    using look [of a r] False by (cases "map_of t (a, r)") blast+
  show ?thesis unfolding closure_exact_def
  proof (intro conjI allI)
    show "forest (insert r N) p" using assms f by (auto simp: closure_exact_def forest_def)
    show "distinct (map fst (ins_nothing ((r, r), 0) t))" using assms by (intro ins_nothing_distinct) (simp add: closure_exact_def)
    fix a d n
    show "map_of (ins_nothing ((r, r), 0) t) (a, d) = Some n \<longleftrightarrow> d \<in> insert r N \<and> up p n d = Some a"
      using look [of a d n] False by (cases "d = r") (auto simp: none up)
  qed
qed

lemma seeded_user:
  "\<exists>u. find (\<lambda>u. u_UID u = sd_UID cfg) (users (seeded h cfg now d)) = Some u \<and> u_TenantID u = sd_TenantID cfg \<and> u_Password u = h
     \<and> u_Cellphone u = Some (sd_Cellphone cfg) \<and> u_Nickname u = Some (sd_Nickname cfg)"
  using upsert_find [of "\<lambda>u. u_UID u = sd_UID cfg" "user_row (sd_UID cfg) now empty_UserReq" "root_user cfg h now" "users d"]
  by (auto simp: seeded_parts root_user_def user_row_def)

lemma seeded_tenant:
  "\<exists>t. find (\<lambda>t. t_ID t = sd_TenantID cfg) (tenants (seeded h cfg now d)) = Some t \<and> t_UID t = sd_UID cfg \<and> t_TenantType t = ''root''
     \<and> (\<exists>c. t_Configuration t = Some c \<and> map RoleValue (Roles c) = [''root''])"
  using upsert_find [of "\<lambda>t. t_ID t = sd_TenantID cfg" "blank_tenant (sd_TenantID cfg) now" "root_tenant cfg now" "tenants d"]
  by (auto simp: seeded_parts root_tenant_def blank_tenant_def stored_config_def)

lemma seeded_others:
  "filter (\<lambda>u. u_UID u \<noteq> sd_UID cfg) (users (seeded h cfg now d)) = filter (\<lambda>u. u_UID u \<noteq> sd_UID cfg) (users d)"
  "filter (\<lambda>t. t_ID t \<noteq> sd_TenantID cfg) (tenants (seeded h cfg now d)) = filter (\<lambda>t. t_ID t \<noteq> sd_TenantID cfg) (tenants d)"
  unfolding seeded_parts by (rule upsert_others; simp add: root_user_def user_row_def root_tenant_def blank_tenant_def)+

lemma seed_ok_again:
  assumes "seed_ok h cfg now d"
  shows "seed_ok h cfg t (seeded h cfg now d)"
proof -
  have "users_violation (users (restamped cfg t (seeded h cfg now d))) = None"
    using assms unfolding restamped_def seed_ok_def users_violation_None by (simp add: users_violation_None [symmetric] users_violation_map)
  moreover have "tenants_violation (tenants (restamped cfg t (seeded h cfg now d))) = tenants_violation (tenants (seeded h cfg now d))"
    by (simp add: restamped_def tenants_violation_def distinct_by_map_same)
  ultimately show ?thesis using assms by (simp add: seed_ok_def seeded_again)
qed


lemma sample_seed_ok: "seed_ok h default_seed 0 (w_db (sample_world c fs))"
proof -
  have "users_violation [u] = None" for u
    by (simp add: users_violation_None users_ok_def uniq_col_def distinct_by_def List.map_filter_simps split: option.split)
  moreover have "show_u64 i \<noteq> ''tenant-root''" for i
    using show_u64_digits [of i] by (auto simp: is_digit_def)
  ultimately show ?thesis
    by (simp add: seed_ok_def seeded_parts sample_world_def upsert_def default_seed_def tenants_violation_def distinct_by_def sample_tenant_def
        root_tenant_def blank_tenant_def)
qed


end
