(* ===== verification/Paths.thy ===== *)
theory Paths
  imports Prelude
begin

text \<open>
  \<open>path/filepath\<close> of the standard library on a Unix system, as far as \<open>sessions/store.go\<close>, \<open>database/sqlite3.go\<close> and
  the upload of a picture use it: purely lexical operations on slash-separated names.
\<close>

definition slash :: char where
  "slash = CHR ''/''"

text \<open>The elements between the slashes.\<close>

fun elements :: "string \<Rightarrow> string list" where
  "elements [] = [[]]"
| "elements (c # s) = (if c = slash then [] # elements s
     else (case elements s of [] \<Rightarrow> [[c]] | e # es \<Rightarrow> (c # e) # es))"

fun unite :: "string list \<Rightarrow> string" where
  "unite [] = []"
| "unite [e] = e"
| "unite (e # es) = e @ slash # unite es"

text \<open>The stack holds the elements written so far, the last one first.\<close>

fun clean_elements :: "bool \<Rightarrow> string list \<Rightarrow> string list \<Rightarrow> string list" where
  "clean_elements rooted st [] = rev st"
| "clean_elements rooted st (e # es) =
     (if e = [] \<or> e = ''.'' then clean_elements rooted st es
      else if e = ''..'' then (case st of
          [] \<Rightarrow> clean_elements rooted (if rooted then [] else [e]) es
        | t # ts \<Rightarrow> clean_elements rooted (if t = ''..'' then e # st else ts) es)
      else clean_elements rooted (e # st) es)"

definition path_of :: "bool \<Rightarrow> string list \<Rightarrow> string" where
  "path_of rooted es = (if rooted then slash # unite es else if es = [] then ''.'' else unite es)"

definition rooted :: "string \<Rightarrow> bool" where
  "rooted p \<longleftrightarrow> (case p of [] \<Rightarrow> False | c # _ \<Rightarrow> c = slash)"

definition Clean :: "string \<Rightarrow> string" where
  "Clean p = (if p = [] then ''.'' else path_of (rooted p) (clean_elements (rooted p) [] (elements p)))"

fun Join :: "string list \<Rightarrow> string" where
  "Join [] = []"
| "Join (e # es) = (if e = [] then Join es else Clean (unite (e # es)))"

definition Base :: "string \<Rightarrow> string" where
  "Base p = (if p = [] then ''.'' else
     let b = rev (takeWhile (\<lambda>c. c \<noteq> slash) (dropWhile (\<lambda>c. c = slash) (rev p))) in
     if b = [] then [slash] else b)"

text \<open>Everything up to the last slash, cleaned.\<close>

definition Dir :: "string \<Rightarrow> string" where
  "Dir p = Clean (rev (dropWhile (\<lambda>c. c \<noteq> slash) (rev p)))"

section \<open>Cleaned paths\<close>

text \<open>What a cleaned list of elements looks like: leading \<open>..\<close> only, and none after a root.\<close>

definition plain_element :: "string \<Rightarrow> bool" where
  "plain_element e \<longleftrightarrow> e \<noteq> [] \<and> e \<noteq> ''.'' \<and> e \<noteq> ''..'' \<and> slash \<notin> set e"

definition tidy :: "bool \<Rightarrow> string list \<Rightarrow> bool" where
  "tidy r es \<longleftrightarrow> (\<exists>k fs. es = replicate k ''..'' @ fs \<and> (r \<longrightarrow> k = 0) \<and> list_all plain_element fs)"

lemma elements_not_Nil [simp]: "elements p \<noteq> []"
  by (induction p) (auto split: list.splits)

lemma elements_no_slash: "e \<in> set (elements p) \<Longrightarrow> slash \<notin> set e"
  by (induction p arbitrary: e) (fastforce split: if_splits list.splits)+

lemma elements_append [simp]: "slash \<notin> set e \<Longrightarrow> elements (e @ slash # p) = e # elements p"
  by (induction e) auto

lemma elements_single [simp]: "slash \<notin> set e \<Longrightarrow> elements e = [e]"
  by (induction e) auto

lemma elements_unite: "\<forall>e \<in> set es. slash \<notin> set e \<Longrightarrow> elements (unite es) = (if es = [] then [[]] else es)"
  by (induction es rule: unite.induct) auto

lemma unite_append: "es \<noteq> [] \<Longrightarrow> fs \<noteq> [] \<Longrightarrow> unite (es @ fs) = unite es @ slash # unite fs"
  by (induction es rule: unite.induct) (auto simp: neq_Nil_conv)

lemma clean_elements_plain: "list_all plain_element es \<Longrightarrow> clean_elements r st es = rev st @ es"
  by (induction es arbitrary: st) (auto simp: plain_element_def)

lemma clean_elements_dots: "clean_elements False (replicate n ''..'') (replicate k ''..'' @ fs) = clean_elements False (replicate (k + n) ''..'') fs"
proof (induction k arbitrary: n)
  case (Suc k)
  then show ?case using Suc.IH [of "Suc n"] by (cases n) auto
qed simp

lemma clean_elements_tidy: "tidy r es \<Longrightarrow> clean_elements r [] es = es"
  using clean_elements_dots [of 0] by (auto simp: tidy_def clean_elements_plain)

lemma tidy_snoc:
  assumes "tidy r es" "plain_element e"
  shows "tidy r (es @ [e])"
proof -
  obtain k fs where "es = replicate k ''..'' @ fs" "r \<longrightarrow> k = 0" "list_all plain_element fs"
    using assms(1) unfolding tidy_def by blast
  then have "es @ [e] = replicate k ''..'' @ (fs @ [e]) \<and> (r \<longrightarrow> k = 0) \<and> list_all plain_element (fs @ [e])"
    using assms(2) by simp
  then show ?thesis unfolding tidy_def by blast
qed

lemma dots_no_slash [simp]: "slash \<notin> set ''..''" "slash \<notin> set ''.''"
  by (simp_all add: slash_def)

lemma tidy_no_slash:
  assumes "tidy r es" "e \<in> set es"
  shows "slash \<notin> set e"
proof -
  obtain k fs where "es = replicate k ''..'' @ fs" "list_all plain_element fs"
    using assms(1) unfolding tidy_def by blast
  then have "e = ''..'' \<or> plain_element e" using assms(2) by (auto simp: list_all_iff split: if_splits)
  then show ?thesis using dots_no_slash(1) unfolding plain_element_def by blast
qed

lemma tidy_clean_elements:
  "\<forall>e \<in> set es. slash \<notin> set e \<Longrightarrow> tidy r (rev st) \<Longrightarrow> tidy r (clean_elements r st es)"
proof (induction es arbitrary: st)
  case (Cons e es)
  obtain k fs where st: "rev st = replicate k ''..'' @ fs" "r \<longrightarrow> k = 0" "list_all plain_element fs"
    using Cons.prems(2) unfolding tidy_def by blast
  consider "e = [] \<or> e = ''.''" | "e = ''..''" "fs = []" | "e = ''..''" "fs \<noteq> []" | "plain_element e"
    using Cons.prems(1) by (auto simp: plain_element_def)
  then show ?case
  proof cases
    case 2
    then have "st = replicate k ''..''" using st(1) by (metis append_Nil2 rev_replicate rev_rev_ident)
    moreover have "tidy r (rev (if r then [] else ''..'' # replicate k ''..''))"
      using st(2) by (auto simp: tidy_def replicate_append_same intro!: exI [of _ "Suc k"])
    ultimately show ?thesis using 2 Cons st(2) by (cases k) (auto split: if_splits)
  next
    case 3
    then obtain gs g where g: "fs = gs @ [g]" by (meson rev_exhaust)
    then have "st = g # rev (replicate k ''..'' @ gs)" using st(1) by (metis append.assoc rev.simps(2) rev_rev_ident rev_append append_Cons append_Nil rev_singleton_conv)
    moreover have "tidy r (replicate k ''..'' @ gs)" "g \<noteq> ''..''" using st g by (auto simp: tidy_def plain_element_def)
    ultimately show ?thesis using 3 Cons by auto
  qed (use Cons tidy_snoc [of r "rev st" e] in \<open>auto simp: plain_element_def\<close>)
qed simp

lemma tidy_Nil [simp]: "tidy r []"
  by (auto simp: tidy_def)

lemma elements_join [simp]: "elements (p @ slash # q) = elements p @ elements q"
  by (induction p) (auto split: list.splits)

lemma clean_elements_snoc: "plain_element e \<Longrightarrow> clean_elements r st (es @ [e]) = clean_elements r st es @ [e]"
  by (induction es arbitrary: st) (auto simp: plain_element_def split: list.splits)

lemma clean_elements_end [simp]: "clean_elements r st (es @ [[]]) = clean_elements r st es"
  by (induction es arbitrary: st) (auto split: list.splits)

definition clean_list :: "string \<Rightarrow> string list" where
  "clean_list p = clean_elements (rooted p) [] (elements p)"

lemma tidy_clean_list: "tidy (rooted p) (clean_list p)"
  unfolding clean_list_def by (rule tidy_clean_elements) (auto simp: elements_no_slash tidy_def)

lemma Clean_list: "p \<noteq> [] \<Longrightarrow> Clean p = path_of (rooted p) (clean_list p)"
  by (simp add: Clean_def clean_list_def)

lemma unite_not_rooted:
  assumes "tidy r es" "es \<noteq> []"
  shows "unite es \<noteq> [] \<and> \<not> rooted (unite es)"
proof -
  obtain e fs where es: "es = e # fs" using assms(2) by (cases es) auto
  have "e \<noteq> []" using assms(1) by (auto simp: es tidy_def plain_element_def Cons_eq_append_conv Cons_replicate_eq)
  then show ?thesis using tidy_no_slash [OF assms(1), of e] by (cases fs; cases e) (auto simp: es rooted_def)
qed

lemma path_of_tidy:
  assumes "tidy r es"
  shows "path_of r es \<noteq> []" "rooted (path_of r es) = r" "clean_list (path_of r es) = es"
proof -
  have e: "elements (unite es) = (if es = [] then [[]] else es)"
    using tidy_no_slash [OF assms] by (intro elements_unite) blast
  have dot: "rooted ''.'' = False" by (simp add: rooted_def slash_def)
  show 1: "path_of r es \<noteq> []" "rooted (path_of r es) = r"
    using unite_not_rooted [OF assms] by (auto simp: path_of_def dot, auto simp: rooted_def)
  have "clean_elements r [] (elements (path_of r es)) = es"
    using clean_elements_tidy [OF assms] e by (auto simp: path_of_def)
  then show "clean_list (path_of r es) = es" by (simp add: clean_list_def 1)
qed

lemma Clean_path_of: "tidy r es \<Longrightarrow> Clean (path_of r es) = path_of r es"
  using path_of_tidy [of r es] by (simp add: Clean_list)

theorem Clean_idem: "Clean (Clean p) = Clean p"
  by (cases "p = []") (simp_all add: Clean_list Clean_path_of tidy_clean_list, code_simp)

text \<open>A plain name joined to a directory is an entry of that directory.\<close>

lemma Dir_Base_path_of:
  assumes "tidy r es" "plain_element n"
  shows "Dir (path_of r (es @ [n])) = path_of r es" "Base (path_of r (es @ [n])) = n"
proof -
  have n: "n \<noteq> []" "\<forall>c \<in> set (rev n). c \<noteq> slash" using assms(2) by (auto simp: plain_element_def)
  have drop: "rev (dropWhile (\<lambda>c. c \<noteq> slash) (rev (p @ n))) = rev (dropWhile (\<lambda>c. c \<noteq> slash) (rev p))" for p
    using n(2) by (subst rev_append, subst dropWhile_append2) auto
  have take: "takeWhile (\<lambda>c. c \<noteq> slash) (rev n @ slash # q) = rev n" "takeWhile (\<lambda>c. c \<noteq> slash) (rev n) = rev n" for q
    using n(2) by (simp_all add: takeWhile_append takeWhile_eq_all_conv)
  have skip: "dropWhile (\<lambda>c. c = slash) (rev n @ q) = rev n @ q" for q
    using n by (cases "rev n") auto
  have Nil: "path_of r [n] = (if r then slash # n else n)" by (simp add: path_of_def)
  have Cons: "path_of r (es @ [n]) = path_of r es @ slash # n" if "es \<noteq> []"
    using that by (simp add: path_of_def unite_append)
  show "Dir (path_of r (es @ [n])) = path_of r es"
  proof (cases "es = []")
    case True
    have "Clean [slash] = [slash]" "Clean [] = ''.''" by code_simp+
    moreover have d: "dropWhile (\<lambda>c. c \<noteq> slash) (rev n) = []" using n(2) by (simp only: dropWhile_eq_Nil_conv)
    ultimately show ?thesis using drop [of "[slash]"] unfolding True Nil Dir_def append_Nil
      by (cases r) (simp_all add: path_of_def d)
  next
    case False
    have "Dir (path_of r (es @ [n])) = Clean (path_of r es @ [slash])"
      using drop [of "path_of r es @ [slash]"] by (simp add: Cons [OF False] Dir_def)
    also have "\<dots> = path_of r es"
      using path_of_tidy [OF assms(1)] by (auto simp: Clean_def clean_list_def rooted_def split: list.splits)
    finally show ?thesis .
  qed
  have skip0: "dropWhile (\<lambda>c. c = slash) (rev n) = rev n" using skip [of "[]"] by simp
  show "Base (path_of r (es @ [n])) = n"
    by (cases "es = []") (simp_all add: Nil Cons Base_def Let_def skip skip0 take n(1))
qed

lemma Join_entry:
  assumes "d \<noteq> []" "plain_element n"
  shows "Join [d, n] = path_of (rooted d) (clean_list d @ [n])"
    and "Join [d, n @ [slash]] = path_of (rooted d) (clean_list d @ [n])"
proof -
  have n: "n \<noteq> []" "elements n = [n]" using assms(2) by (auto simp: plain_element_def)
  have r: "rooted (d @ q) = rooted d" for q using assms(1) by (cases d) (auto simp: rooted_def)
  show "Join [d, n] = path_of (rooted d) (clean_list d @ [n])"
    using assms(1) n by (simp add: Clean_def r clean_list_def clean_elements_snoc [OF assms(2)])
  show "Join [d, n @ [slash]] = path_of (rooted d) (clean_list d @ [n])"
    using assms(1) clean_elements_end [of "rooted d" "[]" "elements d @ [n]"]
    by (simp add: Clean_def r clean_list_def clean_elements_snoc [OF assms(2)] n(2) del: clean_elements_end)
qed

lemma Base_no_slash: "Base p = [slash] \<or> slash \<notin> set (Base p)"
proof -
  have "slash \<notin> set (rev (takeWhile (\<lambda>c. c \<noteq> slash) q))" for q by (auto dest: set_takeWhileD)
  then show ?thesis using dots_no_slash(2) unfolding Base_def Let_def by (simp split: if_split)
qed

lemma Base_self:
  assumes "p \<noteq> []" "slash \<notin> set p"
  shows "Base p = p"
proof -
  obtain c q where q: "rev p = c # q" using assms(1) by (cases "rev p") auto
  then have "c \<in> set p" by (metis list.set_intros(1) set_rev)
  then have "dropWhile (\<lambda>c. c = slash) (rev p) = rev p" using assms(2) by (auto simp: q)
  moreover have "takeWhile (\<lambda>c. c \<noteq> slash) (rev p) = rev p" using assms(2) by (auto simp: takeWhile_eq_all_conv)
  ultimately show ?thesis using assms(1) by (simp only: Base_def Let_def rev_rev_ident if_False)
qed

end
