(* ===== verification/Session_Store.thy ===== *)
theory Session_Store
  imports Sessions
begin

text \<open>
  The interface \<open>Store\<close> of \<open>sessions/store.go\<close> as a locale: what the registry and a handler rely on, whichever store
  keeps the sessions, and what follows from it for a program that uses sessions and flash messages. The cookie store
  is the first instance; \<open>File_Store\<close> and \<open>Mem_Store\<close> provide the others.
\<close>

section \<open>The interface\<close>

text \<open>
  \<open>'e\<close> is the store with its surroundings (keys, random numbers, options), \<open>'w\<close> what it keeps on the server.
  \<open>ready e w t\<close>: a session can be saved at time \<open>t\<close>; \<open>lasting e s\<close>: the options of \<open>s\<close> ask to keep it;
  \<open>fresh e t now\<close>: what was saved at \<open>t\<close> is not too old at \<open>now\<close>; \<open>view\<close>: values as the encoding transmits them.
\<close>

locale session_store =
  fixes store :: "'e \<Rightarrow> 'st"
    and new :: "'e \<Rightarrow> 'w \<Rightarrow> int \<Rightarrow> (string \<times> string) list \<Rightarrow> string \<Rightarrow> ('v, 'st) Session \<times> cerr option"
    and save :: "'e \<Rightarrow> 'w \<Rightarrow> int \<Rightarrow> ('v, 'st) Session \<Rightarrow> cerr option \<times> ('v, 'st) Session \<times> 'w \<times> Cookie list"
    and ready :: "'e \<Rightarrow> 'w \<Rightarrow> int \<Rightarrow> bool"
    and lasting :: "'e \<Rightarrow> ('v, 'st) Session \<Rightarrow> bool"
    and fresh :: "'e \<Rightarrow> int \<Rightarrow> int \<Rightarrow> bool"
    and view :: "'e \<Rightarrow> 'v svalues \<Rightarrow> 'v svalues"
  assumes opened_new: "request_cookie cookies name = None \<Longrightarrow>
      \<exists>s. new e w now cookies name = (s, None) \<and> ss_IsNew s \<and> ss_Values s = Map.empty \<and> ss_name s = name"
    and saved: "ready e w t \<Longrightarrow> lasting e session \<Longrightarrow> save e w t session = (None, session', w', cs) \<Longrightarrow>
      \<exists>c. cs = [c] \<and> ck_Name c = ss_name session \<and> ss_Values session' = ss_Values session"
    and reopened: "ready e w t \<Longrightarrow> lasting e session \<Longrightarrow> save e w t session = (None, session', w', [c]) \<Longrightarrow> fresh e t now \<Longrightarrow>
      request_cookie cookies (ss_name session) = Some (ck_Value c) \<Longrightarrow>
      \<exists>s. new e w' now cookies (ss_name session) = (s, None) \<and> \<not> ss_IsNew s \<and> ss_Values s = view e (ss_Values session)
        \<and> ss_name s = ss_name session"
begin

text \<open>A request that carries the cookie of a saved session gets its values from the registry.\<close>

lemma Get_saved:
  assumes "ready e w t" "lasting e session" "save e w t session = (None, session', w', [c])" "fresh e t now"
    and "request_cookie cookies (ss_name session) = Some (ck_Value c)" "isCookieNameValid (ss_name session)"
  obtains s reg where
    "Registry_Get (\<lambda>_. new e w' now cookies) (store e) (ss_name session) [] = ((Some s, None), reg)"
    "\<not> ss_IsNew s" "ss_Values s = view e (ss_Values session)" "ss_name s = ss_name session" "ss_store s = Some (store e)"
proof -
  obtain s where "new e w' now cookies (ss_name session) = (s, None)" "\<not> ss_IsNew s"
    "ss_Values s = view e (ss_Values session)" "ss_name s = ss_name session"
    using reopened [OF assms(1-5)] by blast
  then show thesis
    using that [of "s\<lparr>ss_name := ss_name session, ss_store := Some (store e)\<rparr>"] assms(6) by (simp add: Registry_Get_def Let_def)
qed

text \<open>
  A flash message written before a save is read once: the next request finds it, and when that request saves the
  session, the request after it does not.
\<close>

lemma flash_once:
  assumes added: "AddFlash msg vars s0 = (Ret (), session)" and none: "ss_Values s0 (flash_key vars) = None"
    and first: "ready e w t" "lasting e session" "save e w t session = (None, session', w1, [c1])" "fresh e t t1"
      "request_cookie cookies1 (ss_name session) = Some (ck_Value c1)"
    and view: "view e (ss_Values session) = ss_Values session"
      "view e ((ss_Values session)(flash_key vars := None)) = (ss_Values session)(flash_key vars := None)"
    and got: "new e w1 t1 cookies1 (ss_name session) = (s1, None)" "Flashes vars s1 = (r, s2)"
    and second: "ready e w1 t1" "lasting e s2" "save e w1 t1 s2 = (None, s2', w2, [c2])" "fresh e t1 t2"
      "request_cookie cookies2 (ss_name session) = Some (ck_Value c2)"
  shows "r = Ret [msg] \<and> (\<exists>s3. new e w2 t2 cookies2 (ss_name session) = (s3, None) \<and> Flashes vars s3 = (Ret [], s3))"
proof -
  have vals: "ss_Values session = (ss_Values s0)(flash_key vars \<mapsto> Flash [msg])"
    using added none by (auto simp: AddFlash_def reads_def update_def ret_def)
  have s1: "ss_Values s1 = ss_Values session" "ss_name s1 = ss_name session"
    using reopened [OF first] got(1) view(1) by auto
  then have r: "r = Ret [msg]" "ss_Values s2 = (ss_Values session)(flash_key vars := None)" "ss_name s2 = ss_name session"
    using got(2) vals by (auto simp: Flashes_def reads_def update_def ret_def)
  obtain s3 where "new e w2 t2 cookies2 (ss_name s2) = (s3, None)" "ss_Values s3 = view e (ss_Values s2)"
    using reopened [OF second(1-4)] second(5) r(3) by auto
  then show ?thesis using r view(2) by (auto simp: Flashes_def reads_def ret_def)
qed

end

section \<open>The cookie store\<close>

record 'v cookie_env =
  ce_crypto :: "'v svalues crypto"
  ce_rnd :: "string option"
  ce_store :: CookieStore

text \<open>The store of the server: one codec.\<close>

definition one_codec :: "CookieStore \<Rightarrow> bool" where
  "one_codec s \<longleftrightarrow> (\<exists>age hk bk. s = CookieStore_MaxAge age (NewCookieStore [hk, bk]))"

definition cookie_new :: "'v cookie_env \<Rightarrow> unit \<Rightarrow> int \<Rightarrow> (string \<times> string) list \<Rightarrow> string \<Rightarrow> ('v, CookieStore) Session \<times> cerr option" where
  "cookie_new e w now = CookieStore_New (ce_crypto e) now (ce_store e)"

definition cookie_save ::
  "'v cookie_env \<Rightarrow> unit \<Rightarrow> int \<Rightarrow> ('v, CookieStore) Session \<Rightarrow> cerr option \<times> ('v, CookieStore) Session \<times> unit \<times> Cookie list"
where
  "cookie_save e w now session = (case CookieStore_Save (ce_crypto e) (ce_rnd e) now (ce_store e) [] session of
     Inl err \<Rightarrow> (Some err, session, (), []) | Inr cs \<Rightarrow> (None, session, (), cs))"

definition cookie_ready :: "'v cookie_env \<Rightarrow> unit \<Rightarrow> int \<Rightarrow> bool" where
  "cookie_ready e w t \<longleftrightarrow> crypto_ok (ce_crypto e) \<and> rnd_ok (ce_rnd e) \<and> int64 t \<and> one_codec (ce_store e)"

text \<open>The age limit of the store's codec, 0 for none.\<close>

definition young :: "int \<Rightarrow> int \<Rightarrow> int \<Rightarrow> bool" where
  "young age t now \<longleftrightarrow> age = 0 \<or> wrap64 (now - age) \<le> t"

definition cookie_fresh :: "'v cookie_env \<Rightarrow> int \<Rightarrow> int \<Rightarrow> bool" where
  "cookie_fresh e = young (so_MaxAge (cs_Options (ce_store e)))"

lemma store_age [simp]: "so_MaxAge (cs_Options (CookieStore_MaxAge age s)) = age"
  by (simp add: CookieStore_MaxAge_def)

lemma CookieStore_New_name [simp]: "ss_name (fst (CookieStore_New E now s cookies name)) = name"
  by (auto simp: CookieStore_New_def NewSession_def Let_def split: option.splits sum.splits)

interpretation cookies: session_store ce_store cookie_new cookie_save cookie_ready "\<lambda>_ _. True" cookie_fresh "\<lambda>e. gob_view (ce_crypto e)"
proof (unfold_locales, goal_cases)
  case 1
  then show ?case by (simp add: cookie_new_def CookieStore_New_def NewSession_def Let_def)
next
  case 2
  then show ?case by (auto simp: cookie_save_def CookieStore_Save_def bind_err_def split: sum.splits)
next
  case (3 e w t session session' w' c now cookies)
  then obtain age hk bk where st: "ce_store e = CookieStore_MaxAge age (NewCookieStore [hk, bk])"
    unfolding cookie_ready_def one_codec_def by blast
  have save: "CookieStore_Save (ce_crypto e) (ce_rnd e) t (ce_store e) [] session = Inr [c]"
    using 3(3) by (auto simp: cookie_save_def split: sum.splits)
  have fresh: "age = 0 \<or> wrap64 (now - age) \<le> t" using 3(4) st by (simp add: cookie_fresh_def young_def)
  have ok: "crypto_ok (ce_crypto e)" "rnd_ok (ce_rnd e)" "int64 t" using 3(1) by (simp_all add: cookie_ready_def)
  obtain v where v: "[c] = [] @ [NewCookie t (ss_name session) v (ss_Options session)]"
    and new: "\<And>now cookies. request_cookie cookies (ss_name session) = Some v \<Longrightarrow>
      \<exists>err. CookieStore_New (ce_crypto e) now (ce_store e) cookies (ss_name session) =
        (let s = (NewSession (ce_store e) (ss_name session))\<lparr>ss_Options := cs_Options (ce_store e), ss_IsNew := True\<rparr> in
         if age = 0 \<or> wrap64 (now - age) \<le> t then (s\<lparr>ss_Values := gob_view (ce_crypto e) (ss_Values session), ss_IsNew := False\<rparr>, None)
         else (s, Some err))"
    using CookieStore_New_after_Save [OF ok st save] by blast
  show ?case using new [of cookies now] 3(5) v fresh by (auto simp: cookie_new_def NewSession_def Let_def)
qed

end
