(* ===== verification/File_Store.thy ===== *)
theory File_Store
  imports Session_Store Paths
begin

text \<open>
  The \<open>FilesystemStore\<close> of \<open>sessions/store.go\<close>: the values of a session are sealed in a file of the store's
  directory, and the cookie carries the sealed identifier of the session. The file system is a map from names to
  contents, with the faults the operating system reports at the moment; the lock \<open>fileMutex\<close> makes each access to a
  file one step.
\<close>

section \<open>Identifiers\<close>

text \<open>\<open>encoding/base32\<close> without padding: groups of five bits, the last one filled with zeroes.\<close>

definition base32_alphabet :: string where
  "base32_alphabet = ''ABCDEFGHIJKLMNOPQRSTUVWXYZ234567''"

definition bits_of :: "string \<Rightarrow> bool list" where
  "bits_of s = concat (map (\<lambda>c. map (\<lambda>i. odd (byte c div 2 ^ i)) [7, 6, 5, 4, 3, 2, 1, 0]) s)"

definition quintet :: "bool list \<Rightarrow> char" where
  "quintet bs = base32_alphabet ! foldl (\<lambda>n b. 2 * n + (if b then 1 else 0)) 0 bs"

fun quintets :: "bool list \<Rightarrow> string" where
  "quintets [] = []"
| "quintets (a # b # c # d # e # bs) = quintet [a, b, c, d, e] # quintets bs"
| "quintets bs = [quintet (take 5 (bs @ replicate 4 False))]"

definition base32RawStdEncoding :: "string \<Rightarrow> string" where
  "base32RawStdEncoding b = quintets (bits_of b)"

section \<open>The file system\<close>

text \<open>A failed write leaves some content, or no file; \<open>os.Remove\<close> of a missing file answers \<open>os.ErrNotExist\<close>.\<close>

record disk =
  files :: "string \<Rightarrow> string option"
  read_fault :: "string \<Rightarrow> string option"
  write_fault :: "string \<Rightarrow> (string \<times> string option) option"
  remove_fault :: "string \<Rightarrow> string option"

datatype os_error = ErrNotExist string | OsError string

fun os_text :: "os_error \<Rightarrow> cerr" where
  "os_text (ErrNotExist n) = PlainError (n @ '': no such file or directory'')"
| "os_text (OsError m) = PlainError m"

definition IsNotExist :: "os_error \<Rightarrow> bool" where
  "IsNotExist e \<longleftrightarrow> (case e of ErrNotExist _ \<Rightarrow> True | OsError _ \<Rightarrow> False)"

definition ReadFile :: "string \<Rightarrow> disk \<Rightarrow> os_error + string" where
  "ReadFile n d = (case read_fault d n of Some m \<Rightarrow> Inl (OsError m) | None \<Rightarrow>
     (case files d n of None \<Rightarrow> Inl (ErrNotExist n) | Some b \<Rightarrow> Inr b))"

definition WriteFile :: "string \<Rightarrow> string \<Rightarrow> disk \<Rightarrow> os_error option \<times> disk" where
  "WriteFile n b d = (case write_fault d n of
       Some (m, left) \<Rightarrow> (Some (OsError m), d\<lparr>files := (files d)(n := left)\<rparr>)
     | None \<Rightarrow> (None, d\<lparr>files := (files d)(n \<mapsto> b)\<rparr>))"

definition Remove :: "string \<Rightarrow> disk \<Rightarrow> os_error option \<times> disk" where
  "Remove n d = (case remove_fault d n of Some m \<Rightarrow> (Some (OsError m), d) | None \<Rightarrow>
     (case files d n of None \<Rightarrow> (Some (ErrNotExist n), d) | Some _ \<Rightarrow> (None, d\<lparr>files := (files d)(n := None)\<rparr>)))"

section \<open>The store\<close>

definition sessionFilePrefix :: string where
  "sessionFilePrefix = ''session_''"

record FilesystemStore =
  fs_Codecs :: "SecureCookie list"
  fs_Options :: Options
  fs_path :: string

definition FilesystemStore_MaxLength :: "int \<Rightarrow> FilesystemStore \<Rightarrow> FilesystemStore" where
  "FilesystemStore_MaxLength l s = s\<lparr>fs_Codecs := map (MaxLength l) (fs_Codecs s)\<rparr>"

definition FilesystemStore_MaxAge :: "int \<Rightarrow> FilesystemStore \<Rightarrow> FilesystemStore" where
  "FilesystemStore_MaxAge age s = s\<lparr>fs_Options := (fs_Options s)\<lparr>so_MaxAge := age\<rparr>, fs_Codecs := map (MaxAge age) (fs_Codecs s)\<rparr>"

text \<open>\<open>temp\<close> is \<open>os.TempDir()\<close>.\<close>

definition NewFilesystemStore :: "string \<Rightarrow> string \<Rightarrow> string option list \<Rightarrow> FilesystemStore" where
  "NewFilesystemStore temp path keyPairs = FilesystemStore_MaxAge (86400 * 30)
     \<lparr>fs_Codecs = CodecsFromPairs keyPairs, fs_Options = no_options\<lparr>so_Path := ''/'', so_MaxAge := 86400 * 30\<rparr>,
      fs_path = (if path = [] then temp else path)\<rparr>"

text \<open>
  The encoders for the two types of values that are sealed, and what \<open>GenerateRandomKey\<close> answers: for the
  identifier and for the two encryptions.
\<close>

record 'v file_env =
  fe_vals :: "'v svalues crypto"
  fe_ids :: "string crypto"
  fe_key :: "string option"
  fe_rnd_vals :: "string option"
  fe_rnd_id :: "string option"
  fe_store :: FilesystemStore

definition session_file :: "FilesystemStore \<Rightarrow> string \<Rightarrow> string" where
  "session_file s sid = Join [fs_path s, sessionFilePrefix @ Base sid]"

definition save_file ::
  "'v file_env \<Rightarrow> int \<Rightarrow> FilesystemStore \<Rightarrow> ('v, FilesystemStore) Session \<Rightarrow> disk \<Rightarrow> cerr option \<times> disk"
where
  "save_file E now s session d = (case EncodeMulti (fe_vals E) (fe_rnd_vals E) now (ss_name session) (ss_Values session) (fs_Codecs s) of
     Inl e \<Rightarrow> (Some e, d)
   | Inr encoded \<Rightarrow> (case WriteFile (session_file s (ss_ID session)) encoded d of (e, d') \<Rightarrow> (map_option os_text e, d')))"

definition load_file ::
  "'v file_env \<Rightarrow> int \<Rightarrow> FilesystemStore \<Rightarrow> ('v, FilesystemStore) Session \<Rightarrow> disk \<Rightarrow> cerr + 'v svalues"
where
  "load_file E now s session d = (case ReadFile (Clean (session_file s (ss_ID session))) d of
     Inl e \<Rightarrow> Inl (os_text e)
   | Inr fdata \<Rightarrow> DecodeMulti (fe_vals E) now (ss_name session) fdata (fs_Codecs s))"

definition erase_file :: "FilesystemStore \<Rightarrow> ('v, FilesystemStore) Session \<Rightarrow> disk \<Rightarrow> os_error option \<times> disk" where
  "erase_file s session d = Remove (session_file s (ss_ID session)) d"

definition FilesystemStore_New ::
  "'v file_env \<Rightarrow> int \<Rightarrow> FilesystemStore \<Rightarrow> (string \<times> string) list \<Rightarrow> string \<Rightarrow> disk \<Rightarrow> ('v, FilesystemStore) Session \<times> cerr option"
where
  "FilesystemStore_New E now s cookies name d =
     (let session = (NewSession s name)\<lparr>ss_Options := fs_Options s, ss_IsNew := True\<rparr> in
      case request_cookie cookies name of
        None \<Rightarrow> (session, None)
      | Some c \<Rightarrow> (case DecodeMulti (fe_ids E) now name c (fs_Codecs s) of
          Inl e \<Rightarrow> (session, Some e)
        | Inr sid \<Rightarrow> (let session = session\<lparr>ss_ID := sid\<rparr> in
            case load_file E now s session d of
              Inl e \<Rightarrow> (session, Some e)
            | Inr vals \<Rightarrow> (session\<lparr>ss_Values := vals, ss_IsNew := False\<rparr>, None))))"

definition FilesystemStore_Get ::
  "'v file_env \<Rightarrow> int \<Rightarrow> FilesystemStore \<Rightarrow> (string \<times> string) list \<Rightarrow> string \<Rightarrow> disk \<Rightarrow> ('v, FilesystemStore) Registry
     \<Rightarrow> (('v, FilesystemStore) Session option \<times> cerr option) \<times> ('v, FilesystemStore) Registry"
where
  "FilesystemStore_Get E now s cookies name d = Registry_Get (\<lambda>s name. FilesystemStore_New E now s cookies name d) s name"

text \<open>The answer: the error, the session with the identifier it got, the file system, the cookies of the response.\<close>

definition FilesystemStore_Save ::
  "'v file_env \<Rightarrow> int \<Rightarrow> FilesystemStore \<Rightarrow> Cookie list \<Rightarrow> ('v, FilesystemStore) Session \<Rightarrow> disk
     \<Rightarrow> cerr option \<times> ('v, FilesystemStore) Session \<times> disk \<times> Cookie list"
where
  "FilesystemStore_Save E now s w session d =
     (if so_MaxAge (ss_Options session) \<le> 0 then
        (case erase_file s session d of (e, d') \<Rightarrow>
           (case e of
              Some err \<Rightarrow> if IsNotExist err then (None, session, d', w @ [NewCookie now (ss_name session) [] (ss_Options session)])
                else (Some (os_text err), session, d', w)
            | None \<Rightarrow> (None, session, d', w @ [NewCookie now (ss_name session) [] (ss_Options session)])))
      else
        let session = (if ss_ID session = [] then session\<lparr>ss_ID := base32RawStdEncoding (case fe_key E of None \<Rightarrow> [] | Some k \<Rightarrow> k)\<rparr> else session) in
        (case save_file E now s session d of
           (Some e, d') \<Rightarrow> (Some e, session, d', w)
         | (None, d') \<Rightarrow> (case EncodeMulti (fe_ids E) (fe_rnd_id E) now (ss_name session) (ss_ID session) (fs_Codecs s) of
             Inl e \<Rightarrow> (Some e, session, d', w)
           | Inr encoded \<Rightarrow> (None, session, d', w @ [NewCookie now (ss_name session) encoded (ss_Options session)]))))"

section \<open>The files of a store\<close>

lemma session_name_plain: "slash \<notin> set x \<Longrightarrow> plain_element (sessionFilePrefix @ x)"
  by (simp add: plain_element_def sessionFilePrefix_def slash_def)

text \<open>Whatever the identifier, its file is an entry of the directory of the store, with the prefix in its name.\<close>

lemma session_file_entry:
  assumes "fs_path s \<noteq> []"
  obtains x where "plain_element (sessionFilePrefix @ x)" "Base sid = x \<or> x = []"
    "session_file s sid = path_of (rooted (fs_path s)) (clean_list (fs_path s) @ [sessionFilePrefix @ x])"
proof (cases "slash \<in> set (Base sid)")
  case True
  then have "Base sid = [slash]" using Base_no_slash by blast
  then show ?thesis using that [of "[]"] session_name_plain [of "[]"] Join_entry(2) [OF assms, of sessionFilePrefix]
    by (simp add: session_file_def)
next
  case False
  then show ?thesis using that [of "Base sid"] session_name_plain Join_entry(1) [OF assms] by (simp add: session_file_def)
qed

definition of_store :: "FilesystemStore \<Rightarrow> string \<Rightarrow> bool" where
  "of_store s n \<longleftrightarrow> Dir n = Clean (fs_path s) \<and> Clean n = n \<and> (\<exists>x. Base n = sessionFilePrefix @ x)"

lemma session_file_of_store:
  assumes "fs_path s \<noteq> []"
  shows "of_store s (session_file s sid)"
  by (rule session_file_entry [OF assms, of sid])
    (auto simp: of_store_def Dir_Base_path_of Clean_list [OF assms] Clean_path_of tidy_clean_list tidy_snoc)

lemma Clean_session_file: "fs_path s \<noteq> [] \<Longrightarrow> Clean (session_file s sid) = session_file s sid"
  using session_file_of_store by (simp add: of_store_def)

lemma session_file_inject:
  assumes "fs_path s \<noteq> []" "sid1 \<noteq> []" "slash \<notin> set sid1" "sid2 \<noteq> []" "slash \<notin> set sid2"
  shows "session_file s sid1 = session_file s sid2 \<longleftrightarrow> sid1 = sid2"
  by (metis assms Base_self Dir_Base_path_of(2) Join_entry(1) same_append_eq session_file_def session_name_plain tidy_clean_list)

lemma save_file_files:
  "save_file E now s session d = (e, d') \<Longrightarrow> n \<noteq> session_file s (ss_ID session) \<Longrightarrow> files d' n = files d n"
  by (auto simp: save_file_def WriteFile_def split: sum.splits option.splits prod.splits)

lemma erase_file_files:
  "erase_file s session d = (e, d') \<Longrightarrow> n \<noteq> session_file s (ss_ID session) \<Longrightarrow> files d' n = files d n"
  by (auto simp: erase_file_def Remove_def split: option.splits)

lemma FilesystemStore_Save_files:
  "FilesystemStore_Save E now s w session d = (e, session', d', w') \<Longrightarrow> n \<noteq> session_file s (ss_ID session') \<Longrightarrow> files d' n = files d n"
  by (auto simp: FilesystemStore_Save_def Let_def dest: save_file_files erase_file_files
      split: if_splits prod.splits option.splits sum.splits)

lemma load_file_local:
  assumes "fs_path s \<noteq> []" "files d (session_file s (ss_ID session)) = files d2 (session_file s (ss_ID session))"
    "read_fault d (session_file s (ss_ID session)) = read_fault d2 (session_file s (ss_ID session))"
  shows "load_file E now s session d = load_file E now s session d2"
  using assms(2,3) by (simp add: load_file_def ReadFile_def Clean_session_file [OF assms(1)] cong: sum.case_cong option.case_cong)

lemma FilesystemStore_New_local:
  assumes "fs_path s \<noteq> []" "\<And>n. of_store s n \<Longrightarrow> files d n = files d2 n \<and> read_fault d n = read_fault d2 n"
  shows "FilesystemStore_New E now s cookies name d = FilesystemStore_New E now s cookies name d2"
proof -
  have "load_file E now s session d = load_file E now s session d2" for session
    using assms session_file_of_store by (intro load_file_local) auto
  note load = this
  show ?thesis unfolding FilesystemStore_New_def load by (rule refl)
qed

section \<open>What a save leaves behind\<close>

text \<open>A store with one codec, and the documented behaviour of the two encoders: gob transmits a string as it is.\<close>

definition file_keys :: "'v file_env \<Rightarrow> bool" where
  "file_keys E \<longleftrightarrow> crypto_ok (fe_vals E) \<and> crypto_ok (fe_ids E) \<and> (\<forall>i. gob_view (fe_ids E) i = i)
     \<and> rnd_ok (fe_rnd_vals E) \<and> rnd_ok (fe_rnd_id E)"

definition one_file_codec :: "FilesystemStore \<Rightarrow> bool" where
  "one_file_codec s \<longleftrightarrow> fs_path s \<noteq> []
     \<and> (\<exists>hk bk n. fs_Codecs s = [MaxLength n (MaxAge (so_MaxAge (fs_Options s)) (NewSecureCookie hk bk))])"

lemma MaxLength_fields [simp]:
  "sz (MaxLength n c) = sz c" "minAge (MaxLength n c) = minAge c" "maxAge (MaxLength n c) = maxAge c"
  by (simp_all add: MaxLength_def)

lemma one_codec_decodes:
  assumes "crypto_ok C" "rnd_ok rnd" "int64 t" "one_file_codec s"
    and "EncodeMulti C rnd t name v (fs_Codecs s) = Inr b" "young (so_MaxAge (fs_Options s)) t now"
  shows "DecodeMulti C now name b (fs_Codecs s) = Inr (gob_view C v)"
proof -
  obtain hk bk n where c: "fs_Codecs s = [MaxLength n (MaxAge (so_MaxAge (fs_Options s)) (NewSecureCookie hk bk))]" (is "_ = [?c]")
    using assms(4) unfolding one_file_codec_def by blast
  have "in_window ?c now t" using assms(6) by (auto simp: in_window_def young_def)
  then show ?thesis using Decode_of_Encode(1) [OF assms(1) _ assms(2,3), of ?c] assms(5) by (simp add: c Multi_single)
qed

text \<open>The identifier a session is saved under.\<close>

definition saved_id :: "'v file_env \<Rightarrow> ('v, FilesystemStore) Session \<Rightarrow> string" where
  "saved_id E session = (if ss_ID session = [] then base32RawStdEncoding (case fe_key E of None \<Rightarrow> [] | Some k \<Rightarrow> k) else ss_ID session)"

lemma FilesystemStore_Save_lasting:
  assumes "FilesystemStore_Save E t s w session d = (None, session', d', w')" "so_MaxAge (ss_Options session) > 0"
  obtains b c where "EncodeMulti (fe_vals E) (fe_rnd_vals E) t (ss_name session) (ss_Values session) (fs_Codecs s) = Inr b"
    "EncodeMulti (fe_ids E) (fe_rnd_id E) t (ss_name session) (saved_id E session) (fs_Codecs s) = Inr c"
    "d' = d\<lparr>files := (files d)(session_file s (saved_id E session) \<mapsto> b)\<rparr>" "session' = session\<lparr>ss_ID := saved_id E session\<rparr>"
    "w' = w @ [NewCookie t (ss_name session) c (ss_Options session)]"
proof -
  let ?s = "session\<lparr>ss_ID := saved_id E session\<rparr>"
  have id: "(if ss_ID session = [] then session\<lparr>ss_ID := base32RawStdEncoding (case fe_key E of None \<Rightarrow> [] | Some k \<Rightarrow> k)\<rparr>
      else session) = ?s"
    by (simp add: saved_id_def)
  have "\<not> so_MaxAge (ss_Options session) \<le> 0" using assms(2) by simp
  then show ?thesis using assms(1) that unfolding FilesystemStore_Save_def id Let_def if_not_P
    by (auto simp: save_file_def WriteFile_def split: prod.splits option.splits sum.splits)
qed

lemma FilesystemStore_New_saved:
  assumes "file_keys E" "one_file_codec s" "int64 t" "int64 t'"
    and "EncodeMulti (fe_vals E) rv t name vals (fs_Codecs s) = Inr b" "rnd_ok rv" "files d (session_file s sid) = Some b"
    and "EncodeMulti (fe_ids E) ri t' name sid (fs_Codecs s) = Inr c" "rnd_ok ri" "request_cookie cookies name = Some c"
    and "young (so_MaxAge (fs_Options s)) t now" "young (so_MaxAge (fs_Options s)) t' now" "read_fault d (session_file s sid) = None"
  shows "FilesystemStore_New E now s cookies name d = ((NewSession s name)\<lparr>ss_Options := fs_Options s,
    ss_ID := sid, ss_Values := gob_view (fe_vals E) vals, ss_IsNew := False\<rparr>, None)"
proof -
  have k: "crypto_ok (fe_vals E)" "crypto_ok (fe_ids E)" "gob_view (fe_ids E) sid = sid"
    using assms(1) by (auto simp: file_keys_def)
  have p: "fs_path s \<noteq> []" using assms(2) by (simp add: one_file_codec_def)
  have "DecodeMulti (fe_ids E) now name c (fs_Codecs s) = Inr sid"
    using one_codec_decodes [OF k(2) assms(9,4,2,8,12)] k(3) by simp
  moreover have "DecodeMulti (fe_vals E) now name b (fs_Codecs s) = Inr (gob_view (fe_vals E) vals)"
    by (rule one_codec_decodes [OF k(1) assms(6,3,2,5,11)])
  ultimately show ?thesis using assms(7,10,13)
    by (simp add: FilesystemStore_New_def load_file_def ReadFile_def Clean_session_file [OF p] NewSession_def)
qed

section \<open>The interface\<close>

definition file_new ::
  "'v file_env \<Rightarrow> disk \<Rightarrow> int \<Rightarrow> (string \<times> string) list \<Rightarrow> string \<Rightarrow> ('v, FilesystemStore) Session \<times> cerr option"
where
  "file_new e d now cookies name = FilesystemStore_New e now (fe_store e) cookies name d"

definition file_save ::
  "'v file_env \<Rightarrow> disk \<Rightarrow> int \<Rightarrow> ('v, FilesystemStore) Session \<Rightarrow> cerr option \<times> ('v, FilesystemStore) Session \<times> disk \<times> Cookie list"
where
  "file_save e d now session = FilesystemStore_Save e now (fe_store e) [] session d"

definition file_ready :: "'v file_env \<Rightarrow> disk \<Rightarrow> int \<Rightarrow> bool" where
  "file_ready e d t \<longleftrightarrow> file_keys e \<and> one_file_codec (fe_store e) \<and> int64 t \<and> read_fault d = (\<lambda>_. None)"

definition file_lasting :: "'v file_env \<Rightarrow> ('v, FilesystemStore) Session \<Rightarrow> bool" where
  "file_lasting e session \<longleftrightarrow> so_MaxAge (ss_Options session) > 0"

definition file_fresh :: "'v file_env \<Rightarrow> int \<Rightarrow> int \<Rightarrow> bool" where
  "file_fresh e = young (so_MaxAge (fs_Options (fe_store e)))"

interpretation stored: session_store fe_store file_new file_save file_ready file_lasting file_fresh "\<lambda>e. gob_view (fe_vals e)"
proof (unfold_locales, goal_cases)
  case 1
  then show ?case by (simp add: file_new_def FilesystemStore_New_def NewSession_def)
next
  case (2 e d t session session' d' cs)
  show ?case
    by (rule FilesystemStore_Save_lasting [OF 2(3) [unfolded file_save_def] 2(2) [unfolded file_lasting_def]]) simp
next
  case (3 e d t session session' d' c now cookies)
  have r: "file_keys e" "one_file_codec (fe_store e)" "int64 t" "read_fault d = (\<lambda>_. None)" "rnd_ok (fe_rnd_vals e)" "rnd_ok (fe_rnd_id e)"
    using 3(1) by (simp_all add: file_ready_def file_keys_def)
  show ?case
  proof (rule FilesystemStore_Save_lasting [OF 3(3) [unfolded file_save_def] 3(2) [unfolded file_lasting_def]])
    fix b v
    assume a: "EncodeMulti (fe_vals e) (fe_rnd_vals e) t (ss_name session) (ss_Values session) (fs_Codecs (fe_store e)) = Inr b"
      "EncodeMulti (fe_ids e) (fe_rnd_id e) t (ss_name session) (saved_id e session) (fs_Codecs (fe_store e)) = Inr v"
      "d' = d\<lparr>files := (files d)(session_file (fe_store e) (saved_id e session) \<mapsto> b)\<rparr>"
      "[c] = [] @ [NewCookie t (ss_name session) v (ss_Options session)]"
    show ?case
      using FilesystemStore_New_saved [OF r(1-3,3) a(1) r(5) _ a(2) r(6), of d' cookies now] a(3,4) 3(4,5) r(4)
      by (auto simp: file_new_def file_fresh_def NewSession_def)
  qed
qed

section \<open>Many sessions\<close>

text \<open>Saves by any requests, one after the other; each has its own random numbers, time and session.\<close>

fun run_saves :: "FilesystemStore \<Rightarrow> ('v file_env \<times> int \<times> ('v, FilesystemStore) Session) list \<Rightarrow> disk \<Rightarrow> disk" where
  "run_saves s [] d = d"
| "run_saves s ((E, t, session) # xs) d = (case FilesystemStore_Save E t s [] session d of (_, _, d', _) \<Rightarrow> run_saves s xs d')"

definition touched_id :: "'v file_env \<Rightarrow> ('v, FilesystemStore) Session \<Rightarrow> string" where
  "touched_id E session = (if so_MaxAge (ss_Options session) \<le> 0 then ss_ID session else saved_id E session)"

lemma Save_touches:
  assumes "FilesystemStore_Save E t s w session d = (e, session', d', w')"
  shows "ss_ID session' = touched_id E session" "read_fault d' = read_fault d"
  using assms by (auto simp: FilesystemStore_Save_def touched_id_def saved_id_def Let_def save_file_def WriteFile_def
      erase_file_def Remove_def split: if_splits prod.splits option.splits sum.splits)

lemma run_saves_other:
  assumes "\<forall>(E, t, x) \<in> set xs. session_file s (touched_id E x) \<noteq> n"
  shows "files (run_saves s xs d) n = files d n \<and> read_fault (run_saves s xs d) = read_fault d"
  using assms
proof (induction xs arbitrary: d)
  case (Cons x xs)
  obtain E t y where x: "x = (E, t, y)" by (cases x)
  obtain e y' d' w' where run: "FilesystemStore_Save E t s [] y d = (e, y', d', w')" by (rule prod_cases4)
  have "session_file s (ss_ID y') \<noteq> n" using Cons.prems Save_touches(1) [OF run] by (auto simp: x)
  then show ?case using Cons FilesystemStore_Save_files [OF run, of n] Save_touches(2) [OF run] by (simp add: x run)
qed simp

section \<open>Fresh identifiers\<close>

definition valid_id :: "string \<Rightarrow> bool" where
  "valid_id i \<longleftrightarrow> i \<noteq> [] \<and> slash \<notin> set i"

definition unquintet :: "char \<Rightarrow> bool list" where
  "unquintet c = (let n = length (takeWhile (\<lambda>x. x \<noteq> c) base32_alphabet) in map (\<lambda>i. odd (n div 2 ^ i)) [4, 3, 2, 1, 0])"

lemma quintet_table: "list_all (\<lambda>bs. unquintet (quintet bs) = bs \<and> quintet bs \<noteq> slash \<and> quintet bs \<noteq> CHR ''='') (List.n_lists 5 [True, False])"
  by code_simp

lemma quintet_ok: "length bs = 5 \<Longrightarrow> unquintet (quintet bs) = bs \<and> quintet bs \<noteq> slash"
  and quintet_not_eq: "length bs = 5 \<Longrightarrow> quintet bs \<noteq> CHR ''=''"
proof -
  assume "length bs = 5"
  then have "bs \<in> set (List.n_lists 5 [True, False])" by (auto simp: set_n_lists)
  then show "unquintet (quintet bs) = bs \<and> quintet bs \<noteq> slash" "quintet bs \<noteq> CHR ''=''"
    using quintet_table by (simp_all add: list_all_iff)
qed

lemma quintets_same:
  "quintets as = quintets bs \<Longrightarrow> length as = length bs \<Longrightarrow> as = bs"
proof (induction as arbitrary: bs rule: quintets.induct)
  case (2 a b c d e as)
  then obtain a' b' c' d' e' bs' where bs: "bs = a' # b' # c' # d' # e' # bs'"
    by (auto simp: length_Suc_conv Suc_length_conv)
  have "unquintet (quintet [a, b, c, d, e]) = unquintet (quintet [a', b', c', d', e'])" using 2(2) bs by simp
  then show ?case using 2 bs quintet_ok [of "[a, b, c, d, e]"] quintet_ok [of "[a', b', c', d', e']"] by simp
qed (auto simp: length_Suc_conv Suc_length_conv numeral_eq_Suc dest!: arg_cong [where f = unquintet] simp: quintet_ok)

lemma quintets_valid: "slash \<notin> set (quintets bs) \<and> (bs \<noteq> [] \<longrightarrow> quintets bs \<noteq> [])"
  by (induction bs rule: quintets.induct) (auto simp: quintet_ok [THEN conjunct2, symmetric] numeral_eq_Suc)

lemma byte_bits:
  assumes "map (\<lambda>i. odd (byte a div 2 ^ i)) [7, 6, 5, 4, 3, 2, 1, 0] = map (\<lambda>i. odd (byte b div 2 ^ i)) [7, 6, 5, 4, 3, 2, 1, 0]"
  shows "a = b"
proof -
  have "bit (byte a) i = bit (byte b) i" for i
  proof (cases "i < 8")
    case True
    then have "i \<in> set [7, 6, 5, 4, 3, 2, 1, 0 :: nat]" by (auto simp: less_Suc_eq numeral_eq_Suc)
    then show ?thesis using assms unfolding map_eq_conv bit_iff_odd by blast
  next
    case False
    then have "(2 :: nat) ^ 8 \<le> 2 ^ i" by (intro power_increasing) auto
    then have "byte a < 2 ^ i" "byte b < 2 ^ i" using byte_less [of a] byte_less [of b] by auto
    then show ?thesis by (simp add: bit_iff_odd)
  qed
  then have "byte a = byte b" by (rule bit_eqI)
  then show ?thesis by (metis char_of_byte)
qed

lemma bits_of_Cons: "bits_of (a # s) = map (\<lambda>i. odd (byte a div 2 ^ i)) [7, 6, 5, 4, 3, 2, 1, 0] @ bits_of s"
  by (simp add: bits_of_def)

lemma length_bits_of: "length (bits_of s) = 8 * length s"
  by (induction s) (simp_all add: bits_of_Cons, simp add: bits_of_def)

lemma bits_of_inject: "bits_of a = bits_of b \<Longrightarrow> a = b"
proof (induction a arbitrary: b)
  case Nil
  then show ?case using length_bits_of [of b] by (simp add: bits_of_def)
next
  case (Cons c a)
  obtain c' b' where b: "b = c' # b'"
    using Cons.prems length_bits_of [of b] length_bits_of [of "c # a"] by (cases b) auto
  then show ?case using Cons.prems byte_bits [of c c'] Cons.IH [of b'] unfolding b bits_of_Cons by (simp del: map_eq_conv list.map)
qed

lemma fresh_id_valid: "k \<noteq> [] \<Longrightarrow> valid_id (base32RawStdEncoding k)"
  using quintets_valid [of "bits_of k"] length_bits_of [of k] by (auto simp: valid_id_def base32RawStdEncoding_def)

lemma fresh_ids_differ: "length a = length b \<Longrightarrow> base32RawStdEncoding a = base32RawStdEncoding b \<longleftrightarrow> a = b"
  using quintets_same [of "bits_of a" "bits_of b"] bits_of_inject [of a b] by (auto simp: base32RawStdEncoding_def length_bits_of)

lemma valid_files: "fs_path s \<noteq> [] \<Longrightarrow> valid_id i \<Longrightarrow> valid_id j \<Longrightarrow> session_file s i = session_file s j \<longleftrightarrow> i = j"
  by (auto simp: valid_id_def session_file_inject)

text \<open>Requests that save other sessions than the one with identifier \<open>i\<close>.\<close>

definition others :: "string \<Rightarrow> ('v file_env \<times> int \<times> ('v, FilesystemStore) Session) list \<Rightarrow> bool" where
  "others i xs \<longleftrightarrow> list_all (\<lambda>(E, t, x). valid_id (touched_id E x) \<and> touched_id E x \<noteq> i) xs"

lemma run_others:
  assumes "others i xs" "fs_path s \<noteq> []" "valid_id i"
  shows "files (run_saves s xs d) (session_file s i) = files d (session_file s i)" "read_fault (run_saves s xs d) = read_fault d"
proof -
  have "\<forall>(E, t, x) \<in> set xs. session_file s (touched_id E x) \<noteq> session_file s i"
    using assms(1) valid_files [OF assms(2) _ assms(3)] by (fastforce simp: others_def list_all_iff)
  from run_saves_other [OF this, of d]
  show "files (run_saves s xs d) (session_file s i) = files d (session_file s i)" "read_fault (run_saves s xs d) = read_fault d"
    by simp_all
qed

section \<open>A concrete store\<close>

text \<open>A gob that knows maps with at most one flash message, of one string.\<close>

definition flash_gob :: "string svalues crypto" where
  "flash_gob = \<lparr>mac = (@), ctr = (\<lambda>k iv x. x),
     gob_enc = (\<lambda>m. case m flashesKey of None \<Rightarrow> Inr ''e'' | Some (Flash [Val c]) \<Rightarrow> Inr (CHR ''f'' # c) | _ \<Rightarrow> Inl ''gob: type not registered''),
     gob_dec = (\<lambda>b. case b of [] \<Rightarrow> Inl ''EOF'' | h # c \<Rightarrow> Inr (if h = CHR ''e'' then Map.empty else [flashesKey \<mapsto> Flash [Val c]])),
     gob_view = (\<lambda>m. m |` {flashesKey}), json_enc = (\<lambda>m. Inl []), json_dec = (\<lambda>b. Inl [])\<rparr>"

lemma flash_gob_ok: "crypto_ok flash_gob"
  by (auto simp: crypto_ok_def flash_gob_def restrict_map_def fun_eq_iff split: option.splits sval.splits list.splits)

definition sample_files :: FilesystemStore where
  "sample_files = FilesystemStore_MaxAge 3600 (NewFilesystemStore ''/tmp'' ''/var/../sess'' [Some ''key'', None])"

definition sample_file_env :: "string option \<Rightarrow> string file_env" where
  "sample_file_env k = \<lparr>fe_vals = flash_gob, fe_ids = plain_crypto, fe_key = k, fe_rnd_vals = None, fe_rnd_id = None, fe_store = sample_files\<rparr>"

definition empty_disk :: disk where
  "empty_disk = \<lparr>files = Map.empty, read_fault = (\<lambda>_. None), write_fault = (\<lambda>_. None), remove_fault = (\<lambda>_. None)\<rparr>"

definition greeting :: "string \<Rightarrow> string \<Rightarrow> (string, FilesystemStore) Session" where
  "greeting i c = (NewSession sample_files ''n'')\<lparr>ss_ID := i, ss_Options := fs_Options sample_files, ss_Values := [flashesKey \<mapsto> Flash [Val c]]\<rparr>"

lemma sample_file_keys: "file_keys (sample_file_env k)"
  by (auto simp: file_keys_def sample_file_env_def flash_gob_ok plain_crypto_ok rnd_ok_def) (simp add: plain_crypto_def)

lemma MaxLength_self: "MaxLength 4096 (MaxAge age (NewSecureCookie hk bk)) = MaxAge age (NewSecureCookie hk bk)"
  by (auto simp: MaxLength_def MaxAge_def NewSecureCookie_def BlockFunc_def Let_def split: option.splits)

lemma sample_files_codec: "one_file_codec sample_files"
  unfolding one_file_codec_def
  by (intro conjI exI [of _ "Some ''key''"] exI [of _ None] exI [of _ 4096])
    (simp_all add: sample_files_def NewFilesystemStore_def FilesystemStore_MaxAge_def MaxLength_self, simp add: MaxAge_def)

section \<open>Properties\<close>

text \<open>
  Whatever identifier a session has, saving it writes or deletes one file only, an entry of the directory of the
  store whose name starts with \<open>session_\<close>, and opening a session depends on such files only.
\<close>

theorem FilesystemStore_confined:
  assumes "fs_path s \<noteq> []" "FilesystemStore_Save E now s w session d = (e, session', d', w')"
  shows "(\<forall>n. files d' n \<noteq> files d n \<longrightarrow> n = session_file s (ss_ID session') \<and> of_store s n)
    \<and> (\<forall>d2. (\<forall>m. of_store s m \<longrightarrow> files d m = files d2 m \<and> read_fault d m = read_fault d2 m) \<longrightarrow>
        FilesystemStore_New E now s cookies name d = FilesystemStore_New E now s cookies name d2)"
proof (intro conjI allI impI)
  fix n assume "files d' n \<noteq> files d n"
  then show "n = session_file s (ss_ID session')" using FilesystemStore_Save_files [OF assms(2)] by blast
  then show "of_store s n" using session_file_of_store [OF assms(1)] by simp
qed (use FilesystemStore_New_local [OF assms(1)] in blast)

theorem FilesystemStore_confined_witness:
  "session_file sample_files ''../../etc/passwd'' = ''/sess/session_passwd''
    \<and> (\<forall>n. files (fst (snd (snd (FilesystemStore_Save (sample_file_env None) 1000 sample_files [] (greeting ''../../etc/passwd'' ''x'') empty_disk)))) n \<noteq> None
         \<longrightarrow> n = ''/sess/session_passwd'')"
proof -
  let ?run = "FilesystemStore_Save (sample_file_env None) 1000 sample_files [] (greeting ''../../etc/passwd'' ''x'') empty_disk"
  obtain e s' d' w' where run: "?run = (e, s', d', w')" by (rule prod_cases4)
  have p: "fs_path sample_files \<noteq> []" using sample_files_codec by (simp add: one_file_codec_def)
  have name: "session_file sample_files ''../../etc/passwd'' = ''/sess/session_passwd''" by code_simp
  have "ss_ID s' = ''../../etc/passwd''" using Save_touches(1) [OF run] by (simp add: touched_id_def saved_id_def greeting_def)
  moreover have "files empty_disk n = None" for n by (simp add: empty_disk_def)
  ultimately have "n = ''/sess/session_passwd''" if "files d' n \<noteq> None" for n
    using that conjunct1 [OF FilesystemStore_confined [OF p run]] name by metis
  then show ?thesis using name by (simp add: run)
qed

text \<open>
  A saved session comes back: after any number of saves of other sessions, a request that carries the cookie gets
  the values (as gob transmits them) and the identifier of the session, while it is not older than the age limit of
  the store. Two sessions that got their identifiers from different random keys of the same length are different.
\<close>

theorem FilesystemStore_isolates:
  assumes "file_keys E" "one_file_codec s" "int64 t" "so_MaxAge (ss_Options session) > 0"
    and "FilesystemStore_Save E t s w session d = (None, session', d', w')"
    and "valid_id (ss_ID session')" "others (ss_ID session') xs" "read_fault d (session_file s (ss_ID session')) = None"
    and "request_cookie cookies (ss_name session) = Some (ck_Value (last w'))" "young (so_MaxAge (fs_Options s)) t now"
  shows "(case FilesystemStore_New E now s cookies (ss_name session) (run_saves s xs d') of (s2, e) \<Rightarrow>
      e = None \<and> ss_ID s2 = ss_ID session' \<and> \<not> ss_IsNew s2 \<and> ss_Values s2 = gob_view (fe_vals E) (ss_Values session))
    \<and> (\<forall>k1 k2. length k1 = length k2 \<and> base32RawStdEncoding k1 = base32RawStdEncoding k2 \<longrightarrow> k1 = k2)"
proof -
  have r: "fs_path s \<noteq> []" "rnd_ok (fe_rnd_vals E)" "rnd_ok (fe_rnd_id E)"
    using assms(1,2) by (simp_all add: file_keys_def one_file_codec_def)
  note kept = run_others [OF assms(7) r(1) assms(6), of d']
  show ?thesis
  proof (rule FilesystemStore_Save_lasting [OF assms(5,4)])
    fix b c
    assume a: "EncodeMulti (fe_vals E) (fe_rnd_vals E) t (ss_name session) (ss_Values session) (fs_Codecs s) = Inr b"
      "EncodeMulti (fe_ids E) (fe_rnd_id E) t (ss_name session) (saved_id E session) (fs_Codecs s) = Inr c"
      "d' = d\<lparr>files := (files d)(session_file s (saved_id E session) \<mapsto> b)\<rparr>" "session' = session\<lparr>ss_ID := saved_id E session\<rparr>"
      "w' = w @ [NewCookie t (ss_name session) c (ss_Options session)]"
    show ?thesis
      using FilesystemStore_New_saved [OF assms(1-3,3) a(1) r(2) _ a(2) r(3) _ assms(10,10), of "run_saves s xs d'" cookies]
        kept assms(8,9) a(3-5) fresh_ids_differ by (simp add: NewSession_def) blast
  qed
qed

theorem FilesystemStore_isolates_witness:
  "\<exists>c. let (e, s1, d1, w1) = FilesystemStore_Save (sample_file_env (Some ''key'')) 1000 sample_files [] (greeting [] ''x'') empty_disk;
      (s2, e2) = FilesystemStore_New (sample_file_env (Some ''key'')) 2000 sample_files [(''n'', c)] ''n''
        (run_saves sample_files [(sample_file_env None, 1500, greeting ''B'' ''y'')] d1)
    in e2 = None \<and> ss_ID s2 = ss_ID s1 \<and> ss_Values s2 = [flashesKey \<mapsto> Flash [Val ''x'']]"
proof -
  let ?E = "sample_file_env (Some ''key'')" and ?o = "(sample_file_env None, 1500, greeting ''B'' ''y'')"
  obtain e s1 d1 w1 where run: "FilesystemStore_Save ?E 1000 sample_files [] (greeting [] ''x'') empty_disk = (e, s1, d1, w1)"
    by (rule prod_cases4)
  have "case FilesystemStore_Save ?E 1000 sample_files [] (greeting [] ''x'') empty_disk of (e, s1, d1, w1) \<Rightarrow>
      e = None \<and> valid_id (ss_ID s1) \<and> others (ss_ID s1) [?o]" by code_simp
  then have ok: "e = None" "valid_id (ss_ID s1)" "others (ss_ID s1) [?o]" by (simp_all add: run)
  have t: "int64 1000" "young (so_MaxAge (fs_Options sample_files)) 1000 2000" "so_MaxAge (ss_Options (greeting [] ''x'')) > 0" by code_simp+
  have g: "ss_name (greeting [] ''x'') = ''n''" "ss_Values (greeting [] ''x'') = [flashesKey \<mapsto> Flash [Val ''x'']]"
    "gob_view (fe_vals ?E) [flashesKey \<mapsto> Flash [Val ''x'']] = [flashesKey \<mapsto> Flash [Val ''x'']]"
    by (auto simp: greeting_def NewSession_def sample_file_env_def flash_gob_def)
  have "read_fault empty_disk (session_file sample_files (ss_ID s1)) = None" by (simp add: empty_disk_def)
  from FilesystemStore_isolates [OF sample_file_keys sample_files_codec t(1,3) run [unfolded ok(1)] ok(2,3) this, of "[(''n'', ck_Value (last w1))]" 2000]
  show ?thesis unfolding g run using t(2)
    by (intro exI [of _ "ck_Value (last w1)"]) (simp add: request_cookie_def Let_def g split: prod.splits)
qed

text \<open>
  Deleting a session revokes it: once the deletion has been saved, no cookie, however new, opens the session with
  that identifier again while other sessions are saved; the request gets an empty new session and an error.
\<close>

theorem FilesystemStore_revokes:
  assumes "fs_path s \<noteq> []" "so_MaxAge (ss_Options session) \<le> 0" "valid_id (ss_ID session)"
    and "FilesystemStore_Save E t s w session d = (None, session', d', w')" "others (ss_ID session) xs"
    and "FilesystemStore_New E2 now s cookies name (run_saves s xs d') = (s2, e)" "ss_ID s2 = ss_ID session"
  shows "ss_IsNew s2 \<and> ss_Values s2 = Map.empty \<and> e \<noteq> None"
proof -
  have "files d' (session_file s (ss_ID session)) = None"
    using assms(2,4) by (auto simp: FilesystemStore_Save_def erase_file_def Remove_def IsNotExist_def
        split: option.splits if_splits os_error.splits)
  then have "files (run_saves s xs d') (session_file s (ss_ID session)) = None"
    using run_others(1) [OF assms(5,1,3)] by simp
  then have gone: "isl (ReadFile (Clean (session_file s (ss_ID session))) (run_saves s xs d'))"
    by (simp add: Clean_session_file [OF assms(1)] ReadFile_def split: option.split)
  have "ss_ID session \<noteq> []" using assms(3) by (simp add: valid_id_def)
  then show ?thesis using assms(6,7) gone
    by (auto simp: FilesystemStore_New_def load_file_def NewSession_def Let_def split: option.splits sum.splits)
qed

theorem FilesystemStore_revokes_witness:
  "\<exists>c. let (e, s1, d1, w1) = FilesystemStore_Save (sample_file_env None) 1000 sample_files [] (greeting ''A'' ''x'') empty_disk;
      (e', s1', d2, w2) = FilesystemStore_Save (sample_file_env None) 1100 sample_files [] (s1\<lparr>ss_Options := (ss_Options s1)\<lparr>so_MaxAge := -1\<rparr>\<rparr>) d1;
      (s2, e2) = FilesystemStore_New (sample_file_env None) 1200 sample_files [(''n'', c)] ''n'' d2
    in c = ck_Value (hd w1) \<and> ss_ID s2 = ''A'' \<and> ss_IsNew s2 \<and> ss_Values s2 = Map.empty \<and> e2 \<noteq> None"
proof -
  let ?E = "sample_file_env None"
  obtain e s1 d1 w1 where run: "FilesystemStore_Save ?E 1000 sample_files [] (greeting ''A'' ''x'') empty_disk = (e, s1, d1, w1)"
    by (rule prod_cases4)
  let ?del = "s1\<lparr>ss_Options := (ss_Options s1)\<lparr>so_MaxAge := -1\<rparr>\<rparr>"
  obtain e' s1' d2 w2 where del: "FilesystemStore_Save ?E 1100 sample_files [] ?del d1 = (e', s1', d2, w2)" by (rule prod_cases4)
  obtain s2 e2 where new: "FilesystemStore_New ?E 1200 sample_files [(''n'', ck_Value (hd w1))] ''n'' d2 = (s2, e2)" by fastforce
  have "case FilesystemStore_Save ?E 1000 sample_files [] (greeting ''A'' ''x'') empty_disk of (e, s1, d1, w1) \<Rightarrow> ss_ID s1 = ''A''
      \<and> (case FilesystemStore_Save ?E 1100 sample_files [] (s1\<lparr>ss_Options := (ss_Options s1)\<lparr>so_MaxAge := -1\<rparr>\<rparr>) d1 of (e', s1', d2, w2) \<Rightarrow> e' = None
      \<and> (case FilesystemStore_New ?E 1200 sample_files [(''n'', ck_Value (hd w1))] ''n'' d2 of (s2, e2) \<Rightarrow> ss_ID s2 = ''A''))"
    by code_simp
  then have ok: "ss_ID s1 = ''A''" "e' = None" "ss_ID s2 = ''A''" by (simp_all add: run del new)
  have p: "fs_path sample_files \<noteq> []" "valid_id ''A''" using sample_files_codec by (simp_all add: one_file_codec_def valid_id_def slash_def)
  have "so_MaxAge (ss_Options ?del) \<le> 0" "valid_id (ss_ID ?del)" "others (ss_ID ?del) ([] :: (string file_env \<times> int \<times> (string, FilesystemStore) Session) list)"
    "FilesystemStore_New ?E 1200 sample_files [(''n'', ck_Value (hd w1))] ''n'' (run_saves sample_files [] d2) = (s2, e2)" "ss_ID s2 = ss_ID ?del"
    using p(2) ok new by (simp_all add: others_def)
  from FilesystemStore_revokes [OF p(1) this(1,2) del [unfolded ok(2)] this(3-5)]
  show ?thesis by (intro exI [of _ "ck_Value (hd w1)"]) (simp add: run del new ok)
qed

text \<open>
  \<open>Save\<close> does not look whether \<open>GenerateRandomKey\<close> failed: the identifier is then empty, so two new sessions are
  saved in one file, and the first one's cookie opens the values of the second.
\<close>

theorem FilesystemStore_nil_key_mixes:
  assumes "file_keys E" "one_file_codec s" "fe_key E = None" "int64 t" "int64 t'" "ss_name two = ss_name one" "ss_ID one = []" "ss_ID two = []"
    and "so_MaxAge (ss_Options one) > 0" "FilesystemStore_Save E t s [] one d = (None, one', d1, [c1])"
    and "so_MaxAge (ss_Options two) > 0" "FilesystemStore_Save E t' s [] two d1 = (None, two', d2, [c2])"
    and "read_fault d2 (session_file s []) = None" "request_cookie cookies (ss_name one) = Some (ck_Value c1)"
    and "young (so_MaxAge (fs_Options s)) t now" "young (so_MaxAge (fs_Options s)) t' now"
  shows "ss_Values (fst (FilesystemStore_New E now s cookies (ss_name one) d2)) = gob_view (fe_vals E) (ss_Values two)"
proof -
  have id: "saved_id E one = []" "saved_id E two = []" using assms(3,7,8) by (simp_all add: saved_id_def base32RawStdEncoding_def bits_of_def)
  have r: "rnd_ok (fe_rnd_vals E)" "rnd_ok (fe_rnd_id E)" using assms(1) by (simp_all add: file_keys_def)
  obtain v where v: "EncodeMulti (fe_ids E) (fe_rnd_id E) t (ss_name one) [] (fs_Codecs s) = Inr v" "ck_Value c1 = v"
    by (rule FilesystemStore_Save_lasting [OF assms(10,9)]) (simp add: id)
  obtain b where b: "EncodeMulti (fe_vals E) (fe_rnd_vals E) t' (ss_name one) (ss_Values two) (fs_Codecs s) = Inr b"
    "files d2 (session_file s []) = Some b"
    by (rule FilesystemStore_Save_lasting [OF assms(12,11)]) (simp add: id assms(6))
  show ?thesis
    using FilesystemStore_New_saved [OF assms(1,2,5,4) b(1) r(1) b(2) v(1) r(2) _ assms(16,15,13), of cookies] assms(14) v(2)
    by (simp add: NewSession_def)
qed

theorem FilesystemStore_nil_key_mixes_witness:
  "let (e, s1, d1, w1) = FilesystemStore_Save (sample_file_env None) 1000 sample_files [] (greeting [] ''one'') empty_disk;
      (e', s2, d2, w2) = FilesystemStore_Save (sample_file_env None) 1100 sample_files [] (greeting [] ''two'') d1
    in ss_Values (fst (FilesystemStore_New (sample_file_env None) 1200 sample_files [(''n'', ck_Value (hd w1))] ''n'' d2)) = [flashesKey \<mapsto> Flash [Val ''two'']]"
proof -
  let ?E = "sample_file_env None"
  obtain e s1 d1 w1 where one: "FilesystemStore_Save ?E 1000 sample_files [] (greeting [] ''one'') empty_disk = (e, s1, d1, w1)"
    by (rule prod_cases4)
  obtain e' s2 d2 w2 where two: "FilesystemStore_Save ?E 1100 sample_files [] (greeting [] ''two'') d1 = (e', s2, d2, w2)"
    by (rule prod_cases4)
  have "case FilesystemStore_Save ?E 1000 sample_files [] (greeting [] ''one'') empty_disk of (e, s1, d1, w1) \<Rightarrow> e = None \<and> length w1 = 1
      \<and> (case FilesystemStore_Save ?E 1100 sample_files [] (greeting [] ''two'') d1 of (e', s2, d2, w2) \<Rightarrow>
          e' = None \<and> length w2 = 1 \<and> read_fault d2 (session_file sample_files []) = None)" by code_simp
  then obtain c1 c2 where ok: "e = None" "e' = None" "w1 = [c1]" "w2 = [c2]" "read_fault d2 (session_file sample_files []) = None"
    by (auto simp: one two length_Suc_conv)
  have t: "int64 1000" "int64 1100" "young (so_MaxAge (fs_Options sample_files)) 1000 1200" "young (so_MaxAge (fs_Options sample_files)) 1100 1200"
    "so_MaxAge (ss_Options (greeting [] ''one'')) > 0" "so_MaxAge (ss_Options (greeting [] ''two'')) > 0" by code_simp+
  have g: "ss_name (greeting i c) = ''n''" "ss_ID (greeting i c) = i" "ss_Values (greeting i c) = [flashesKey \<mapsto> Flash [Val c]]"
    "gob_view (fe_vals ?E) [flashesKey \<mapsto> Flash [Val c]] = [flashesKey \<mapsto> Flash [Val c]]" "fe_key ?E = None" for i c
    by (auto simp: greeting_def NewSession_def sample_file_env_def flash_gob_def)
  have "request_cookie [(''n'', ck_Value c1)] (ss_name (greeting [] ''one'')) = Some (ck_Value c1)" "ss_name (greeting [] ''two'') = ss_name (greeting [] ''one'')"
    by (simp_all add: request_cookie_def g)
  from FilesystemStore_nil_key_mixes [OF sample_file_keys sample_files_codec g(5) t(1,2) this(2) g(2,2) t(5) one [unfolded ok] t(6) two [unfolded ok] ok(5) this(1) t(3,4)]
  show ?thesis by (simp add: one two ok g)
qed

text \<open>
  A flash message is delivered once: the next request with the cookie reads it, and when that request has saved the
  session, the request after it reads none.
\<close>

theorem FilesystemStore_flash_once:
  assumes "AddFlash msg vars s0 = (Ret (), session)" "ss_Values s0 (flash_key vars) = None"
    and "file_ready E d t" "file_lasting E session" "file_save E d t session = (None, session', d1, [c1])" "file_fresh E t t1"
    and "request_cookie cookies1 (ss_name session) = Some (ck_Value c1)"
    and "gob_view (fe_vals E) (ss_Values session) = ss_Values session"
    and "gob_view (fe_vals E) ((ss_Values session)(flash_key vars := None)) = (ss_Values session)(flash_key vars := None)"
    and "file_new E d1 t1 cookies1 (ss_name session) = (s1, None)" "Flashes vars s1 = (r, s2)"
    and "file_ready E d1 t1" "file_lasting E s2" "file_save E d1 t1 s2 = (None, s2', d2, [c2])" "file_fresh E t1 t2"
    and "request_cookie cookies2 (ss_name session) = Some (ck_Value c2)"
  shows "r = Ret [msg] \<and> (\<exists>s3. file_new E d2 t2 cookies2 (ss_name session) = (s3, None) \<and> Flashes vars s3 = (Ret [], s3))"
  by (rule stored.flash_once [OF assms])

theorem FilesystemStore_flash_once_witness:
  "let E = sample_file_env (Some ''key''); (e, s', d1, w1) = file_save E empty_disk 1000 (greeting [] ''hi'');
      (s1, e1) = file_new E d1 1500 [(''n'', ck_Value (hd w1))] ''n''
    in fst (Flashes [] s1) = Ret [Val ''hi'']"
proof -
  let ?E = "sample_file_env (Some ''key'')" and ?s = "greeting [] ''hi''" and ?v = "[flashesKey \<mapsto> Flash [Val ''hi'']] :: string svalues"
  obtain e s' d1 w1 where one: "file_save ?E empty_disk 1000 ?s = (e, s', d1, w1)" by (rule prod_cases4)
  obtain s1 e1 where new: "file_new ?E d1 1500 [(''n'', ck_Value (hd w1))] ''n'' = (s1, e1)" by fastforce
  obtain r s2 where fl: "Flashes [] s1 = (r, s2)" by fastforce
  obtain e2 s2' d2 w2 where two: "file_save ?E d1 1500 s2 = (e2, s2', d2, w2)" by (rule prod_cases4)
  have "case file_save ?E empty_disk 1000 ?s of (e, s', d1, w1) \<Rightarrow> e = None \<and> length w1 = 1
      \<and> (case file_new ?E d1 1500 [(''n'', ck_Value (hd w1))] ''n'' of (s1, e1) \<Rightarrow> e1 = None
      \<and> (case Flashes [] s1 of (r, s2) \<Rightarrow> file_lasting ?E s2
      \<and> (case file_save ?E d1 1500 s2 of (e2, s2', d2, w2) \<Rightarrow> e2 = None \<and> length w2 = 1)))" by code_simp
  then obtain c1 c2 where ok: "e = None" "e1 = None" "e2 = None" "w1 = [c1]" "w2 = [c2]" "file_lasting ?E s2"
    by (auto simp: one new fl two length_Suc_conv)
  have add: "AddFlash (Val ''hi'') [] (?s\<lparr>ss_Values := Map.empty\<rparr>) = (Ret (), ?s)"
    by (simp add: AddFlash_def greeting_def NewSession_def reads_def update_def ret_def flash_key_def)
  have g: "ss_name ?s = ''n''" "ss_Values ?s = ?v" "gob_view (fe_vals ?E) (ss_Values ?s) = ss_Values ?s" "file_lasting ?E ?s"
    "gob_view (fe_vals ?E) ((ss_Values ?s)(flash_key [] := None)) = (ss_Values ?s)(flash_key [] := None)"
    by (auto simp: greeting_def NewSession_def sample_file_env_def flash_gob_def flash_key_def file_lasting_def sample_files_def
        NewFilesystemStore_def FilesystemStore_MaxAge_def)
  have t: "int64 1000" "int64 1500" "file_fresh ?E 1000 1500" "file_fresh ?E 1500 2000" by code_simp+
  have rd: "file_ready ?E empty_disk 1000" "file_ready ?E d1 1500"
    using sample_file_keys sample_files_codec t Save_touches(2) [OF one [unfolded file_save_def]]
    by (simp_all add: file_ready_def empty_disk_def) (simp_all add: sample_file_env_def)
  have rq: "request_cookie [(''n'', ck_Value c)] (ss_name ?s) = Some (ck_Value c)" for c by (simp add: request_cookie_def g(1))
  have new': "file_new ?E d1 1500 [(''n'', ck_Value c1)] (ss_name ?s) = (s1, None)" using new ok by (simp add: g(1))
  from FilesystemStore_flash_once [OF add _ rd(1) g(4) one [unfolded ok] t(3) rq g(3,5) new' fl rd(2) ok(6) two [unfolded ok] t(4) rq]
  show ?thesis by (simp add: one new fl)
qed

end
