(* ===== verification/Mem_Store.thy ===== *)
theory Mem_Store
  imports File_Store
begin

text \<open>
  \<open>sessions/memstore\<close>: sessions kept in a map of the process, under the identifier that the cookie carries. The package
  is built on \<open>github.com/gorilla/securecookie\<close> and \<open>github.com/gorilla/sessions\<close>, which are not part of the
  repository: their codecs and cookies are the fields of the record \<open>gorilla\<close>. The fields of a session are those of
  \<open>Session\<close>. Each operation of the cache holds its lock and is one step.
\<close>

section \<open>The cache\<close>

type_synonym 'v cache = "string \<Rightarrow> 'v svalues option"

definition newCache :: "'v cache" where
  "newCache = Map.empty"

definition cache_value :: "'v cache \<Rightarrow> string \<Rightarrow> 'v svalues option" where
  "cache_value c name = c name"

definition cache_setValue :: "string \<Rightarrow> 'v svalues \<Rightarrow> 'v cache \<Rightarrow> 'v cache" where
  "cache_setValue name v c = c(name \<mapsto> v)"

definition cache_delete :: "string \<Rightarrow> 'v cache \<Rightarrow> 'v cache" where
  "cache_delete name c = (if c name \<noteq> None then c(name := None) else c)"

section \<open>Parameters\<close>

text \<open>
  The codecs \<open>'c\<close> with their clock, \<open>NewCookie\<close>, 32 random bytes or nil, and \<open>encoding/gob\<close> for the values of a session.
\<close>

record ('v, 'c) gorilla =
  g_CodecsFromPairs :: "string option list \<Rightarrow> 'c list"
  g_MaxAge :: "int \<Rightarrow> 'c \<Rightarrow> 'c"
  g_EncodeMulti :: "int \<Rightarrow> string \<Rightarrow> string \<Rightarrow> 'c list \<Rightarrow> cerr + string"
  g_DecodeMulti :: "int \<Rightarrow> string \<Rightarrow> string \<Rightarrow> 'c list \<Rightarrow> cerr + string"
  g_NewCookie :: "int \<Rightarrow> string \<Rightarrow> string \<Rightarrow> Options \<Rightarrow> Cookie"
  g_RandomKey :: "string option"
  g_gob_enc :: "'v svalues \<Rightarrow> string + string"
  g_gob_dec :: "string \<Rightarrow> string + 'v svalues"

section \<open>The store\<close>

record 'c MemStore =
  ms_Codecs :: "'c list"
  ms_Options :: Options

definition MemStore_MaxAge :: "('v, 'c) gorilla \<Rightarrow> int \<Rightarrow> 'c MemStore \<Rightarrow> 'c MemStore" where
  "MemStore_MaxAge G age s = s\<lparr>ms_Options := (ms_Options s)\<lparr>so_MaxAge := age\<rparr>, ms_Codecs := map (g_MaxAge G age) (ms_Codecs s)\<rparr>"

definition NewMemStore :: "('v, 'c) gorilla \<Rightarrow> string option list \<Rightarrow> 'c MemStore \<times> 'v cache" where
  "NewMemStore G keyPairs = (MemStore_MaxAge G (86400 * 30) \<lparr>ms_Codecs = g_CodecsFromPairs G keyPairs,
     ms_Options = no_options\<lparr>so_Path := ''/'', so_MaxAge := 86400 * 30\<rparr>\<rparr>, newCache)"

text \<open>A copy through gob, which panics on an error.\<close>

definition copy :: "('v, 'c) gorilla \<Rightarrow> 'v svalues \<Rightarrow> (cerr, 'v svalues) res" where
  "copy G v = (case g_gob_enc G v of Inl _ \<Rightarrow> Panic | Inr b \<Rightarrow> (case g_gob_dec G b of Inl _ \<Rightarrow> Panic | Inr v' \<Rightarrow> Ret v'))"

definition MemStore_New ::
  "('v, 'c) gorilla \<Rightarrow> int \<Rightarrow> 'c MemStore \<Rightarrow> (string \<times> string) list \<Rightarrow> string \<Rightarrow> 'v cache
     \<Rightarrow> (cerr, ('v, 'c MemStore) Session \<times> cerr option) res"
where
  "MemStore_New G now m cookies name c =
     (let session = (NewSession m name)\<lparr>ss_Options := ms_Options m, ss_IsNew := True\<rparr> in
      case request_cookie cookies name of
        None \<Rightarrow> Ret (session, None)
      | Some x \<Rightarrow> (case g_DecodeMulti G now name x (ms_Codecs m) of
          Inl e \<Rightarrow> Ret (session, Some e)
        | Inr sid \<Rightarrow> (let session = session\<lparr>ss_ID := sid\<rparr> in
            case cache_value c sid of
              None \<Rightarrow> Ret (session, None)
            | Some v \<Rightarrow> (case copy G v of
                Ret vals \<Rightarrow> Ret (session\<lparr>ss_Values := vals, ss_IsNew := False\<rparr>, None)
              | Err e \<Rightarrow> Err e
              | Panic \<Rightarrow> Panic))))"

text \<open>\<open>base32.StdEncoding\<close> pads to a multiple of eight characters; \<open>strings.TrimRight(s, "=")\<close> takes the padding off.\<close>

definition base32StdEncoding :: "string \<Rightarrow> string" where
  "base32StdEncoding b = (let r = base32RawStdEncoding b in r @ replicate ((8 - length r mod 8) mod 8) (CHR ''=''))"

definition TrimRight :: "char \<Rightarrow> string \<Rightarrow> string" where
  "TrimRight c s = rev (dropWhile (\<lambda>x. x = c) (rev s))"

definition MemStore_Save ::
  "('v, 'c) gorilla \<Rightarrow> int \<Rightarrow> 'c MemStore \<Rightarrow> Cookie list \<Rightarrow> ('v, 'c MemStore) Session \<Rightarrow> 'v cache
     \<Rightarrow> (cerr, unit) res \<times> ('v, 'c MemStore) Session \<times> 'v cache \<times> Cookie list"
where
  "MemStore_Save G now m w s c =
     (if so_MaxAge (ss_Options s) < 0
      then (Ret (), s\<lparr>ss_Values := Map.empty\<rparr>, cache_delete (ss_ID s) c, w @ [g_NewCookie G now (ss_name s) [] (ss_Options s)])
      else
        let s = (if ss_ID s = [] then s\<lparr>ss_ID := TrimRight (CHR ''='') (base32StdEncoding (case g_RandomKey G of None \<Rightarrow> [] | Some k \<Rightarrow> k))\<rparr> else s) in
        (case g_EncodeMulti G now (ss_name s) (ss_ID s) (ms_Codecs m) of
           Inl e \<Rightarrow> (Err e, s, c, w)
         | Inr encrypted \<Rightarrow> (case copy G (ss_Values s) of
             Ret v \<Rightarrow> (Ret (), s, cache_setValue (ss_ID s) v c, w @ [g_NewCookie G now (ss_name s) encrypted (ss_Options s)])
           | Err e \<Rightarrow> (Err e, s, c, w)
           | Panic \<Rightarrow> (Panic, s, c, w))))"

section \<open>Documented behaviour of the packages\<close>

text \<open>
  What the codecs of the store wrote, they read back while it is not too old; a cookie has the name and the value it
  was made with; gob reads back its view of what it wrote, and can transmit that again.
\<close>

definition gorilla_ok :: "('v, 'c) gorilla \<Rightarrow> ('v svalues \<Rightarrow> 'v svalues) \<Rightarrow> 'c MemStore \<Rightarrow> bool" where
  "gorilla_ok G view m \<longleftrightarrow>
     (\<forall>t now name sid x. g_EncodeMulti G t name sid (ms_Codecs m) = Inr x \<and> young (so_MaxAge (ms_Options m)) t now
        \<longrightarrow> g_DecodeMulti G now name x (ms_Codecs m) = Inr sid)
   \<and> (\<forall>t name x opts. ck_Name (g_NewCookie G t name x opts) = name \<and> ck_Value (g_NewCookie G t name x opts) = x)
   \<and> (\<forall>v b. g_gob_enc G v = Inr b \<longrightarrow> g_gob_dec G b = Inr (view v) \<and> (\<exists>b'. g_gob_enc G (view v) = Inr b') \<and> view (view v) = view v)"

lemma gorilla_copy:
  assumes "gorilla_ok G view m" "copy G v = Ret v'"
  shows "v' = view v \<and> copy G v' = Ret v'"
  using assms by (fastforce simp: gorilla_ok_def copy_def split: sum.splits)

lemma trimmed_id [simp]: "TrimRight (CHR ''='') (base32StdEncoding k) = base32RawStdEncoding k"
proof -
  have "CHR ''='' \<notin> set (quintets bs)" for bs
    by (induction bs rule: quintets.induct) (auto simp: quintet_not_eq quintet_not_eq [symmetric] numeral_eq_Suc)
  then have "CHR ''='' \<notin> set (rev (base32RawStdEncoding k))" by (simp add: base32RawStdEncoding_def)
  then have "dropWhile (\<lambda>x. x = CHR ''='') (rev (base32RawStdEncoding k)) = rev (base32RawStdEncoding k)"
    by (cases "rev (base32RawStdEncoding k)") auto
  moreover have "dropWhile (\<lambda>x. x = CHR ''='') (replicate n (CHR ''='') @ s) = dropWhile (\<lambda>x. x = CHR ''='') s" for n s
    by (induction n) auto
  ultimately show ?thesis by (simp add: TrimRight_def base32StdEncoding_def Let_def)
qed

section \<open>The interface\<close>

record ('v, 'c) mem_env =
  me_gorilla :: "('v, 'c) gorilla"
  me_view :: "'v svalues \<Rightarrow> 'v svalues"
  me_store :: "'c MemStore"

text \<open>A panic ends the request; the interface shows it as an error.\<close>

definition mem_new ::
  "('v, 'c) mem_env \<Rightarrow> 'v cache \<Rightarrow> int \<Rightarrow> (string \<times> string) list \<Rightarrow> string \<Rightarrow> ('v, 'c MemStore) Session \<times> cerr option"
where
  "mem_new e c now cookies name = (case MemStore_New (me_gorilla e) now (me_store e) cookies name c of
     Ret x \<Rightarrow> x | Err x \<Rightarrow> (NewSession (me_store e) name, Some x) | Panic \<Rightarrow> (NewSession (me_store e) name, Some (PlainError ''panic'')))"

definition mem_save ::
  "('v, 'c) mem_env \<Rightarrow> 'v cache \<Rightarrow> int \<Rightarrow> ('v, 'c MemStore) Session \<Rightarrow> cerr option \<times> ('v, 'c MemStore) Session \<times> 'v cache \<times> Cookie list"
where
  "mem_save e c now session = (case MemStore_Save (me_gorilla e) now (me_store e) [] session c of (r, rest) \<Rightarrow>
     ((case r of Ret _ \<Rightarrow> None | Err x \<Rightarrow> Some x | Panic \<Rightarrow> Some (PlainError ''panic'')), rest))"

definition mem_ready :: "('v, 'c) mem_env \<Rightarrow> 'v cache \<Rightarrow> int \<Rightarrow> bool" where
  "mem_ready e c t \<longleftrightarrow> gorilla_ok (me_gorilla e) (me_view e) (me_store e)"

definition mem_lasting :: "('v, 'c) mem_env \<Rightarrow> ('v, 'c MemStore) Session \<Rightarrow> bool" where
  "mem_lasting e session \<longleftrightarrow> so_MaxAge (ss_Options session) \<ge> 0"

definition mem_fresh :: "('v, 'c) mem_env \<Rightarrow> int \<Rightarrow> int \<Rightarrow> bool" where
  "mem_fresh e = young (so_MaxAge (ms_Options (me_store e)))"

text \<open>The identifier a session is saved under.\<close>

definition mem_id :: "('v, 'c) gorilla \<Rightarrow> ('v, 'c MemStore) Session \<Rightarrow> string" where
  "mem_id G session = (if ss_ID session = [] then base32RawStdEncoding (case g_RandomKey G of None \<Rightarrow> [] | Some k \<Rightarrow> k) else ss_ID session)"

lemma MemStore_Save_lasting:
  assumes "MemStore_Save G t m w session c = (Ret (), session', c', w')" "so_MaxAge (ss_Options session) \<ge> 0"
  obtains x v where "g_EncodeMulti G t (ss_name session) (mem_id G session) (ms_Codecs m) = Inr x" "copy G (ss_Values session) = Ret v"
    "c' = c(mem_id G session \<mapsto> v)" "session' = session\<lparr>ss_ID := mem_id G session\<rparr>"
    "w' = w @ [g_NewCookie G t (ss_name session) x (ss_Options session)]"
proof -
  have id: "(if ss_ID session = [] then session\<lparr>ss_ID := TrimRight (CHR ''='') (base32StdEncoding (case g_RandomKey G of None \<Rightarrow> [] | Some k \<Rightarrow> k))\<rparr>
      else session) = session\<lparr>ss_ID := mem_id G session\<rparr>"
    by (simp add: mem_id_def)
  have "\<not> so_MaxAge (ss_Options session) < 0" using assms(2) by simp
  then show ?thesis using assms(1) that unfolding MemStore_Save_def id Let_def if_not_P
    by (auto simp: cache_setValue_def split: sum.splits res.splits)
qed

lemma MemStore_New_saved:
  assumes "gorilla_ok G view m" "g_EncodeMulti G t name sid (ms_Codecs m) = Inr x" "young (so_MaxAge (ms_Options m)) t now"
    and "request_cookie cookies name = Some x" "c sid = Some v" "copy G vals = Ret v"
  shows "MemStore_New G now m cookies name c = Ret ((NewSession m name)\<lparr>ss_Options := ms_Options m, ss_ID := sid,
    ss_Values := view vals, ss_IsNew := False\<rparr>, None)"
proof -
  have "g_DecodeMulti G now name x (ms_Codecs m) = Inr sid" using assms(1-3) unfolding gorilla_ok_def by blast
  moreover have "v = view vals" "copy G (view vals) = Ret (view vals)" using gorilla_copy [OF assms(1,6)] by auto
  ultimately show ?thesis using assms(4,5) by (simp add: MemStore_New_def cache_value_def NewSession_def)
qed

interpretation held: session_store me_store mem_new mem_save mem_ready mem_lasting mem_fresh me_view
proof (unfold_locales, goal_cases)
  case 1
  then show ?case by (simp add: mem_new_def MemStore_New_def NewSession_def)
next
  case (2 e c t session session' c' cs)
  have save: "MemStore_Save (me_gorilla e) t (me_store e) [] session c = (Ret (), session', c', cs)"
    using 2(3) by (auto simp: mem_save_def split: prod.splits res.splits)
  have "\<forall>t name x opts. ck_Name (g_NewCookie (me_gorilla e) t name x opts) = name" using 2(1) by (simp add: mem_ready_def gorilla_ok_def)
  then show ?case by - (rule MemStore_Save_lasting [OF save 2(2) [unfolded mem_lasting_def]], simp)
next
  case (3 e c t session session' c' k now cookies)
  have save: "MemStore_Save (me_gorilla e) t (me_store e) [] session c = (Ret (), session', c', [k])"
    using 3(3) by (auto simp: mem_save_def split: prod.splits res.splits)
  have G: "gorilla_ok (me_gorilla e) (me_view e) (me_store e)" using 3(1) by (simp add: mem_ready_def)
  then have ck: "ck_Value (g_NewCookie (me_gorilla e) t name x opts) = x" for t name x opts by (simp add: gorilla_ok_def)
  show ?case
  proof (rule MemStore_Save_lasting [OF save 3(2) [unfolded mem_lasting_def]])
    fix x v
    assume a: "g_EncodeMulti (me_gorilla e) t (ss_name session) (mem_id (me_gorilla e) session) (ms_Codecs (me_store e)) = Inr x"
      "copy (me_gorilla e) (ss_Values session) = Ret v" "c' = c(mem_id (me_gorilla e) session \<mapsto> v)"
      "[k] = [] @ [g_NewCookie (me_gorilla e) t (ss_name session) x (ss_Options session)]"
    have r: "request_cookie cookies (ss_name session) = Some x" using 3(5) a(4) by (simp add: ck)
    show ?case using MemStore_New_saved [OF G a(1) 3(4) [unfolded mem_fresh_def] r _ a(2), of c'] a(3)
      by (simp add: mem_new_def NewSession_def)
  qed
qed

section \<open>Properties\<close>

text \<open>Saves by any requests, one after the other.\<close>

fun run_mem_saves :: "('v, 'c) gorilla \<Rightarrow> 'c MemStore \<Rightarrow> (int \<times> ('v, 'c MemStore) Session) list \<Rightarrow> 'v cache \<Rightarrow> 'v cache" where
  "run_mem_saves G m [] c = c"
| "run_mem_saves G m ((t, session) # xs) c = (case MemStore_Save G t m [] session c of (_, _, c', _) \<Rightarrow> run_mem_saves G m xs c')"

definition mem_others :: "('v, 'c) gorilla \<Rightarrow> string \<Rightarrow> (int \<times> ('v, 'c MemStore) Session) list \<Rightarrow> bool" where
  "mem_others G i xs \<longleftrightarrow> list_all (\<lambda>(t, x). (if so_MaxAge (ss_Options x) < 0 then ss_ID x else mem_id G x) \<noteq> i) xs"

lemma MemStore_Save_cache:
  "MemStore_Save G t m w x c = (r, x', c', w') \<Longrightarrow> (if so_MaxAge (ss_Options x) < 0 then ss_ID x else mem_id G x) \<noteq> i \<Longrightarrow> c' i = c i"
  by (auto simp: MemStore_Save_def mem_id_def cache_delete_def cache_setValue_def Let_def split: if_splits sum.splits res.splits)

lemma run_mem_others: "mem_others G i xs \<Longrightarrow> run_mem_saves G m xs c i = c i"
proof (induction xs arbitrary: c)
  case (Cons x xs)
  obtain t y where x: "x = (t, y)" by (cases x)
  obtain r y' c' w' where run: "MemStore_Save G t m [] y c = (r, y', c', w')" by (rule prod_cases4)
  show ?case using Cons MemStore_Save_cache [OF run, of i] by (simp add: x run mem_others_def)
qed simp

text \<open>
  A session saved in memory comes back, after any number of saves of other sessions, for a request that carries its
  cookie while that is not too old; once its deletion has been saved, the same cookie opens a new empty session, this
  time without an error.
\<close>

theorem MemStore_saves_and_deletes:
  assumes "gorilla_ok G view m" "so_MaxAge (ss_Options session) \<ge> 0" "MemStore_Save G t m w session c = (Ret (), session', c1, w')"
    and "mem_others G (ss_ID session') xs" "mem_others G (ss_ID session') ys" "young (so_MaxAge (ms_Options m)) t now"
    and "request_cookie cookies (ss_name session) = Some (ck_Value (last w'))"
    and "so_MaxAge (ss_Options gone) < 0" "ss_ID gone = ss_ID session'"
    and "MemStore_Save G t2 m w2 gone (run_mem_saves G m xs c1) = (Ret (), gone', c2, w2')"
  shows "(\<exists>s. MemStore_New G now m cookies (ss_name session) (run_mem_saves G m xs c1) = Ret (s, None) \<and> \<not> ss_IsNew s
        \<and> ss_ID s = ss_ID session' \<and> ss_Values s = view (ss_Values session))
    \<and> (\<exists>s. MemStore_New G now m cookies (ss_name session) (run_mem_saves G m ys c2) = Ret (s, None) \<and> ss_IsNew s \<and> ss_Values s = Map.empty)"
proof (rule MemStore_Save_lasting [OF assms(3,2)])
  fix x v
  assume a: "g_EncodeMulti G t (ss_name session) (mem_id G session) (ms_Codecs m) = Inr x" "copy G (ss_Values session) = Ret v"
    "c1 = c(mem_id G session \<mapsto> v)" "session' = session\<lparr>ss_ID := mem_id G session\<rparr>"
    "w' = w @ [g_NewCookie G t (ss_name session) x (ss_Options session)]"
  have r: "request_cookie cookies (ss_name session) = Some x" using assms(1,7) a(5) by (simp add: gorilla_ok_def)
  have kept: "run_mem_saves G m xs c1 (mem_id G session) = Some v" using run_mem_others [OF assms(4)] a(3,4) by simp
  have "c2 (mem_id G session) = None" using assms(8-10) a(4) by (auto simp: MemStore_Save_def cache_delete_def)
  then have left: "run_mem_saves G m ys c2 (mem_id G session) = None" using run_mem_others [OF assms(5)] a(4) by simp
  have "g_DecodeMulti G now (ss_name session) x (ms_Codecs m) = Inr (mem_id G session)" using assms(1,6) a(1) unfolding gorilla_ok_def by blast
  then show ?thesis using MemStore_New_saved [where c = "run_mem_saves G m xs c1", OF assms(1) a(1) assms(6) r kept a(2)] left r a(4)
    by (simp add: MemStore_New_def cache_value_def NewSession_def)
qed

text \<open>A codec that writes identifiers as they are, and a gob for maps with one string under \<open>u\<close>.\<close>

definition plain_gorilla :: "(string, unit) gorilla" where
  "plain_gorilla = \<lparr>g_CodecsFromPairs = (\<lambda>_. [()]), g_MaxAge = (\<lambda>_ c. c), g_EncodeMulti = (\<lambda>t name sid cs. Inr sid),
     g_DecodeMulti = (\<lambda>now name x cs. Inr x), g_NewCookie = NewCookie, g_RandomKey = Some ''key'',
     g_gob_enc = gob_enc toy_sessions, g_gob_dec = gob_dec toy_sessions\<rparr>"

definition mem_store :: "unit MemStore" where
  "mem_store = fst (NewMemStore plain_gorilla [])"

lemma plain_gorilla_ok: "gorilla_ok plain_gorilla (\<lambda>m. m |` {''u''}) mem_store"
  by (auto simp: gorilla_ok_def plain_gorilla_def toy_sessions_def restrict_map_def fun_eq_iff split: option.splits sval.splits)

theorem MemStore_saves_and_deletes_witness:
  "let s = (NewSession mem_store ''n'')\<lparr>ss_Values := [''u'' \<mapsto> Val ''x'']\<rparr>; (r, s', c1, w') = MemStore_Save plain_gorilla 10 mem_store [] s newCache in
     \<exists>s2. MemStore_New plain_gorilla 20 mem_store [(''n'', ck_Value (last w'))] ''n'' c1 = Ret (s2, None) \<and> ss_Values s2 = [''u'' \<mapsto> Val ''x'']"
proof -
  let ?s = "(NewSession mem_store ''n'')\<lparr>ss_Values := [''u'' \<mapsto> Val ''x'']\<rparr> :: (string, unit MemStore) Session"
  obtain r s' c1 w' where run: "MemStore_Save plain_gorilla 10 mem_store [] ?s newCache = (r, s', c1, w')" by (rule prod_cases4)
  let ?g = "s'\<lparr>ss_Options := no_options\<lparr>so_MaxAge := -1\<rparr>\<rparr>"
  have r: "r = Ret ()" using run by (simp add: MemStore_Save_def NewSession_def no_options_def plain_gorilla_def copy_def toy_sessions_def Let_def)
  have del: "MemStore_Save plain_gorilla 15 mem_store [] ?g (run_mem_saves plain_gorilla mem_store [] c1) =
      (Ret (), ?g\<lparr>ss_Values := Map.empty\<rparr>, cache_delete (ss_ID s') c1, [g_NewCookie plain_gorilla 15 (ss_name s') [] (no_options\<lparr>so_MaxAge := -1\<rparr>)])"
    by (simp add: MemStore_Save_def)
  have y: "young (so_MaxAge (ms_Options mem_store)) 10 20" "so_MaxAge (ss_Options ?s) \<ge> 0"
    by (simp_all add: mem_store_def NewMemStore_def MemStore_MaxAge_def young_def NewSession_def no_options_def) code_simp
  have q: "request_cookie [(''n'', ck_Value (last w'))] (ss_name ?s) = Some (ck_Value (last w'))" "ss_name ?s = ''n''"
    "ss_Values ?s = [''u'' \<mapsto> Val ''x'']" "[''u'' \<mapsto> Val ''x''] |` {''u''} = [''u'' \<mapsto> Val ''x'']"
    by (auto simp: request_cookie_def NewSession_def)
  have o: "mem_others plain_gorilla (ss_ID s') []" "so_MaxAge (ss_Options ?g) < 0" "ss_ID ?g = ss_ID s'" by (simp_all add: mem_others_def)
  from MemStore_saves_and_deletes [OF plain_gorilla_ok y(2) run [unfolded r] o(1,1) y(1) q(1) o(2,3) del]
  show ?thesis unfolding Let_def run prod.case q(2-4) by auto
qed

end
