(* ===== verification/Dialect.thy ===== *)
theory Dialect
  imports Paths
begin

text \<open>
  \<open>database/driver.go\<close>, the dialects of \<open>database/postgres.go\<close> and \<open>database/sqlite3.go\<close>, \<open>database/builder.go\<close>: which
  SQL a driver gets, and how a connection is opened. The drivers themselves (\<open>pgxpool\<close>, \<open>database/sql\<close> with
  \<open>go-sqlite3\<close>) and the file system are parameters.
\<close>

section \<open>Dialects\<close>

type_synonym DriverType = string

definition DriverPostgreSQL :: DriverType where "DriverPostgreSQL = ''postgres''"
definition DriverSQLite3 :: DriverType where "DriverSQLite3 = ''sqlite3''"

datatype dialect = PostgresDialect | SQLite3Dialect

definition NewDialect :: "DriverType \<Rightarrow> dialect" where
  "NewDialect driverType = (if driverType = DriverPostgreSQL then PostgresDialect
     else if driverType = DriverSQLite3 then SQLite3Dialect else PostgresDialect)"

fun Placeholder :: "dialect \<Rightarrow> string" where
  "Placeholder PostgresDialect = ''$''"
| "Placeholder SQLite3Dialect = ''?''"

fun PlaceholderFormat :: "dialect \<Rightarrow> string" where
  "PlaceholderFormat PostgresDialect = ''Dollar''"
| "PlaceholderFormat SQLite3Dialect = ''Question''"

fun SupportsReturning :: "dialect \<Rightarrow> bool" where
  "SupportsReturning PostgresDialect \<longleftrightarrow> True"
| "SupportsReturning SQLite3Dialect \<longleftrightarrow> False"

fun JSONType :: "dialect \<Rightarrow> string" where
  "JSONType PostgresDialect = ''JSONB''"
| "JSONType SQLite3Dialect = ''TEXT''"

fun AutoIncrement :: "dialect \<Rightarrow> string" where
  "AutoIncrement PostgresDialect = ''BIGSERIAL''"
| "AutoIncrement SQLite3Dialect = ''INTEGER PRIMARY KEY AUTOINCREMENT''"

text \<open>The two values of \<open>squirrel\<close>'s placeholder format that are used.\<close>

datatype placeholders = Dollar | Question

definition GetPlaceholderFormat :: "DriverType \<Rightarrow> placeholders" where
  "GetPlaceholderFormat driverType = (let f = PlaceholderFormat (NewDialect driverType) in
     if f = ''Dollar'' then Dollar else if f = ''Question'' then Question else Dollar)"

definition BuildJSONColumn :: "DriverType \<Rightarrow> string" where
  "BuildJSONColumn driverType = JSONType (NewDialect driverType)"

definition BuildAutoIncrement :: "DriverType \<Rightarrow> string" where
  "BuildAutoIncrement driverType = AutoIncrement (NewDialect driverType)"

section \<open>Connections\<close>

text \<open>What the operating system and the drivers answer: an error message, or nothing for success.\<close>

record drivers =
  os_MkdirAll :: "string \<Rightarrow> string option"
  pgx_New :: "string \<Rightarrow> string option"
  pgx_Ping :: "string \<Rightarrow> string option"
  sql_Open :: "string \<Rightarrow> string option"
  sql_pragma :: "string \<Rightarrow> string option"
  sql_Ping :: "string \<Rightarrow> string option"

text \<open>An open connection: its driver and the data source.\<close>

datatype conn = PostgresDB string | SQLite3DB string

fun conn_driver :: "conn \<Rightarrow> DriverType" where
  "conn_driver (PostgresDB _) = DriverPostgreSQL"
| "conn_driver (SQLite3DB _) = DriverSQLite3"

definition attempt :: "string option \<Rightarrow> string \<Rightarrow> string + 'a \<Rightarrow> string + 'a" where
  "attempt r msg k = (case r of Some e \<Rightarrow> Inl (msg @ '': '' @ e) | None \<Rightarrow> k)"

definition NewPostgresDB :: "drivers \<Rightarrow> string \<Rightarrow> string + conn" where
  "NewPostgresDB D dsn =
     attempt (pgx_New D dsn) ''failed to create postgres pool'' (
     attempt (pgx_Ping D dsn) ''failed to ping postgres'' (Inr (PostgresDB dsn)))"

text \<open>The directory that is created for a data source, when one is.\<close>

definition sqlite_dir :: "string \<Rightarrow> string option" where
  "sqlite_dir dsn = (if dsn \<noteq> '':memory:'' \<and> dsn \<noteq> ''file::memory:?cache=shared''
     then let dir = Dir (takeWhile (\<lambda>c. c \<noteq> CHR ''?'') dsn) in if dir \<noteq> ''.'' \<and> dir \<noteq> [] then Some dir else None
     else None)"

definition NewSQLite3DB :: "drivers \<Rightarrow> string \<Rightarrow> string + conn" where
  "NewSQLite3DB D dsn =
     attempt (case sqlite_dir dsn of None \<Rightarrow> None | Some dir \<Rightarrow> os_MkdirAll D dir) ''failed to create directory for sqlite3'' (
     attempt (sql_Open D dsn) ''failed to open sqlite3'' (
     attempt (sql_pragma D dsn) ''failed to enable foreign keys'' (
     attempt (sql_Ping D dsn) ''failed to ping sqlite3'' (Inr (SQLite3DB dsn)))))"

definition NewDB :: "drivers \<Rightarrow> DriverType \<Rightarrow> string \<Rightarrow> string + conn" where
  "NewDB D driverType dsn =
     (if driverType = DriverPostgreSQL then NewPostgresDB D dsn
      else if driverType = DriverSQLite3 then NewSQLite3DB D dsn
      else Inl (''unsupported driver type: '' @ driverType))"

lemma NewDB_driver: "NewDB D driverType dsn = Inr c \<Longrightarrow> conn_driver c = driverType"
  by (auto simp: NewDB_def NewPostgresDB_def NewSQLite3DB_def attempt_def DriverPostgreSQL_def DriverSQLite3_def
      split: if_splits option.splits)

lemma NewDB_known: "NewDB D driverType dsn = Inr c \<Longrightarrow> driverType = DriverPostgreSQL \<or> driverType = DriverSQLite3"
  by (auto simp: NewDB_def split: if_splits)

lemma NewDialect_simps [simp]:
  "NewDialect DriverPostgreSQL = PostgresDialect" "NewDialect DriverSQLite3 = SQLite3Dialect"
  by (simp_all add: NewDialect_def DriverPostgreSQL_def DriverSQLite3_def)

end
