(* ===== verification/Schema.thy ===== *)
theory Schema
  imports World Dialect
begin

text \<open>
  The tables, keys and indexes: \<open>dao/init.go\<close> (both dialects, with the migration of older databases) and
  \<open>InitDBTable\<close> of \<open>common/ensure_database.go\<close> (PostgreSQL). A statement is executed on a catalog and on the rows; its
  effect is the documented one of PostgreSQL, and of SQLite where the program sends it there.
\<close>

section \<open>Catalog\<close>

text \<open>
  The names of the tables and of the indexes that the program names, as they stand in the statements. PostgreSQL makes
  up the names of the indexes of a primary key and of a unique key of a table (\<open>departments_tenant_id_name_key\<close>), and of
  the sequence of a serial column (\<open>users_uid_seq\<close>).
\<close>

datatype table = T_users | T_tenants | T_permission | T_departments | T_user_closure | T_tenant_closure | T_organizations | T_org_members

datatype index =
    idx_departments_org_id
  | idx_departments_parent_id
  | idx_departments_tenant_id
  | idx_departments_uid
  | idx_org_members_tenant_id
  | idx_org_members_uid
  | idx_organizations_tenant_id
  | idx_permission_domain
  | idx_permission_tenant_id
  | idx_tenant_closure_ancestor
  | idx_tenant_closure_ancestor_id
  | idx_tenant_closure_descendant
  | idx_tenant_closure_tenant_id
  | idx_tenants_tenant_name
  | idx_user_closure_ancestor
  | idx_user_closure_descendant
  | idx_users_tenant_id

datatype index_name = Pkey table | Key table "string list" | Named index

type_synonym seq_name = "table \<times> string"

record column =
  c_name :: string
  c_type :: string
  c_notnull :: bool
  c_default :: "string option"
  c_ref :: "(table \<times> string) option"

text \<open>
  Tables by name with their columns. A unique key is an index like any other: the table, the columns, and that it is
  unique. A sequence has its last value.
\<close>

record catalog =
  ct_tables :: "(table \<times> column list) list"
  ct_indexes :: "(index_name \<times> (table \<times> string list \<times> bool)) list"
  ct_seqs :: "(seq_name \<times> nat) list"

text \<open>The database behind a connection; the faults are those of the statements to come.\<close>

record schema_db =
  sc_catalog :: catalog
  sc_rows :: db
  sc_faults :: "string option list"

definition col :: "string \<Rightarrow> string \<Rightarrow> column" where
  "col n t = \<lparr>c_name = n, c_type = t, c_notnull = False, c_default = None, c_ref = None\<rparr>"

definition notnull :: "column \<Rightarrow> column" where
  "notnull c = c\<lparr>c_notnull := True\<rparr>"

definition dflt :: "string \<Rightarrow> column \<Rightarrow> column" where
  "dflt d c = c\<lparr>c_notnull := True, c_default := Some d\<rparr>"

definition refers :: "table \<Rightarrow> string \<Rightarrow> column \<Rightarrow> column" where
  "refers t k c = c\<lparr>c_ref := Some (t, k)\<rparr>"

section \<open>Statements\<close>

text \<open>
  Every \<open>CREATE\<close> has \<open>IF NOT EXISTS\<close>. \<open>CreateTable\<close> lists the columns, the primary key and the unique keys;
  \<open>AddColumn\<close> fills the column of the rows that are there with its default, 0 in the one use;
  \<open>RaiseSequence\<close> is the block that restarts a sequence at 10000 when it is below, guarded by a test for its existence or not.
\<close>

datatype ddl =
    CreateTable table "column list" "string list" "string list list"
  | CreateIndex index_name table "string list"
  | CreateUniqueIndex index_name table "string list"
  | AddColumn table column
  | DropConstraint table index_name
  | RaiseSequence seq_name bool
  | DedupMembers
  | DedupDepartments
  | DedupOrgs

text \<open>Rows that a unique index would refuse; the tables for which the program makes one by a statement of its own.\<close>

definition clash :: "table \<Rightarrow> string list \<Rightarrow> db \<Rightarrow> bool" where
  "clash t cols d \<longleftrightarrow>
     (if t = T_organizations \<and> cols = [''tenant_id'', ''name''] then \<not> distinct (map (\<lambda>o'. (o_TenantID o', o_Name o')) (organizations d))
      else if t = T_departments \<and> cols = [''tenant_id'', ''org_id'', ''name'']
        then \<not> distinct (map (\<lambda>x. (d_TenantID x, d_OrgID x, d_Name x)) (departments d))
      else False)"

text \<open>
  \<open>ROW_NUMBER() OVER (PARTITION BY tenant_id, name ORDER BY id) > 1\<close>: another organization of the tenant with the
  name has a smaller identifier.
\<close>

definition later_duplicate :: "db \<Rightarrow> u64 \<Rightarrow> bool" where
  "later_duplicate d i \<longleftrightarrow> list_ex (\<lambda>o'. o_ID o' = i \<and>
     list_ex (\<lambda>p. o_TenantID p = o_TenantID o' \<and> o_Name p = o_Name o' \<and> o_ID p < o_ID o') (organizations d)) (organizations d)"

definition col_names :: "column list \<Rightarrow> string list" where
  "col_names cols = map c_name cols"

definition has_columns :: "catalog \<Rightarrow> table \<Rightarrow> string list \<Rightarrow> bool" where
  "has_columns c t cols \<longleftrightarrow> (case map_of (ct_tables c) t of None \<Rightarrow> False | Some cs \<Rightarrow> list_all (\<lambda>n. n \<in> set (col_names cs)) cols)"

definition add_index :: "bool \<Rightarrow> index_name \<Rightarrow> table \<Rightarrow> string list \<Rightarrow> schema_db \<Rightarrow> (string, unit) res \<times> schema_db" where
  "add_index uniq n t cols s = (let c = sc_catalog s in
     if map_of (ct_indexes c) n \<noteq> None then (Ret (), s)
     else if \<not> has_columns c t cols then (Err ''does not exist'', s)
     else if uniq \<and> clash t cols (sc_rows s) then (Err ''could not create unique index'', s)
     else (Ret (), s\<lparr>sc_catalog := c\<lparr>ct_indexes := ct_indexes c @ [(n, t, cols, uniq)]\<rparr>\<rparr>))"

text \<open>The serial columns of a new table.\<close>

definition serials :: "table \<Rightarrow> column list \<Rightarrow> (seq_name \<times> nat) list" where
  "serials t cols = map (\<lambda>c. ((t, c_name c), 1)) (filter (\<lambda>c. c_type c = ''BIGSERIAL'') cols)"

definition rows_need :: "catalog \<Rightarrow> table list \<Rightarrow> bool" where
  "rows_need c ts \<longleftrightarrow> list_all (\<lambda>t. map_of (ct_tables c) t \<noteq> None) ts"

fun exec_ddl :: "dialect \<Rightarrow> ddl \<Rightarrow> schema_db \<Rightarrow> (string, unit) res \<times> schema_db" where
  "exec_ddl dl (CreateTable t cols pk uniqs) s = (let c = sc_catalog s in
     if map_of (ct_tables c) t \<noteq> None then (Ret (), s)
     else (Ret (), s\<lparr>sc_catalog := c\<lparr>ct_tables := ct_tables c @ [(t, cols)],
       ct_indexes := ct_indexes c @ (Pkey t, t, pk, True) # map (\<lambda>u. (Key t u, t, u, True)) uniqs,
       ct_seqs := ct_seqs c @ serials t cols\<rparr>\<rparr>))"
| "exec_ddl dl (CreateIndex n t cols) s = add_index False n t cols s"
| "exec_ddl dl (CreateUniqueIndex n t cols) s = add_index True n t cols s"
| "exec_ddl dl (AddColumn t x) s = (case dl of
       SQLite3Dialect \<Rightarrow> (Err ''near EXISTS: syntax error'', s)
     | PostgresDialect \<Rightarrow> (let c = sc_catalog s in
         case map_of (ct_tables c) t of
           None \<Rightarrow> (Err ''relation does not exist'', s)
         | Some cs \<Rightarrow> if c_name x \<in> set (col_names cs) then (Ret (), s)
             else (Ret (), s\<lparr>sc_catalog := c\<lparr>ct_tables := AList.update t (cs @ [x]) (ct_tables c)\<rparr>,
               sc_rows := (if t = T_departments \<and> c_name x = ''org_id''
                 then (sc_rows s)\<lparr>departments := map (\<lambda>r. r\<lparr>d_OrgID := 0\<rparr>) (departments (sc_rows s))\<rparr> else sc_rows s)\<rparr>)))"
| "exec_ddl dl (DropConstraint t n) s = (let c = sc_catalog s in
     if map_of (ct_tables c) t = None then (Err ''relation does not exist'', s)
     else (Ret (), s\<lparr>sc_catalog := c\<lparr>ct_indexes := filter (\<lambda>(m, u, _). \<not> (m = n \<and> u = t)) (ct_indexes c)\<rparr>\<rparr>))"
| "exec_ddl dl (RaiseSequence n guarded) s = (let c = sc_catalog s in
     case map_of (ct_seqs c) n of
       None \<Rightarrow> if guarded then (Ret (), s) else (Err ''relation does not exist'', s)
     | Some v \<Rightarrow> if v < 10000 then (Ret (), s\<lparr>sc_catalog := c\<lparr>ct_seqs := AList.update n 10000 (ct_seqs c)\<rparr>\<rparr>) else (Ret (), s))"
| "exec_ddl dl DedupMembers s = (if rows_need (sc_catalog s) [T_org_members, T_organizations]
     then (Ret (), s\<lparr>sc_rows := (sc_rows s)\<lparr>org_members := filter (\<lambda>m. \<not> later_duplicate (sc_rows s) (m_OrgID m)) (org_members (sc_rows s))\<rparr>\<rparr>)
     else (Err ''relation does not exist'', s))"
| "exec_ddl dl DedupDepartments s = (if rows_need (sc_catalog s) [T_departments, T_organizations]
     then (Ret (), s\<lparr>sc_rows := (sc_rows s)\<lparr>departments := filter (\<lambda>x. \<not> later_duplicate (sc_rows s) (d_OrgID x)) (departments (sc_rows s))\<rparr>\<rparr>)
     else (Err ''relation does not exist'', s))"
| "exec_ddl dl DedupOrgs s = (if rows_need (sc_catalog s) [T_organizations]
     then (Ret (), s\<lparr>sc_rows := (sc_rows s)\<lparr>organizations := filter (\<lambda>o'. \<not> later_duplicate (sc_rows s) (o_ID o')) (organizations (sc_rows s))\<rparr>\<rparr>)
     else (Err ''relation does not exist'', s))"

text \<open>
  One call of \<open>Exec\<close>: without arguments PostgreSQL takes several statements at once and runs them as one transaction.
\<close>

fun run_ddl :: "dialect \<Rightarrow> ddl list \<Rightarrow> schema_db \<Rightarrow> (string, unit) res \<times> schema_db" where
  "run_ddl dl [] s = (Ret (), s)"
| "run_ddl dl (x # xs) s = (case exec_ddl dl x s of (Ret _, s') \<Rightarrow> run_ddl dl xs s' | (r, s') \<Rightarrow> (r, s'))"

type_synonym 'a sprog = "(schema_db, string, 'a) prog"

definition sc_tick :: "schema_db \<Rightarrow> schema_db" where
  "sc_tick s = s\<lparr>sc_faults := tl (sc_faults s)\<rparr>"

definition db_Exec :: "dialect \<Rightarrow> ddl list \<Rightarrow> unit sprog" where
  "db_Exec dl xs = (\<lambda>s. case sc_faults s of
     Some e # _ \<Rightarrow> (Err e, sc_tick s)
   | _ \<Rightarrow> (case run_ddl dl xs (sc_tick s) of (Ret x, s') \<Rightarrow> (Ret x, s') | (r, _) \<Rightarrow> (r, sc_tick s)))"

section \<open>\<open>dao.Init\<close>\<close>

definition getTimestampType :: "dialect \<Rightarrow> string" where
  "getTimestampType dl = (case dl of PostgresDialect \<Rightarrow> ''TIMESTAMPTZ'' | SQLite3Dialect \<Rightarrow> ''TIMESTAMP'')"

definition id_column :: "dialect \<Rightarrow> string \<Rightarrow> column" where
  "id_column dl n = col n (AutoIncrement dl)"

definition stamp :: "dialect \<Rightarrow> string \<Rightarrow> column" where
  "stamp dl n = dflt ''CURRENT_TIMESTAMP'' (col n (getTimestampType dl))"

definition indexes :: "dialect \<Rightarrow> table \<Rightarrow> (index \<times> string list) list \<Rightarrow> unit sprog" where
  "indexes dl t xs = foreach xs (\<lambda>(n, cols). db_Exec dl [CreateIndex (Named n) t cols])"

definition raise_seq :: "dialect \<Rightarrow> DriverType \<Rightarrow> seq_name \<Rightarrow> unit sprog" where
  "raise_seq dl drv n = whenE (drv = DriverPostgreSQL) (db_Exec dl [RaiseSequence n True]) (ret ())"

definition users_columns :: "dialect \<Rightarrow> column list" where
  "users_columns dl = [id_column dl ''uid'', dflt ''0'' (col ''tenant_id'' ''BIGINT''), col ''nickname'' ''VARCHAR(64)'',
     col ''cellphone'' ''VARCHAR(11)'', col ''email'' ''VARCHAR(255)'', col ''wx_openid'' ''VARCHAR(64)'',
     notnull (col ''password'' ''VARCHAR(512)''), col ''avatar_url'' ''VARCHAR(255)'', col ''gender'' ''SMALLINT'',
     col ''addr'' ''VARCHAR(1024)'', col ''province'' ''VARCHAR(64)'', col ''city'' ''VARCHAR(64)'', col ''ext'' (JSONType dl),
     stamp dl ''create_time'', stamp dl ''update_time'', col ''login_time'' (getTimestampType dl)]"

definition createUsersTable :: "dialect \<Rightarrow> DriverType \<Rightarrow> unit sprog" where
  "createUsersTable dl drv =
     tryE (db_Exec dl [CreateTable T_users (users_columns dl) [''uid''] [[''nickname''], [''cellphone''], [''email''], [''wx_openid'']]]) (\<lambda>_.
     tryE (db_Exec dl [CreateIndex (Named idx_users_tenant_id) T_users [''tenant_id'']]) (\<lambda>_.
     raise_seq dl drv (T_users, ''uid'')))"

definition tenants_columns :: "dialect \<Rightarrow> column list" where
  "tenants_columns dl = [id_column dl ''id'', dflt ''0'' (col ''uid'' ''BIGINT''), notnull (col ''tenant_name'' ''VARCHAR(255)''),
     dflt [] (col ''tenant_type'' ''VARCHAR(45)''), col ''info'' (JSONType dl), col ''configuration'' (JSONType dl),
     stamp dl ''create_time'', stamp dl ''update_time'']"

definition createTenantsTable :: "dialect \<Rightarrow> DriverType \<Rightarrow> unit sprog" where
  "createTenantsTable dl drv =
     tryE (db_Exec dl [CreateTable T_tenants (tenants_columns dl) [''id''] [[''tenant_name'']]]) (\<lambda>_.
     tryE (indexes dl T_tenants [(idx_tenants_tenant_name, [''tenant_name''])]) (\<lambda>_.
     raise_seq dl drv (T_tenants, ''id'')))"

definition permission_columns :: "dialect \<Rightarrow> column list" where
  "permission_columns dl = [id_column dl ''id'', notnull (col ''tenant_id'' ''BIGINT''), notnull (col ''domain'' ''VARCHAR(128)''),
     notnull (col ''title'' ''VARCHAR(128)''), notnull (col ''value'' ''VARCHAR(256)''), stamp dl ''create_time'', stamp dl ''update_time'']"

definition createPermissionTable :: "dialect \<Rightarrow> DriverType \<Rightarrow> unit sprog" where
  "createPermissionTable dl drv =
     tryE (db_Exec dl [CreateTable T_permission (permission_columns dl) [''id''] [[''tenant_id'', ''domain'', ''title''], [''value'', ''domain'', ''tenant_id'']]]) (\<lambda>_.
     tryE (indexes dl T_permission [(idx_permission_tenant_id, [''tenant_id'']), (idx_permission_domain, [''domain''])]) (\<lambda>_.
     raise_seq dl drv (T_permission, ''id'')))"

text \<open>The table is made as it was before organizations; the migration below adds the column and the key.\<close>

definition departments_columns :: "dialect \<Rightarrow> column list" where
  "departments_columns dl = [id_column dl ''id'', dflt ''0'' (col ''parent_id'' ''BIGINT''), notnull (col ''uid'' ''BIGINT''),
     notnull (col ''tenant_id'' ''BIGINT''), stamp dl ''create_time'', stamp dl ''update_time'', notnull (col ''name'' ''VARCHAR(16)''),
     col ''config'' (JSONType dl)]"

definition createDepartmentsTable :: "dialect \<Rightarrow> DriverType \<Rightarrow> unit sprog" where
  "createDepartmentsTable dl drv =
     tryE (db_Exec dl [CreateTable T_departments (departments_columns dl) [''id''] [[''tenant_id'', ''name'']]]) (\<lambda>_.
     tryE (indexes dl T_departments [(idx_departments_tenant_id, [''tenant_id'']), (idx_departments_parent_id, [''parent_id'']),
        (idx_departments_uid, [''uid''])]) (\<lambda>_.
     raise_seq dl drv (T_departments, ''id'')))"

definition closure_columns :: "DriverType \<Rightarrow> table \<Rightarrow> string \<Rightarrow> column list" where
  "closure_columns drv t k = (let fk = (if drv = DriverPostgreSQL then refers t k else (\<lambda>c. c)) in
     [notnull (fk (col ''ancestor_id'' ''BIGINT'')), notnull (fk (col ''descendant_id'' ''BIGINT'')), notnull (col ''depth'' ''INT CHECK (depth >= 0)'')])"

definition createUserClosureTable :: "dialect \<Rightarrow> DriverType \<Rightarrow> unit sprog" where
  "createUserClosureTable dl drv =
     tryE (db_Exec dl [CreateTable T_user_closure (closure_columns drv T_users ''uid'') [''ancestor_id'', ''descendant_id''] []]) (\<lambda>_.
     indexes dl T_user_closure [(idx_user_closure_ancestor, [''ancestor_id'']), (idx_user_closure_descendant, [''descendant_id''])])"

definition createTenantClosureTable :: "dialect \<Rightarrow> DriverType \<Rightarrow> unit sprog" where
  "createTenantClosureTable dl drv =
     tryE (db_Exec dl [CreateTable T_tenant_closure (closure_columns drv T_tenants ''id'') [''ancestor_id'', ''descendant_id''] []]) (\<lambda>_.
     indexes dl T_tenant_closure [(idx_tenant_closure_ancestor, [''ancestor_id'']), (idx_tenant_closure_descendant, [''descendant_id''])])"

definition organizations_columns :: "dialect \<Rightarrow> column list" where
  "organizations_columns dl = [id_column dl ''id'', notnull (col ''tenant_id'' ''BIGINT''), notnull (col ''name'' ''VARCHAR(255)''),
     stamp dl ''create_time'', stamp dl ''update_time'']"

definition org_members_columns :: "dialect \<Rightarrow> column list" where
  "org_members_columns dl = [notnull (col ''org_id'' ''BIGINT''), notnull (col ''uid'' ''BIGINT''), notnull (col ''tenant_id'' ''BIGINT''),
     stamp dl ''create_time'']"

definition org_id_column :: column where
  "org_id_column = dflt ''0'' (col ''org_id'' ''BIGINT'')"

definition migrateOrgSchema :: "dialect \<Rightarrow> DriverType \<Rightarrow> unit sprog" where
  "migrateOrgSchema dl drv =
     tryE (db_Exec dl [CreateTable T_organizations (organizations_columns dl) [''id''] []]) (\<lambda>_.
     tryE (db_Exec dl [CreateIndex (Named idx_organizations_tenant_id) T_organizations [''tenant_id'']]) (\<lambda>_.
     tryE (db_Exec dl [CreateTable T_org_members (org_members_columns dl) [''org_id'', ''uid''] []]) (\<lambda>_.
     tryE (db_Exec dl [CreateIndex (Named idx_org_members_uid) T_org_members [''uid'']]) (\<lambda>_.
     tryE (db_Exec dl [CreateIndex (Named idx_org_members_tenant_id) T_org_members [''tenant_id'']]) (\<lambda>_.
     tryE (db_Exec dl [AddColumn T_departments org_id_column]) (\<lambda>_.
     tryE (db_Exec dl [CreateIndex (Named idx_departments_org_id) T_departments [''org_id'']]) (\<lambda>_.
     whenE (drv = DriverPostgreSQL)
       (ignoreE (db_Exec dl [DropConstraint T_departments (Key T_departments [''tenant_id'', ''name''])]) (
        db_Exec dl [CreateUniqueIndex (Key T_departments [''tenant_id'', ''org_id'', ''name'']) T_departments [''tenant_id'', ''org_id'', ''name'']])) (
     foreach [DedupMembers, DedupDepartments, DedupOrgs,
         CreateUniqueIndex (Key T_organizations [''tenant_id'', ''name'']) T_organizations [''tenant_id'', ''name'']]
       (\<lambda>x. db_Exec dl [x])))))))))"

text \<open>Only the first and the last step report an error; those in between are printed.\<close>

definition wrap_text :: "string \<Rightarrow> ('w, string, 'a) prog \<Rightarrow> ('a \<Rightarrow> ('w, string, 'b) prog) \<Rightarrow> ('w, string, 'b) prog" where
  "wrap_text msg m k = handle m (\<lambda>e. throw (msg @ '': '' @ e)) k"

definition initTables :: "dialect \<Rightarrow> DriverType \<Rightarrow> unit sprog" where
  "initTables dl drv =
     wrap_text ''users'' (createUsersTable dl drv) (\<lambda>_.
     ignoreE (createTenantsTable dl drv) (
     ignoreE (createPermissionTable dl drv) (
     ignoreE (createDepartmentsTable dl drv) (
     ignoreE (createUserClosureTable dl drv) (
     ignoreE (createTenantClosureTable dl drv) (
     wrap_text ''organizations'' (migrateOrgSchema dl drv) ret))))))"

text \<open>\<open>Init\<close> opens a connection of its own. The messages are abbreviated.\<close>

definition Init :: "drivers \<Rightarrow> (conn \<Rightarrow> string option) \<Rightarrow> DriverType \<Rightarrow> string \<Rightarrow> unit sprog" where
  "Init D ping driver dsn =
     failIf (driver = [] \<or> dsn = []) ''no database'' (
     case NewDB D driver dsn of
       Inl e \<Rightarrow> throw (''connect: '' @ e)
     | Inr c \<Rightarrow> (case ping c of
           Some e \<Rightarrow> throw (''ping: '' @ e)
         | None \<Rightarrow> wrap_text ''tables'' (initTables (NewDialect driver) (conn_driver c)) ret))"

section \<open>\<open>InitDBTable\<close>\<close>

definition new_departments_columns :: "column list" where
  "new_departments_columns = (let dl = PostgresDialect in
     [id_column dl ''id'', dflt ''0'' (col ''parent_id'' ''BIGINT''), notnull (col ''uid'' ''BIGINT''), notnull (col ''tenant_id'' ''BIGINT''),
      org_id_column, stamp dl ''create_time'', stamp dl ''update_time'', notnull (col ''name'' ''VARCHAR(16)''), col ''config'' (JSONType dl)])"

definition InitDBTable :: "unit sprog" where
  "InitDBTable = (let dl = PostgresDialect; drv = DriverPostgreSQL in
     wrap_text ''users'' (db_Exec dl [CreateTable T_users (users_columns dl) [''uid''] [[''nickname''], [''cellphone''], [''email''], [''wx_openid'']],
       CreateIndex (Named idx_users_tenant_id) T_users [''tenant_id''], RaiseSequence (T_users, ''uid'') False]) (\<lambda>_.
     wrap_text ''tenants'' (db_Exec dl [CreateTable T_tenants (tenants_columns dl) [''id''] [[''tenant_name'']],
       CreateIndex (Named idx_tenants_tenant_name) T_tenants [''tenant_name''], RaiseSequence (T_tenants, ''id'') False]) (\<lambda>_.
     wrap_text ''permission'' (db_Exec dl [CreateTable T_permission (permission_columns dl) [''id''] [[''tenant_id'', ''domain'', ''title''], [''value'', ''domain'', ''tenant_id'']],
       CreateIndex (Named idx_permission_tenant_id) T_permission [''tenant_id''], CreateIndex (Named idx_permission_domain) T_permission [''domain''],
       RaiseSequence (T_permission, ''id'') False]) (\<lambda>_.
     wrap_text ''departments'' (db_Exec dl [CreateTable T_departments new_departments_columns [''id''] [[''tenant_id'', ''org_id'', ''name'']],
       CreateIndex (Named idx_departments_tenant_id) T_departments [''tenant_id''], CreateIndex (Named idx_departments_parent_id) T_departments [''parent_id''],
       CreateIndex (Named idx_departments_uid) T_departments [''uid''], CreateIndex (Named idx_departments_org_id) T_departments [''org_id''],
       RaiseSequence (T_departments, ''id'') False]) (\<lambda>_.
     wrap_text ''user_closure'' (db_Exec dl [CreateTable T_user_closure (closure_columns drv T_users ''uid'') [''ancestor_id'', ''descendant_id''] [],
       CreateIndex (Named idx_user_closure_ancestor) T_user_closure [''ancestor_id''], CreateIndex (Named idx_user_closure_descendant) T_user_closure [''descendant_id'']]) (\<lambda>_.
     wrap_text ''tenant_closure'' (db_Exec dl [CreateTable T_tenant_closure (closure_columns drv T_tenants ''id'') [''ancestor_id'', ''descendant_id''] [],
       CreateIndex (Named idx_tenant_closure_tenant_id) T_tenant_closure [''ancestor_id''], CreateIndex (Named idx_tenant_closure_ancestor_id) T_tenant_closure [''descendant_id'']]) (\<lambda>_.
     wrap_text ''organizations'' (db_Exec dl [CreateTable T_organizations (organizations_columns dl) [''id''] [[''tenant_id'', ''name'']],
       CreateIndex (Named idx_organizations_tenant_id) T_organizations [''tenant_id''], RaiseSequence (T_organizations, ''id'') True,
       CreateTable T_org_members (org_members_columns dl) [''org_id'', ''uid''] [],
       CreateIndex (Named idx_org_members_uid) T_org_members [''uid''], CreateIndex (Named idx_org_members_tenant_id) T_org_members [''tenant_id'']]) ret)))))))"

section \<open>Programs that only succeed in a certain way\<close>

definition ensures :: "('w \<Rightarrow> bool) \<Rightarrow> ('w, 'e, 'a) prog \<Rightarrow> ('w \<Rightarrow> bool) \<Rightarrow> bool" where
  "ensures I m Q \<longleftrightarrow> (\<forall>s y s'. I s \<longrightarrow> m s = (Ret y, s') \<longrightarrow> Q s')"

lemma ensures_handle:
  assumes "preserves I m" "\<And>e. ensures I (h e) Q" "\<And>x. ensures I (k x) Q"
  shows "ensures I (handle m h k) Q"
  unfolding ensures_def
proof (intro allI impI)
  fix s y s' assume "I s" and run: "handle m h k s = (Ret y, s')"
  then have "I (snd (m s))" using preservesD [OF assms(1)] by blast
  then show "Q s'" using run assms(2,3) by (auto simp: handle_def ensures_def split: prod.splits res.splits)
qed

lemma ensures_throw: "ensures I (throw e) Q"
  by (simp add: ensures_def throw_def)

lemma ensures_tryE: "preserves I m \<Longrightarrow> (\<And>x. ensures I (k x) Q) \<Longrightarrow> ensures I (tryE m k) Q"
  unfolding tryE_def by (rule ensures_handle [OF _ ensures_throw])

lemma ensures_ignoreE: "preserves I m \<Longrightarrow> ensures I k Q \<Longrightarrow> ensures I (ignoreE m k) Q"
  unfolding ignoreE_def by (rule ensures_handle)

lemma ensures_whenE: "preserves I m \<Longrightarrow> ensures I k Q \<Longrightarrow> ensures I (whenE c m k) Q"
  unfolding whenE_def by (auto intro: ensures_tryE)

lemma ensures_wrap_text: "preserves I m \<Longrightarrow> (\<And>x. ensures I (k x) Q) \<Longrightarrow> ensures I (wrap_text msg m k) Q"
  unfolding wrap_text_def by (rule ensures_handle [OF _ ensures_throw])

lemma ensures_last: "ensures I m Q \<Longrightarrow> ensures I (wrap_text msg m ret) Q"
  by (auto simp: wrap_text_def handle_def throw_def ret_def ensures_def split: prod.splits res.splits)

lemma preserves_wrap_text [pres_intros]: "preserves I m \<Longrightarrow> (\<And>x. preserves I (k x)) \<Longrightarrow> preserves I (wrap_text msg m k)"
  unfolding wrap_text_def by (intro pres_intros)

lemmas ensures_intros = ensures_tryE ensures_ignoreE ensures_whenE ensures_wrap_text

text \<open>A predicate that each statement of a call keeps and that does not mention the faults is kept by the call.\<close>

definition fault_free :: "(schema_db \<Rightarrow> bool) \<Rightarrow> bool" where
  "fault_free I \<longleftrightarrow> (\<forall>s f. I s \<longrightarrow> I (s\<lparr>sc_faults := f\<rparr>))"

lemma run_ddl_keeps:
  "\<forall>x \<in> set xs. \<forall>s. I s \<longrightarrow> I (snd (exec_ddl dl x s)) \<Longrightarrow> I s \<Longrightarrow> I (snd (run_ddl dl xs s))"
proof (induction xs arbitrary: s)
  case (Cons x xs)
  then have "I (snd (exec_ddl dl x s))" by simp
  then show ?case using Cons by (auto split: prod.splits res.splits)
qed simp

lemma preserves_db_Exec:
  assumes "fault_free I" "\<forall>x \<in> set xs. \<forall>s. I s \<longrightarrow> I (snd (exec_ddl dl x s))"
  shows "preserves I (db_Exec dl xs)"
proof (rule preservesI)
  fix s assume "I s"
  then have t: "I (sc_tick s)" using assms(1) by (simp add: fault_free_def sc_tick_def)
  then have "I (snd (run_ddl dl xs (sc_tick s)))" by (rule run_ddl_keeps [OF assms(2)])
  with t show "I (snd (db_Exec dl xs s))" unfolding db_Exec_def by (auto split: list.splits option.splits prod.splits res.splits)
qed

section \<open>The duplicates\<close>

definition deduped :: "db \<Rightarrow> db" where
  "deduped d = d\<lparr>org_members := filter (\<lambda>m. \<not> later_duplicate d (m_OrgID m)) (org_members d),
     departments := filter (\<lambda>x. \<not> later_duplicate d (d_OrgID x)) (departments d),
     organizations := filter (\<lambda>o'. \<not> later_duplicate d (o_ID o')) (organizations d)\<rparr>"

text \<open>The rows are \<open>d\<close>, and departments have the column that the migration would add.\<close>

definition migrated :: "db \<Rightarrow> schema_db \<Rightarrow> bool" where
  "migrated d s \<longleftrightarrow> sc_rows s = d \<and> has_columns (sc_catalog s) T_departments [''org_id'']"

lemma migrated_fault_free: "fault_free (migrated d)"
  by (simp add: fault_free_def migrated_def)

lemma has_columns_update:
  "has_columns c T_departments [n] \<Longrightarrow> map_of (ct_tables c) t = Some cs \<Longrightarrow>
   has_columns (c\<lparr>ct_tables := AList.update t (cs @ [x]) (ct_tables c)\<rparr>) T_departments [n]"
  by (auto simp: has_columns_def update_conv col_names_def split: option.splits)

fun row_free :: "ddl \<Rightarrow> bool" where
  "row_free DedupMembers \<longleftrightarrow> False"
| "row_free DedupDepartments \<longleftrightarrow> False"
| "row_free DedupOrgs \<longleftrightarrow> False"
| "row_free (AddColumn t x) \<longleftrightarrow> t = T_departments \<and> c_name x = ''org_id''"
| "row_free _ \<longleftrightarrow> True"

lemma row_free_migrated: "row_free x \<Longrightarrow> migrated d s \<Longrightarrow> migrated d (snd (exec_ddl dl x s))"
  by (cases x)
    (auto simp: migrated_def add_index_def has_columns_def Let_def map_add_def split: option.splits dialect.splits)

lemma preserves_migrated: "list_all row_free xs \<Longrightarrow> preserves (migrated d) (db_Exec dl xs)"
  by (intro preserves_db_Exec migrated_fault_free) (auto simp: list_all_iff row_free_migrated)

lemma db_Exec_Ret:
  "db_Exec dl [x] s = (Ret y, s') \<Longrightarrow> exec_ddl dl x (sc_tick s) = (Ret (), s')"
  by (auto simp: db_Exec_def split: list.splits option.splits prod.splits res.splits)

lemma tick_fields [simp]: "sc_rows (sc_tick s) = sc_rows s" "sc_catalog (sc_tick s) = sc_catalog s"
  by (simp_all add: sc_tick_def)

lemma tryE_RetD: "tryE m k s = (Ret y, s') \<Longrightarrow> \<exists>x s1. m s = (Ret x, s1) \<and> k x s1 = (Ret y, s')"
  by (auto simp: tryE_def handle_def throw_def split: prod.splits res.splits)

lemma ensures_dedup:
  "ensures (migrated d) (foreach [DedupMembers, DedupDepartments, DedupOrgs, CreateUniqueIndex n t cols] (\<lambda>x. db_Exec dl [x]))
     (\<lambda>s'. sc_rows s' = deduped d)"
  unfolding ensures_def
proof (intro allI impI)
  fix s y s' assume I: "migrated d s" and "foreach [DedupMembers, DedupDepartments, DedupOrgs, CreateUniqueIndex n t cols] (\<lambda>x. db_Exec dl [x]) s = (Ret y, s')"
  then obtain s1 s2 s3 where e: "exec_ddl dl DedupMembers (sc_tick s) = (Ret (), s1)" "exec_ddl dl DedupDepartments (sc_tick s1) = (Ret (), s2)"
    "exec_ddl dl DedupOrgs (sc_tick s2) = (Ret (), s3)" "exec_ddl dl (CreateUniqueIndex n t cols) (sc_tick s3) = (Ret (), s')"
    by (auto simp: ret_def dest!: tryE_RetD db_Exec_Ret)
  have same: "later_duplicate d' = later_duplicate d" if "organizations d' = organizations d" for d'
    using that by (simp add: later_duplicate_def fun_eq_iff)
  have "sc_rows s1 = d\<lparr>org_members := filter (\<lambda>m. \<not> later_duplicate d (m_OrgID m)) (org_members d)\<rparr>"
    using e(1) I by (auto simp: migrated_def split: if_splits)
  then have "sc_rows s2 = (sc_rows s1)\<lparr>departments := filter (\<lambda>x. \<not> later_duplicate d (d_OrgID x)) (departments d)\<rparr>" "organizations (sc_rows s2) = organizations d"
    using e(2) same [of "sc_rows s1"] by (auto split: if_splits)
  then have "sc_rows s3 = (sc_rows s2)\<lparr>organizations := filter (\<lambda>o'. \<not> later_duplicate d (o_ID o')) (organizations d)\<rparr>"
    using e(3) same [of "sc_rows s2"] by (auto split: if_splits)
  moreover have "sc_rows s' = sc_rows s3" using e(4) by (auto simp: add_index_def Let_def split: if_splits)
  ultimately show "sc_rows s' = deduped d"
    using \<open>sc_rows s1 = _\<close> \<open>sc_rows s2 = _\<close> by (simp add: deduped_def)
qed

lemmas table_defs = createUsersTable_def createTenantsTable_def createPermissionTable_def createDepartmentsTable_def
  createUserClosureTable_def createTenantClosureTable_def indexes_def raise_seq_def

lemma preserves_prod_case [pres_intros]: "(\<And>a b. p = (a, b) \<Longrightarrow> preserves I (f a b)) \<Longrightarrow> preserves I (case p of (a, b) \<Rightarrow> f a b)"
  by (cases p) simp

lemma ensures_initTables: "ensures (migrated d) (initTables dl drv) (\<lambda>s'. sc_rows s' = deduped d)"
proof -
  have [pres_intros]: "preserves (migrated d) (db_Exec dl xs)" if "list_all row_free xs" for xs
    using that by (rule preserves_migrated)
  show ?thesis unfolding initTables_def migrateOrgSchema_def
    by (intro ensures_intros ensures_last ensures_dedup; (unfold table_defs)?; (intro pres_intros)?)
      (simp_all add: org_id_column_def dflt_def col_def)
qed

section \<open>Running the statements on a known catalog\<close>

text \<open>The columns by name, and the sequences a table brings.\<close>

lemmas col_defs = col_def notnull_def dflt_def refers_def id_column_def stamp_def getTimestampType_def

lemmas columns_defs = users_columns_def tenants_columns_def permission_columns_def departments_columns_def closure_columns_def
  organizations_columns_def org_members_columns_def org_id_column_def new_departments_columns_def

lemma column_names [simp]:
  "col_names (users_columns dl) = [''uid'', ''tenant_id'', ''nickname'', ''cellphone'', ''email'', ''wx_openid'', ''password'', ''avatar_url'',
     ''gender'', ''addr'', ''province'', ''city'', ''ext'', ''create_time'', ''update_time'', ''login_time'']"
  "col_names (tenants_columns dl) = [''id'', ''uid'', ''tenant_name'', ''tenant_type'', ''info'', ''configuration'', ''create_time'', ''update_time'']"
  "col_names (permission_columns dl) = [''id'', ''tenant_id'', ''domain'', ''title'', ''value'', ''create_time'', ''update_time'']"
  "col_names (departments_columns dl) = [''id'', ''parent_id'', ''uid'', ''tenant_id'', ''create_time'', ''update_time'', ''name'', ''config'']"
  "col_names (closure_columns drv t k) = [''ancestor_id'', ''descendant_id'', ''depth'']"
  "col_names (organizations_columns dl) = [''id'', ''tenant_id'', ''name'', ''create_time'', ''update_time'']"
  "col_names (org_members_columns dl) = [''org_id'', ''uid'', ''tenant_id'', ''create_time'']"
  "col_names new_departments_columns = [''id'', ''parent_id'', ''uid'', ''tenant_id'', ''org_id'', ''create_time'', ''update_time'', ''name'', ''config'']"
  "c_name org_id_column = ''org_id''" "col_names (cs @ ds) = col_names cs @ col_names ds" "col_names [c] = [c_name c]"
  by (simp_all add: columns_defs col_defs col_names_def Let_def)

lemma column_serials [simp]:
  "serials t (users_columns PostgresDialect) = [((t, ''uid''), 1)]"
  "serials t (tenants_columns PostgresDialect) = [((t, ''id''), 1)]"
  "serials t (permission_columns PostgresDialect) = [((t, ''id''), 1)]"
  "serials t (departments_columns PostgresDialect) = [((t, ''id''), 1)]"
  "serials t (organizations_columns PostgresDialect) = [((t, ''id''), 1)]"
  "serials t (org_members_columns dl) = []" "serials t (closure_columns drv u k) = []"
  "serials t new_departments_columns = [((t, ''id''), 1)]"
  by (cases dl; simp add: columns_defs col_defs serials_def Let_def)+

lemma steps:
  "wrap_text msg m k s = (case m s of (Ret x, s') \<Rightarrow> k x s' | (Err e, s') \<Rightarrow> (Err (msg @ '': '' @ e), s') | (Panic, s') \<Rightarrow> (Panic, s'))"
  "tryE m k s = (case m s of (Ret x, s') \<Rightarrow> k x s' | (Err e, s') \<Rightarrow> (Err e, s') | (Panic, s') \<Rightarrow> (Panic, s'))"
  "ignoreE m n s = (case m s of (Ret x, s') \<Rightarrow> n s' | (Err e, s') \<Rightarrow> n s' | (Panic, s') \<Rightarrow> (Panic, s'))"
  "ret x s = (Ret x, s)"
  by (simp_all add: wrap_text_def tryE_def ignoreE_def handle_def throw_def ret_def split: prod.splits res.splits)

text \<open>A connection without faults; each statement in terms of the three lists of the catalog.\<close>

definition on_catalog ::
  "(table \<times> column list) list \<Rightarrow> (index_name \<times> (table \<times> string list \<times> bool)) list \<Rightarrow> (seq_name \<times> nat) list \<Rightarrow> db \<Rightarrow> schema_db"
where
  "on_catalog ts ix sq d = \<lparr>sc_catalog = \<lparr>ct_tables = ts, ct_indexes = ix, ct_seqs = sq\<rparr>, sc_rows = d, sc_faults = []\<rparr>"

lemma Exec_on: "db_Exec dl xs (on_catalog ts ix sq d) = (case run_ddl dl xs (on_catalog ts ix sq d) of (Ret x, s') \<Rightarrow> (Ret x, s') | (r, _) \<Rightarrow> (r, on_catalog ts ix sq d))"
  by (auto simp: db_Exec_def sc_tick_def on_catalog_def split: prod.splits res.splits)

lemma run_on:
  "run_ddl dl [] s = (Ret (), s)"
  "run_ddl dl (CreateTable t cl pk us # xs) (on_catalog ts ix sq d) = (if map_of ts t = None
     then run_ddl dl xs (on_catalog (ts @ [(t, cl)]) (ix @ (Pkey t, t, pk, True) # map (\<lambda>u. (Key t u, t, u, True)) us) (sq @ serials t cl) d)
     else run_ddl dl xs (on_catalog ts ix sq d))"
  "run_ddl dl (CreateIndex n t cols # xs) (on_catalog ts ix sq d) = (if map_of ix n \<noteq> None then run_ddl dl xs (on_catalog ts ix sq d)
     else case map_of ts t of None \<Rightarrow> (Err ''does not exist'', on_catalog ts ix sq d)
     | Some cs \<Rightarrow> if list_all (\<lambda>n. n \<in> set (col_names cs)) cols then run_ddl dl xs (on_catalog ts (ix @ [(n, t, cols, False)]) sq d)
       else (Err ''does not exist'', on_catalog ts ix sq d))"
  "run_ddl dl (CreateUniqueIndex n t cols # xs) (on_catalog ts ix sq d) = (if map_of ix n \<noteq> None then run_ddl dl xs (on_catalog ts ix sq d)
     else case map_of ts t of None \<Rightarrow> (Err ''does not exist'', on_catalog ts ix sq d)
     | Some cs \<Rightarrow> if list_all (\<lambda>n. n \<in> set (col_names cs)) cols
       then if clash t cols d then (Err ''could not create unique index'', on_catalog ts ix sq d) else run_ddl dl xs (on_catalog ts (ix @ [(n, t, cols, True)]) sq d)
       else (Err ''does not exist'', on_catalog ts ix sq d))"
  "run_ddl PostgresDialect (AddColumn t x # xs) (on_catalog ts ix sq d) = (case map_of ts t of None \<Rightarrow> (Err ''relation does not exist'', on_catalog ts ix sq d)
     | Some cs \<Rightarrow> if c_name x \<in> set (col_names cs) then run_ddl PostgresDialect xs (on_catalog ts ix sq d)
       else run_ddl PostgresDialect xs (on_catalog (AList.update t (cs @ [x]) ts) ix sq
         (if t = T_departments \<and> c_name x = ''org_id'' then d\<lparr>departments := map (\<lambda>r. r\<lparr>d_OrgID := 0\<rparr>) (departments d)\<rparr> else d)))"
  "run_ddl dl (DropConstraint t n # xs) (on_catalog ts ix sq d) = (if map_of ts t = None then (Err ''relation does not exist'', on_catalog ts ix sq d)
     else run_ddl dl xs (on_catalog ts (filter (\<lambda>(m, u, _). \<not> (m = n \<and> u = t)) ix) sq d))"
  "run_ddl dl (RaiseSequence m g # xs) (on_catalog ts ix sq d) = (case map_of sq m of
       None \<Rightarrow> if g then run_ddl dl xs (on_catalog ts ix sq d) else (Err ''relation does not exist'', on_catalog ts ix sq d)
     | Some v \<Rightarrow> run_ddl dl xs (on_catalog ts ix (if v < 10000 then AList.update m 10000 sq else sq) d))"
  by (auto simp: on_catalog_def add_index_def has_columns_def Let_def split: option.splits)

lemma run_dedup:
  "run_ddl dl (DedupMembers # xs) (on_catalog ts ix sq d) = (if list_all (\<lambda>t. map_of ts t \<noteq> None) [T_org_members, T_organizations]
     then run_ddl dl xs (on_catalog ts ix sq (d\<lparr>org_members := filter (\<lambda>m. \<not> later_duplicate d (m_OrgID m)) (org_members d)\<rparr>))
     else (Err ''relation does not exist'', on_catalog ts ix sq d))"
  "run_ddl dl (DedupDepartments # xs) (on_catalog ts ix sq d) = (if list_all (\<lambda>t. map_of ts t \<noteq> None) [T_departments, T_organizations]
     then run_ddl dl xs (on_catalog ts ix sq (d\<lparr>departments := filter (\<lambda>m. \<not> later_duplicate d (d_OrgID m)) (departments d)\<rparr>))
     else (Err ''relation does not exist'', on_catalog ts ix sq d))"
  "run_ddl dl (DedupOrgs # xs) (on_catalog ts ix sq d) = (if list_all (\<lambda>t. map_of ts t \<noteq> None) [T_organizations]
     then run_ddl dl xs (on_catalog ts ix sq (d\<lparr>organizations := filter (\<lambda>o'. \<not> later_duplicate d (o_ID o')) (organizations d)\<rparr>))
     else (Err ''relation does not exist'', on_catalog ts ix sq d))"
  by (auto simp: on_catalog_def rows_need_def)

lemmas ddl_eval = steps Exec_on run_on run_dedup

section \<open>A new database\<close>

definition no_rows :: db where
  "no_rows = \<lparr>users = [], tenants = [], tenant_closure = [], user_closure = [], departments = [], permissions = [], organizations = [], org_members = []\<rparr>"

lemma no_rows_simps [simp]:
  "organizations no_rows = []" "departments no_rows = []" "org_members no_rows = []" "clash t cols no_rows = False"
  "no_rows\<lparr>departments := []\<rparr> = no_rows" "no_rows\<lparr>organizations := []\<rparr> = no_rows" "no_rows\<lparr>org_members := []\<rparr> = no_rows"
  by (simp_all add: no_rows_def clash_def)

definition empty_schema :: schema_db where
  "empty_schema = on_catalog [] [] [] no_rows"

definition columns_of :: "catalog \<Rightarrow> table \<Rightarrow> column set option" where
  "columns_of c t = map_option set (map_of (ct_tables c) t)"

definition unique_keys :: "catalog \<Rightarrow> (table \<times> string list) set" where
  "unique_keys c = set (map (\<lambda>(n, t, cols, u). (t, cols)) (filter (\<lambda>(n, t, cols, u). u) (ct_indexes c)))"

text \<open>The schema before organizations, and what the migration adds to it.\<close>

definition old_tables :: "(table \<times> column list) list" where
  "old_tables = [(T_users, users_columns PostgresDialect), (T_tenants, tenants_columns PostgresDialect),
     (T_permission, permission_columns PostgresDialect), (T_departments, departments_columns PostgresDialect),
     (T_user_closure, closure_columns DriverPostgreSQL T_users ''uid''), (T_tenant_closure, closure_columns DriverPostgreSQL T_tenants ''id'')]"

definition old_indexes :: "(index_name \<times> (table \<times> string list \<times> bool)) list" where
  "old_indexes =
    [(Pkey T_users, T_users, [''uid''], True), (Key T_users [''nickname''], T_users, [''nickname''], True),
     (Key T_users [''cellphone''], T_users, [''cellphone''], True), (Key T_users [''email''], T_users, [''email''], True),
     (Key T_users [''wx_openid''], T_users, [''wx_openid''], True), (Named idx_users_tenant_id, T_users, [''tenant_id''], False),
     (Pkey T_tenants, T_tenants, [''id''], True), (Key T_tenants [''tenant_name''], T_tenants, [''tenant_name''], True),
     (Named idx_tenants_tenant_name, T_tenants, [''tenant_name''], False),
     (Pkey T_permission, T_permission, [''id''], True),
     (Key T_permission [''tenant_id'', ''domain'', ''title''], T_permission, [''tenant_id'', ''domain'', ''title''], True),
     (Key T_permission [''value'', ''domain'', ''tenant_id''], T_permission, [''value'', ''domain'', ''tenant_id''], True),
     (Named idx_permission_tenant_id, T_permission, [''tenant_id''], False), (Named idx_permission_domain, T_permission, [''domain''], False),
     (Pkey T_departments, T_departments, [''id''], True),
     (Key T_departments [''tenant_id'', ''name''], T_departments, [''tenant_id'', ''name''], True),
     (Named idx_departments_tenant_id, T_departments, [''tenant_id''], False), (Named idx_departments_parent_id, T_departments, [''parent_id''], False),
     (Named idx_departments_uid, T_departments, [''uid''], False),
     (Pkey T_user_closure, T_user_closure, [''ancestor_id'', ''descendant_id''], True),
     (Named idx_user_closure_ancestor, T_user_closure, [''ancestor_id''], False),
     (Named idx_user_closure_descendant, T_user_closure, [''descendant_id''], False),
     (Pkey T_tenant_closure, T_tenant_closure, [''ancestor_id'', ''descendant_id''], True),
     (Named idx_tenant_closure_ancestor, T_tenant_closure, [''ancestor_id''], False),
     (Named idx_tenant_closure_descendant, T_tenant_closure, [''descendant_id''], False)]"

definition old_seqs :: "(seq_name \<times> nat) list" where
  "old_seqs = [((T_users, ''uid''), 10000), ((T_tenants, ''id''), 10000), ((T_permission, ''id''), 10000), ((T_departments, ''id''), 10000)]"

lemma initTables_old:
  "initTables PostgresDialect DriverPostgreSQL empty_schema =
     wrap_text ''organizations'' (migrateOrgSchema PostgresDialect DriverPostgreSQL) ret (on_catalog old_tables old_indexes old_seqs no_rows)"
  unfolding initTables_def empty_schema_def createUsersTable_def createTenantsTable_def createPermissionTable_def
    createDepartmentsTable_def createUserClosureTable_def createTenantClosureTable_def whenE_def raise_seq_def indexes_def
  by (simp del: run_ddl.simps exec_ddl.simps add: ddl_eval old_tables_def old_indexes_def old_seqs_def)

definition migrated_tables :: "(table \<times> column list) list" where
  "migrated_tables = AList.update T_departments (departments_columns PostgresDialect @ [org_id_column]) old_tables
     @ [(T_organizations, organizations_columns PostgresDialect), (T_org_members, org_members_columns PostgresDialect)]"

definition migrated_indexes :: "(index_name \<times> (table \<times> string list \<times> bool)) list" where
  "migrated_indexes = filter (\<lambda>(n, _). n \<noteq> Key T_departments [''tenant_id'', ''name'']) old_indexes
    @ [(Pkey T_organizations, T_organizations, [''id''], True), (Named idx_organizations_tenant_id, T_organizations, [''tenant_id''], False),
     (Pkey T_org_members, T_org_members, [''org_id'', ''uid''], True), (Named idx_org_members_uid, T_org_members, [''uid''], False),
     (Named idx_org_members_tenant_id, T_org_members, [''tenant_id''], False),
     (Named idx_departments_org_id, T_departments, [''org_id''], False),
     (Key T_departments [''tenant_id'', ''org_id'', ''name''], T_departments, [''tenant_id'', ''org_id'', ''name''], True),
     (Key T_organizations [''tenant_id'', ''name''], T_organizations, [''tenant_id'', ''name''], True)]"

definition in_default_org :: "db \<Rightarrow> db" where
  "in_default_org d = d\<lparr>departments := map (\<lambda>r. r\<lparr>d_OrgID := 0\<rparr>) (departments d)\<rparr>"

text \<open>Rows of a database from before organizations: the old unique key of the departments holds.\<close>

definition old_rows :: "db \<Rightarrow> bool" where
  "old_rows d \<longleftrightarrow> organizations d = [] \<and> org_members d = [] \<and> distinct (map (\<lambda>x. (d_TenantID x, d_Name x)) (departments d))"

lemma no_duplicates: "organizations d = [] \<Longrightarrow> later_duplicate d = (\<lambda>_. False)"
  by (simp add: later_duplicate_def fun_eq_iff)

lemma old_rows_simps:
  assumes "old_rows d"
  shows "organizations (in_default_org d) = []" "org_members (in_default_org d) = []"
    "later_duplicate (in_default_org d) = (\<lambda>_. False)"
    "(in_default_org d)\<lparr>departments := departments (in_default_org d)\<rparr> = in_default_org d"
    "(in_default_org d)\<lparr>organizations := []\<rparr> = in_default_org d" "(in_default_org d)\<lparr>org_members := []\<rparr> = in_default_org d"
    "clash T_departments [''tenant_id'', ''org_id'', ''name''] (in_default_org d) = False"
    "clash T_organizations [''tenant_id'', ''name''] (in_default_org d) = False"
  using assms by (auto simp: in_default_org_def old_rows_def no_duplicates clash_def comp_def distinct_map inj_on_def)

lemma migrate_old:
  assumes "old_rows d"
  shows "migrateOrgSchema PostgresDialect DriverPostgreSQL (on_catalog old_tables old_indexes old_seqs d) =
     (Ret (), on_catalog migrated_tables migrated_indexes (old_seqs @ [((T_organizations, ''id''), 1)]) (in_default_org d))"
  unfolding migrateOrgSchema_def whenE_def
  by (simp del: run_ddl.simps exec_ddl.simps add: ddl_eval old_tables_def old_indexes_def old_seqs_def migrated_tables_def migrated_indexes_def
      old_rows_simps [OF assms] flip: in_default_org_def)

lemma old_no_rows: "old_rows no_rows" "in_default_org no_rows = no_rows"
  by (simp_all add: old_rows_def in_default_org_def no_rows_def)

definition new_tables :: "(table \<times> column list) list" where
  "new_tables = AList.update T_departments new_departments_columns old_tables
     @ [(T_organizations, organizations_columns PostgresDialect), (T_org_members, org_members_columns PostgresDialect)]"

definition new_indexes :: "(index_name \<times> (table \<times> string list \<times> bool)) list" where
  "new_indexes = take 15 old_indexes
    @ [(Key T_departments [''tenant_id'', ''org_id'', ''name''], T_departments, [''tenant_id'', ''org_id'', ''name''], True),
     (Named idx_departments_tenant_id, T_departments, [''tenant_id''], False), (Named idx_departments_parent_id, T_departments, [''parent_id''], False),
     (Named idx_departments_uid, T_departments, [''uid''], False), (Named idx_departments_org_id, T_departments, [''org_id''], False),
     (Pkey T_user_closure, T_user_closure, [''ancestor_id'', ''descendant_id''], True),
     (Named idx_user_closure_ancestor, T_user_closure, [''ancestor_id''], False),
     (Named idx_user_closure_descendant, T_user_closure, [''descendant_id''], False),
     (Pkey T_tenant_closure, T_tenant_closure, [''ancestor_id'', ''descendant_id''], True),
     (Named idx_tenant_closure_tenant_id, T_tenant_closure, [''ancestor_id''], False),
     (Named idx_tenant_closure_ancestor_id, T_tenant_closure, [''descendant_id''], False),
     (Pkey T_organizations, T_organizations, [''id''], True),
     (Key T_organizations [''tenant_id'', ''name''], T_organizations, [''tenant_id'', ''name''], True),
     (Named idx_organizations_tenant_id, T_organizations, [''tenant_id''], False),
     (Pkey T_org_members, T_org_members, [''org_id'', ''uid''], True), (Named idx_org_members_uid, T_org_members, [''uid''], False),
     (Named idx_org_members_tenant_id, T_org_members, [''tenant_id''], False)]"

lemma InitDBTable_fresh:
  "InitDBTable empty_schema = (Ret (), on_catalog new_tables new_indexes (old_seqs @ [((T_organizations, ''id''), 10000)]) no_rows)"
  unfolding InitDBTable_def empty_schema_def Let_def
  by (simp del: run_ddl.simps exec_ddl.simps add: ddl_eval old_tables_def old_indexes_def old_seqs_def new_tables_def new_indexes_def)

text \<open>The columns of the two tables of departments are the same but for their order.\<close>

lemma new_departments: "set new_departments_columns = set (departments_columns PostgresDialect @ [org_id_column])"
  by (auto simp: new_departments_columns_def departments_columns_def Let_def)

lemma same_columns: "columns_of \<lparr>ct_tables = new_tables, ct_indexes = ix, ct_seqs = sq\<rparr> = columns_of \<lparr>ct_tables = migrated_tables, ct_indexes = ix', ct_seqs = sq'\<rparr>"
  by (auto simp: columns_of_def fun_eq_iff new_tables_def migrated_tables_def map_add_def update_conv new_departments split: option.split)

lemma same_keys: "unique_keys \<lparr>ct_tables = ts, ct_indexes = new_indexes, ct_seqs = sq\<rparr> = unique_keys \<lparr>ct_tables = ts', ct_indexes = migrated_indexes, ct_seqs = sq'\<rparr>"
  by (rule equalityI; simp add: unique_keys_def new_indexes_def migrated_indexes_def old_indexes_def)

text \<open>
  On an empty PostgreSQL database both ways of creating the tables succeed and agree: the same tables with the
  same columns, the same primary and unique keys, and the same sequences, except that only \<open>InitDBTable\<close> starts the
  organizations at 10000.
\<close>

theorem fresh_schemas_agree:
  "case (InitDBTable empty_schema, initTables PostgresDialect DriverPostgreSQL empty_schema) of ((r1, s1), (r2, s2)) \<Rightarrow>
     r1 = Ret () \<and> r2 = Ret () \<and> columns_of (sc_catalog s1) = columns_of (sc_catalog s2)
     \<and> unique_keys (sc_catalog s1) = unique_keys (sc_catalog s2)
     \<and> map_of (ct_seqs (sc_catalog s1)) = (map_of (ct_seqs (sc_catalog s2)))((T_organizations, ''id'') \<mapsto> 10000)
     \<and> map_of (ct_seqs (sc_catalog s2)) (T_organizations, ''id'') = Some 1"
proof -
  have i: "initTables PostgresDialect DriverPostgreSQL empty_schema =
      (Ret (), on_catalog migrated_tables migrated_indexes (old_seqs @ [((T_organizations, ''id''), 1)]) no_rows)"
    by (simp add: initTables_old steps migrate_old old_no_rows)
  have q: "map_of (old_seqs @ [((T_organizations, ''id''), n)]) = (map_of old_seqs)((T_organizations, ''id'') \<mapsto> n)" for n
    by (auto simp: old_seqs_def fun_eq_iff)
  show ?thesis unfolding i InitDBTable_fresh on_catalog_def by (simp del: map_of_append add: q same_columns same_keys)
qed

section \<open>An old database\<close>

lemma initTables_upgrade:
  "initTables PostgresDialect DriverPostgreSQL (on_catalog old_tables old_indexes old_seqs d) =
     wrap_text ''organizations'' (migrateOrgSchema PostgresDialect DriverPostgreSQL) ret (on_catalog old_tables old_indexes old_seqs d)"
  unfolding initTables_def createUsersTable_def createTenantsTable_def createPermissionTable_def
    createDepartmentsTable_def createUserClosureTable_def createTenantClosureTable_def whenE_def raise_seq_def indexes_def
  by (simp del: run_ddl.simps exec_ddl.simps add: ddl_eval old_tables_def old_indexes_def old_seqs_def)

lemma InitDBTable_old:
  "InitDBTable (on_catalog old_tables old_indexes old_seqs d) =
     (Err ''departments: does not exist'', on_catalog old_tables old_indexes old_seqs d)"
  unfolding InitDBTable_def Let_def
  by (simp del: run_ddl.simps exec_ddl.simps add: ddl_eval old_tables_def old_indexes_def old_seqs_def)

text \<open>
  C33. A PostgreSQL database from before organizations is brought up to date by \<open>initTables\<close> alone: its departments get
  the organization 0, and all keys of a new database. \<open>InitDBTable\<close>, the one of the two that the start-up calls for
  PostgreSQL, stops at the index on the missing column and leaves everything as it was.
\<close>

theorem only_initTables_upgrades:
  assumes "old_rows d"
  shows "case (InitDBTable (on_catalog old_tables old_indexes old_seqs d),
      initTables PostgresDialect DriverPostgreSQL (on_catalog old_tables old_indexes old_seqs d)) of ((r1, s1), (r2, s2)) \<Rightarrow>
     r1 = Err ''departments: does not exist'' \<and> s1 = on_catalog old_tables old_indexes old_seqs d
     \<and> r2 = Ret () \<and> columns_of (sc_catalog s2) = columns_of (sc_catalog (snd (InitDBTable empty_schema)))
     \<and> unique_keys (sc_catalog s2) = unique_keys (sc_catalog (snd (InitDBTable empty_schema)))
     \<and> sc_rows s2 = in_default_org d"
  unfolding InitDBTable_old initTables_upgrade InitDBTable_fresh steps migrate_old [OF assms]
  by (simp add: on_catalog_def same_columns [symmetric] same_keys [symmetric])

lemma only_initTables_upgrades_witness:
  "let d = no_rows\<lparr>departments := [\<lparr>d_Id = 10001, d_ParentID = 0, d_UserId = 7, d_TenantID = 1, d_OrgID = 5, d_CreateTime = 0, d_UpdateTime = 0, d_Name = ''a'', d_Config = []\<rparr>]\<rparr>
   in sc_rows (snd (initTables PostgresDialect DriverPostgreSQL (on_catalog old_tables old_indexes old_seqs d))) = in_default_org d
   \<and> fst (InitDBTable (on_catalog old_tables old_indexes old_seqs d)) \<noteq> Ret ()"
proof -
  define d where "d = no_rows\<lparr>departments := [\<lparr>d_Id = 10001, d_ParentID = 0, d_UserId = 7, d_TenantID = 1, d_OrgID = 5, d_CreateTime = 0, d_UpdateTime = 0, d_Name = ''a'', d_Config = []\<rparr>]\<rparr>"
  have "old_rows d" by (simp add: d_def old_rows_def no_rows_def)
  from only_initTables_upgrades [OF this] show ?thesis unfolding d_def [symmetric] Let_def
    by (simp split: prod.splits)
qed

section \<open>Organizations with one name\<close>

lemma later_duplicate_iff:
  assumes "distinct (map o_ID (organizations d))" "x \<in> set (organizations d)"
  shows "later_duplicate d (o_ID x) \<longleftrightarrow>
    (\<exists>p \<in> set (organizations d). o_TenantID p = o_TenantID x \<and> o_Name p = o_Name x \<and> o_ID p < o_ID x)"
proof -
  have "y = x" if "y \<in> set (organizations d)" "o_ID y = o_ID x" for y
    using assms that by (metis distinct_map inj_onD)
  then show ?thesis using assms(2) by (auto simp: later_duplicate_def list_ex_iff)
qed

text \<open>The oldest organization of a name stays.\<close>

lemma oldest:
  assumes d: "distinct (map o_ID (organizations d))" and x: "x \<in> set (organizations d)"
  shows "\<exists>y \<in> set (organizations (deduped d)). o_TenantID y = o_TenantID x \<and> o_Name y = o_Name x \<and> o_ID y \<le> o_ID x"
proof -
  define A where "A = {y \<in> set (organizations d). o_TenantID y = o_TenantID x \<and> o_Name y = o_Name x}"
  have "finite A" "x \<in> A" using x by (auto simp: A_def)
  then obtain y where y: "y \<in> A" "\<forall>z \<in> A. o_ID y \<le> o_ID z"
    using ex_is_arg_min_if_finite [of A o_ID] by (auto simp: is_arg_min_linorder)
  have "\<not> later_duplicate d (o_ID y)"
    using y later_duplicate_iff [OF d, of y] by (auto simp: A_def not_less)
  then show ?thesis using y \<open>x \<in> A\<close> by (auto simp: A_def deduped_def)
qed

lemma deduped_unique:
  assumes "distinct (map o_ID (organizations d))"
  shows "distinct (map (\<lambda>x. (o_TenantID x, o_Name x)) (organizations (deduped d)))"
proof -
  have "x = y" if "x \<in> set (organizations (deduped d))" "y \<in> set (organizations (deduped d))"
    "o_TenantID x = o_TenantID y" "o_Name x = o_Name y" for x y
  proof -
    have xy: "x \<in> set (organizations d)" "y \<in> set (organizations d)" "\<not> later_duplicate d (o_ID x)" "\<not> later_duplicate d (o_ID y)"
      using that(1,2) by (auto simp: deduped_def)
    then have "o_ID x = o_ID y" using that(3,4) later_duplicate_iff [OF assms] by (metis linorder_neqE)
    then show "x = y" using xy(1,2) assms by (metis distinct_map inj_onD)
  qed
  moreover have "distinct (organizations (deduped d))" using assms by (simp add: deduped_def distinct_map)
  ultimately show ?thesis by (auto simp: distinct_map inj_on_def)
qed

text \<open>
  When \<open>initTables\<close> succeeds on a database whose departments know their organization, each name of a tenant is left
  to one organization, the one with the smallest identifier; the members and departments of the others are deleted
  with them, and no other row changes.
\<close>

theorem initTables_dedups:
  assumes "initTables dl drv s = (Ret (), s')" "has_columns (sc_catalog s) T_departments [''org_id'']"
    "distinct (map o_ID (organizations (sc_rows s)))"
  shows "sc_rows s' = deduped (sc_rows s)
    \<and> distinct (map (\<lambda>x. (o_TenantID x, o_Name x)) (organizations (sc_rows s')))
    \<and> (\<forall>x \<in> set (organizations (sc_rows s)). \<exists>y \<in> set (organizations (sc_rows s')).
        o_TenantID y = o_TenantID x \<and> o_Name y = o_Name x \<and> o_ID y \<le> o_ID x)"
proof -
  have "migrated (sc_rows s) s" using assms(2) by (simp add: migrated_def)
  then have "sc_rows s' = deduped (sc_rows s)"
    using ensures_initTables assms(1) unfolding ensures_def by blast
  then show ?thesis using oldest deduped_unique assms(3) by simp
qed

definition two_orgs :: db where
  "two_orgs = no_rows\<lparr>organizations := [\<lparr>o_ID = 5, o_TenantID = 1, o_Name = ''a'', o_CreateTime = 0, o_UpdateTime = 0\<rparr>,
       \<lparr>o_ID = 3, o_TenantID = 1, o_Name = ''a'', o_CreateTime = 0, o_UpdateTime = 0\<rparr>],
     org_members := [\<lparr>m_OrgID = 5, m_UID = 7, m_TenantID = 1, m_CreateTime = 0\<rparr>, \<lparr>m_OrgID = 3, m_UID = 8, m_TenantID = 1, m_CreateTime = 0\<rparr>]\<rparr>"

text \<open>The tables of \<open>two_orgs\<close>: migrated, but for the unique index.\<close>

definition two_orgs_schema :: schema_db where
  "two_orgs_schema = on_catalog migrated_tables (butlast migrated_indexes) (old_seqs @ [((T_organizations, ''id''), 1)]) two_orgs"

lemma two_orgs_later: "later_duplicate two_orgs i \<longleftrightarrow> i = 5"
  by (auto simp: later_duplicate_def two_orgs_def)

lemma two_orgs_dedup:
  "deduped two_orgs = no_rows\<lparr>organizations := [\<lparr>o_ID = 3, o_TenantID = 1, o_Name = ''a'', o_CreateTime = 0, o_UpdateTime = 0\<rparr>],
     org_members := [\<lparr>m_OrgID = 3, m_UID = 8, m_TenantID = 1, m_CreateTime = 0\<rparr>]\<rparr>"
  unfolding deduped_def two_orgs_later by (simp add: two_orgs_def no_rows_def)

lemma dedup_steps:
  "later_duplicate (d\<lparr>org_members := ms\<rparr>) = later_duplicate d" "later_duplicate (d\<lparr>departments := ds\<rparr>) = later_duplicate d"
  by (simp_all add: later_duplicate_def fun_eq_iff)

lemma initTables_two_orgs:
  "initTables PostgresDialect DriverPostgreSQL two_orgs_schema =
     (Ret (), on_catalog migrated_tables migrated_indexes (old_seqs @ [((T_organizations, ''id''), 1)]) (deduped two_orgs))"
proof -
  let ?m = "\<lambda>ix d. on_catalog migrated_tables ix (old_seqs @ [((T_organizations, ''id''), 1)]) d"
  have before: "initTables PostgresDialect DriverPostgreSQL two_orgs_schema =
      wrap_text ''organizations'' (migrateOrgSchema PostgresDialect DriverPostgreSQL) ret two_orgs_schema"
    unfolding initTables_def createUsersTable_def createTenantsTable_def createPermissionTable_def two_orgs_schema_def
      createDepartmentsTable_def createUserClosureTable_def createTenantClosureTable_def whenE_def raise_seq_def indexes_def
    by (simp del: run_ddl.simps exec_ddl.simps add: ddl_eval old_tables_def old_indexes_def old_seqs_def migrated_tables_def migrated_indexes_def)
  have ded: "two_orgs\<lparr>org_members := filter (\<lambda>m. m_OrgID m \<noteq> 5) (org_members two_orgs),
      departments := filter (\<lambda>x. d_OrgID x \<noteq> 5) (departments two_orgs), organizations := filter (\<lambda>x. o_ID x \<noteq> 5) (organizations two_orgs)\<rparr> = deduped two_orgs"
    unfolding deduped_def two_orgs_later by simp
  have free: "clash T_organizations [''tenant_id'', ''name''] (deduped two_orgs) = False"
    by (simp add: two_orgs_dedup clash_def)
  have "migrateOrgSchema PostgresDialect DriverPostgreSQL two_orgs_schema = (Ret (), ?m migrated_indexes (deduped two_orgs))"
    unfolding migrateOrgSchema_def whenE_def two_orgs_schema_def
    by (simp del: run_ddl.simps exec_ddl.simps add: ddl_eval old_tables_def old_indexes_def old_seqs_def migrated_tables_def migrated_indexes_def
        dedup_steps two_orgs_later ded free)
  then show ?thesis unfolding before by (simp add: steps)
qed

lemma initTables_dedups_witness:
  "map o_ID (organizations (sc_rows (snd (initTables PostgresDialect DriverPostgreSQL two_orgs_schema)))) = [3]
   \<and> map m_UID (org_members (sc_rows (snd (initTables PostgresDialect DriverPostgreSQL two_orgs_schema)))) = [8]"
proof -
  have "has_columns (sc_catalog two_orgs_schema) T_departments [''org_id'']" "sc_rows two_orgs_schema = two_orgs"
    by (simp_all add: two_orgs_schema_def on_catalog_def has_columns_def migrated_tables_def old_tables_def)
  moreover have "distinct (map o_ID (organizations two_orgs))" by (simp add: two_orgs_def)
  ultimately show ?thesis
    using initTables_dedups [OF initTables_two_orgs] by (simp add: initTables_two_orgs two_orgs_dedup)
qed

section \<open>Where it fails\<close>

definition never :: "('w, 'e, 'a) prog \<Rightarrow> bool" where
  "never m \<longleftrightarrow> (\<forall>s y s'. m s \<noteq> (Ret y, s'))"

lemma never_ensures: "never m \<longleftrightarrow> ensures (\<lambda>_. True) m (\<lambda>_. False)"
  by (simp add: never_def ensures_def)

lemma ensures_AddColumn: "ensures (\<lambda>_. True) (tryE (db_Exec SQLite3Dialect [AddColumn t c]) k) (\<lambda>_. False)"
  by (simp add: ensures_def tryE_def handle_def throw_def db_Exec_def split: list.splits option.splits)

lemma preserves_True: "preserves (\<lambda>_. True) m"
  by (simp add: preserves_def)

lemma never_migrate: "never (migrateOrgSchema SQLite3Dialect DriverSQLite3)"
  unfolding never_ensures migrateOrgSchema_def by (rule ensures_AddColumn ensures_tryE [OF preserves_True])+

lemma never_initTables: "never (initTables SQLite3Dialect DriverSQLite3)"
  using never_migrate unfolding initTables_def never_ensures by (intro ensures_intros ensures_last preserves_True)

text \<open>On SQLite \<open>Init\<close> comes to a statement that SQLite does not have.\<close>

lemma sqlite_Init_fails:
  "Init D ping DriverSQLite3 dsn s \<noteq> (Ret (), s')"
proof
  assume run: "Init D ping DriverSQLite3 dsn s = (Ret (), s')"
  then obtain c where c: "NewDB D DriverSQLite3 dsn = Inr c" and "ping c = None"
    and "wrap_text ''tables'' (initTables (NewDialect DriverSQLite3) (conn_driver c)) ret s = (Ret (), s')"
    unfolding Init_def failIf_def throw_def by (cases "NewDB D DriverSQLite3 dsn") (simp_all split: if_splits option.splits)
  moreover have "NewDialect DriverSQLite3 = SQLite3Dialect" by (simp add: NewDialect_def DriverSQLite3_def DriverPostgreSQL_def)
  ultimately obtain y s1 where "initTables SQLite3Dialect DriverSQLite3 s = (Ret y, s1)"
    by (auto simp: steps NewDB_driver [OF c] split: prod.splits res.splits)
  then show False using never_initTables unfolding never_def by blast
qed

end
