(* ===== verification/Ensure_Database.thy ===== *)
theory Ensure_Database
  imports Schema
begin

text \<open>
  \<open>common/ensure_database.go\<close>: the parameters of a data source name, and the creation of the database with its tables.
  The server is a parameter where pgx decides (which database a data source name connects to, whether it is well
  formed), and a state otherwise: the databases by name, each with its catalog and rows.
\<close>

section \<open>Data source names\<close>

text \<open>\<open>strings.Fields\<close>; the first argument is the field that is being read.\<close>

fun fields_from :: "string \<Rightarrow> string \<Rightarrow> string list" where
  "fields_from cur [] = (if cur = [] then [] else [cur])"
| "fields_from cur (c # s) =
     (if is_space c then (if cur = [] then fields_from [] s else cur # fields_from [] s) else fields_from (cur @ [c]) s)"

definition Fields :: "string \<Rightarrow> string list" where
  "Fields s = fields_from [] s"

text \<open>\<open>strings.Join(out, " ")\<close>\<close>

fun join_fields :: "string list \<Rightarrow> string" where
  "join_fields [] = []"
| "join_fields [p] = p"
| "join_fields (p # ps) = p @ CHR '' '' # join_fields ps"

definition dsnParam :: "string \<Rightarrow> string \<Rightarrow> string" where
  "dsnParam dsn key = (let prefix = key @ ''='' in
     case find (\<lambda>part. HasPrefix part prefix) (Fields dsn) of None \<Rightarrow> [] | Some part \<Rightarrow> TrimPrefix part prefix)"

definition replaceDSNParam :: "string \<Rightarrow> string \<Rightarrow> string \<Rightarrow> string" where
  "replaceDSNParam dsn key v = (let prefix = key @ ''=''; parts = Fields dsn;
       out = map (\<lambda>part. if HasPrefix part prefix then prefix @ v else part) parts;
       found = list_ex (\<lambda>part. HasPrefix part prefix) parts in
     join_fields (if found then out else out @ [prefix @ v]))"

definition one_field :: "string \<Rightarrow> bool" where
  "one_field p \<longleftrightarrow> p \<noteq> [] \<and> list_all (\<lambda>c. \<not> is_space c) p"

lemma fields_from_one: "list_all (\<lambda>c. \<not> is_space c) cur \<Longrightarrow> p \<in> set (fields_from cur s) \<Longrightarrow> one_field p"
  by (induction cur s rule: fields_from.induct) (auto simp: one_field_def split: if_splits)

lemma Fields_one: "p \<in> set (Fields s) \<Longrightarrow> one_field p"
  unfolding Fields_def by (rule fields_from_one) simp_all

lemma fields_from_append: "list_all (\<lambda>c. \<not> is_space c) p \<Longrightarrow> fields_from cur (p @ s) = fields_from (cur @ p) s"
  by (induction p arbitrary: cur) simp_all

lemma Fields_join: "list_all one_field ps \<Longrightarrow> Fields (join_fields ps) = ps"
proof (induction ps rule: join_fields.induct)
  case (2 p)
  then show ?case using fields_from_append [of p "[]" "[]"] by (simp add: Fields_def one_field_def)
next
  case (3 p q ps)
  have "is_space CHR '' ''" by (simp add: is_space_def)
  with 3 show ?case
    using fields_from_append [of p "[]" "CHR '' '' # join_fields (q # ps)"] by (simp add: Fields_def one_field_def)
qed (simp add: Fields_def)

lemma HasPrefix_append [simp]: "HasPrefix (p @ s) p" "TrimPrefix (p @ s) p = s"
  by (simp_all add: HasPrefix_def TrimPrefix_def)

lemma HasPrefix_split: "HasPrefix s p \<Longrightarrow> \<exists>t. s = p @ t"
  unfolding HasPrefix_def by (metis append_take_drop_id)

lemma takeWhile_key: "c \<notin> set k \<Longrightarrow> takeWhile (\<lambda>x. x \<noteq> c) (k @ c # t) = k"
  by (induction k) auto

text \<open>Two keys cannot both name one field.\<close>

lemma key_unique:
  assumes "HasPrefix part (k @ [c])" "HasPrefix part (k' @ [c])" "c \<notin> set k" "c \<notin> set k'"
  shows "k = k'"
proof -
  obtain t where t: "part = k @ c # t" using HasPrefix_split [OF assms(1)] by auto
  obtain t' where t': "part = k' @ c # t'" using HasPrefix_split [OF assms(2)] by auto
  show ?thesis using takeWhile_key [OF assms(3), of t] takeWhile_key [OF assms(4), of t'] t t' by simp
qed

definition is_key :: "string \<Rightarrow> bool" where
  "is_key k \<longleftrightarrow> list_all (\<lambda>c. \<not> is_space c) k \<and> CHR ''='' \<notin> set k"

lemma Fields_replace:
  assumes "is_key key" "list_all (\<lambda>c. \<not> is_space c) v"
  shows "Fields (replaceDSNParam dsn key v) = (let prefix = key @ ''=''; parts = Fields dsn;
       out = map (\<lambda>part. if HasPrefix part prefix then prefix @ v else part) parts in
     if list_ex (\<lambda>part. HasPrefix part prefix) parts then out else out @ [prefix @ v])"
proof -
  have "one_field (key @ ''='' @ v)" using assms by (simp add: one_field_def is_key_def is_space_def)
  then show ?thesis unfolding replaceDSNParam_def Let_def
    by (intro Fields_join) (auto simp: list_all_iff Fields_one)
qed

lemma find_map_same: "(\<And>x. x \<in> set xs \<Longrightarrow> P (f x) = P x \<and> (P x \<longrightarrow> f x = x)) \<Longrightarrow> find P (map f xs) = find P xs"
  by (induction xs) auto

lemma find_replaced:
  assumes "P y"
  shows "find P (map (\<lambda>x. if P x then y else x) xs) = (if list_ex P xs then Some y else None)"
  using assms by (induction xs) auto

text \<open>The parameter that was written is read again, and every other parameter is as before.\<close>

lemma dsnParam_replaced:
  assumes "is_key key" "list_all (\<lambda>c. \<not> is_space c) v"
  shows "dsnParam (replaceDSNParam dsn key v) key = v"
proof -
  let ?P = "\<lambda>part. HasPrefix part (key @ ''='')"
  have "find ?P (Fields (replaceDSNParam dsn key v)) = Some ((key @ ''='') @ v)"
    using find_replaced [of ?P "(key @ ''='') @ v" "Fields dsn"] HasPrefix_append(1) [of "key @ ''=''" v]
    unfolding Fields_replace [OF assms] Let_def by (cases "list_ex ?P (Fields dsn)") (simp_all add: find_append)
  then show ?thesis by (simp only: dsnParam_def Let_def option.case HasPrefix_append)
qed

lemma dsnParam_kept:
  assumes "is_key key" "list_all (\<lambda>c. \<not> is_space c) v" "is_key key'" "key' \<noteq> key"
  shows "dsnParam (replaceDSNParam dsn key v) key' = dsnParam dsn key'"
proof -
  let ?P = "\<lambda>part. HasPrefix part (key @ ''='')" and ?Q = "\<lambda>part. HasPrefix part (key' @ ''='')"
  have other: "\<not> ?Q part" if "?P part" for part
    using key_unique [of part key "CHR ''=''" key'] that assms by (auto simp: is_key_def)
  have "find ?Q (Fields (replaceDSNParam dsn key v)) = find ?Q (Fields dsn)"
  proof -
    have "\<not> ?Q ((key @ ''='') @ v)" by (rule other) (rule HasPrefix_append)
    moreover from this have "find ?Q (map (\<lambda>part. if ?P part then (key @ ''='') @ v else part) (Fields dsn)) = find ?Q (Fields dsn)"
      by (intro find_map_same) (use other in auto)
    ultimately show ?thesis unfolding Fields_replace [OF assms(1,2)] Let_def
      by (auto simp: find_append simp del: append_assoc split: option.split)
  qed
  then show ?thesis by (simp only: dsnParam_def Let_def)
qed

section \<open>The server\<close>

text \<open>
  What happens while a statement is on its way: nothing, it fails, or another client creates a database meanwhile. A
  new database is empty (a copy of an unchanged \<open>template1\<close>).
\<close>

datatype event = Quiet | Fault string | Meanwhile string

record cluster =
  cl_dbs :: "(string \<times> schema_db) list"
  cl_events :: "event list"

definition create_db :: "string \<Rightarrow> cluster \<Rightarrow> cluster" where
  "create_db n c = (if map_of (cl_dbs c) n = None then c\<lparr>cl_dbs := cl_dbs c @ [(n, empty_schema)]\<rparr> else c)"

definition cl_stmt :: "(cluster \<Rightarrow> (string, 'a) res \<times> cluster) \<Rightarrow> (cluster, string, 'a) prog" where
  "cl_stmt f c = (let c' = c\<lparr>cl_events := tl (cl_events c)\<rparr> in
     case cl_events c of
       Fault e # _ \<Rightarrow> (Err e, c')
     | Meanwhile n # _ \<Rightarrow> f (create_db n c')
     | _ \<Rightarrow> f c')"

text \<open>
  \<open>pgxpool.New\<close> only parses the data source name; the first connection is made by \<open>Ping\<close>. \<open>pg_connects\<close> is the database
  that pgx takes from a data source name.
\<close>

record pgx =
  pg_New :: "string \<Rightarrow> string option"
  pg_connects :: "string \<Rightarrow> string"

definition missing_db :: "string \<Rightarrow> string" where
  "missing_db n = ''database '' @ n @ '' does not exist''"

definition pool_Ping :: "pgx \<Rightarrow> string \<Rightarrow> (cluster, string, unit) prog" where
  "pool_Ping P dsn = cl_stmt (\<lambda>c.
     if map_of (cl_dbs c) (pg_connects P dsn) = None then (Err (missing_db (pg_connects P dsn)), c) else (Ret (), c))"

definition on_pool :: "pgx \<Rightarrow> string \<Rightarrow> (schema_db, string, 'a) prog \<Rightarrow> (cluster, string, 'a) prog" where
  "on_pool P dsn m c = (let n = pg_connects P dsn in
     case map_of (cl_dbs c) n of
       None \<Rightarrow> (Err (missing_db n), c)
     | Some s \<Rightarrow> (case m s of (r, s') \<Rightarrow> (r, c\<lparr>cl_dbs := AList.update n s' (cl_dbs c)\<rparr>)))"

section \<open>\<open>CREATE DATABASE\<close>\<close>

definition dquote :: char where
  "dquote = CHR 0x22"

text \<open>\<open>strings.ReplaceAll(dbName, `"`, `""`)\<close> and the statement that is sent.\<close>

definition safe_name :: "string \<Rightarrow> string" where
  "safe_name n = concat (map (\<lambda>c. if c = dquote then [dquote, dquote] else [c]) n)"

definition create_sql :: "string \<Rightarrow> string" where
  "create_sql dbName = ''CREATE DATABASE '' @ dquote # safe_name dbName @ [dquote]"

text \<open>
  How the server reads it: a quoted identifier ends at the first quotation mark that is not doubled, and the statement
  must end there. Identifiers are taken to be short enough not to be cut off (63 bytes).
\<close>

fun quoted_identifier :: "string \<Rightarrow> string option" where
  "quoted_identifier [] = None"
| "quoted_identifier [c] = (if c = dquote then Some [] else None)"
| "quoted_identifier (c # d # s) =
     (if c = dquote then (if d = dquote then map_option (Cons dquote) (quoted_identifier s) else None)
      else map_option (Cons c) (quoted_identifier (d # s)))"

definition exec_create :: "string \<Rightarrow> cluster \<Rightarrow> (string, unit) res \<times> cluster" where
  "exec_create sql c = (let p = ''CREATE DATABASE '' @ [dquote] in
     case (if HasPrefix sql p then quoted_identifier (TrimPrefix sql p) else None) of
       None \<Rightarrow> (Err ''syntax error'', c)
     | Some n \<Rightarrow> if map_of (cl_dbs c) n = None then (Ret (), create_db n c) else (Err (''database '' @ n @ '' already exists''), c))"

lemma quoted_cons: "quoted_identifier (c # s) = (if c = dquote
    then (case s of [] \<Rightarrow> Some [] | d # s' \<Rightarrow> if d = dquote then map_option (Cons dquote) (quoted_identifier s') else None)
    else (case s of [] \<Rightarrow> None | _ \<Rightarrow> map_option (Cons c) (quoted_identifier s)))"
  by (cases s) simp_all

text \<open>Whatever the name contains, the server reads the name and nothing after it.\<close>

lemma quoted_safe: "quoted_identifier (safe_name n @ [dquote]) = Some n"
proof (induction n)
  case (Cons c n)
  have "safe_name n @ [dquote] \<noteq> []" by simp
  then obtain d s where ds: "safe_name n @ [dquote] = d # s" by (cases "safe_name n @ [dquote]") blast+
  have step: "safe_name (c # n) @ [dquote] = (if c = dquote then dquote # dquote # safe_name n @ [dquote] else c # safe_name n @ [dquote])"
    by (simp add: safe_name_def)
  show ?case unfolding step using Cons.IH by (simp add: quoted_cons [of c] quoted_cons [of dquote "dquote # _"] ds)
qed (simp add: safe_name_def)

lemma exec_create_sql:
  "exec_create (create_sql n) c = (if map_of (cl_dbs c) n = None then (Ret (), create_db n c) else (Err (''database '' @ n @ '' already exists''), c))"
proof -
  have "create_sql n = (''CREATE DATABASE '' @ [dquote]) @ safe_name n @ [dquote]" by (simp add: create_sql_def)
  then show ?thesis unfolding exec_create_def Let_def by (simp only: HasPrefix_append quoted_safe if_True option.case)
qed

section \<open>\<open>EnsureDatabase\<close>\<close>

fun Contains :: "string \<Rightarrow> string \<Rightarrow> bool" where
  "Contains [] sub \<longleftrightarrow> sub = []"
| "Contains (c # s) sub \<longleftrightarrow> HasPrefix (c # s) sub \<or> Contains s sub"

definition pool_New :: "pgx \<Rightarrow> string \<Rightarrow> string \<Rightarrow> (cluster, string, 'a) prog \<Rightarrow> (cluster, string, 'a) prog" where
  "pool_New P dsn msg k = (case pg_New P dsn of Some e \<Rightarrow> throw (msg @ '': '' @ e) | None \<Rightarrow> k)"

definition ensurePostgresDatabase :: "pgx \<Rightarrow> string \<Rightarrow> string \<Rightarrow> (cluster, string, unit) prog" where
  "ensurePostgresDatabase P dsn dbName = (let adminDSN = replaceDSNParam dsn ''dbname'' ''postgres'' in
     pool_New P adminDSN ''connect postgres'' (
     wrap_text ''connect postgres'' (pool_Ping P adminDSN) (\<lambda>_.
     wrap_text ''check'' (cl_stmt (\<lambda>c. (Ret (map_of (cl_dbs c) dbName \<noteq> None), c))) (\<lambda>exists.
     if exists then ret ()
     else handle (cl_stmt (exec_create (create_sql dbName)))
       (\<lambda>e. if Contains e ''already exists'' then ret () else throw (''create '' @ dbName @ '': '' @ e)) ret))))"

definition EnsureDatabase :: "pgx \<Rightarrow> string \<Rightarrow> string \<Rightarrow> (cluster, string, unit) prog" where
  "EnsureDatabase P driver dsn =
     failIf (dsn = []) ''db_dsn is empty'' (
     if driver \<noteq> [] \<and> driver \<noteq> DriverPostgreSQL then ret ()
     else let dbName = dsnParam dsn ''dbname'' in
       failIf (dbName = []) ''db_dsn lacks dbname'' (
       whenE (dbName \<noteq> ''postgres'') (ensurePostgresDatabase P dsn dbName) (
       pool_New P dsn ''connect'' (
       wrap_text ''connect'' (pool_Ping P dsn) (\<lambda>_.
       wrap_text ''tables'' (on_pool P dsn InitDBTable) ret)))))"

section \<open>What is there afterwards\<close>

text \<open>No statement fails, and other clients create databases of \<open>M\<close> only.\<close>

definition calm :: "string set \<Rightarrow> cluster \<Rightarrow> bool" where
  "calm M c \<longleftrightarrow> (\<forall>e \<in> set (cl_events c). e = Quiet \<or> (\<exists>m \<in> M. e = Meanwhile m))"

definition grows :: "string set \<Rightarrow> cluster \<Rightarrow> cluster \<Rightarrow> bool" where
  "grows M c c' \<longleftrightarrow> (\<forall>m. map_of (cl_dbs c') m = map_of (cl_dbs c) m
     \<or> m \<in> M \<and> map_of (cl_dbs c) m = None \<and> map_of (cl_dbs c') m = Some empty_schema)"

lemma grows_refl [intro]: "grows M c c"
  by (simp add: grows_def)

lemma grows_trans: "grows M c c' \<Longrightarrow> grows M c' c'' \<Longrightarrow> grows M c c''"
  unfolding grows_def by metis

lemma grows_mono: "grows M c c' \<Longrightarrow> M \<subseteq> M' \<Longrightarrow> grows M' c c'"
  unfolding grows_def by blast

lemma grows_Some: "grows M c c' \<Longrightarrow> map_of (cl_dbs c) m = Some s \<Longrightarrow> map_of (cl_dbs c') m = Some s"
  unfolding grows_def by (metis option.distinct(1))

lemma grows_create: "m \<in> M \<Longrightarrow> grows M c (create_db m c)"
  by (auto simp: grows_def create_db_def map_add_def split: option.splits)

lemma create_db_simps [simp]: "cl_events (create_db m c) = cl_events c" "map_of (cl_dbs (create_db m c)) m = Some (case map_of (cl_dbs c) m of None \<Rightarrow> empty_schema | Some s \<Rightarrow> s)"
  by (auto simp: create_db_def map_add_def split: option.splits)

lemma set_tl_subset: "set (tl xs) \<subseteq> set xs"
  by (cases xs) auto

lemma wp_cl_stmt:
  assumes "calm M c" "\<And>c'. calm M c' \<Longrightarrow> grows M c c' \<Longrightarrow> wp f Q E c'"
  shows "wp (cl_stmt f) Q E c"
proof -
  let ?c = "c\<lparr>cl_events := tl (cl_events c)\<rparr>"
  have calm: "calm M ?c" "\<And>m. calm M (create_db m ?c)"
    using assms(1) set_tl_subset [of "cl_events c"] by (auto simp: calm_def)
  have same: "grows M c ?c" by (simp add: grows_def)
  show ?thesis
  proof (cases "cl_events c")
    case Nil
    then show ?thesis using assms(2) [OF calm(1) same] by (simp add: wp_def cl_stmt_def Let_def)
  next
    case (Cons e es)
    then consider "e = Quiet" | m where "e = Meanwhile m" "m \<in> M" using assms(1) by (auto simp: calm_def)
    then show ?thesis
    proof cases
      case 1
      then show ?thesis using Cons assms(2) [OF calm(1) same] by (simp add: wp_def cl_stmt_def Let_def)
    next
      case 2
      then have "grows M c (create_db m ?c)" using same grows_create grows_trans by blast
      then show ?thesis using 2 Cons assms(2) [OF calm(2)] by (simp add: wp_def cl_stmt_def Let_def)
    qed
  qed
qed

lemma wp_wrap_text [wp_simps]: "wp (wrap_text msg m k) Q E = wp m (\<lambda>x. wp (k x) Q E) (\<lambda>e. E (msg @ '': '' @ e))"
  unfolding wrap_text_def by (simp add: wp_simps)

lemma wp_Ping:
  assumes "calm M c" "map_of (cl_dbs c) (pg_connects P dsn) \<noteq> None"
  shows "wp (pool_Ping P dsn) (\<lambda>_ c'. calm M c' \<and> grows M c c') E c"
  unfolding pool_Ping_def by (rule wp_cl_stmt [OF assms(1)]) (use assms(2) grows_Some in \<open>fastforce simp: wp_def\<close>)

lemma Contains_append: "Contains (s @ t) t"
  by (induction s) (use HasPrefix_append(1) [of t "[]"] in \<open>cases t; simp\<close>)+

lemma wp_ensure:
  assumes "calm M c" "map_of (cl_dbs c) ''postgres'' \<noteq> None" "\<And>d. pg_New P d = None"
    "pg_connects P (replaceDSNParam dsn ''dbname'' ''postgres'') = ''postgres''"
  shows "wp (ensurePostgresDatabase P dsn n) (\<lambda>_ c'. calm M c' \<and> grows (insert n M) c c' \<and> map_of (cl_dbs c') n \<noteq> None) (\<lambda>_ _. False) c"
proof -
  let ?Q = "\<lambda>_ c'. calm M c' \<and> grows (insert n M) c c' \<and> map_of (cl_dbs c') n \<noteq> None"
  have create: "wp (handle (cl_stmt (exec_create (create_sql n)))
      (\<lambda>e. if Contains e ''already exists'' then ret () else throw (''create '' @ n @ '': '' @ e)) ret) ?Q (\<lambda>_ _. False) c2"
    if c2: "calm M c2" "grows M c c2" for c2
    unfolding wp_handle
  proof (rule wp_cl_stmt [OF c2(1)])
    fix c3 assume c3: "calm M c3" "grows M c2 c3"
    then have g: "grows (insert n M) c c3" using c2(2) grows_trans grows_mono by (metis subset_insertI)
    have "Contains (''database '' @ n @ '' already exists'') ''already exists''"
      using Contains_append [of "''database '' @ n @ '' ''" "''already exists''"] by simp
    then show "wp (exec_create (create_sql n)) (\<lambda>x. wp (ret x) ?Q (\<lambda>_ _. False))
        (\<lambda>e. wp (if Contains e ''already exists'' then ret () else throw (''create '' @ n @ '': '' @ e)) ?Q (\<lambda>_ _. False)) c3"
      using c3 g grows_trans [OF g grows_create [of n "insert n M"]]
      by (auto simp: wp_def exec_create_sql ret_def calm_def simp del: append.simps)
  qed
  have exists: "wp (wrap_text ''check'' (cl_stmt (\<lambda>c. (Ret (map_of (cl_dbs c) n \<noteq> None), c))) (\<lambda>exists.
      if exists then ret () else handle (cl_stmt (exec_create (create_sql n)))
       (\<lambda>e. if Contains e ''already exists'' then ret () else throw (''create '' @ n @ '': '' @ e)) ret)) ?Q (\<lambda>_ _. False) c1"
    if c1: "calm M c1" "grows M c c1" for c1
    unfolding wp_wrap_text
  proof (rule wp_cl_stmt [OF c1(1)])
    fix c2 assume c2: "calm M c2" "grows M c1 c2"
    then have g: "grows M c c2" using c1(2) grows_trans by blast
    show "wp (\<lambda>c. (Ret (map_of (cl_dbs c) n \<noteq> None), c)) (\<lambda>x. wp (if x then ret ()
         else handle (cl_stmt (exec_create (create_sql n))) (\<lambda>e. if Contains e ''already exists'' then ret () else throw (''create '' @ n @ '': '' @ e)) ret)
         ?Q (\<lambda>_ _. False)) (\<lambda>e _. False) c2"
      using create [OF c2(1) g] c2(1) grows_mono [OF g, of "insert n M"] by (auto simp: wp_def ret_def)
  qed
  show ?thesis unfolding ensurePostgresDatabase_def Let_def pool_New_def assms(3) option.case wp_wrap_text
  proof (rule wp_mono [OF wp_Ping [OF assms(1)]])
    show "map_of (cl_dbs c) (pg_connects P (replaceDSNParam dsn ''dbname'' ''postgres'')) \<noteq> None" using assms(2,4) by simp
  qed (use exists [unfolded wp_wrap_text] in \<open>auto simp: wp_ret\<close>)
qed

section \<open>Running it again\<close>

text \<open>The sequences of a complete database; every one has left the first 10000 numbers behind.\<close>

definition new_seqs :: "(table \<Rightarrow> nat) \<Rightarrow> (seq_name \<times> nat) list" where
  "new_seqs f = [((T_users, ''uid''), f T_users), ((T_tenants, ''id''), f T_tenants), ((T_permission, ''id''), f T_permission),
     ((T_departments, ''id''), f T_departments), ((T_organizations, ''id''), f T_organizations)]"

definition complete_db :: "(table \<Rightarrow> nat) \<Rightarrow> db \<Rightarrow> schema_db" where
  "complete_db f d = on_catalog new_tables new_indexes (new_seqs f) d"

lemma InitDBTable_first: "InitDBTable empty_schema = (Ret (), complete_db (\<lambda>_. 10000) no_rows)"
  unfolding InitDBTable_fresh complete_db_def by (simp add: new_seqs_def old_seqs_def)

lemma InitDBTable_again:
  assumes "\<And>t. 10000 \<le> f t"
  shows "InitDBTable (complete_db f d) = (Ret (), complete_db f d)"
proof -
  have "\<not> f t < 10000" for t using assms [of t] by simp
  then show ?thesis unfolding InitDBTable_def Let_def complete_db_def
    by (simp del: run_ddl.simps exec_ddl.simps add: ddl_eval old_tables_def old_indexes_def new_seqs_def new_tables_def new_indexes_def)
qed

section \<open>Creating the database\<close>

text \<open>
  Data source names of the form that pgx documents for keyword and value without quotation: fields \<open>key=value\<close>, each
  key once, no quotes or backslashes. For these pgx connects to the database that \<open>dbname\<close> names.
\<close>

definition field_key :: "string \<Rightarrow> string" where
  "field_key p = takeWhile (\<lambda>c. c \<noteq> CHR ''='') p"

definition key_char :: "char \<Rightarrow> bool" where
  "key_char c \<longleftrightarrow> (of_char c :: nat) \<in> {97..122} \<or> c = CHR ''_''"

definition plain_field :: "string \<Rightarrow> bool" where
  "plain_field p \<longleftrightarrow> field_key p \<noteq> [] \<and> field_key p \<noteq> p \<and> list_all key_char (field_key p) \<and> CHR 0x27 \<notin> set p \<and> CHR 0x5C \<notin> set p"

definition plain :: "string \<Rightarrow> bool" where
  "plain dsn \<longleftrightarrow> list_all plain_field (Fields dsn) \<and> distinct (map field_key (Fields dsn))"

definition pgx_reads :: "pgx \<Rightarrow> bool" where
  "pgx_reads P \<longleftrightarrow> (\<forall>dsn. plain dsn \<longrightarrow> pg_connects P dsn = dsnParam dsn ''dbname'')"

lemma field_key_prefix: "HasPrefix p (k @ [CHR ''='']) \<Longrightarrow> CHR ''='' \<notin> set k \<Longrightarrow> field_key p = k"
  using HasPrefix_split [of p "k @ [CHR ''='']"] takeWhile_key by (fastforce simp: field_key_def)

lemma field_key_has: "field_key p = k \<Longrightarrow> k \<noteq> p \<Longrightarrow> HasPrefix p (k @ [CHR ''=''])"
proof -
  assume k: "field_key p = k" "k \<noteq> p"
  then have "dropWhile (\<lambda>c. c \<noteq> CHR ''='') p \<noteq> []" unfolding field_key_def by (metis append_Nil2 takeWhile_dropWhile_id)
  then obtain c t where ct: "dropWhile (\<lambda>c. c \<noteq> CHR ''='') p = c # t" by (cases "dropWhile (\<lambda>c. c \<noteq> CHR ''='') p") blast+
  then have "c = CHR ''=''" using hd_dropWhile [of "\<lambda>c. c \<noteq> CHR ''=''" p] by simp
  then have "p = (k @ [CHR ''='']) @ t" using takeWhile_dropWhile_id [of "\<lambda>c. c \<noteq> CHR ''=''" p] ct k(1) by (simp add: field_key_def)
  then show ?thesis using HasPrefix_append(1) by metis
qed

lemma plain_replace:
  assumes "plain dsn" "is_key k" "list_all key_char k" "k \<noteq> []" "CHR 0x27 \<notin> set v" "CHR 0x5C \<notin> set v" "list_all (\<lambda>c. \<not> is_space c) v"
  shows "plain (replaceDSNParam dsn k v)"
proof -
  let ?P = "\<lambda>part. HasPrefix part (k @ ''='')" and ?n = "(k @ ''='') @ v"
  have eq: "CHR ''='' \<notin> set k" using assms(2) by (simp add: is_key_def)
  have kn: "field_key ?n = k" using field_key_prefix [OF HasPrefix_append(1) eq] by simp
  have q: "CHR 0x27 \<notin> set k" "CHR 0x5C \<notin> set k" using assms(3) by (auto simp: list_all_iff key_char_def)
  have pn: "plain_field ?n" using kn q assms(3-6) by (auto simp: plain_field_def)
  have keys: "map field_key (map (\<lambda>part. if ?P part then ?n else part) (Fields dsn)) = map field_key (Fields dsn)"
    using field_key_prefix [OF _ eq] kn by auto
  have fresh: "k \<notin> set (map field_key (Fields dsn))" if "\<not> list_ex ?P (Fields dsn)"
    using that assms(1) field_key_has by (force simp: list_ex_iff plain_def plain_field_def list_all_iff)
  have all: "list_all plain_field (map (\<lambda>part. if ?P part then ?n else part) (Fields dsn))"
    using assms(1) pn by (auto simp: plain_def list_all_iff)
  show ?thesis
  proof (cases "list_ex ?P (Fields dsn)")
    case True
    then show ?thesis unfolding plain_def Fields_replace [OF assms(2,7)] Let_def
      using all keys assms(1) by (simp add: plain_def del: map_map)
  next
    case False
    have "distinct (map field_key (map (\<lambda>part. if ?P part then ?n else part) (Fields dsn) @ [?n]))"
      unfolding map_append keys using assms(1) fresh [OF False] kn by (simp add: plain_def)
    then show ?thesis unfolding plain_def Fields_replace [OF assms(2,7)] Let_def
      using False all pn by (simp del: map_map append_assoc)
  qed
qed

lemma is_dbname: "is_key ''dbname''" "list_all key_char ''dbname''"
  by (simp_all add: is_key_def is_space_def key_char_def)

lemma postgres_value: "list_all (\<lambda>c. \<not> is_space c) ''postgres''" "CHR 0x27 \<notin> set ''postgres''" "CHR 0x5C \<notin> set ''postgres''"
  by (simp_all add: is_space_def)

lemma admin_connects:
  assumes "pgx_reads P" "plain dsn"
  shows "pg_connects P (replaceDSNParam dsn ''dbname'' ''postgres'') = ''postgres''"
proof -
  have "plain (replaceDSNParam dsn ''dbname'' ''postgres'')"
    by (rule plain_replace [OF assms(2) is_dbname _ postgres_value(2,3,1)]) simp
  then show ?thesis using assms(1) dsnParam_replaced [OF is_dbname(1) postgres_value(1)] by (simp only: pgx_reads_def)
qed

lemma wp_tables:
  assumes "map_of (cl_dbs c) (pg_connects P dsn) = Some s" "InitDBTable s = (Ret (), s')"
  shows "wp (on_pool P dsn InitDBTable) (\<lambda>_ c'. c' = c\<lparr>cl_dbs := AList.update (pg_connects P dsn) s' (cl_dbs c)\<rparr>) E c"
  using assms by (simp add: wp_def on_pool_def Let_def)

lemma wp_EnsureDatabase:
  assumes P: "pgx_reads P" "plain dsn" "\<And>d. pg_New P d = None" and driver: "driver = [] \<or> driver = DriverPostgreSQL"
    and n: "dsnParam dsn ''dbname'' = n" "n \<noteq> []" and c: "calm M c" "map_of (cl_dbs c) ''postgres'' \<noteq> None"
    and target: "map_of (cl_dbs c) n = None \<and> d = no_rows \<and> f = (\<lambda>_. 10000)
      \<or> map_of (cl_dbs c) n = Some (complete_db f d) \<and> (\<forall>t. 10000 \<le> f t)"
  shows "wp (EnsureDatabase P driver dsn) (\<lambda>_ c'. calm M c' \<and> map_of (cl_dbs c') n = Some (complete_db f d)
      \<and> (\<exists>c1. grows (insert n M) c c1 \<and> (\<forall>m. m \<noteq> n \<longrightarrow> map_of (cl_dbs c') m = map_of (cl_dbs c1) m))) (\<lambda>_ _. False) c"
proof -
  let ?Q = "\<lambda>_ c'. calm M c' \<and> map_of (cl_dbs c') n = Some (complete_db f d)
      \<and> (\<exists>c1. grows (insert n M) c c1 \<and> (\<forall>m. m \<noteq> n \<longrightarrow> map_of (cl_dbs c') m = map_of (cl_dbs c1) m))"
  have con: "pg_connects P dsn = n" using P(1,2) n(1) by (simp add: pgx_reads_def)
  have dsn: "dsn \<noteq> []" using n by (auto simp: dsnParam_def Fields_def)
  have tables: "wp (wrap_text ''tables'' (on_pool P dsn InitDBTable) ret) ?Q (\<lambda>_ _. False) c2"
    if c2: "calm M c2" "grows (insert n M) c c2" "map_of (cl_dbs c2) n \<noteq> None" for c2
  proof -
    obtain s where s: "map_of (cl_dbs c2) n = Some s" using c2(3) by blast
    have "InitDBTable s = (Ret (), complete_db f d)"
      using target
    proof
      assume t: "map_of (cl_dbs c) n = None \<and> d = no_rows \<and> f = (\<lambda>_. 10000)"
      then have "s = empty_schema" using c2(2) s unfolding grows_def by (metis option.distinct(1) option.inject)
      then show ?thesis using t InitDBTable_first by simp
    next
      assume t: "map_of (cl_dbs c) n = Some (complete_db f d) \<and> (\<forall>t. 10000 \<le> f t)"
      then have "s = complete_db f d" using grows_Some [OF c2(2)] s by simp
      then show ?thesis using t InitDBTable_again by simp
    qed
    from wp_tables [OF s [folded con] this] have "wp (on_pool P dsn InitDBTable) (\<lambda>_ c'. c' = c2\<lparr>cl_dbs := AList.update n (complete_db f d) (cl_dbs c2)\<rparr>) (\<lambda>_ _. False) c2"
      unfolding con by blast
    then show ?thesis unfolding wp_wrap_text wp_ret
      by (rule wp_mono) (use c2 in \<open>auto simp: calm_def\<close>)
  qed
  have rest: "wp (pool_New P dsn ''connect'' (wrap_text ''connect'' (pool_Ping P dsn) (\<lambda>_.
      wrap_text ''tables'' (on_pool P dsn InitDBTable) ret))) ?Q (\<lambda>_ _. False) c1"
    if c1: "calm M c1" "grows (insert n M) c c1" "map_of (cl_dbs c1) n \<noteq> None" for c1
  proof -
    have "wp (pool_Ping P dsn) (\<lambda>_ c'. calm M c' \<and> grows M c1 c') (\<lambda>_ _. False) c1"
      by (rule wp_Ping [OF c1(1)]) (use con c1(3) in simp)
    then show ?thesis unfolding pool_New_def P(3) option.case wp_wrap_text [of "''connect''"]
    proof (rule wp_mono)
      fix c2 assume c2: "calm M c2 \<and> grows M c1 c2"
      then have "grows (insert n M) c c2" "map_of (cl_dbs c2) n \<noteq> None"
        using grows_trans [OF c1(2) grows_mono [of M c1 c2 "insert n M"]] grows_Some [of M c1 c2 n] c1(3) by blast+
      then show "wp (wrap_text ''tables'' (on_pool P dsn InitDBTable) ret) ?Q (\<lambda>_ _. False) c2" using tables c2 by blast
    qed simp
  qed
  have ensure: "wp (ensurePostgresDatabase P dsn n) (\<lambda>_ c'. calm M c' \<and> grows (insert n M) c c' \<and> map_of (cl_dbs c') n \<noteq> None) (\<lambda>_ _. False) c"
    by (rule wp_ensure [OF c P(3) admin_connects [OF P(1,2)]])
  have driver': "\<not> (driver \<noteq> [] \<and> driver \<noteq> DriverPostgreSQL)" using driver by blast
  have "wp (whenE (n \<noteq> ''postgres'') (ensurePostgresDatabase P dsn n) (pool_New P dsn ''connect'' (wrap_text ''connect'' (pool_Ping P dsn) (\<lambda>_.
      wrap_text ''tables'' (on_pool P dsn InitDBTable) ret)))) ?Q (\<lambda>_ _. False) c"
  proof (cases "n = ''postgres''")
    case True
    then show ?thesis using rest [OF c(1) grows_refl] c(2) unfolding wp_whenE by simp
  next
    case False
    have "wp (ensurePostgresDatabase P dsn n) (\<lambda>_. wp (pool_New P dsn ''connect'' (wrap_text ''connect'' (pool_Ping P dsn) (\<lambda>_.
        wrap_text ''tables'' (on_pool P dsn InitDBTable) ret))) ?Q (\<lambda>_ _. False)) (\<lambda>_ _. False) c"
      using ensure by (rule wp_mono) (use rest in blast)+
    then show ?thesis using False unfolding wp_whenE by simp
  qed
  then show ?thesis unfolding EnsureDatabase_def Let_def wp_failIf n(1) if_not_P [OF driver'] using dsn n(2) by simp
qed

text \<open>
  C37. The database of the configuration is there after \<open>EnsureDatabase\<close>, complete and with its rows, whether it was
  missing or complete before, and also when another client creates it between the test and the creation; every other
  database is as it was. Running it again changes nothing.
\<close>

theorem EnsureDatabase_creates:
  assumes "pgx_reads P" "plain dsn" "\<And>d. pg_New P d = None" "driver = [] \<or> driver = DriverPostgreSQL"
    and "dsnParam dsn ''dbname'' = n" "n \<noteq> []" "calm M c" "map_of (cl_dbs c) ''postgres'' \<noteq> None"
    and "map_of (cl_dbs c) n = None \<and> d = no_rows \<and> f = (\<lambda>_. 10000)
      \<or> map_of (cl_dbs c) n = Some (complete_db f d) \<and> (\<forall>t. 10000 \<le> f t)"
  shows "\<exists>c'. EnsureDatabase P driver dsn c = (Ret (), c') \<and> map_of (cl_dbs c') n = Some (complete_db f d)
    \<and> (\<forall>m. m \<noteq> n \<longrightarrow> map_of (cl_dbs c') m = map_of (cl_dbs c) m
        \<or> m \<in> M \<and> map_of (cl_dbs c) m = None \<and> map_of (cl_dbs c') m = Some empty_schema)"
proof -
  note W = wp_EnsureDatabase [OF assms]
  obtain c' where r: "EnsureDatabase P driver dsn c = (Ret (), c')"
    using W unfolding wp_def by (cases "EnsureDatabase P driver dsn c"; cases "fst (EnsureDatabase P driver dsn c)") auto
  have "map_of (cl_dbs c') n = Some (complete_db f d) \<and> (\<exists>c1. grows (insert n M) c c1 \<and> (\<forall>m. m \<noteq> n \<longrightarrow> map_of (cl_dbs c') m = map_of (cl_dbs c1) m))"
    using wp_Ret [OF r W] by blast
  then show ?thesis using r unfolding grows_def by (metis insert_iff)
qed

text \<open>The database \<open>club\<close>; another client creates it just before the program does. Then everything once more.\<close>

definition sample_pgx :: pgx where
  "sample_pgx = \<lparr>pg_New = \<lambda>_. None, pg_connects = \<lambda>dsn. dsnParam dsn ''dbname''\<rparr>"

definition sample_cluster :: cluster where
  "sample_cluster = \<lparr>cl_dbs = [(''postgres'', empty_schema)], cl_events = [Quiet, Quiet, Meanwhile ''club'']\<rparr>"

lemma EnsureDatabase_creates_witness:
  "\<exists>c'. EnsureDatabase sample_pgx ''postgres'' ''host=db dbname=club'' sample_cluster = (Ret (), c')
    \<and> map_of (cl_dbs c') ''club'' = Some (complete_db (\<lambda>_. 10000) no_rows) \<and> map_of (cl_dbs c') ''postgres'' = Some empty_schema
    \<and> (\<exists>c''. EnsureDatabase sample_pgx ''postgres'' ''host=db dbname=club'' (c'\<lparr>cl_events := []\<rparr>) = (Ret (), c'')
        \<and> map_of (cl_dbs c'') ''club'' = map_of (cl_dbs c') ''club'')"
proof -
  have pl: "plain ''host=db dbname=club''" and db: "dsnParam ''host=db dbname=club'' ''dbname'' = ''club''" by code_simp+
  have pg: "pgx_reads sample_pgx" "\<And>d. pg_New sample_pgx d = None" by (simp_all add: pgx_reads_def sample_pgx_def)
  have calm: "calm {''club''} sample_cluster" "map_of (cl_dbs sample_cluster) ''postgres'' \<noteq> None"
    "map_of (cl_dbs sample_cluster) ''club'' = None \<and> no_rows = no_rows \<and> (\<lambda>_. 10000 :: nat) = (\<lambda>_. 10000)"
    by (auto simp: calm_def sample_cluster_def)
  have drv: "''postgres'' = [] \<or> ''postgres'' = DriverPostgreSQL" by (simp add: DriverPostgreSQL_def)
  note R = EnsureDatabase_creates [OF pg(1) pl pg(2) drv db]
  have ne: "''club'' \<noteq> []" "''postgres'' \<noteq> ''club''" "''postgres'' \<notin> {''club''}" by simp_all
  obtain c' where c': "EnsureDatabase sample_pgx ''postgres'' ''host=db dbname=club'' sample_cluster = (Ret (), c')"
    "map_of (cl_dbs c') ''club'' = Some (complete_db (\<lambda>_. 10000) no_rows)"
    "map_of (cl_dbs c') ''postgres'' = map_of (cl_dbs sample_cluster) ''postgres''"
    using R [OF ne(1) calm(1,2) disjI1 [OF calm(3)]] ne(2,3) by metis
  have again: "calm {} (c'\<lparr>cl_events := []\<rparr>)" "map_of (cl_dbs (c'\<lparr>cl_events := []\<rparr>)) ''postgres'' \<noteq> None"
    "map_of (cl_dbs (c'\<lparr>cl_events := []\<rparr>)) ''club'' = Some (complete_db (\<lambda>_. 10000) no_rows) \<and> (\<forall>t :: table. 10000 \<le> (10000 :: nat))"
    using c' by (auto simp: calm_def sample_cluster_def)
  show ?thesis using R [OF ne(1) again(1,2) disjI2 [OF again(3)]] c' by (auto simp: sample_cluster_def)
qed

end
