(* ===== verification/Startup.thy ===== *)
theory Startup
  imports Ensure_Database User_Face Seed_Root
begin

text \<open>
  How the process starts: \<open>common/common.go\<close>, \<open>init_env.go\<close> and the set-up of \<open>face/http/wx_api.go\<close>. The global
  variables are the record \<open>process\<close>; the database server, the tables behind it and the state of the services stand
  beside it. Reading the configuration file, the log library, Redis and the policy store answer from outside.
\<close>

section \<open>The process\<close>

text \<open>The fields of \<open>protos.OptionStruct\<close> that the start looks at.\<close>

record OptionStruct =
  op_LogDir :: string
  op_LogLevel :: string
  op_AvatarDir :: string
  op_RedisAddr :: string
  op_DBDriver :: string
  op_DBDSN :: string
  op_RootUserID :: u64
  op_RootTenantID :: u64
  op_SessionKey :: string
  op_SessionStoreType :: string
  op_SessionExpire :: int
  op_SmsDriveer :: string
  op_ApiConf :: "(string \<times> bool) list"

definition no_option :: OptionStruct where
  "no_option = \<lparr>op_LogDir = [], op_LogLevel = [], op_AvatarDir = [], op_RedisAddr = [], op_DBDriver = [], op_DBDSN = [], op_RootUserID = 0,
     op_RootTenantID = 0, op_SessionKey = [], op_SessionStoreType = [], op_SessionExpire = 0, op_SmsDriveer = [], op_ApiConf = []\<rparr>"

text \<open>\<open>ServConfig\<close>, \<open>Logger\<close> (set or not), \<open>DB\<close>, \<open>DBPool\<close> and \<open>RedisClient\<close> (their data source), \<open>sessionStore\<close>.\<close>

record process =
  ServConfig :: OptionStruct
  Logger :: bool
  DB :: "conn option"
  DBPool :: "string option"
  RedisClient :: "string option"
  sessionStore :: "CookieStore option"

definition new_process :: process where
  "new_process = \<lparr>ServConfig = no_option, Logger = False, DB = None, DBPool = None, RedisClient = None, sessionStore = None\<rparr>"

text \<open>
  The process, the database server, the one SQLite file, and the services, whose tables are those of the open database.
  The counters of the sequences are kept with the services.
\<close>

record 'c host =
  ho_proc :: process
  ho_cluster :: cluster
  ho_sqlite :: schema_db
  ho_world :: "'c world"

type_synonym ('c, 'a) hprog = "('c host, string, 'a) prog"

text \<open>What the libraries answer: an error message, or nothing for success.\<close>

record outside =
  out_drivers :: drivers
  out_pgx :: pgx
  out_log :: "string \<Rightarrow> string option"
  out_redis :: "string \<Rightarrow> string option"
  out_yaml :: "string \<Rightarrow> OptionStruct \<Rightarrow> string + OptionStruct"
  out_sms :: "string \<Rightarrow> string option"
  out_access :: "string \<Rightarrow> string \<Rightarrow> string \<Rightarrow> string option"
  out_md5 :: "string \<Rightarrow> string"
  out_sha256 :: "string \<Rightarrow> string"

definition on_proc :: "(process \<Rightarrow> process) \<Rightarrow> 'c host \<Rightarrow> 'c host" where
  "on_proc f h = h\<lparr>ho_proc := f (ho_proc h)\<rparr>"

definition on_cluster :: "(cluster, string, 'a) prog \<Rightarrow> ('c, 'a) hprog" where
  "on_cluster m h = (case m (ho_cluster h) of (r, c) \<Rightarrow> (r, h\<lparr>ho_cluster := c\<rparr>))"

section \<open>\<open>common/common.go\<close>\<close>

definition isDatabaseNotExistErr :: "string option \<Rightarrow> bool" where
  "isDatabaseNotExistErr err = (case err of None \<Rightarrow> False | Some e \<Rightarrow>
     let msg = ToLower e in Contains msg ''does not exist'' \<and> Contains msg ''database'')"

definition maskDSN :: "string \<Rightarrow> string" where
  "maskDSN dsn = (if length dsn > 50 then take 20 dsn @ ''...'' else dsn)"

definition GetDialect :: "process \<Rightarrow> dialect" where
  "GetDialect p = (case DB p of None \<Rightarrow> NewDialect DriverPostgreSQL | Some c \<Rightarrow> NewDialect (conn_driver c))"

text \<open>The first connection to the server finds the database or not.\<close>

definition server_drivers :: "outside \<Rightarrow> cluster \<Rightarrow> drivers" where
  "server_drivers X c = (out_drivers X)\<lparr>pgx_New := pg_New (out_pgx X),
     pgx_Ping := (\<lambda>dsn. let n = pg_connects (out_pgx X) dsn in
       if map_of (cl_dbs c) n = None then Some (missing_db n) else pgx_Ping (out_drivers X) dsn)\<rparr>"

fun conn_ping :: "drivers \<Rightarrow> conn \<Rightarrow> string option" where
  "conn_ping D (PostgresDB dsn) = pgx_Ping D dsn"
| "conn_ping D (SQLite3DB dsn) = sql_Ping D dsn"

text \<open>\<open>DB\<close> is assigned in every case, also when the connection fails.\<close>

definition InitDBWithDriver :: "outside \<Rightarrow> string \<Rightarrow> string \<Rightarrow> ('c, unit) hprog" where
  "InitDBWithDriver X driver dsn = reads (\<lambda>h. server_drivers X (ho_cluster h)) (\<lambda>D.
     case NewDB D driver dsn of
       Inl e \<Rightarrow> update (on_proc (\<lambda>p. p\<lparr>DB := None\<rparr>)) (throw (''failed to initialize database: '' @ e))
     | Inr c \<Rightarrow> update (on_proc (\<lambda>p. p\<lparr>DB := Some c\<rparr>)) (
         whenE (driver = DriverPostgreSQL)
           (case pg_New (out_pgx X) dsn of
              Some e \<Rightarrow> update (on_proc (\<lambda>p. p\<lparr>DBPool := None\<rparr>)) (throw e)
            | None \<Rightarrow> update (on_proc (\<lambda>p. p\<lparr>DBPool := Some dsn\<rparr>)) (ret ())) (
         case conn_ping D c of Some e \<Rightarrow> throw (''failed to ping database: '' @ e) | None \<Rightarrow> ret ())))"

definition InitLog :: "outside \<Rightarrow> string \<Rightarrow> string \<Rightarrow> ('c, unit) hprog" where
  "InitLog X logDir logLevel = (case out_log X logLevel of Some e \<Rightarrow> throw e | None \<Rightarrow> update (on_proc (\<lambda>p. p\<lparr>Logger := True\<rparr>)) (ret ()))"

definition InitRedis :: "outside \<Rightarrow> string \<Rightarrow> ('c, unit) hprog" where
  "InitRedis X addr = update (on_proc (\<lambda>p. p\<lparr>RedisClient := Some addr\<rparr>)) (
     if out_redis X addr \<noteq> None then panic else ret ())"

text \<open>The part of \<open>InitWithOption\<close> after the logger.\<close>

definition take_options :: "OptionStruct \<Rightarrow> OptionStruct \<Rightarrow> OptionStruct" where
  "take_options opt cfg = (let cfg = (if op_AvatarDir cfg = [] then cfg\<lparr>op_AvatarDir := ''./avatar/''\<rparr> else cfg);
       cfg = (if op_AvatarDir opt \<noteq> [] then cfg\<lparr>op_AvatarDir := op_AvatarDir opt\<rparr> else cfg) in
     cfg\<lparr>op_SessionStoreType := op_SessionStoreType opt, op_ApiConf := op_ApiConf opt, op_RootUserID := op_RootUserID opt,
       op_RootTenantID := op_RootTenantID opt\<rparr>)"

definition open_and_take :: "outside \<Rightarrow> OptionStruct \<Rightarrow> ('c, unit) hprog" where
  "open_and_take X opt = reads ho_proc (\<lambda>p0.
     whenE (DB p0 = None \<and> op_DBDriver opt \<noteq> [] \<and> op_DBDSN opt \<noteq> []) (InitDBWithDriver X (op_DBDriver opt) (op_DBDSN opt)) (
     reads ho_proc (\<lambda>p1.
     whenE (op_RedisAddr opt \<noteq> [] \<and> RedisClient p1 = None)
       (update (on_proc (\<lambda>p. p\<lparr>ServConfig := (ServConfig p)\<lparr>op_RedisAddr := op_RedisAddr opt\<rparr>\<rparr>)) (InitRedis X (op_RedisAddr opt))) (
     update (on_proc (\<lambda>p. p\<lparr>ServConfig := take_options opt (ServConfig p)\<rparr>)) (ret ())))))"

text \<open>When \<open>InitLog\<close> fails, the variable that is returned is still nil.\<close>

definition InitWithOption :: "outside \<Rightarrow> OptionStruct \<Rightarrow> ('c, unit) hprog" where
  "InitWithOption X opt = reads ho_proc (\<lambda>p.
     if op_LogDir opt \<noteq> [] \<and> \<not> Logger p then handle (InitLog X (op_LogDir opt) (op_LogLevel opt)) (\<lambda>_. ret ()) (\<lambda>_. open_and_take X opt)
     else open_and_take X opt)"

text \<open>\<open>init\<close> of the package, with the configuration file of the command line. Its validator always comes up.\<close>

definition sms_start :: "outside \<Rightarrow> OptionStruct \<Rightarrow> ('c, unit) hprog" where
  "sms_start X cfg = (if op_SmsDriveer cfg \<noteq> [] \<and> out_sms X (op_SmsDriveer cfg) \<noteq> None then panic else ret ())"

definition common_init :: "outside \<Rightarrow> string \<Rightarrow> ('c, unit) hprog" where
  "common_init X file = reads ho_proc (\<lambda>p. case out_yaml X file (ServConfig p) of
       Inl _ \<Rightarrow> ret ()
     | Inr cfg \<Rightarrow> update (on_proc (\<lambda>p. p\<lparr>ServConfig := cfg\<rparr>)) (
         if op_SessionKey cfg = [] then panic
         else handle (InitWithOption X cfg)
           (\<lambda>e. if isDatabaseNotExistErr (Some e) then sms_start X cfg else panic) (\<lambda>_. sms_start X cfg)))"

text \<open>The two places that make a session store.\<close>

definition NewSessionStore :: "outside \<Rightarrow> process \<Rightarrow> CookieStore" where
  "NewSessionStore X p = CookieStore_MaxAge (op_SessionExpire (ServConfig p)) (NewCookieStore [Some SYS_PWD, Some (out_sha256 X SYS_PWD)])"

definition http_store :: "outside \<Rightarrow> process \<Rightarrow> CookieStore" where
  "http_store X p = CookieStore_MaxAge (op_SessionExpire (ServConfig p)) (NewCookieStore [Some SYS_PWD, Some (out_md5 X SYS_PWD)])"

text \<open>Up to the registration of the routes; listening is left out.\<close>

definition rbac_file :: string where
  "rbac_file = ''rbac_with_domains_model.conf''"

definition InitAndRunHttpApi :: "outside \<Rightarrow> OptionStruct option \<Rightarrow> ('c, unit) hprog" where
  "InitAndRunHttpApi X options = handle (case options of None \<Rightarrow> ret () | Some opt \<Rightarrow> InitWithOption X opt) (\<lambda>_. panic) (\<lambda>_.
     reads ho_proc (\<lambda>p. let cfg = ServConfig p in
     if op_DBDriver cfg \<noteq> [] \<and> op_DBDSN cfg \<noteq> [] \<and> out_access X rbac_file (op_DBDriver cfg) (op_DBDSN cfg) \<noteq> None then panic
     else update (on_proc (\<lambda>p. p\<lparr>sessionStore := Some (http_store X p)\<rparr>)) (ret ())))"

section \<open>\<open>init_env.go\<close>\<close>

text \<open>A function of the services runs on the tables of the open connection; without one the call panics.\<close>

fun conn_dsn :: "conn \<Rightarrow> string" where
  "conn_dsn (PostgresDB dsn) = dsn"
| "conn_dsn (SQLite3DB dsn) = dsn"

definition with_rows :: "('c, 'a) dao \<Rightarrow> 'c world \<Rightarrow> schema_db \<Rightarrow> (string, 'a) res \<times> 'c world \<times> schema_db" where
  "with_rows m w s = (case m (w\<lparr>w_db := sc_rows s\<rparr>) of (r, w') \<Rightarrow>
     (case r of Ret x \<Rightarrow> Ret x | Err _ \<Rightarrow> Err ''error'' | Panic \<Rightarrow> Panic, w', s\<lparr>sc_rows := w_db w'\<rparr>))"

definition on_tables :: "outside \<Rightarrow> ('c, 'a) dao \<Rightarrow> ('c, 'a) hprog" where
  "on_tables X m h = (case DB (ho_proc h) of
       None \<Rightarrow> (Panic, h)
     | Some (SQLite3DB dsn) \<Rightarrow> (case with_rows m (ho_world h) (ho_sqlite h) of (r, w', s') \<Rightarrow> (r, h\<lparr>ho_world := w', ho_sqlite := s'\<rparr>))
     | Some (PostgresDB dsn) \<Rightarrow> (let n = pg_connects (out_pgx X) dsn in
         case map_of (cl_dbs (ho_cluster h)) n of
           None \<Rightarrow> (Err (missing_db n), h)
         | Some s \<Rightarrow> (case with_rows m (ho_world h) s of (r, w', s') \<Rightarrow>
             (r, h\<lparr>ho_world := w', ho_cluster := (ho_cluster h)\<lparr>cl_dbs := AList.update n s' (cl_dbs (ho_cluster h))\<rparr>\<rparr>))))"

definition on_sqlite :: "'a sprog \<Rightarrow> ('c, 'a) hprog" where
  "on_sqlite m h = (case m (ho_sqlite h) of (r, s) \<Rightarrow> (r, h\<lparr>ho_sqlite := s\<rparr>))"

text \<open>The first user and the root tenant, the policy store, and the organization of the root tenant.\<close>

definition root_uid :: "OptionStruct \<Rightarrow> u64" where
  "root_uid opt = (if op_RootUserID opt > 0 then op_RootUserID opt else 10000)"

definition root_tid :: "OptionStruct \<Rightarrow> u64" where
  "root_tid opt = (if op_RootTenantID opt > 0 then op_RootTenantID opt else 10000)"

definition seed_options :: "u64 \<Rightarrow> u64 \<Rightarrow> SeedRootOptions" where
  "seed_options uid tid = \<lparr>sd_UID = uid, sd_TenantID = tid, sd_Nickname = [], sd_Password = [], sd_Cellphone = [], sd_Email = [], sd_TenantName = []\<rparr>"

definition seed_all :: "outside \<Rightarrow> 'c env \<Rightarrow> OptionStruct \<Rightarrow> string \<Rightarrow> ('c, unit) hprog" where
  "seed_all X E opt model = (let uid = root_uid opt; tid = root_tid opt in
     wrap_text ''seed root'' (on_tables X (SeedRoot E (Some (seed_options uid tid)))) (\<lambda>_.
     case out_access X model (op_DBDriver opt) (op_DBDSN opt) of Some e \<Rightarrow> throw (''accessctl: '' @ e) | None \<Rightarrow>
     wrap_text ''list organizations'' (on_tables X (OrgListByTenant_dao tid)) (\<lambda>orgs. case orgs of
       [] \<Rightarrow> wrap_text ''create organization'' (on_tables X (OrgCreate E tid ''root'')) (\<lambda>_. ret ())
     | r # _ \<Rightarrow> wrap_text ''bind role'' (on_tables X (AddRoleForUserInDomain (enforcer E) uid tid (o_ID r) ''root'')) ret)))"

definition InitSystemEnvWithRBAC :: "outside \<Rightarrow> 'c env \<Rightarrow> OptionStruct option \<Rightarrow> string \<Rightarrow> ('c, unit) hprog" where
  "InitSystemEnvWithRBAC X E options rbacModel = (case options of None \<Rightarrow> throw ''no options'' | Some opt \<Rightarrow>
     failIf (op_DBDriver opt = [] \<or> op_DBDSN opt = []) ''no database'' (
     let model = (if rbacModel = [] then rbac_file else rbacModel) in
     wrap_text ''ensure database'' (on_cluster (EnsureDatabase (out_pgx X) (op_DBDriver opt) (op_DBDSN opt))) (\<lambda>_.
     reads ho_proc (\<lambda>p.
     whenE (DB p = None) (wrap_text ''open database'' (InitDBWithDriver X (op_DBDriver opt) (op_DBDSN opt)) ret) (
     reads (\<lambda>h. server_drivers X (ho_cluster h)) (\<lambda>D.
     whenE (op_DBDriver opt \<noteq> DriverPostgreSQL)
       (wrap_text ''create tables'' (on_sqlite (Schema.Init D (conn_ping D) (op_DBDriver opt) (op_DBDSN opt))) ret) (
     seed_all X E opt model)))))))"

definition InitSystemEnv :: "outside \<Rightarrow> 'c env \<Rightarrow> OptionStruct option \<Rightarrow> ('c, unit) hprog" where
  "InitSystemEnv X E options = InitSystemEnvWithRBAC X E options rbac_file"

text \<open>\<open>configPath\<close>: the variable \<open>PASSPORT_CONFIG\<close> or the default.\<close>

definition InitDatabaseEnv :: "outside \<Rightarrow> 'c env \<Rightarrow> string \<Rightarrow> ('c, unit) hprog" where
  "InitDatabaseEnv X E PASSPORT_CONFIG = reads (\<lambda>h. ServConfig (ho_proc h)) (\<lambda>cfg0.
     whenE (op_DBDriver cfg0 = [] \<or> op_DBDSN cfg0 = [])
       (case out_yaml X (if PASSPORT_CONFIG = [] then ''./passport.conf.yaml'' else PASSPORT_CONFIG) cfg0 of
          Inl e \<Rightarrow> throw (''configuration: '' @ e)
        | Inr cfg \<Rightarrow> update (on_proc (\<lambda>p. p\<lparr>ServConfig := cfg\<rparr>)) (ret ())) (
     reads ho_proc (\<lambda>p. let cfg = ServConfig p in
     failIf (op_DBDriver cfg = [] \<or> op_DBDSN cfg = []) ''no database'' (
     let start = InitSystemEnv X E (Some cfg) in
     if Logger p then start
     else ignoreE (InitLog X (if op_LogDir cfg = [] then ''./logs'' else op_LogDir cfg) (if op_LogLevel cfg = [] then ''info'' else op_LogLevel cfg)) start))))"

section \<open>The keys of the sessions\<close>

lemma http_store_set:
  assumes "InitAndRunHttpApi X opts h0 = (Ret u, h)"
  shows "sessionStore (ho_proc h) = Some (CookieStore_MaxAge (op_SessionExpire (ServConfig (ho_proc h)))
    (NewCookieStore [Some SYS_PWD, Some (out_md5 X SYS_PWD)]))"
proof -
  obtain h1 where "h = on_proc (\<lambda>p. p\<lparr>sessionStore := Some (http_store X p)\<rparr>) h1"
    using assms unfolding InitAndRunHttpApi_def
    by (auto simp: handle_def panic_def reads_def update_def ret_def Let_def split: prod.splits res.splits if_splits)
  then show ?thesis by (simp add: on_proc_def http_store_def)
qed

text \<open>A session that names a user, made anywhere with a store over the two constants.\<close>

definition made_session :: "CookieStore \<Rightarrow> string \<Rightarrow> User \<Rightarrow> passport_session" where
  "made_session st name u = (NewSession st name)\<lparr>ss_Values := [SessUserInfoKey \<mapsto> Val (UserPtr u)], ss_Options := cs_Options st\<rparr>"

lemma session_of_made:
  assumes "crypto_ok (sv_crypto sv)" "rnd_ok rnd" "int64 t"
    and st: "sv_store sv = CookieStore_MaxAge age (NewCookieStore [hk, bk])" and nm: "isCookieNameValid (sv_SessionKey sv)"
    and gob: "gob_view (sv_crypto sv) [SessUserInfoKey \<mapsto> Val (UserPtr u)] = [SessUserInfoKey \<mapsto> Val (UserV u)]"
    and save: "CookieStore_Save (sv_crypto sv) rnd t (sv_store sv) [] (made_session (sv_store sv) (sv_SessionKey sv) u) = Inr [c]"
    and cookie: "request_cookie (rq_Cookies r) (sv_SessionKey sv) = Some (ck_Value c)"
    and age: "age = 0 \<or> wrap64 (w_now (g_world g) - age) \<le> t"
  shows "\<exists>sess. session_of sv r g = (Some sess, None) \<and> session_user sess = Some u"
proof -
  let ?s = "made_session (sv_store sv) (sv_SessionKey sv) u"
  have n: "ss_name ?s = sv_SessionKey sv" "ss_Values ?s = [SessUserInfoKey \<mapsto> Val (UserPtr u)]"
    by (simp_all add: made_session_def NewSession_def)
  obtain v where v: "[c] = [] @ [NewCookie t (sv_SessionKey sv) v (ss_Options ?s)]"
    and new: "\<And>now cookies. request_cookie cookies (sv_SessionKey sv) = Some v \<Longrightarrow>
      \<exists>e. CookieStore_New (sv_crypto sv) now (sv_store sv) cookies (sv_SessionKey sv) =
        (let s = (NewSession (sv_store sv) (sv_SessionKey sv))\<lparr>ss_Options := cs_Options (sv_store sv), ss_IsNew := True\<rparr> in
         if age = 0 \<or> wrap64 (now - age) \<le> t then (s\<lparr>ss_Values := gob_view (sv_crypto sv) [SessUserInfoKey \<mapsto> Val (UserPtr u)], ss_IsNew := False\<rparr>, None)
         else (s, Some e))"
    by (rule CookieStore_New_after_Save [OF assms(1-3) st save, unfolded n]) blast
  then have "request_cookie (rq_Cookies r) (sv_SessionKey sv) = Some v" using cookie by simp
  from new [OF this, of "w_now (g_world g)"] nm age show ?thesis
    by (auto simp: session_of_def CookieStore_Get_def Registry_Get_def Let_def session_user_def gob)
qed

text \<open>
  C36. The cookies of a running server are sealed with two constants of the source, whatever its configuration
  (\<open>SessionKey\<close> only names the cookie): a value that anybody seals with them for an enabled user is taken for that
  user's login by every route with \<open>NeedLogin\<close>, at once and as long as \<open>SessionExpire\<close> allows, for ever when it is 0.
\<close>

theorem published_keys_admit:
  assumes "InitAndRunHttpApi X opts h0 = (Ret u0, h)" "sessionStore (ho_proc h) = Some (sv_store sv)"
    and "st = CookieStore_MaxAge age (NewCookieStore [Some SYS_PWD, Some (out_md5 X SYS_PWD)])" "age = op_SessionExpire (ServConfig (ho_proc h))"
    and "CookieStore_Save (sv_crypto sv) rnd t st [] (made_session st (sv_SessionKey sv) u) = Inr [c]"
    and "crypto_ok (sv_crypto sv)" "rnd_ok rnd" "int64 t" "isCookieNameValid (sv_SessionKey sv)"
    and "gob_view (sv_crypto sv) [SessUserInfoKey \<mapsto> Val (UserPtr u)] = [SessUserInfoKey \<mapsto> Val (UserV u)]"
    and "request_cookie (rq_Cookies r) (sv_SessionKey sv) = Some (ck_Value c)"
    and "requested_api r = Some api" "map_of apis api = Some (True, False)" "rq_Method r \<noteq> ''OPTIONS''"
    and "IsRealUserUID (u_UID u)" "map_of (g_users g) (u_UID u) = None" "w_faults (g_world g) = []"
    and "find (\<lambda>x. u_UID x = u_UID u) (users (w_db (g_world g))) = Some row" "\<not> ext_disabled (u_Ext row)"
    and "age = 0 \<or> wrap64 (w_now (g_world g) - age) \<le> t"
  shows "\<exists>sess g'. ServeHTTP sv r g = (Ret (Handle api (with_cors r) (Some sess)), g') \<and> session_user sess = Some u"
proof -
  have st: "sv_store sv = st" using http_store_set [OF assms(1)] assms(2-4) by simp
  obtain sess where s: "session_of sv r g = (Some sess, None)" "session_user sess = Some u"
    using session_of_made [OF assms(6-8) st [unfolded assms(3)] assms(9,10) assms(5) [folded st] assms(11,20)] by blast
  obtain g' where "AuthFilter sv r g = (Ret (Some sess, True), g')"
    using AuthFilter_miss [OF s, of row] assms(15-19) by (auto simp: Http_Gate.user_row_def)
  from ServeHTTP_login_route [OF assms(12-14) this] s(2) show ?thesis by auto
qed

text \<open>A server on the constants; the cookie is sealed at 100 for the user with the number 10001 and used at 3700.\<close>

definition sample_outside :: outside where
  "sample_outside = \<lparr>out_drivers = \<lparr>os_MkdirAll = (\<lambda>_. None), pgx_New = (\<lambda>_. None), pgx_Ping = (\<lambda>_. None), sql_Open = (\<lambda>_. None),
       sql_pragma = (\<lambda>_. None), sql_Ping = (\<lambda>_. None)\<rparr>, out_pgx = sample_pgx,
     out_log = (\<lambda>l. if l = ''loud'' then Some ''unrecognized level'' else None), out_redis = (\<lambda>_. None),
     out_yaml = (\<lambda>_ _. Inr (no_option\<lparr>op_DBDriver := ''postgres'', op_DBDSN := ''host=db dbname=club'', op_SessionKey := ''n''\<rparr>)),
     out_sms = (\<lambda>_. None), out_access = (\<lambda>_ _ _. None), out_md5 = (\<lambda>_. ''0123456789abcdef''), out_sha256 = (\<lambda>_. ''0123456789abcdef'')\<rparr>"

definition sample_host :: "(rule list \<times> grouping list) host" where
  "sample_host = \<lparr>ho_proc = new_process\<lparr>ServConfig := no_option\<lparr>op_SessionKey := ''n'', op_SessionExpire := 3600\<rparr>\<rparr>, ho_cluster = sample_cluster,
     ho_sqlite = empty_schema, ho_world = user_world\<rparr>"

definition keys_store :: CookieStore where
  "keys_store = CookieStore_MaxAge 3600 (NewCookieStore [Some SYS_PWD, Some (out_md5 sample_outside SYS_PWD)])"

definition keys_server :: "(rule list \<times> grouping list) server" where
  "keys_server = login_server\<lparr>sv_store := keys_store\<rparr>"

lemma keys_seal:
  "case CookieStore_Save (sv_crypto keys_server) (Some ''fedcba9876543210'') 100 keys_store [] (made_session keys_store ''n'' known_user) of
     Inr [c] \<Rightarrow> True | _ \<Rightarrow> False"
  by code_simp

theorem published_keys_admit_witness:
  "\<exists>c. CookieStore_Save (sv_crypto keys_server) (Some ''fedcba9876543210'') 100 keys_store [] (made_session keys_store ''n'' known_user) = Inr [c]
    \<and> (let r = \<lparr>rq_Method = ''GET'', rq_Header = [(''X-API'', ''user/info'')], rq_Cookies = [(''n'', ck_Value c)], rq_uri = None, rq_path = []\<rparr> in
       \<exists>sess. fst (ServeHTTP keys_server r (login_gate\<lparr>g_world := user_world\<lparr>w_now := 3700\<rparr>\<rparr>)) = Ret (Handle ''user/info'' (with_cors r) (Some sess)) \<and> session_user sess = Some known_user)"
proof -
  obtain c where c: "CookieStore_Save (sv_crypto keys_server) (Some ''fedcba9876543210'') 100 keys_store [] (made_session keys_store ''n'' known_user) = Inr [c]"
    using keys_seal by (auto split: sum.splits list.splits)
  define r where "r = \<lparr>rq_Method = ''GET'', rq_Header = [(''X-API'', ''user/info'')], rq_Cookies = [(''n'', ck_Value c)], rq_uri = None, rq_path = []\<rparr>"
  define g where "g = login_gate\<lparr>g_world := user_world\<lparr>w_now := 3700\<rparr>\<rparr>"
  have key: "sv_SessionKey keys_server = ''n''" "sv_store keys_server = keys_store" by (simp_all add: keys_server_def login_server_def sample_server_def)
  have run: "InitAndRunHttpApi sample_outside None sample_host = (Ret (), on_proc (\<lambda>p. p\<lparr>sessionStore := Some keys_store\<rparr>) sample_host)"
    by (simp add: InitAndRunHttpApi_def handle_def ret_def reads_def update_def sample_host_def on_proc_def http_store_def keys_store_def
        new_process_def no_option_def Let_def)
  have set: "sessionStore (ho_proc (on_proc (\<lambda>p. p\<lparr>sessionStore := Some keys_store\<rparr>) sample_host)) = Some (sv_store keys_server)"
    and age: "(3600 :: int) = op_SessionExpire (ServConfig (ho_proc (on_proc (\<lambda>p. p\<lparr>sessionStore := Some keys_store\<rparr>) sample_host)))"
    by (simp_all add: on_proc_def key sample_host_def new_process_def no_option_def)
  have crypto: "crypto_ok (sv_crypto keys_server)" "rnd_ok (Some ''fedcba9876543210'')" "int64 100" "isCookieNameValid (sv_SessionKey keys_server)"
    "gob_view (sv_crypto keys_server) [SessUserInfoKey \<mapsto> Val (UserPtr known_user)] = [SessUserInfoKey \<mapsto> Val (UserV known_user)]"
    by (auto simp: crypto_ok_def keys_server_def login_server_def user_gob_def rnd_ok_def int64_def sample_server_def isCookieNameValid_def isToken_def token_chars_def)
  have req: "request_cookie (rq_Cookies r) (sv_SessionKey keys_server) = Some (ck_Value c)" "requested_api r = Some ''user/info''"
    "map_of apis ''user/info'' = Some (True, False)" "rq_Method r \<noteq> ''OPTIONS''"
    by (simp_all add: r_def request_cookie_def key requested_api_def header_def) code_simp
  have uid: "u_UID known_user = 10001" by (simp add: known_user_def session_part_def)
  have row: "IsRealUserUID (u_UID known_user)" "map_of (g_users g) (u_UID known_user) = None" "w_faults (g_world g) = []"
    "find (\<lambda>x. u_UID x = u_UID known_user) (users (w_db (g_world g))) = Some sample_user" "\<not> ext_disabled (u_Ext sample_user)"
    using sample_real by (simp_all add: g_def login_gate_def uid)
  have "wrap64 (3700 - 3600) \<le> 100" by code_simp
  then have win: "(3600 :: int) = 0 \<or> wrap64 (w_now (g_world g) - 3600) \<le> 100" by (simp add: g_def)
  obtain sess g' where "ServeHTTP keys_server r g = (Ret (Handle ''user/info'' (with_cors r) (Some sess)), g')" "session_user sess = Some known_user"
    using published_keys_admit [OF run set keys_store_def age c [folded key(1)] crypto(1-5) req row win] by blast
  then have "\<exists>sess. fst (ServeHTTP keys_server r g) = Ret (Handle ''user/info'' (with_cors r) (Some sess)) \<and> session_user sess = Some known_user"
    by auto
  with c show ?thesis unfolding Let_def r_def g_def by blast
qed

section \<open>Options\<close>

text \<open>
  When the log library refuses the level, \<open>InitWithOption\<close> reports success without having done anything: no
  database is opened and no option is taken over.
\<close>

theorem InitWithOption_silent:
  assumes "op_LogDir opt \<noteq> []" "\<not> Logger (ho_proc h)" "out_log X (op_LogLevel opt) = Some e"
  shows "InitWithOption X opt h = (Ret (), h)"
  using assms by (simp add: InitWithOption_def reads_def InitLog_def handle_def throw_def ret_def)

theorem InitWithOption_silent_witness:
  "InitWithOption sample_outside (no_option\<lparr>op_LogDir := ''./logs'', op_LogLevel := ''loud'', op_DBDriver := ''postgres'', op_DBDSN := ''dbname=club''\<rparr>) sample_host
    = (Ret (), sample_host)"
  by (rule InitWithOption_silent [where e = "''unrecognized level''"])
    (simp_all add: no_option_def sample_host_def new_process_def sample_outside_def)

section \<open>SQLite\<close>

lemma wrap_text_RetD: "wrap_text msg m k s = (Ret y, s') \<Longrightarrow> \<exists>x s1. m s = (Ret x, s1) \<and> k x s1 = (Ret y, s')"
  by (auto simp: wrap_text_def handle_def throw_def split: prod.splits res.splits)

text \<open>C38. With the driver \<open>sqlite3\<close> the initialisation never succeeds.\<close>

theorem sqlite_never_starts:
  "InitSystemEnvWithRBAC X E (Some (opt\<lparr>op_DBDriver := DriverSQLite3\<rparr>)) rbacModel h \<noteq> (Ret (), h')"
proof
  let ?o = "opt\<lparr>op_DBDriver := DriverSQLite3\<rparr>"
  have d: "op_DBDriver ?o = DriverSQLite3" "DriverSQLite3 \<noteq> DriverPostgreSQL" by (simp_all add: DriverSQLite3_def DriverPostgreSQL_def)
  have stop: "whenE (op_DBDriver ?o \<noteq> DriverPostgreSQL)
      (wrap_text ''create tables'' (on_sqlite (Schema.Init D (conn_ping D) (op_DBDriver ?o) dsn)) ret) k h1 \<noteq> (Ret (), h')" for D dsn k h1
  proof -
    have "\<forall>s s'. Schema.Init D (conn_ping D) DriverSQLite3 dsn s \<noteq> (Ret (), s')" using sqlite_Init_fails by blast
    then show ?thesis unfolding d(1) using d(2)
      by (auto simp: whenE_def on_sqlite_def dest!: tryE_RetD wrap_text_RetD split: prod.splits)
  qed
  assume "InitSystemEnvWithRBAC X E (Some ?o) rbacModel h = (Ret (), h')"
  then obtain x h1 where "reads ho_proc (\<lambda>p. whenE (DB p = None) (wrap_text ''open database'' (InitDBWithDriver X (op_DBDriver ?o) (op_DBDSN ?o)) ret) (
      reads (\<lambda>h. server_drivers X (ho_cluster h)) (\<lambda>D. whenE (op_DBDriver ?o \<noteq> DriverPostgreSQL)
        (wrap_text ''create tables'' (on_sqlite (Schema.Init D (conn_ping D) (op_DBDriver ?o) (op_DBDSN ?o))) ret) (
      seed_all X E ?o (if rbacModel = [] then rbac_file else rbacModel))))) h1 = (Ret (), h')"
    unfolding InitSystemEnvWithRBAC_def option.case Let_def failIf_def
    by (auto simp: throw_def dest!: wrap_text_RetD split: if_splits)
  then show False using stop unfolding reads_def whenE_def [of "DB _ = None"] by (auto dest!: tryE_RetD split: if_splits)
qed

section \<open>The first start\<close>

lemma wp_on_cluster: "wp (on_cluster m) Q E h = wp m (\<lambda>x c. Q x (h\<lparr>ho_cluster := c\<rparr>)) (\<lambda>e c. E e (h\<lparr>ho_cluster := c\<rparr>)) (ho_cluster h)"
  by (simp add: wp_def on_cluster_def split: prod.splits res.splits)

text \<open>The rows of a database of the server.\<close>

definition put_rows :: "string \<Rightarrow> db \<Rightarrow> cluster \<Rightarrow> cluster" where
  "put_rows n d c = c\<lparr>cl_dbs := AList.update n ((the (map_of (cl_dbs c) n))\<lparr>sc_rows := d\<rparr>) (cl_dbs c)\<rparr>"

lemma wp_on_tables:
  assumes "DB (ho_proc h) = Some (PostgresDB dsn)" "pg_connects (out_pgx X) dsn = n" "map_of (cl_dbs (ho_cluster h)) n = Some s"
    and "wp m (\<lambda>x w. Q x (h\<lparr>ho_world := w, ho_cluster := put_rows n (w_db w) (ho_cluster h)\<rparr>))
      (\<lambda>_ w. E ''error'' (h\<lparr>ho_world := w, ho_cluster := put_rows n (w_db w) (ho_cluster h)\<rparr>)) ((ho_world h)\<lparr>w_db := sc_rows s\<rparr>)"
  shows "wp (on_tables X m) Q E h"
  using assms by (simp add: wp_def on_tables_def with_rows_def put_rows_def split: prod.splits res.splits)

text \<open>What the seeding leaves alone.\<close>

definition same_services :: "'c world \<Rightarrow> 'c world \<Rightarrow> bool" where
  "same_services w w' \<longleftrightarrow> w_faults w' = [] \<and> w_cache w' = w_cache w \<and> w_casbin w' = w_casbin w \<and> w_now w' = w_now w
     \<and> organizations_id_seq (w_seqs w') = organizations_id_seq (w_seqs w)"

lemma same_services_simps [simp]:
  "same_services w (db_tick v) \<longleftrightarrow> same_services w (v\<lparr>w_faults := tl (w_faults v)\<rparr>)"
  "same_services w (v\<lparr>w_db := d\<rparr>) \<longleftrightarrow> same_services w v"
  "same_services w (v\<lparr>w_seqs := (w_seqs v)\<lparr>users_uid_seq := a\<rparr>\<rparr>) \<longleftrightarrow> same_services w v"
  "same_services w (v\<lparr>w_seqs := (w_seqs v)\<lparr>tenants_id_seq := a\<rparr>\<rparr>) \<longleftrightarrow> same_services w v"
  by (simp_all add: same_services_def db_tick_def)

lemma preserves_stmt:
  assumes "\<And>v. same_services w v \<Longrightarrow> same_services w (snd (f v))"
  shows "preserves (same_services w) (db_stmt f)"
proof (rule preservesI)
  fix v :: "'a world" assume v: "same_services w v"
  then have "same_services w (db_tick v)" by (simp add: same_services_def)
  then show "same_services w (snd (db_stmt f v))" using assms by (simp add: db_stmt_def)
qed

lemma preserves_tx: "preserves (same_services w) m \<Longrightarrow> preserves (same_services w) (run_tx m)"
proof (rule preservesI)
  fix v :: "'a world" assume m: "preserves (same_services w) m" and "same_services w v"
  then have "same_services w (snd (m v))" by (rule preservesD)
  then show "same_services w (snd (run_tx m v))" by (auto simp: run_tx_def same_services_def split: prod.splits res.splits)
qed

lemma SeedRoot_services: "preserves (same_services w) (SeedRoot E opt)"
  unfolding SeedRoot_def seed_tx_def upsertRootUser_def upsertRootTenant_def upsertRootClosures_def calibrateRootSequences_def db_query_def db_exec_def Let_def
  by (intro pres_intros preserves_tx preserves_stmt) (auto split: option.splits)

text \<open>The rows of the first start: the user, the tenant it owns, one organization with the user as its member.\<close>

lemma seed_ok_empty: "seed_ok h cfg now no_rows"
proof -
  have "users_violation [u] = None" for u
    by (simp add: users_violation_None users_ok_def uniq_col_def distinct_by_def List.map_filter_simps split: option.split)
  then show ?thesis
    by (simp add: seed_ok_def seeded_parts no_rows_def upsert_def tenants_violation_def distinct_by_def)
qed

lemma seeded_empty:
  "users (seeded h cfg now no_rows) = [root_user cfg h now (User_Dao.user_row (sd_UID cfg) now empty_UserReq)]"
  "tenants (seeded h cfg now no_rows) = [root_tenant cfg now (blank_tenant (sd_TenantID cfg) now)]"
  "tenant_closure (seeded h cfg now no_rows) = [((sd_TenantID cfg, sd_TenantID cfg), 0)]"
  "organizations (seeded h cfg now no_rows) = []" "org_members (seeded h cfg now no_rows) = []"
  by (simp_all add: seeded_def no_rows_def upsert_def ins_nothing_def)

definition root_org :: "u64 \<Rightarrow> u64 \<Rightarrow> int \<Rightarrow> Organization" where
  "root_org i tid now = \<lparr>o_ID = i, o_TenantID = tid, o_Name = ''root'', o_CreateTime = now, o_UpdateTime = now\<rparr>"

definition first_rows :: "string \<Rightarrow> SeedRootOptions \<Rightarrow> int \<Rightarrow> u64 \<Rightarrow> db" where
  "first_rows h cfg now i = (seeded h cfg now no_rows)\<lparr>organizations := [root_org i (sd_TenantID cfg) now],
     org_members := [\<lparr>m_OrgID = i, m_UID = sd_UID cfg, m_TenantID = sd_TenantID cfg, m_CreateTime = now\<rparr>]\<rparr>"

text \<open>The enforcer neither fails to store a role nor panics when it lists policies.\<close>

definition casbin_serves :: "'c casbin \<Rightarrow> bool" where
  "casbin_serves cb \<longleftrightarrow> (\<forall>g c. \<exists>b c'. cb_AddRole cb g c = (Ret b, c')) \<and> (\<forall>d c. cb_GetFilteredPolicy cb d c \<noteq> Panic)"

lemma casbin_only: "v = w\<lparr>w_casbin := c\<rparr> \<Longrightarrow> w_db v = w_db w"
  by simp

lemma wp_CopyPolicies:
  assumes "casbin_ok cb pol grp" "casbin_serves cb" "w_db w = d" "grp (w_casbin w) = g"
  shows "wp (CopyPolicies cb x y) (\<lambda>_ w'. w_db w' = d \<and> grp (w_casbin w') = g) (\<lambda>_ w'. w_db w' = d \<and> grp (w_casbin w') = g) w"
proof -
  let ?I = "\<lambda>w'. w_db w' = d \<and> grp (w_casbin w') = g"
  have add: "wp (lift_cb (cb_AddPolicy cb r)) (\<lambda>_. ?I) (\<lambda>_. ?I) w'" if "?I w'" for r w'
  proof -
    have "cb_writes pol grp (cb_AddPolicy cb r) (insert r) (\<lambda>G. G)" using assms(1) unfolding casbin_ok_def by blast
    from wp_lift_cb [OF this, of w'] show ?thesis by (rule wp_mono) (use that in \<open>auto dest: casbin_only\<close>)
  qed
  have each: "wp (if length p < 4 \<or> p ! 0 = [] \<or> p ! 2 = [] \<or> p ! 3 = [] then ret ()
      else tryE (lift_cb (cb_AddPolicy cb (p ! 0, y, p ! 2, p ! 3))) (\<lambda>_. ret ())) (\<lambda>_. ?I) (\<lambda>_. ?I) w'" if "?I w'" for p w'
    using add [OF that] that by (simp add: wp_ret wp_tryE)
  show ?thesis
  proof (cases "x = [] \<or> y = [] \<or> x = y")
    case True
    then show ?thesis using assms(3,4) by (simp add: CopyPolicies_def wp_ret)
  next
    case False
    have "wp (foreach ps (\<lambda>p. if length p < 4 \<or> p ! 0 = [] \<or> p ! 2 = [] \<or> p ! 3 = [] then ret ()
        else tryE (lift_cb (cb_AddPolicy cb (p ! 0, y, p ! 2, p ! 3))) (\<lambda>_. ret ()))) (\<lambda>_. ?I) (\<lambda>_. ?I) w" for ps
      by (rule wp_foreach) (use assms(3,4) each in blast)+
    moreover have "cb_GetFilteredPolicy cb x (w_casbin w) \<noteq> Panic" using assms(2) by (simp add: casbin_serves_def)
    ultimately show ?thesis unfolding CopyPolicies_def if_not_P [OF False] wp_tryE
      using assms(3,4) by (auto simp: wp_def read_cb_def split: res.split)
  qed
qed

lemma TenantGetByIDService_empty:
  assumes "w_db w = seeded h cfg now no_rows" "w_faults w = []" "w_cache w = NewExpiredMap" "sd_TenantID cfg \<noteq> 0"
  shows "\<exists>m. TenantGetByIDService (sd_TenantID cfg) w = (Ret (root_tenant cfg now (blank_tenant (sd_TenantID cfg) now)), w\<lparr>w_faults := [], w_cache := m\<rparr>)"
proof -
  have "t_ID (root_tenant cfg now (blank_tenant i now)) = i" "(root_tenant cfg now (blank_tenant i now))\<lparr>t_ParentID := 0\<rparr> = root_tenant cfg now (blank_tenant i now)" for i
    by (simp_all add: root_tenant_def blank_tenant_def)
  then show ?thesis using assms
    by (simp add: TenantGetByIDService_def getTenantByIDCached_def TenantGetByID_def failIf_def tryAs_def tryE_def handle_def cache_read_def
        GetTenantCache_def Expired_Map.Get_def NewExpiredMap_def ret_def update_def db_query_eq db_tick_def cache_set_def seeded_empty join_parent_def parents_of_def)
      (rule exI, rule refl)
qed

lemma wp_first_org:
  assumes "casbin_ok (enforcer E) pol grp" "casbin_serves (enforcer E)"
    and w: "w_db w = seeded h cfg now no_rows" "w_faults w = []" "w_cache w = NewExpiredMap" "w_now w = now"
    and ids: "sd_TenantID cfg \<noteq> 0" "sd_UID cfg \<noteq> 0" "organizations_id_seq (w_seqs w) + 1 = i" "i \<noteq> 0"
  shows "wp (OrgCreate E (sd_TenantID cfg) ''root'') (\<lambda>_ w'. w_db w' = first_rows h cfg now i
    \<and> (genUserByUID (sd_UID cfg), ''root'', Domain (sd_TenantID cfg) i) \<in> grp (w_casbin w')) (\<lambda>_ _. False) w"
proof -
  let ?t = "root_tenant cfg now (blank_tenant (sd_TenantID cfg) now)" and ?tid = "sd_TenantID cfg" and ?uid = "sd_UID cfg"
  obtain m where tenant: "TenantGetByIDService ?tid w = (Ret ?t, w\<lparr>w_faults := [], w_cache := m\<rparr>)"
    using TenantGetByIDService_empty [OF w(1-3) ids(1)] by blast
  have t: "t_UID ?t = ?uid" by (simp add: root_tenant_def)
  have name: "TrimSpace ''root'' = ''root''" by (simp add: TrimSpace_def is_space_def)
  have ok: "orgs_violation [root_org i ?tid now] = None" by (simp add: orgs_violation_def distinct_by_def)
  have pos: "0 < ?uid" "0 < i" using ids by (simp_all add: word_neq_0_conv)
  have writes: "cb_writes pol grp (cb_AddRole (enforcer E) g) (\<lambda>P. P) (insert g)" for g using assms(1) unfolding casbin_ok_def by blast
  have role: "wp (AddRoleForUserInDomain (enforcer E) ?uid ?tid i ''root'')
      (\<lambda>_ v'. w_db v' = w_db v \<and> (genUserByUID ?uid, ''root'', Domain ?tid i) \<in> grp (w_casbin v')) (\<lambda>_ _. False) v" for v
  proof -
    obtain b c where "cb_AddRole (enforcer E) (genUserByUID ?uid, ''root'', Domain ?tid i) (w_casbin v) = (Ret b, c)"
      using assms(2) unfolding casbin_serves_def by blast
    then show ?thesis using writes [of "(genUserByUID ?uid, ''root'', Domain ?tid i)", unfolded cb_writes_def, rule_format, of "w_casbin v"] ids(4)
      by (simp add: AddRoleForUserInDomain_def addRoleForUserInDomain_def wp_failIf wp_tryE wp_ret) (simp add: wp_def lift_cb_def)
  qed
  have copy: "wp (CopyPolicies (enforcer E) x y) (\<lambda>_ v'. w_db v' = d \<and> g \<in> grp (w_casbin v')) (\<lambda>_ v'. w_db v' = d \<and> g \<in> grp (w_casbin v')) v"
    if "w_db v = d \<and> g \<in> grp (w_casbin v)" for x y d g v
    by (rule wp_mono [OF wp_CopyPolicies [OF assms(1,2)]]) (use that in auto)
  have rest: "wp (ignoreE (CopyPolicies (enforcer E) x y) (ret i)) (\<lambda>_ v'. w_db v' = d \<and> g \<in> grp (w_casbin v')) (\<lambda>_ _. False) v"
    if "w_db v = d \<and> g \<in> grp (w_casbin v)" for x y d g v
    unfolding wp_ignoreE wp_ret by (rule wp_mono [OF copy [OF that]]) blast+
  let ?Q = "\<lambda>_ w'. w_db w' = first_rows h cfg now i \<and> (genUserByUID ?uid, ''root'', Domain ?tid i) \<in> grp (w_casbin w')"
  let ?member = "whenE True
      (tryAs (OrgMemberInsert i ?uid ?tid) ErrService (\<lambda>_. update (cache_del (DelOrgMemberCache i ?uid)) (
       tryAs (AddRoleForUserInDomain (enforcer E) ?uid ?tid i ''root'') ErrService ret)))
      (ignoreE (CopyPolicies (enforcer E) (LegacyTenantDomain ?tid) (Domain ?tid i)) (ret i))"
  have member: "wp ?member ?Q (\<lambda>_ _. False) v"
    if v: "w_db v = (seeded h cfg now no_rows)\<lparr>organizations := [root_org i ?tid now]\<rparr>" "w_faults v = []" "w_now v = now" for v
  proof -
    let ?v = "cache_del (DelOrgMemberCache i ?uid) (v\<lparr>w_faults := [], w_db := first_rows h cfg now i\<rparr>)"
    have "wp (AddRoleForUserInDomain (enforcer E) ?uid ?tid i ''root'')
        (\<lambda>_. wp (ignoreE (CopyPolicies (enforcer E) (LegacyTenantDomain ?tid) (Domain ?tid i)) (ret i)) ?Q (\<lambda>_ _. False)) (\<lambda>_ _. False) ?v"
    proof (rule wp_mono [OF role])
      fix x and v' :: "'a world" assume "w_db v' = w_db ?v \<and> (genUserByUID ?uid, ''root'', Domain ?tid i) \<in> grp (w_casbin v')"
      then show "wp (ignoreE (CopyPolicies (enforcer E) (LegacyTenantDomain ?tid) (Domain ?tid i)) (ret i)) ?Q (\<lambda>_ _. False) v'"
        by (intro rest) (simp add: cache_del_def)
    qed
    then show ?thesis using ids v pos
      by (simp add: wp_whenE wp_tryAs wp_failIf wp_reads wp_update wp_ret OrgMemberInsert_def wp_db_exec seeded_empty first_rows_def db_tick_def)
  qed
  have insert: "wp (OrgInsert ?tid ''root'') (\<lambda>x v. x = i \<and> w_db v = (seeded h cfg now no_rows)\<lparr>organizations := [root_org i ?tid now]\<rparr>
      \<and> w_faults v = [] \<and> w_now v = now) (\<lambda>_ _. False) v"
    if v: "w_db v = seeded h cfg now no_rows" "w_faults v = []" "w_now v = now" "organizations_id_seq (w_seqs v) + 1 = i" for v
    using v ids(1) ok by (simp add: OrgInsert_def failIf_def db_stmt_def name seeded_empty wp_def Let_def root_org_def)
  let ?w = "w\<lparr>w_faults := [], w_cache := m\<rparr>"
  have "wp (TenantGetByIDService ?tid) (\<lambda>t' w'. t' = ?t \<and> w' = ?w) (\<lambda>_ _. False) w" using tenant by (simp add: wp_def)
  then show ?thesis
    unfolding OrgCreate_def Let_def name wp_failIf [of "_ = 0 \<or> _"] wp_tryE [of "TenantGetByIDService _"]
  proof (simp add: ids(1), elim wp_mono, goal_cases)
    case (1 t' w')
    then have w': "w_db w' = seeded h cfg now no_rows" "w_faults w' = []" "w_now w' = now" "organizations_id_seq (w_seqs w') + 1 = i" and t': "t_UID t' = ?uid"
      using w ids(3) t by auto
    have "wp (OrgInsert ?tid ''root'') (\<lambda>x. wp (failIf (x = 0) ErrService (whenE True
      (tryAs (OrgMemberInsert x ?uid ?tid) ErrService (\<lambda>_. update (cache_del (DelOrgMemberCache x ?uid)) (
       tryAs (AddRoleForUserInDomain (enforcer E) ?uid ?tid x ''root'') ErrService ret)))
      (ignoreE (CopyPolicies (enforcer E) (LegacyTenantDomain ?tid) (Domain ?tid x)) (ret x)))) ?Q (\<lambda>_ _. False)) (\<lambda>_ _. False) (w'\<lparr>w_faults := []\<rparr>)"
      by (rule wp_mono [OF insert]) (use w' member ids(4) in \<open>auto simp: wp_failIf\<close>)
    then show ?case using w' pos t' ids(1)
      by (simp add: wp_tryAs wp_failIf wp_handle wp_throw OrgGetByTenantName_dao_def OrgListByTenant_dao_def wp_db_query name seeded_empty db_tick_def)
  qed simp
qed

lemma map_put_rows [simp]:
  "map_of (cl_dbs (put_rows n d c)) = (map_of (cl_dbs c))(n \<mapsto> (the (map_of (cl_dbs c) n))\<lparr>sc_rows := d\<rparr>)"
  by (simp add: put_rows_def)

lemma complete_rows [simp]: "sc_rows (complete_db f d) = d" "(complete_db f d)\<lparr>sc_rows := d'\<rparr> = complete_db f d'"
  by (simp_all add: complete_db_def on_catalog_def)

lemma wp_and_preserves: "wp m Q E w \<Longrightarrow> preserves I m \<Longrightarrow> I w \<Longrightarrow> wp m (\<lambda>x w'. Q x w' \<and> I w') E w"
  by (auto simp: wp_def dest!: preservesD [of I m w] split: prod.splits res.splits)

text \<open>One database keeps its rows, the others stay.\<close>

definition only_db :: "string \<Rightarrow> schema_db \<Rightarrow> cluster \<Rightarrow> cluster \<Rightarrow> bool" where
  "only_db n s c c' \<longleftrightarrow> map_of (cl_dbs c') = (map_of (cl_dbs c))(n \<mapsto> s)"

lemma wp_seed_all:
  assumes db: "DB (ho_proc h) = Some (PostgresDB dsn)" "pg_connects (out_pgx X) dsn = n" "map_of (cl_dbs (ho_cluster h)) n = Some (complete_db f no_rows)"
    and access: "out_access X model (op_DBDriver opt) (op_DBDSN opt) = None" and casbin: "casbin_ok (enforcer E) pol grp" "casbin_serves (enforcer E)"
    and w: "w_faults (ho_world h) = []" "w_cache (ho_world h) = NewExpiredMap" "w_now (ho_world h) = now" "organizations_id_seq (w_seqs (ho_world h)) + 1 = i" "i \<noteq> 0"
    and cfg: "cfg = normalize_seed (Some (seed_options (root_uid opt) (root_tid opt)))" "digest = EncryPWD E (sd_Password cfg)"
  shows "wp (seed_all X E opt model) (\<lambda>_ h'. ho_proc h' = ho_proc h \<and> only_db n (complete_db f (first_rows digest cfg now i)) (ho_cluster h) (ho_cluster h')
      \<and> (genUserByUID (root_uid opt), ''root'', Domain (root_tid opt) i) \<in> grp (w_casbin (ho_world h'))) (\<lambda>_ _. False) h"
proof -
  have pos: "root_uid opt \<noteq> 0" "root_tid opt \<noteq> 0" by (simp_all add: root_uid_def root_tid_def word_neq_0_conv)
  have c: "sd_UID cfg = root_uid opt" "sd_TenantID cfg = root_tid opt" "length (sd_Cellphone cfg) = 11"
    using pos by (simp_all add: cfg normalize_seed_def seed_options_def default_seed_def word_neq_0_conv)
  let ?w = "(ho_world h)\<lparr>w_db := no_rows\<rparr>" and ?d = "seeded digest cfg now no_rows"
  have seed: "wp (SeedRoot E (Some (seed_options (root_uid opt) (root_tid opt)))) (\<lambda>_ w'. w_db w' = ?d \<and> same_services (ho_world h) w') (\<lambda>_ _. False) ?w"
  proof (rule wp_and_preserves [OF _ SeedRoot_services])
    show "wp (SeedRoot E (Some (seed_options (root_uid opt) (root_tid opt)))) (\<lambda>_ w'. w_db w' = ?d) (\<lambda>_ _. False) ?w"
      by (rule wp_SeedRoot [OF _ _ cfg(2,1)]) (use w c(3) seed_ok_empty in auto)
    show "same_services (ho_world h) ?w" using w(1) by (simp add: same_services_def)
  qed
  have org: "wp (on_tables X (OrgCreate E (root_tid opt) ''root'')) (\<lambda>_ h'. ho_proc h' = ho_proc h
        \<and> only_db n (complete_db f (first_rows digest cfg now i)) (ho_cluster h) (ho_cluster h')
        \<and> (genUserByUID (root_uid opt), ''root'', Domain (root_tid opt) i) \<in> grp (w_casbin (ho_world h'))) (\<lambda>_ _. False) h2"
    if h2: "ho_proc h2 = ho_proc h" "only_db n (complete_db f ?d) (ho_cluster h) (ho_cluster h2)" "same_services (ho_world h) (ho_world h2)" for h2
  proof -
    have "wp (OrgCreate E (sd_TenantID cfg) ''root'') (\<lambda>_ w'. w_db w' = first_rows digest cfg now i
        \<and> (genUserByUID (sd_UID cfg), ''root'', Domain (sd_TenantID cfg) i) \<in> grp (w_casbin w')) (\<lambda>_ _. False) ((ho_world h2)\<lparr>w_db := ?d\<rparr>)"
      by (rule wp_first_org [OF casbin]) (use h2(3) w c pos in \<open>auto simp: same_services_def\<close>)
    then show ?thesis
      by (intro wp_on_tables [of h2 dsn X n "complete_db f ?d"]) (use h2 db c in \<open>auto simp: only_db_def elim!: wp_mono\<close>)
  qed
  have list: "wp (on_tables X (OrgListByTenant_dao (root_tid opt))) (\<lambda>orgs h2. orgs = [] \<and> ho_proc h2 = ho_proc h
        \<and> only_db n (complete_db f ?d) (ho_cluster h) (ho_cluster h2) \<and> same_services (ho_world h) (ho_world h2)) (\<lambda>_ _. False) h1"
    if h1: "ho_proc h1 = ho_proc h" "only_db n (complete_db f ?d) (ho_cluster h) (ho_cluster h1)" "same_services (ho_world h) (ho_world h1)" for h1
    by (rule wp_on_tables [of h1 dsn X n "complete_db f ?d"])
      (use h1 db pos in \<open>auto simp: only_db_def OrgListByTenant_dao_def wp_failIf wp_db_query seeded_empty same_services_def db_tick_def db_fails_def\<close>)
  have first: "wp (on_tables X (SeedRoot E (Some (seed_options (root_uid opt) (root_tid opt))))) (\<lambda>_ h1. ho_proc h1 = ho_proc h
        \<and> only_db n (complete_db f ?d) (ho_cluster h) (ho_cluster h1) \<and> same_services (ho_world h) (ho_world h1)) (\<lambda>_ _. False) h"
    by (rule wp_on_tables [OF db]) (use seed db(3) in \<open>auto simp: only_db_def elim!: wp_mono\<close>)
  show ?thesis unfolding seed_all_def Let_def access option.case wp_wrap_text
  proof (rule wp_mono [OF first], goal_cases)
    case (1 x h1)
    then have "wp (on_tables X (OrgListByTenant_dao (root_tid opt))) (\<lambda>orgs h2. orgs = [] \<and> ho_proc h2 = ho_proc h
        \<and> only_db n (complete_db f ?d) (ho_cluster h) (ho_cluster h2) \<and> same_services (ho_world h) (ho_world h2)) (\<lambda>_ _. False) h1"
      using list by blast
    then show ?case
    proof (rule wp_mono, goal_cases)
      case (1 orgs h2)
      then show ?case using org [of h2] by (simp add: wp_wrap_text wp_ret)
    qed simp
  qed simp
qed

lemma wp_open:
  assumes "map_of (cl_dbs (ho_cluster h)) (pg_connects (out_pgx X) dsn) \<noteq> None" "\<And>d. pg_New (out_pgx X) d = None"
    "\<And>d. pgx_Ping (out_drivers X) d = None"
  shows "wp (InitDBWithDriver X DriverPostgreSQL dsn)
    (\<lambda>_ h'. h' = on_proc (\<lambda>p. p\<lparr>DB := Some (PostgresDB dsn), DBPool := Some dsn\<rparr>) h) F h"
proof -
  have "NewDB (server_drivers X (ho_cluster h)) DriverPostgreSQL dsn = Inr (PostgresDB dsn)"
    "conn_ping (server_drivers X (ho_cluster h)) (PostgresDB dsn) = None"
    using assms by (auto simp: NewDB_def NewPostgresDB_def attempt_def server_drivers_def Let_def)
  then show ?thesis
    by (simp add: InitDBWithDriver_def wp_reads wp_update wp_whenE wp_ret assms(2) on_proc_def)
qed

lemma wp_InitSystemEnv:
  assumes P: "pgx_reads (out_pgx X)" "plain dsn" "\<And>d. pg_New (out_pgx X) d = None" "\<And>d. pgx_Ping (out_drivers X) d = None"
    and opt: "op_DBDriver opt = DriverPostgreSQL" "op_DBDSN opt = dsn" "dsnParam dsn ''dbname'' = n" "n \<noteq> []"
    and c: "Ensure_Database.calm M (ho_cluster h)" "map_of (cl_dbs (ho_cluster h)) ''postgres'' \<noteq> None" "map_of (cl_dbs (ho_cluster h)) n = None"
    and DB: "DB (ho_proc h) = None" and access: "out_access X rbac_file (op_DBDriver opt) dsn = None"
    and casbin: "casbin_ok (enforcer E) pol grp" "casbin_serves (enforcer E)"
    and w: "w_faults (ho_world h) = []" "w_cache (ho_world h) = NewExpiredMap" "organizations_id_seq (w_seqs (ho_world h)) + 1 = i" "i \<noteq> 0"
    and cfg: "cfg = normalize_seed (Some (seed_options (root_uid opt) (root_tid opt)))"
  shows "wp (InitSystemEnv X E (Some opt)) (\<lambda>_ h'. DB (ho_proc h') = Some (PostgresDB dsn)
      \<and> map_of (cl_dbs (ho_cluster h')) n = Some (complete_db (\<lambda>_. 10000) (first_rows (EncryPWD E (sd_Password cfg)) cfg (w_now (ho_world h)) i))
      \<and> (genUserByUID (root_uid opt), ''root'', Domain (root_tid opt) i) \<in> grp (w_casbin (ho_world h'))) (\<lambda>_ _. False) h"
proof -
  let ?Q = "\<lambda>_ h'. DB (ho_proc h') = Some (PostgresDB dsn)
      \<and> map_of (cl_dbs (ho_cluster h')) n = Some (complete_db (\<lambda>_. 10000) (first_rows (EncryPWD E (sd_Password cfg)) cfg (w_now (ho_world h)) i))
      \<and> (genUserByUID (root_uid opt), ''root'', Domain (root_tid opt) i) \<in> grp (w_casbin (ho_world h'))"
  have con: "pg_connects (out_pgx X) dsn = n" using P(1,2) opt(3) by (simp add: pgx_reads_def)
  have ne: "op_DBDriver opt \<noteq> []" "dsn \<noteq> []" "rbac_file \<noteq> []"
    using opt by (auto simp: DriverPostgreSQL_def dsnParam_def Fields_def rbac_file_def)
  have seeds: "wp (seed_all X E opt rbac_file) ?Q (\<lambda>_ _. False) h2"
    if h2: "DB (ho_proc h2) = Some (PostgresDB dsn)" "map_of (cl_dbs (ho_cluster h2)) n = Some (complete_db (\<lambda>_. 10000) no_rows)" "ho_world h2 = ho_world h" for h2
  proof -
    have "wp (seed_all X E opt rbac_file) (\<lambda>_ h'. ho_proc h' = ho_proc h2
        \<and> only_db n (complete_db (\<lambda>_. 10000) (first_rows (EncryPWD E (sd_Password cfg)) cfg (w_now (ho_world h)) i)) (ho_cluster h2) (ho_cluster h')
        \<and> (genUserByUID (root_uid opt), ''root'', Domain (root_tid opt) i) \<in> grp (w_casbin (ho_world h'))) (\<lambda>_ _. False) h2"
      by (rule wp_seed_all [OF h2(1) con h2(2) _ casbin]) (use h2(3) w access opt(2) cfg in auto)
    then show ?thesis by (rule wp_mono) (auto simp: h2(1) only_db_def)
  qed
  have open_seed: "wp (reads ho_proc (\<lambda>p. whenE (DB p = None) (wrap_text ''open database'' (InitDBWithDriver X (op_DBDriver opt) dsn) ret) (
      reads (\<lambda>h. server_drivers X (ho_cluster h)) (\<lambda>D. whenE (op_DBDriver opt \<noteq> DriverPostgreSQL)
        (wrap_text ''create tables'' (on_sqlite (Schema.Init D (conn_ping D) (op_DBDriver opt) dsn)) ret) (seed_all X E opt rbac_file))))) ?Q (\<lambda>_ _. False) h1"
    if h1: "DB (ho_proc h1) = None" "map_of (cl_dbs (ho_cluster h1)) n = Some (complete_db (\<lambda>_. 10000) no_rows)" "ho_world h1 = ho_world h" for h1
  proof -
    have "wp (InitDBWithDriver X DriverPostgreSQL dsn) (\<lambda>_ h'. h' = on_proc (\<lambda>p. p\<lparr>DB := Some (PostgresDB dsn), DBPool := Some dsn\<rparr>) h1) (\<lambda>_ _. False) h1"
      by (rule wp_open) (use h1(2) con P(3,4) in auto)
    then show ?thesis using h1 seeds
      by (simp add: wp_reads wp_whenE wp_wrap_text wp_ret opt(1)) (erule wp_mono, auto simp: on_proc_def)
  qed
  have "wp (EnsureDatabase (out_pgx X) DriverPostgreSQL dsn) (\<lambda>_ c'. Ensure_Database.calm M c' \<and> map_of (cl_dbs c') n = Some (complete_db (\<lambda>_. 10000) no_rows)
      \<and> (\<exists>c1. grows (insert n M) (ho_cluster h) c1 \<and> (\<forall>m. m \<noteq> n \<longrightarrow> map_of (cl_dbs c') m = map_of (cl_dbs c1) m))) (\<lambda>_ _. False) (ho_cluster h)"
    by (rule wp_EnsureDatabase [OF P(1-3) _ opt(3,4) c(1,2)]) (use c(3) in auto)
  then have "wp (on_cluster (EnsureDatabase (out_pgx X) (op_DBDriver opt) dsn)) (\<lambda>_ h1. DB (ho_proc h1) = None
      \<and> map_of (cl_dbs (ho_cluster h1)) n = Some (complete_db (\<lambda>_. 10000) no_rows) \<and> ho_world h1 = ho_world h) (\<lambda>_ _. False) h"
    unfolding wp_on_cluster opt(1) by (rule wp_mono) (use DB in auto)
  then show ?thesis
    unfolding InitSystemEnv_def InitSystemEnvWithRBAC_def option.case Let_def opt(2) wp_failIf wp_wrap_text [of "''ensure database''"]
    using ne open_seed by simp (erule wp_mono, auto)
qed

text \<open>The command line first runs the initialisation of the package, which cannot reach a database that is not there.\<close>

lemma ToLower_append: "ToLower (s @ t) = ToLower s @ ToLower t"
  by (simp add: ToLower_def)

lemma Contains_Nil: "Contains s []"
  by (cases s) (simp_all add: HasPrefix_def)

lemma Contains_within: "Contains (a @ t @ b) t"
proof (induction a)
  case Nil
  show ?case using HasPrefix_append(1) [of t b] by (cases t) (simp_all add: Contains_Nil)
qed simp

lemma Contains_two: "Contains (a @ t @ b @ u) u \<and> Contains (a @ t @ b @ u) t"
  using Contains_within [of a t "b @ u"] Contains_append [of "a @ t @ b" u] by (simp only: append_assoc)

lemma missing_tolerated: "isDatabaseNotExistErr (Some (''failed to initialize database: failed to ping postgres: '' @ missing_db n))"
proof -
  have "ToLower ''failed to initialize database: failed to ping postgres: '' = ''failed to initialize database: failed to ping postgres: ''"
    "ToLower ''database '' = ''database'' @ '' ''" "ToLower '' does not exist'' = '' '' @ ''does not exist''" by code_simp+
  then have low: "ToLower (''failed to initialize database: failed to ping postgres: '' @ missing_db n)
      = ''failed to initialize database: failed to ping postgres: '' @ ''database'' @ ('' '' @ ToLower n @ '' '') @ ''does not exist''"
    unfolding missing_db_def ToLower_append by (simp only: append_assoc)
  show ?thesis unfolding isDatabaseNotExistErr_def option.case Let_def low by (rule Contains_two)
qed

lemma wp_common_init:
  assumes "out_yaml X file (ServConfig (ho_proc h)) = Inr opt" "\<And>d. pg_New (out_pgx X) d = None"
    "op_DBDriver opt = DriverPostgreSQL" "op_DBDSN opt = dsn" "dsn \<noteq> []" "op_SessionKey opt \<noteq> []" "op_LogDir opt = []" "op_SmsDriveer opt = []"
    "DB (ho_proc h) = None" "map_of (cl_dbs (ho_cluster h)) (pg_connects (out_pgx X) dsn) = None"
  shows "wp (common_init X file) (\<lambda>_ h'. h' = on_proc (\<lambda>p. p\<lparr>ServConfig := opt, DB := None\<rparr>) h) (\<lambda>_ _. False) h"
proof -
  let ?n = "pg_connects (out_pgx X) dsn"
  define e0 where "e0 = ''failed to ping postgres: '' @ missing_db ?n"
  have new: "NewDB (server_drivers X c) DriverPostgreSQL dsn = Inl e0" if "map_of (cl_dbs c) ?n = None" for c
    using that assms(2) by (simp add: NewDB_def NewPostgresDB_def attempt_def server_drivers_def Let_def e0_def)
  have tolerated: "isDatabaseNotExistErr (Some (''failed to initialize database: '' @ e0))"
    using missing_tolerated [of ?n] by (simp add: e0_def)
  have ne: "DriverPostgreSQL \<noteq> []" by (simp add: DriverPostgreSQL_def)
  have err: "wp (InitDBWithDriver X DriverPostgreSQL dsn) Q (\<lambda>e h'. isDatabaseNotExistErr (Some e) \<and> h' = on_proc (\<lambda>p. p\<lparr>DB := None\<rparr>) h1) h1"
    if "map_of (cl_dbs (ho_cluster h1)) ?n = None" for h1 Q
    using new [OF that] tolerated by (simp add: InitDBWithDriver_def wp_reads wp_update wp_throw)
  have "wp (InitWithOption X opt) (\<lambda>_ _. False) (\<lambda>e h'. isDatabaseNotExistErr (Some e) \<and> h' = on_proc (\<lambda>p. p\<lparr>ServConfig := opt, DB := None\<rparr>) h)
      (on_proc (\<lambda>p. p\<lparr>ServConfig := opt\<rparr>) h)"
    using err [of "on_proc (\<lambda>p. p\<lparr>ServConfig := opt\<rparr>) h"] assms(3,4,5,7,9,10) ne
    by (simp add: InitWithOption_def open_and_take_def wp_reads wp_whenE on_proc_def)
  then show ?thesis using assms(1,6,8)
    by (simp add: common_init_def wp_reads wp_update wp_handle) (erule wp_mono, simp_all add: sms_start_def wp_ret)
qed

text \<open>
  C35. The first start with \<open>-init\<close> on a server without the database: the process gets past the missing database, and
  \<open>InitDatabaseEnv\<close> creates it complete, opens it and seeds it. Afterwards there is one user, with the published
  password, who owns the one tenant, is a member of its one organization and has the role \<open>root\<close> there.
\<close>

theorem first_start:
  assumes P: "pgx_reads (out_pgx X)" "plain dsn" "\<And>d. pg_New (out_pgx X) d = None" "\<And>d. pgx_Ping (out_drivers X) d = None"
    and opt: "out_yaml X file (ServConfig (ho_proc h)) = Inr opt" "op_DBDriver opt = DriverPostgreSQL" "op_DBDSN opt = dsn"
      "dsnParam dsn ''dbname'' = n" "n \<noteq> []" "op_SessionKey opt \<noteq> []" "op_LogDir opt = []" "op_SmsDriveer opt = []"
    and c: "Ensure_Database.calm M (ho_cluster h)" "map_of (cl_dbs (ho_cluster h)) ''postgres'' \<noteq> None" "map_of (cl_dbs (ho_cluster h)) n = None"
    and h: "DB (ho_proc h) = None" "out_access X rbac_file DriverPostgreSQL dsn = None"
    and E: "casbin_ok (enforcer E) pol grp" "casbin_serves (enforcer E)"
    and w: "w_faults (ho_world h) = []" "w_cache (ho_world h) = NewExpiredMap" "organizations_id_seq (w_seqs (ho_world h)) + 1 = i" "i \<noteq> 0"
  shows "\<exists>h' d. tryE (common_init X file) (\<lambda>_. InitDatabaseEnv X E env) h = (Ret (), h')
    \<and> DB (ho_proc h') = Some (PostgresDB dsn) \<and> map_of (cl_dbs (ho_cluster h')) n = Some (complete_db (\<lambda>_. 10000) d)
    \<and> map (\<lambda>u. (u_UID u, u_TenantID u, u_Password u)) (users d) = [(root_uid opt, root_tid opt, EncryPWD E ''Lh16888@#$'')]
    \<and> map (\<lambda>t. (t_ID t, t_UID t)) (tenants d) = [(root_tid opt, root_uid opt)]
    \<and> organizations d = [root_org i (root_tid opt) (w_now (ho_world h))]
    \<and> map (\<lambda>m. (m_OrgID m, m_UID m)) (org_members d) = [(i, root_uid opt)]
    \<and> (genUserByUID (root_uid opt), ''root'', Domain (root_tid opt) i) \<in> grp (w_casbin (ho_world h'))"
proof -
  define cfg where "cfg = normalize_seed (Some (seed_options (root_uid opt) (root_tid opt)))"
  define d where "d = first_rows (EncryPWD E (sd_Password cfg)) cfg (w_now (ho_world h)) i"
  let ?Q = "\<lambda>_ h'. DB (ho_proc h') = Some (PostgresDB dsn) \<and> map_of (cl_dbs (ho_cluster h')) n = Some (complete_db (\<lambda>_. 10000) d)
      \<and> (genUserByUID (root_uid opt), ''root'', Domain (root_tid opt) i) \<in> grp (w_casbin (ho_world h'))"
  have con: "pg_connects (out_pgx X) dsn = n" using P(1,2) opt(4) by (simp add: pgx_reads_def)
  have ne: "dsn \<noteq> []" "DriverPostgreSQL \<noteq> []" using opt(4,5) by (auto simp: DriverPostgreSQL_def dsnParam_def Fields_def)
  have env: "wp (InitSystemEnv X E (Some opt)) ?Q (\<lambda>_ _. False) h2"
    if h2: "DB (ho_proc h2) = None" "ho_cluster h2 = ho_cluster h" "ho_world h2 = ho_world h" for h2
  proof -
    note W = wp_InitSystemEnv [OF P opt(2-5), of M h2 E pol grp i cfg]
    show ?thesis unfolding d_def using W h2 c h(2) E w cfg_def opt(2) by simp
  qed
  have start: "wp (InitDatabaseEnv X E env) ?Q (\<lambda>_ _. False) h1" if h1: "h1 = on_proc (\<lambda>p. p\<lparr>ServConfig := opt, DB := None\<rparr>) h" for h1
  proof -
    have log: "wp (InitLog X a b) (\<lambda>_. wp (InitSystemEnv X E (Some opt)) ?Q (\<lambda>_ _. False)) (\<lambda>_. wp (InitSystemEnv X E (Some opt)) ?Q (\<lambda>_ _. False)) h1" for a b
      unfolding InitLog_def by (auto simp: wp_update wp_ret wp_throw h1 on_proc_def intro!: env split: option.split)
    show ?thesis
      using ne opt(2,3) env [of h1] log
      by (simp add: InitDatabaseEnv_def wp_reads wp_whenE wp_failIf wp_ignoreE h1 on_proc_def Let_def)
  qed
  have "wp (common_init X file) (\<lambda>_. wp (InitDatabaseEnv X E env) ?Q (\<lambda>_ _. False)) (\<lambda>_ _. False) h"
    by (rule wp_mono [OF wp_common_init [OF opt(1) P(3) opt(2,3) ne(1) opt(6-8) h(1)]]) (use con c(3) start in auto)
  then obtain h' where "tryE (common_init X file) (\<lambda>_. InitDatabaseEnv X E env) h = (Ret (), h')" "?Q () h'"
    unfolding wp_tryE [symmetric] by (auto simp: wp_def split: prod.splits res.splits)
  moreover have "sd_UID cfg = root_uid opt" "sd_TenantID cfg = root_tid opt" "sd_Password cfg = ''Lh16888@#$''"
    by (simp_all add: cfg_def normalize_seed_def seed_options_def default_seed_def root_uid_def root_tid_def)
  then have "map (\<lambda>u. (u_UID u, u_TenantID u, u_Password u)) (users d) = [(root_uid opt, root_tid opt, EncryPWD E ''Lh16888@#$'')]
    \<and> map (\<lambda>t. (t_ID t, t_UID t)) (tenants d) = [(root_tid opt, root_uid opt)]
    \<and> organizations d = [root_org i (root_tid opt) (w_now (ho_world h))]
    \<and> map (\<lambda>m. (m_OrgID m, m_UID m)) (org_members d) = [(i, root_uid opt)]"
    by (simp add: d_def first_rows_def seeded_empty root_user_def root_tenant_def blank_tenant_def User_Dao.user_row_def)
  ultimately show ?thesis by (intro exI [of _ h'] exI [of _ d]) simp
qed

lemma sample_serves: "casbin_serves ref_casbin"
  by (simp add: casbin_serves_def ref_casbin_def split_paired_All)

theorem first_start_witness:
  "\<exists>h'. tryE (common_init sample_outside ''passport.conf.yaml'') (\<lambda>_. InitDatabaseEnv sample_outside sample_env []) sample_host = (Ret (), h')
    \<and> DB (ho_proc h') = Some (PostgresDB ''host=db dbname=club'')
    \<and> (\<exists>d. map_of (cl_dbs (ho_cluster h')) ''club'' = Some (complete_db (\<lambda>_. 10000) d) \<and> map u_UID (users d) = [10000] \<and> map t_UID (tenants d) = [10000])"
proof -
  define opt where "opt = no_option\<lparr>op_DBDriver := ''postgres'', op_DBDSN := ''host=db dbname=club'', op_SessionKey := ''n''\<rparr>"
  have pg: "pgx_reads (out_pgx sample_outside)" "\<And>d. pg_New (out_pgx sample_outside) d = None" "\<And>d. pgx_Ping (out_drivers sample_outside) d = None"
    by (simp_all add: sample_outside_def sample_pgx_def pgx_reads_def)
  have pl: "plain ''host=db dbname=club''" and db: "dsnParam ''host=db dbname=club'' ''dbname'' = ''club''" by code_simp+
  have o: "out_yaml sample_outside ''passport.conf.yaml'' (ServConfig (ho_proc sample_host)) = Inr opt" "op_DBDriver opt = DriverPostgreSQL"
    "op_DBDSN opt = ''host=db dbname=club''" "op_SessionKey opt \<noteq> []" "op_LogDir opt = []" "op_SmsDriveer opt = []" "''club'' \<noteq> []"
    by (simp_all add: opt_def sample_outside_def no_option_def DriverPostgreSQL_def)
  have c: "Ensure_Database.calm {''club''} (ho_cluster sample_host)" "map_of (cl_dbs (ho_cluster sample_host)) ''postgres'' \<noteq> None"
    "map_of (cl_dbs (ho_cluster sample_host)) ''club'' = None"
    by (auto simp: sample_host_def sample_cluster_def Ensure_Database.calm_def)
  have h: "DB (ho_proc sample_host) = None" "out_access sample_outside rbac_file DriverPostgreSQL ''host=db dbname=club'' = None"
    by (simp_all add: sample_host_def sample_outside_def new_process_def)
  have w: "w_faults (ho_world sample_host) = []" "w_cache (ho_world sample_host) = NewExpiredMap" "organizations_id_seq (w_seqs (ho_world sample_host)) + 1 \<noteq> 0"
    by (simp_all add: sample_host_def user_world_def sample_world_def NewExpiredMap_def)
  have E: "casbin_ok (enforcer sample_env) (\<lambda>c. set (fst c)) (\<lambda>c. set (snd c))" "casbin_serves (enforcer sample_env)"
    using ref_casbin_ok sample_serves by (simp_all add: sample_env_def)
  have ids: "root_uid opt = 10000" "root_tid opt = 10000" by (simp_all add: opt_def root_uid_def root_tid_def no_option_def)
  show ?thesis
    using first_start [OF pg(1) pl pg(2,3) o(1-3) db o(7) o(4-6) c h E w(1,2) refl w(3), of "[]"] ids by fastforce
qed

end
