(* ===== verification/Migration.thy ===== *)
theory Migration
  imports Tenant_Dao Org_Dao Schema
begin

text \<open>
  \<open>cmd/migration/mysql_to_postgres.go\<close>: the tool that copies tenants, users, permissions and departments of an older
  installation on MySQL into the PostgreSQL tables of this program. The answers of the MySQL server are arguments; the
  target is the database of \<open>World\<close>, so that what the services do afterwards can be said of the same state.
\<close>

section \<open>Connecting\<close>

text \<open>Opening a connection and \<open>Ping\<close> of either driver are arguments; the size of a batch in the configuration is never used.\<close>

definition NewMigrator ::
  "(string \<Rightarrow> string + 'm) \<Rightarrow> ('m \<Rightarrow> string option) \<Rightarrow> (string \<Rightarrow> string + 'p) \<Rightarrow> ('p \<Rightarrow> string option) \<Rightarrow> string \<Rightarrow> string \<Rightarrow> gerr + 'm \<times> 'p"
where
  "NewMigrator open_my ping_my open_pg ping_pg mySQLDSN postgresDSN = (case open_my mySQLDSN of
     Inl e \<Rightarrow> Inl (WrapErr (OtherErr e))
   | Inr m \<Rightarrow> (case ping_my m of
       Some e \<Rightarrow> Inl (WrapErr (OtherErr e))
     | None \<Rightarrow> (case open_pg postgresDSN of
         Inl e \<Rightarrow> Inl (WrapErr (OtherErr e))
       | Inr p \<Rightarrow> (case ping_pg p of Some e \<Rightarrow> Inl (WrapErr (OtherErr e)) | None \<Rightarrow> Inr (m, p)))))"

section \<open>Reading\<close>

text \<open>
  The answer of a query: the error of \<open>Query\<close>, otherwise the rows that \<open>rows.Next\<close> gets to, each with the error of its
  \<open>Scan\<close>, and what \<open>rows.Err\<close> says after the last of them: an error when the connection broke off.
\<close>

record 'r result_set =
  rs_Query :: "string option"
  rs_rows :: "(string + 'r) list"
  rs_Err :: "string option"

record my_user =
  mu_uid :: u64
  mu_tenant_id :: u64
  mu_cellphone :: "string option"
  mu_email :: "string option"
  mu_nickname :: "string option"
  mu_password :: string
  mu_avatar_url :: "string option"
  mu_gender :: "int option"
  mu_addr :: "string option"
  mu_ext :: "string option"
  mu_add_time :: int
  mu_update_time :: int
  mu_login_time :: "int option"
  mu_wx_openid :: "string option"

record my_tenant =
  mt_id :: u64
  mt_uid :: u64
  mt_tenant_name :: string
  mt_tenant_type :: string
  mt_info :: "string option"
  mt_configuration :: "string option"
  mt_add_time :: int
  mt_update_time :: int

record my_permission =
  mp_id :: u64
  mp_tenant_id :: u64
  mp_domain :: string
  mp_title :: string
  mp_value :: string
  mp_add_time :: int
  mp_update_time :: int

record my_department =
  md_id :: u64
  md_parent_id :: u64
  md_uid :: u64
  md_tenant_id :: u64
  md_add_time :: int
  md_update_time :: int
  md_name :: string
  md_config :: "string option"

record mysql =
  my_tenants :: "my_tenant result_set"
  my_users :: "my_user result_set"
  my_permissions :: "my_permission result_set"
  my_departments :: "my_department result_set"

text \<open>
  \<open>encoding/json\<close> on the text of a column, as a map and as the configuration of a tenant; \<open>None\<close> is a text that does not
  parse. A column that is NULL, empty or does not parse becomes NULL.
\<close>

record json_reader =
  js_map :: "string \<Rightarrow> MapStruct option"
  js_config :: "string \<Rightarrow> TenantConfiguration option"

definition json_column :: "(string \<Rightarrow> 'j option) \<Rightarrow> string option \<Rightarrow> 'j option" where
  "json_column parse t = (case t of None \<Rightarrow> None | Some s \<Rightarrow> if s = [] then None else parse s)"

definition map_column :: "json_reader \<Rightarrow> string option \<Rightarrow> MapStruct" where
  "map_column js t = (case json_column (js_map js) t of None \<Rightarrow> [] | Some m \<Rightarrow> stored_map m)"

section \<open>Writing\<close>

text \<open>
  \<open>INSERT ... ON CONFLICT (key) DO UPDATE SET\<close>: the row with the key takes over the listed columns of the new one; with
  no such row the new one is added. A row that breaks another key of the table makes the statement fail.
\<close>

fun upsert :: "('r \<Rightarrow> 'k) \<Rightarrow> ('r \<Rightarrow> 'r \<Rightarrow> 'r) \<Rightarrow> 'r \<Rightarrow> 'r list \<Rightarrow> 'r list" where
  "upsert key set_row r [] = [r]"
| "upsert key set_row r (x # xs) = (if key x = key r then set_row r x # xs else x # upsert key set_row r xs)"

definition upsert_into ::
  "(db \<Rightarrow> 'r list) \<Rightarrow> ('r list \<Rightarrow> db \<Rightarrow> db) \<Rightarrow> ('r list \<Rightarrow> string option) \<Rightarrow> ('r \<Rightarrow> u64) \<Rightarrow> ('r \<Rightarrow> 'r \<Rightarrow> 'r) \<Rightarrow> 'r \<Rightarrow> ('c, unit) dao"
where
  "upsert_into get put violation key set_row r = db_stmt (\<lambda>w. let rows = upsert key set_row r (get (w_db w)) in
     case violation rows of Some c \<Rightarrow> (Err (PgUnique c), w) | None \<Rightarrow> (Ret (), w\<lparr>w_db := put rows (w_db w)\<rparr>))"

text \<open>The loop over the rows with its counter; \<open>rows.Err\<close> is not looked at.\<close>

fun copy_rows :: "('r \<Rightarrow> ('c, unit) dao) \<Rightarrow> nat \<Rightarrow> (string + 'r) list \<Rightarrow> ('c, nat) dao" where
  "copy_rows insert_row n [] = ret n"
| "copy_rows insert_row n (Inl e # rs) = throw (WrapErr (OtherErr e))"
| "copy_rows insert_row n (Inr r # rs) = tryWrap (insert_row r) (\<lambda>_. copy_rows insert_row (Suc n) rs)"

definition migrate :: "('r \<Rightarrow> ('c, unit) dao) \<Rightarrow> 'r result_set \<Rightarrow> ('c, nat) dao" where
  "migrate insert_row rs = (case rs_Query rs of Some e \<Rightarrow> throw (WrapErr (OtherErr e)) | None \<Rightarrow> copy_rows insert_row 0 (rs_rows rs))"

section \<open>The tables\<close>

definition migrated_user :: "json_reader \<Rightarrow> my_user \<Rightarrow> User" where
  "migrated_user js m = \<lparr>u_UID = mu_uid m, u_TenantID = mu_tenant_id m, u_Password = mu_password m,
     u_Cellphone = mu_cellphone m, u_Email = mu_email m, u_Nickname = mu_nickname m, u_AvatarURL = mu_avatar_url m,
     u_Addr = mu_addr m, u_Gender = mu_gender m, u_WxOpenId = mu_wx_openid m, u_Ext = map_column js (mu_ext m),
     u_CreateTime = mu_add_time m, u_UpdateTime = mu_update_time m, u_LoginTime = mu_login_time m, u_Tenant = None,
     u_Roles = [], u_Departments = [], u_CacheTime = 0\<rparr>"

definition set_user :: "User \<Rightarrow> User \<Rightarrow> User" where
  "set_user e u = u\<lparr>u_TenantID := u_TenantID e, u_Cellphone := u_Cellphone e, u_Email := u_Email e, u_Nickname := u_Nickname e,
     u_Password := u_Password e, u_AvatarURL := u_AvatarURL e, u_Gender := u_Gender e, u_Addr := u_Addr e, u_Ext := u_Ext e,
     u_UpdateTime := u_UpdateTime e, u_LoginTime := u_LoginTime e, u_WxOpenId := u_WxOpenId e\<rparr>"

definition MigrateUsers :: "json_reader \<Rightarrow> my_user result_set \<Rightarrow> ('c, nat) dao" where
  "MigrateUsers js = migrate (\<lambda>m. upsert_into users (\<lambda>us. users_update (\<lambda>_. us)) users_violation u_UID set_user (migrated_user js m))"

definition migrated_tenant :: "json_reader \<Rightarrow> my_tenant \<Rightarrow> Tenant" where
  "migrated_tenant js m = \<lparr>t_ID = mt_id m, t_UID = mt_uid m, t_ParentID = 0, t_TenantName = mt_tenant_name m,
     t_TenantType = mt_tenant_type m, t_CreateTime = mt_add_time m, t_UpdateTime = mt_update_time m, t_Info = map_column js (mt_info m),
     t_Configuration = map_option stored_config (json_column (js_config js) (mt_configuration m)), t_Depth = 0\<rparr>"

definition set_tenant :: "Tenant \<Rightarrow> Tenant \<Rightarrow> Tenant" where
  "set_tenant e t = t\<lparr>t_UID := t_UID e, t_TenantName := t_TenantName e, t_TenantType := t_TenantType e, t_Info := t_Info e,
     t_Configuration := t_Configuration e, t_UpdateTime := t_UpdateTime e\<rparr>"

definition MigrateTenants :: "json_reader \<Rightarrow> my_tenant result_set \<Rightarrow> ('c, nat) dao" where
  "MigrateTenants js = migrate (\<lambda>m. upsert_into tenants (\<lambda>ts. tenants_update (\<lambda>_. ts)) tenants_violation t_ID set_tenant (migrated_tenant js m))"

definition migrated_permission :: "my_permission \<Rightarrow> PermissionStruct" where
  "migrated_permission m = \<lparr>p_ID = mp_id m, p_TenantID = mp_tenant_id m, p_Domain = mp_domain m, p_Title = mp_title m, p_Value = mp_value m,
     p_CreateTime = mp_add_time m, p_UpdateTime = mp_update_time m\<rparr>"

definition set_permission :: "PermissionStruct \<Rightarrow> PermissionStruct \<Rightarrow> PermissionStruct" where
  "set_permission e p = p\<lparr>p_TenantID := p_TenantID e, p_Domain := p_Domain e, p_Title := p_Title e, p_Value := p_Value e,
     p_UpdateTime := p_UpdateTime e\<rparr>"

definition MigratePermissions :: "my_permission result_set \<Rightarrow> ('c, nat) dao" where
  "MigratePermissions = migrate (\<lambda>m. upsert_into permissions (\<lambda>ps. permissions_update (\<lambda>_. ps)) perms_violation p_ID set_permission
     (migrated_permission m))"

text \<open>The column \<open>org_id\<close> is not among the inserted ones: it has its default.\<close>

definition migrated_department :: "json_reader \<Rightarrow> my_department \<Rightarrow> Department" where
  "migrated_department js m = \<lparr>d_Id = md_id m, d_ParentID = md_parent_id m, d_UserId = md_uid m, d_TenantID = md_tenant_id m, d_OrgID = 0,
     d_CreateTime = md_add_time m, d_UpdateTime = md_update_time m, d_Name = md_name m, d_Config = map_column js (md_config m)\<rparr>"

definition set_department :: "Department \<Rightarrow> Department \<Rightarrow> Department" where
  "set_department e d = d\<lparr>d_ParentID := d_ParentID e, d_UserId := d_UserId e, d_TenantID := d_TenantID e, d_UpdateTime := d_UpdateTime e,
     d_Name := d_Name e, d_Config := d_Config e\<rparr>"

definition MigrateDepartments :: "json_reader \<Rightarrow> my_department result_set \<Rightarrow> ('c, nat) dao" where
  "MigrateDepartments js = migrate (\<lambda>m. upsert_into departments (\<lambda>ds. departments_update (\<lambda>_. ds)) deps_violation d_Id set_department
     (migrated_department js m))"

definition MigrateAll :: "json_reader \<Rightarrow> mysql \<Rightarrow> ('c, unit) dao" where
  "MigrateAll js my =
     tryE (MigrateTenants js (my_tenants my)) (\<lambda>_.
     tryE (MigrateUsers js (my_users my)) (\<lambda>_.
     tryE (MigratePermissions (my_permissions my)) (\<lambda>_.
     tryE (MigrateDepartments js (my_departments my)) (\<lambda>_. ret ()))))"

section \<open>What is copied\<close>

text \<open>A query that is answered to the last row it got, whatever \<open>rows.Err\<close> says then.\<close>

definition answer :: "'r list \<Rightarrow> string option \<Rightarrow> 'r result_set" where
  "answer rows e = \<lparr>rs_Query = None, rs_rows = map Inr rows, rs_Err = e\<rparr>"

lemma upsert_fresh: "key r \<notin> key ` set xs \<Longrightarrow> upsert key set_row r xs = xs @ [r]"
  by (induction xs) auto

lemma upsert_keys:
  "(\<And>x. key x = key r \<Longrightarrow> key (set_row r x) = key r) \<Longrightarrow> key ` set (upsert key set_row r xs) = insert (key r) (key ` set xs)"
  by (induction xs) auto

lemma upsert_present:
  "distinct_by key xs \<Longrightarrow> r \<in> set xs \<Longrightarrow> set_row r r = r \<Longrightarrow> upsert key set_row r xs = xs"
  by (induction xs) (auto simp: distinct_by_def image_iff)

lemma wp_eq: "wp m (\<lambda>x w'. x = a \<and> w' = b) (\<lambda>_ _. False) w \<Longrightarrow> m w = (Ret a, b)"
  by (auto simp: wp_def split: prod.splits res.splits)

text \<open>The one table has new rows, the faults are used up, and the rest of the world is as it was.\<close>

definition wrote :: "('r list \<Rightarrow> db \<Rightarrow> db) \<Rightarrow> 'c world \<Rightarrow> 'r list \<Rightarrow> 'c world \<Rightarrow> bool" where
  "wrote put w rows w' \<longleftrightarrow> (\<exists>fs. w' = w\<lparr>w_db := put rows (w_db w), w_faults := fs\<rparr>)"

lemma db_tick_calm [simp]: "w_faults w = [] \<Longrightarrow> db_tick w = w"
  by (cases w) (simp add: db_tick_def)

text \<open>
  What a table has to offer for its copy to be exact and repeatable: reading and writing the list of its rows, a key that
  its constraints keep unique, constraints that hold of the first rows when they hold of all, and a \<open>SET\<close> list that
  changes nothing when the row is there already.
\<close>

locale copied_table =
  fixes get :: "db \<Rightarrow> 'r list"
    and put :: "'r list \<Rightarrow> db \<Rightarrow> db"
    and violation :: "'r list \<Rightarrow> string option"
    and key :: "'r \<Rightarrow> u64"
    and set_row :: "'r \<Rightarrow> 'r \<Rightarrow> 'r"
  assumes get_put: "get (put rows d) = rows"
    and put_put: "put rows (put rows' d) = put rows d"
    and put_get: "put (get d) d = d"
    and unique_key: "violation rows = None \<Longrightarrow> distinct_by key rows"
    and first_rows: "violation (rows @ rows') = None \<Longrightarrow> violation rows = None"
    and key_stays: "key (set_row e x) = key x"
    and set_same: "set_row e e = e"
begin

abbreviation insert_row :: "'r \<Rightarrow> ('c, unit) dao" where
  "insert_row \<equiv> upsert_into get put violation key set_row"

lemma copy_into_empty:
  assumes "w_faults w = []" "violation (get (w_db w) @ map conv rows) = None"
  shows "copy_rows (\<lambda>m. insert_row (conv m)) n (map Inr rows) w
    = (Ret (n + length rows), w\<lparr>w_db := put (get (w_db w) @ map conv rows) (w_db w)\<rparr>)"
  using assms
proof (induction rows arbitrary: w n)
  case Nil
  then show ?case by (simp add: ret_def put_get)
next
  case (Cons m rows)
  have v: "violation (get (w_db w) @ [conv m]) = None"
    using Cons.prems(2) first_rows [of "get (w_db w) @ [conv m]" "map conv rows"] by simp
  have k: "key (conv m) \<notin> key ` set (get (w_db w))"
    using unique_key [OF v] by (simp add: distinct_by_def)
  let ?w = "w\<lparr>w_db := put (get (w_db w) @ [conv m]) (w_db w)\<rparr>"
  have "insert_row (conv m) w = (Ret (), ?w)"
    using Cons.prems(1) v by (simp add: upsert_into_def db_stmt_def upsert_fresh k Let_def)
  moreover have "copy_rows (\<lambda>m. insert_row (conv m)) (Suc n) (map Inr rows) ?w
    = (Ret (Suc n + length rows), ?w\<lparr>w_db := put (get (w_db ?w) @ map conv rows) (w_db ?w)\<rparr>)"
    using Cons.prems by (intro Cons.IH) (simp_all add: get_put)
  ultimately show ?case by (simp add: tryWrap_def handle_def get_put put_put)
qed

lemma copy_again:
  assumes "w_faults w = []" "violation (get (w_db w)) = None" "conv ` set rows \<subseteq> set (get (w_db w))"
  shows "copy_rows (\<lambda>m. insert_row (conv m)) n (map Inr rows) w = (Ret (n + length rows), w)"
  using assms
proof (induction rows arbitrary: n)
  case Nil
  then show ?case by (simp add: ret_def)
next
  case (Cons m rows)
  have "upsert key set_row (conv m) (get (w_db w)) = get (w_db w)"
    using Cons.prems by (intro upsert_present unique_key set_same) auto
  then have "insert_row (conv m) w = (Ret (), w)"
    using Cons.prems by (simp add: upsert_into_def db_stmt_def put_get Let_def)
  then show ?case using Cons by (simp add: tryWrap_def handle_def)
qed

lemma keys_upserted: "key ` set (upsert key set_row r xs) = insert (key r) (key ` set xs)"
  by (rule upsert_keys) (simp add: key_stays)

lemma wrote_same: "wrote put w (get (w_db w)) (w\<lparr>w_faults := fs\<rparr>)"
  unfolding wrote_def by (rule exI [of _ fs]) (simp add: put_get)

lemma wrote_refl: "wrote put w (get (w_db w)) w"
  using wrote_same [of w "w_faults w"] by simp

lemma wrote_get: "wrote put w rows w' \<Longrightarrow> get (w_db w') = rows"
  by (auto simp: wrote_def get_put)

lemma wrote_trans: "wrote put w rows w' \<Longrightarrow> wrote put w' rows' w'' \<Longrightarrow> wrote put w rows' w''"
  by (auto simp: wrote_def put_put)

lemma insert_row_keeps:
  "wp (insert_row r)
     (\<lambda>_ w'. \<exists>rows. wrote put w rows w' \<and> key ` set rows = insert (key r) (key ` set (get (w_db w))))
     (\<lambda>_ w'. wrote put w (get (w_db w)) w') w"
proof -
  let ?rows = "upsert key set_row r (get (w_db w))"
  have "wrote put w ?rows (w\<lparr>w_faults := fs, w_db := put ?rows (w_db w)\<rparr>)" for fs
    unfolding wrote_def by (rule exI [of _ fs]) simp
  then have "\<exists>rows. wrote put w rows (w\<lparr>w_faults := tl (w_faults w), w_db := put ?rows (w_db w)\<rparr>)
      \<and> key ` set rows = insert (key r) (key ` set (get (w_db w)))"
    using keys_upserted by blast
  then show ?thesis
    by (simp add: upsert_into_def wp_def db_stmt_def db_tick_def Let_def wrote_same split: option.split)
qed

lemma copy_keeps:
  "wp (copy_rows (\<lambda>m. insert_row (conv m)) n rs)
     (\<lambda>_ w'. \<exists>rows. wrote put w rows w' \<and> key ` set rows = key ` set (get (w_db w)) \<union> key ` conv ` {m. Inr m \<in> set rs})
     (\<lambda>_ w'. \<exists>rows. wrote put w rows w' \<and> key ` set (get (w_db w)) \<subseteq> key ` set rows) w"
proof (induction rs arbitrary: w n)
  case Nil
  then show ?case unfolding copy_rows.simps wp_ret using wrote_refl [of w] by fastforce
next
  case (Cons x rs)
  show ?case
  proof (cases x)
    case (Inl e)
    then show ?thesis unfolding Inl copy_rows.simps wp_throw using wrote_refl [of w] by blast
  next
    case (Inr m)
    show ?thesis
      unfolding Inr copy_rows.simps wp_tryWrap
    proof (rule wp_mono [OF insert_row_keeps], goal_cases)
      case (1 u w1)
      then obtain rows where w1: "wrote put w rows w1" and rows: "key ` set rows = insert (key (conv m)) (key ` set (get (w_db w)))"
        by blast
      have set: "{m'. Inr m' \<in> set (Inr m # rs)} = insert m {m'. Inr m' \<in> set rs}" by auto
      show ?case
        unfolding set
      proof (rule wp_mono [OF Cons.IH], goal_cases)
        case (1 k w2)
        then obtain rows' where "wrote put w1 rows' w2" "key ` set rows' = key ` set rows \<union> key ` conv ` {m. Inr m \<in> set rs}"
          unfolding wrote_get [OF w1] by blast
        with wrote_trans [OF w1] rows show ?case by (intro exI [of _ rows']) simp
      next
        case (2 e w2)
        then obtain rows' where "wrote put w1 rows' w2" "key ` set rows \<subseteq> key ` set rows'"
          unfolding wrote_get [OF w1] by blast
        with wrote_trans [OF w1] rows show ?case by (intro exI [of _ rows']) simp
      qed
    next
      case (2 e w1)
      then show ?case by blast
    qed
  qed
qed

lemma migrate_into_empty:
  assumes "w_faults w = []" "get (w_db w) = []" "violation (map conv rows) = None"
  shows "migrate (\<lambda>m. insert_row (conv m)) (answer rows e) w = (Ret (length rows), w\<lparr>w_db := put (map conv rows) (w_db w)\<rparr>)"
  using assms copy_into_empty [of w conv rows 0] by (simp add: migrate_def answer_def)

lemma migrate_keeps:
  "wp (migrate (\<lambda>m. insert_row (conv m)) rs)
     (\<lambda>_ w'. \<exists>rows. wrote put w rows w' \<and> key ` set rows = key ` set (get (w_db w)) \<union> key ` conv ` {m. Inr m \<in> set (rs_rows rs)})
     (\<lambda>_ w'. \<exists>rows. wrote put w rows w' \<and> key ` set (get (w_db w)) \<subseteq> key ` set rows) w"
proof (cases "rs_Query rs")
  case None
  then show ?thesis unfolding migrate_def using copy_keeps by simp
next
  case (Some e)
  then show ?thesis unfolding migrate_def using wrote_refl [of w] by (auto simp: wp_throw)
qed

lemma migrate_again:
  assumes "w_faults w = []" "violation (get (w_db w)) = None" "conv ` set rows \<subseteq> set (get (w_db w))"
  shows "migrate (\<lambda>m. insert_row (conv m)) (answer rows e) w = (Ret (length rows), w)"
  using assms copy_again [of w conv rows 0] by (simp add: migrate_def answer_def)

end

lemma uniq_col_append: "uniq_col f (xs @ ys) \<Longrightarrow> uniq_col f xs"
  by (simp add: uniq_col_def List.map_filter_def)

lemma users_first_rows: "users_ok (xs @ ys) \<Longrightarrow> users_ok xs"
  unfolding users_ok_def using uniq_col_append distinct_by_append by metis

interpretation user_copy: copied_table users "\<lambda>us. users_update (\<lambda>_. us)" users_violation u_UID set_user
  by unfold_locales (simp_all add: users_violation_None users_ok_def set_user_def, use users_first_rows users_ok_def in blast)

interpretation tenant_copy: copied_table tenants "\<lambda>ts. tenants_update (\<lambda>_. ts)" tenants_violation t_ID set_tenant
  by unfold_locales (auto simp: tenants_violation_def distinct_by_append set_tenant_def split: if_splits)

interpretation permission_copy: copied_table permissions "\<lambda>ps. permissions_update (\<lambda>_. ps)" perms_violation p_ID set_permission
  by unfold_locales (auto simp: perms_violation_def distinct_by_append set_permission_def split: if_splits)

interpretation department_copy: copied_table departments "\<lambda>ds. departments_update (\<lambda>_. ds)" deps_violation d_Id set_department
  by unfold_locales (auto simp: deps_violation_def distinct_by_append set_department_def split: if_splits)

lemmas migrate_table_defs = MigrateTenants_def MigrateUsers_def MigratePermissions_def MigrateDepartments_def

text \<open>
  Whatever the server answers, whatever is in the tables and whichever statements fail: only the four tables change, no row
  disappears, and after a success every row that was read has its identifier in the table.
\<close>

definition only_copied :: "'c world \<Rightarrow> 'c world \<Rightarrow> bool" where
  "only_copied w w' \<longleftrightarrow> w_seqs w' = w_seqs w \<and> w_now w' = w_now w \<and> w_root w' = w_root w \<and> w_cache w' = w_cache w
     \<and> w_depcache w' = w_depcache w \<and> w_casbin w' = w_casbin w \<and> w_sms w' = w_sms w \<and> w_codes w' = w_codes w
     \<and> tenant_closure (w_db w') = tenant_closure (w_db w) \<and> user_closure (w_db w') = user_closure (w_db w)
     \<and> organizations (w_db w') = organizations (w_db w) \<and> org_members (w_db w') = org_members (w_db w)
     \<and> t_ID ` set (tenants (w_db w)) \<subseteq> t_ID ` set (tenants (w_db w')) \<and> u_UID ` set (users (w_db w)) \<subseteq> u_UID ` set (users (w_db w'))
     \<and> p_ID ` set (permissions (w_db w)) \<subseteq> p_ID ` set (permissions (w_db w'))
     \<and> d_Id ` set (departments (w_db w)) \<subseteq> d_Id ` set (departments (w_db w'))"

lemma only_copied_trans: "only_copied w w' \<Longrightarrow> only_copied w' w'' \<Longrightarrow> only_copied w w''"
  unfolding only_copied_def by (elim conjE, intro conjI) (simp | erule (1) subset_trans)+

lemma wp_MigrateTenants:
  "wp (MigrateTenants js rs) (\<lambda>_ w'. only_copied w w' \<and> mt_id ` {m. Inr m \<in> set (rs_rows rs)} \<subseteq> t_ID ` set (tenants (w_db w')))
     (\<lambda>_ w'. only_copied w w') w"
  unfolding MigrateTenants_def
  by (rule wp_mono [OF tenant_copy.migrate_keeps])
    (auto simp: wrote_def only_copied_def image_image migrated_tenant_def)

lemma wp_MigrateUsers:
  "wp (MigrateUsers js rs) (\<lambda>_ w'. only_copied w w' \<and> mu_uid ` {m. Inr m \<in> set (rs_rows rs)} \<subseteq> u_UID ` set (users (w_db w')))
     (\<lambda>_ w'. only_copied w w') w"
  unfolding MigrateUsers_def
  by (rule wp_mono [OF user_copy.migrate_keeps])
    (auto simp: wrote_def only_copied_def image_image migrated_user_def)

lemma wp_MigratePermissions:
  "wp (MigratePermissions rs) (\<lambda>_ w'. only_copied w w' \<and> mp_id ` {m. Inr m \<in> set (rs_rows rs)} \<subseteq> p_ID ` set (permissions (w_db w')))
     (\<lambda>_ w'. only_copied w w') w"
  unfolding MigratePermissions_def
  by (rule wp_mono [OF permission_copy.migrate_keeps])
    (auto simp: wrote_def only_copied_def image_image migrated_permission_def)

lemma wp_MigrateDepartments:
  "wp (MigrateDepartments js rs) (\<lambda>_ w'. only_copied w w' \<and> md_id ` {m. Inr m \<in> set (rs_rows rs)} \<subseteq> d_Id ` set (departments (w_db w')))
     (\<lambda>_ w'. only_copied w w') w"
  unfolding MigrateDepartments_def
  by (rule wp_mono [OF department_copy.migrate_keeps])
    (auto simp: wrote_def only_copied_def image_image migrated_department_def)

lemma only_copied_ids:
  "only_copied w w' \<Longrightarrow> X \<subseteq> t_ID ` set (tenants (w_db w)) \<Longrightarrow> X \<subseteq> t_ID ` set (tenants (w_db w'))"
  "only_copied w w' \<Longrightarrow> X \<subseteq> u_UID ` set (users (w_db w)) \<Longrightarrow> X \<subseteq> u_UID ` set (users (w_db w'))"
  "only_copied w w' \<Longrightarrow> X \<subseteq> p_ID ` set (permissions (w_db w)) \<Longrightarrow> X \<subseteq> p_ID ` set (permissions (w_db w'))"
  unfolding only_copied_def by (elim conjE, drule (1) subset_trans, assumption)+

lemma wp_copied_then:
  assumes m: "wp m (\<lambda>_ w'. only_copied w w' \<and> A w') (\<lambda>_ w'. only_copied w w') w"
    and k: "\<And>w'. wp k (\<lambda>_ w''. only_copied w' w'' \<and> B w'') (\<lambda>_ w''. only_copied w' w'') w'"
    and A: "\<And>w' w''. only_copied w' w'' \<Longrightarrow> A w' \<Longrightarrow> A w''"
  shows "wp (tryE m (\<lambda>_. k)) (\<lambda>_ w'. only_copied w w' \<and> A w' \<and> B w') (\<lambda>_ w'. only_copied w w') w"
  unfolding wp_tryE
proof (rule wp_mono [OF m], elim conjE)
  fix x w' assume w': "only_copied w w'" "A w'"
  show "wp k (\<lambda>_ w'. only_copied w w' \<and> A w' \<and> B w') (\<lambda>_ w'. only_copied w w') w'"
    by (rule wp_mono [OF k]) (use w' only_copied_trans A in blast)+
qed

lemma MigrateAll_keeps:
  "wp (MigrateAll js my)
     (\<lambda>_ w'. only_copied w w' \<and> mt_id ` {m. Inr m \<in> set (rs_rows (my_tenants my))} \<subseteq> t_ID ` set (tenants (w_db w'))
        \<and> mu_uid ` {m. Inr m \<in> set (rs_rows (my_users my))} \<subseteq> u_UID ` set (users (w_db w'))
        \<and> mp_id ` {m. Inr m \<in> set (rs_rows (my_permissions my))} \<subseteq> p_ID ` set (permissions (w_db w'))
        \<and> md_id ` {m. Inr m \<in> set (rs_rows (my_departments my))} \<subseteq> d_Id ` set (departments (w_db w')))
     (\<lambda>_ w'. only_copied w w') w"
proof -
  have last: "wp (tryE (MigrateDepartments js rs) (\<lambda>_. ret ()))
      (\<lambda>_ w'. only_copied w w' \<and> md_id ` {m. Inr m \<in> set (rs_rows rs)} \<subseteq> d_Id ` set (departments (w_db w'))) (\<lambda>_ w'. only_copied w w') w"
    for rs and w :: "'a world"
    unfolding wp_tryE wp_ret by (rule wp_MigrateDepartments)
  show ?thesis
    unfolding MigrateAll_def
    by (intro wp_copied_then wp_MigrateTenants wp_MigrateUsers wp_MigratePermissions last) (erule (1) only_copied_ids)+
qed

text \<open>C34. The migration into empty tables copies every row it is given under its identifier, and running it again changes
  nothing; that the reading of a table broke off (the four errors, any of them) does not show in the result. The identifier sequences stay where they were:
  with a copied identifier that is the next one, the first registration and the first new tenant fail.\<close>

theorem MigrateAll_copies:
  assumes "w_faults w = []"
    and "tenants (w_db w) = []" "users (w_db w) = []" "permissions (w_db w) = []" "departments (w_db w) = []"
    and "tenants_violation (map (migrated_tenant js) ts) = None" "users_violation (map (migrated_user js) us) = None"
    and "perms_violation (map migrated_permission ps) = None" "deps_violation (map (migrated_department js) ds) = None"
  shows "\<exists>w'. w' = w\<lparr>w_db := (w_db w)\<lparr>tenants := map (migrated_tenant js) ts, users := map (migrated_user js) us,
          permissions := map migrated_permission ps, departments := map (migrated_department js) ds\<rparr>\<rparr>
     \<and> (\<forall>e1 e2 e3 e4. let my = \<lparr>my_tenants = answer ts e1, my_users = answer us e2, my_permissions = answer ps e3, my_departments = answer ds e4\<rparr>
          in MigrateAll js my w = (Ret (), w') \<and> MigrateAll js my w' = (Ret (), w'))
     \<and> (\<forall>p. users_uid_seq (w_seqs w) + 1 \<in> mu_uid ` set us \<longrightarrow> fst (UserInsert p w') = Err (WrapErr (PgUnique ''users_pkey'')))
     \<and> (\<forall>t. tenants_id_seq (w_seqs w) + 1 \<in> mt_id ` set ts \<longrightarrow> fst (TenantInsert t w') = Err (PgUnique ''tenants_pkey''))"
proof -
  let ?T = "map (migrated_tenant js) ts" and ?U = "map (migrated_user js) us"
    and ?P = "map migrated_permission ps" and ?D = "map (migrated_department js) ds"
  let ?w1 = "w\<lparr>w_db := (w_db w)\<lparr>tenants := ?T\<rparr>\<rparr>"
  let ?w2 = "w\<lparr>w_db := (w_db w)\<lparr>tenants := ?T, users := ?U\<rparr>\<rparr>"
  let ?w3 = "w\<lparr>w_db := (w_db w)\<lparr>tenants := ?T, users := ?U, permissions := ?P\<rparr>\<rparr>"
  let ?w4 = "w\<lparr>w_db := (w_db w)\<lparr>tenants := ?T, users := ?U, permissions := ?P, departments := ?D\<rparr>\<rparr>"
  have first: "MigrateTenants js (answer ts e1) w = (Ret (length ts), ?w1)" "MigrateUsers js (answer us e2) ?w1 = (Ret (length us), ?w2)"
    "MigratePermissions (answer ps e3) ?w2 = (Ret (length ps), ?w3)" "MigrateDepartments js (answer ds e4) ?w3 = (Ret (length ds), ?w4)" for e1 e2 e3 e4
    unfolding migrate_table_defs
    using assms tenant_copy.migrate_into_empty [of w "migrated_tenant js" ts e1] user_copy.migrate_into_empty [of ?w1 "migrated_user js" us e2]
      permission_copy.migrate_into_empty [of ?w2 migrated_permission ps e3] department_copy.migrate_into_empty [of ?w3 "migrated_department js" ds e4]
    by simp_all
  have again: "MigrateTenants js (answer ts e1) ?w4 = (Ret (length ts), ?w4)" "MigrateUsers js (answer us e2) ?w4 = (Ret (length us), ?w4)"
    "MigratePermissions (answer ps e3) ?w4 = (Ret (length ps), ?w4)" "MigrateDepartments js (answer ds e4) ?w4 = (Ret (length ds), ?w4)" for e1 e2 e3 e4
    unfolding migrate_table_defs
    using assms by (auto intro!: tenant_copy.migrate_again user_copy.migrate_again permission_copy.migrate_again department_copy.migrate_again)
  have user: "fst (UserInsert p ?w4) = Err (WrapErr (PgUnique ''users_pkey''))" if "users_uid_seq (w_seqs w) + 1 \<in> mu_uid ` set us" for p
    using assms(1) that
    by (force simp: UserInsert_def InsertWithID_def tryE_def tryWrap_def handle_def throw_def db_stmt_def Let_def users_violation_def
        distinct_by_append User_Dao.user_row_def migrated_user_def image_comp comp_def)
  have tenant: "fst (TenantInsert t ?w4) = Err (PgUnique ''tenants_pkey'')" if "tenants_id_seq (w_seqs w) + 1 \<in> mt_id ` set ts" for t
    using assms(1) that
    by (force simp: TenantInsert_def tryE_def handle_def throw_def db_stmt_def Let_def tenants_violation_def
        distinct_by_append tenant_row_def migrated_tenant_def image_comp comp_def)
  show ?thesis
    by (rule exI [of _ ?w4]) (simp add: MigrateAll_def tryE_def handle_def ret_def first again user tenant)
qed

definition empty_world :: "unit world" where
  "empty_world = (sample_world () [])\<lparr>w_db := \<lparr>users = [], tenants = [], tenant_closure = [], user_closure = [], departments = [],
     permissions = [], organizations = [], org_members = []\<rparr>\<rparr>"

definition old_user :: "u64 \<Rightarrow> string \<Rightarrow> my_user" where
  "old_user i phone = \<lparr>mu_uid = i, mu_tenant_id = 10001, mu_cellphone = Some phone, mu_email = None, mu_nickname = None, mu_password = ''x'',
     mu_avatar_url = None, mu_gender = None, mu_addr = None, mu_ext = None, mu_add_time = 1, mu_update_time = 2, mu_login_time = None,
     mu_wx_openid = None\<rparr>"

definition old_tenant :: my_tenant where
  "old_tenant = \<lparr>mt_id = 10001, mt_uid = 10001, mt_tenant_name = ''club'', mt_tenant_type = [], mt_info = None, mt_configuration = None,
     mt_add_time = 1, mt_update_time = 2\<rparr>"

definition no_json :: json_reader where
  "no_json = \<lparr>js_map = (\<lambda>_. None), js_config = (\<lambda>_. None)\<rparr>"

theorem MigrateAll_copies_witness:
  "\<exists>w'. map u_UID (users (w_db w')) = [10001, 10002] \<and> tenant_closure (w_db w') = []
     \<and> MigrateAll no_json \<lparr>my_tenants = answer [old_tenant] None, my_users = answer [old_user 10001 ''13800000000'', old_user 10002 ''13900000000''] (Some ''bad connection''),
          my_permissions = answer [] None, my_departments = answer [] None\<rparr> empty_world = (Ret (), w')
     \<and> fst (UserInsert empty_UserReq w') = Err (WrapErr (PgUnique ''users_pkey''))"
proof -
  let ?us = "[old_user 10001 ''13800000000'', old_user 10002 ''13900000000'']"
  have e: "w_faults empty_world = []" "tenants (w_db empty_world) = []" "users (w_db empty_world) = []" "permissions (w_db empty_world) = []"
    "departments (w_db empty_world) = []" "tenant_closure (w_db empty_world) = []" "users_uid_seq (w_seqs empty_world) = 10000"
    by (simp_all add: empty_world_def sample_world_def)
  have t: "tenants_violation (map (migrated_tenant no_json) [old_tenant]) = None"
    by (simp add: tenants_violation_def distinct_by_def)
  have u: "users_violation (map (migrated_user no_json) ?us) = None"
    by (simp add: users_violation_def distinct_by_def uniq_col_def List.map_filter_simps migrated_user_def old_user_def)
  have p: "perms_violation (map migrated_permission []) = None" "deps_violation (map (migrated_department no_json) []) = None"
    by (simp_all add: perms_violation_def deps_violation_def distinct_by_def)
  have uid: "users_uid_seq (w_seqs empty_world) + 1 \<in> mu_uid ` set ?us" by (simp add: e old_user_def)
  show ?thesis
    using MigrateAll_copies [OF e(1-5) t u p] uid e(6) unfolding Let_def
    by (force simp: migrated_user_def old_user_def)
qed

section \<open>The statements fit the tables\<close>

text \<open>The columns the four statements insert, and the key of their \<open>ON CONFLICT\<close>.\<close>

definition inserted_columns :: "(table \<times> string list \<times> string) list" where
  "inserted_columns =
     [(T_users, [''uid'', ''tenant_id'', ''cellphone'', ''email'', ''nickname'', ''password'', ''avatar_url'', ''gender'', ''addr'', ''ext'',
        ''create_time'', ''update_time'', ''login_time'', ''wx_openid''], ''uid''),
      (T_tenants, [''id'', ''uid'', ''tenant_name'', ''tenant_type'', ''info'', ''configuration'', ''create_time'', ''update_time''], ''id''),
      (T_permission, [''id'', ''tenant_id'', ''domain'', ''title'', ''value'', ''create_time'', ''update_time''], ''id''),
      (T_departments, [''id'', ''parent_id'', ''uid'', ''tenant_id'', ''create_time'', ''update_time'', ''name'', ''config''], ''id'')]"

definition fits :: "column list \<Rightarrow> string list \<Rightarrow> bool" where
  "fits cols names \<longleftrightarrow> distinct names \<and> list_all (\<lambda>n. n \<in> set (col_names cols)) names
     \<and> list_all (\<lambda>c. c_notnull c \<and> c_default c = None \<longrightarrow> c_name c \<in> set names) cols"

definition table_columns :: "table \<Rightarrow> column list" where
  "table_columns t = (case t of T_users \<Rightarrow> users_columns PostgresDialect | T_tenants \<Rightarrow> tenants_columns PostgresDialect
     | T_permission \<Rightarrow> permission_columns PostgresDialect | T_departments \<Rightarrow> new_departments_columns | _ \<Rightarrow> [])"

text \<open>Every inserted column exists, and every column without a value to fall back on is inserted.\<close>

lemma statements_fit: "list_all (\<lambda>(t, names, k). fits (table_columns t) names \<and> k \<in> set names) inserted_columns"
  by code_simp

end
