(* ===== verification/Url.thy ===== *)
theory Url
  imports Prelude "HOL-Library.List_Lexorder" "HOL-Library.Char_ord"
begin

text \<open>
  The part of \<open>net/url\<close> that the program uses: escaping for a query, writing the query of a set of values and reading
  it back. Strings are lists of bytes.
\<close>

section \<open>Escaping\<close>

definition unreserved :: "char \<Rightarrow> bool" where
  "unreserved c \<longleftrightarrow> (let n = (of_char c :: nat) in (48 \<le> n \<and> n \<le> 57) \<or> (65 \<le> n \<and> n \<le> 90) \<or> (97 \<le> n \<and> n \<le> 122)
     \<or> n = 45 \<or> n = 46 \<or> n = 95 \<or> n = 126)"

definition hex_digit :: "nat \<Rightarrow> char" where
  "hex_digit d = char_of (if d < 10 then 48 + d else 55 + d)"

definition hex_val :: "char \<Rightarrow> nat option" where
  "hex_val c = (let n = (of_char c :: nat) in
     if 48 \<le> n \<and> n \<le> 57 then Some (n - 48) else if 65 \<le> n \<and> n \<le> 70 then Some (n - 55)
     else if 97 \<le> n \<and> n \<le> 102 then Some (n - 87) else None)"

definition escape_char :: "char \<Rightarrow> string" where
  "escape_char c = (if unreserved c then [c] else if c = CHR '' '' then ''+''
     else [CHR ''%'', hex_digit (of_char c div 16), hex_digit (of_char c mod 16)])"

definition QueryEscape :: "string \<Rightarrow> string" where
  "QueryEscape s = concat (map escape_char s)"

fun QueryUnescape :: "string \<Rightarrow> string option" where
  "QueryUnescape [] = Some []"
| "QueryUnescape (c # s) =
     (if c = CHR ''%'' then (case s of
          a # b # t \<Rightarrow> (case (hex_val a, hex_val b) of
              (Some x, Some y) \<Rightarrow> map_option ((#) (char_of (16 * x + y))) (QueryUnescape t) | _ \<Rightarrow> None)
        | _ \<Rightarrow> None)
      else map_option ((#) (if c = CHR ''+'' then CHR '' '' else c)) (QueryUnescape s))"

lemma hex_val_digit: "d < 16 \<Longrightarrow> hex_val (hex_digit d) = Some d"
  by (auto simp: hex_val_def hex_digit_def Let_def)

lemma of_char_inj_nat: "(of_char c :: nat) = n \<Longrightarrow> c = char_of n"
  by auto

lemma unescape_escape_char: "QueryUnescape (escape_char c @ s) = map_option ((#) c) (QueryUnescape s)"
proof -
  have "c \<noteq> CHR ''%''" "c \<noteq> CHR ''+''" if "unreserved c"
    using that by (auto simp: unreserved_def Let_def)
  moreover have "(of_char c :: nat) div 16 < 16"
    using nat_of_char_less_256 [of c] by (simp add: less_mult_imp_div_less)
  ultimately show ?thesis
    by (simp add: escape_char_def hex_val_digit)
qed

lemma QueryUnescape_QueryEscape [simp]: "QueryUnescape (QueryEscape s) = Some s"
  by (induction s) (simp_all add: QueryEscape_def unescape_escape_char)

section \<open>Queries\<close>

text \<open>\<open>strings.Split(s, c)\<close> and \<open>strings.Cut(s, c)\<close> for one byte.\<close>

fun split_on :: "char \<Rightarrow> string \<Rightarrow> string list" where
  "split_on d [] = [[]]"
| "split_on d (c # s) = (if c = d then [] # split_on d s else (case split_on d s of p # ps \<Rightarrow> (c # p) # ps | [] \<Rightarrow> [[c]]))"

definition cut_at :: "char \<Rightarrow> string \<Rightarrow> string \<times> string" where
  "cut_at d s = (takeWhile (\<lambda>c. c \<noteq> d) s, drop 1 (dropWhile (\<lambda>c. c \<noteq> d) s))"

text \<open>
  \<open>url.ParseQuery\<close>: a setting with a semicolon or a bad escape is left out (the error, which \<open>_ = r.ParseForm()\<close> drops, does
  not stop the reading). \<open>FormValue\<close> is the first value of a name.
\<close>

definition setting :: "string \<Rightarrow> (string \<times> string) list" where
  "setting piece = (if piece = [] \<or> CHR '';'' \<in> set piece then [] else
     (case cut_at (CHR ''='') piece of (k, v) \<Rightarrow> (case (QueryUnescape k, QueryUnescape v) of
        (Some k', Some v') \<Rightarrow> [(k', v')] | _ \<Rightarrow> [])))"

definition ParseQuery :: "string \<Rightarrow> (string \<times> string) list" where
  "ParseQuery q = concat (map setting (split_on (CHR ''&'') q))"

definition FormValue :: "(string \<times> string) list \<Rightarrow> string \<Rightarrow> string" where
  "FormValue vs k = (case map_of vs k of None \<Rightarrow> [] | Some v \<Rightarrow> v)"

text \<open>The values of \<open>url.Values\<close> with their names; \<open>Encode\<close> orders them by name.\<close>

definition write_setting :: "string \<times> string \<Rightarrow> string" where
  "write_setting kv = QueryEscape (fst kv) @ CHR ''='' # QueryEscape (snd kv)"

fun write_settings :: "(string \<times> string) list \<Rightarrow> string" where
  "write_settings [] = []"
| "write_settings [kv] = write_setting kv"
| "write_settings (kv # vs) = write_setting kv @ CHR ''&'' # write_settings vs"

definition Encode_values :: "(string \<times> string) list \<Rightarrow> string" where
  "Encode_values vs = write_settings (sort_key fst vs)"

text \<open>The query of an address: what stands between the first question mark and the fragment.\<close>

definition query_of :: "string \<Rightarrow> string" where
  "query_of u = snd (cut_at (CHR ''?'') (fst (cut_at (CHR ''#'') u)))"

section \<open>Reading what was written\<close>

definition plain_byte :: "char \<Rightarrow> bool" where
  "plain_byte c \<longleftrightarrow> unreserved c \<or> c = CHR ''+'' \<or> c = CHR ''%''"

lemma plain_special [simp]:
  "\<not> plain_byte (CHR ''&'')" "\<not> plain_byte (CHR ''='')" "\<not> plain_byte (CHR ''#'')" "\<not> plain_byte (CHR '';'')" "\<not> plain_byte (CHR ''?'')"
  by (simp_all add: plain_byte_def unreserved_def)

lemma plain_hex: "d < 16 \<Longrightarrow> plain_byte (hex_digit d)"
  by (auto simp: plain_byte_def unreserved_def hex_digit_def Let_def)

lemma QueryEscape_plain: "c \<in> set (QueryEscape s) \<Longrightarrow> plain_byte c"
proof -
  have "plain_byte c" if "c \<in> set (escape_char d)" for c d
  proof -
    have "(of_char d :: nat) div 16 < 16"
      using nat_of_char_less_256 [of d] by (simp add: less_mult_imp_div_less)
    then show ?thesis
      using that by (auto simp: escape_char_def plain_hex split: if_splits) (auto simp: plain_byte_def)
  qed
  then show "c \<in> set (QueryEscape s) \<Longrightarrow> plain_byte c"
    by (auto simp: QueryEscape_def)
qed

lemma QueryEscape_free [simp]:
  "CHR ''&'' \<notin> set (QueryEscape s)" "CHR ''='' \<notin> set (QueryEscape s)" "CHR ''#'' \<notin> set (QueryEscape s)"
  "CHR '';'' \<notin> set (QueryEscape s)" "CHR ''?'' \<notin> set (QueryEscape s)"
  using QueryEscape_plain plain_special by blast+

lemma split_on_free: "d \<notin> set s \<Longrightarrow> split_on d s = [s]"
  by (induction s) auto

lemma split_on_append: "d \<notin> set s \<Longrightarrow> split_on d (s @ d # t) = s # split_on d t"
  by (induction s) auto

lemma cut_at_append: "d \<notin> set s \<Longrightarrow> cut_at d (s @ d # t) = (s, t)"
  by (induction s) (auto simp: cut_at_def)

lemma cut_at_free: "d \<notin> set s \<Longrightarrow> cut_at d s = (s, [])"
  by (induction s) (auto simp: cut_at_def)

lemma setting_write: "setting (write_setting (k, v)) = [(k, v)]"
  by (simp add: setting_def write_setting_def cut_at_append)

lemma write_setting_free [simp]: "CHR ''&'' \<notin> set (write_setting kv)" "CHR ''#'' \<notin> set (write_setting kv)"
  by (simp_all add: write_setting_def)

lemma setting_kv: "setting (write_setting kv) = [kv]"
  by (cases kv) (simp add: setting_write)

lemma ParseQuery_write [simp]: "ParseQuery (write_settings vs) = vs"
  by (induction vs rule: write_settings.induct)
    (simp_all add: ParseQuery_def split_on_free split_on_append setting_kv, simp add: setting_def)

lemma write_settings_free [simp]: "CHR ''#'' \<notin> set (write_settings vs)"
  by (induction vs rule: write_settings.induct) auto

lemma ParseQuery_Encode: "ParseQuery (Encode_values vs) = sort_key fst vs"
  by (simp add: Encode_values_def)

lemma FormValue_Encode: "distinct (map fst vs) \<Longrightarrow> FormValue (ParseQuery (Encode_values vs)) = FormValue vs"
proof -
  assume d: "distinct (map fst vs)"
  then have s: "distinct (map fst (sort_key fst vs))" by (simp add: distinct_map)
  then have "map_of (sort_key fst vs) = map_of vs"
    using map_of_inject_set [OF s d] by simp
  then show ?thesis by (simp add: ParseQuery_Encode FormValue_def fun_eq_iff)
qed

end
