(* ===== verification/Weixin.thy ===== *)
theory Weixin
  imports Wx_Face Url
begin

text \<open>
  The way to WeChat and back: \<open>WxLogin\<close> and what it uses in \<open>face/wx/http_api.go\<close>, which sends a browser to the
  authorization page of WeChat with the address to come back to, and \<open>weixin/\<close>, which asks the servers of WeChat for the user
  behind the code that comes back. The HTTP client is an argument: an address gives an error or a status and a body;
  so is \<open>encoding/json\<close> for the three answers.
\<close>

section \<open>Addresses\<close>

text \<open>What a request says about the address it was sent to: \<open>r.TLS\<close>, \<open>X-Forwarded-Proto\<close> and \<open>r.Host\<close>.\<close>

record origin =
  or_TLS :: bool
  or_Forwarded :: string
  or_Host :: string

definition pathWxLogin :: string where
  "pathWxLogin = ''/usercenter/wx/login''"

definition pathWxOAuthCB :: string where
  "pathWxOAuthCB = ''/usercenter/wx/oauth''"

definition absoluteURL :: "origin \<Rightarrow> string \<Rightarrow> (string \<times> string) list \<Rightarrow> string" where
  "absoluteURL o' path q =
     (if or_Host o' = [] then []
      else let scheme = (if or_TLS o' \<or> or_Forwarded o' = ''https'' then ''https'' else ''http'');
             u = scheme @ ''://'' @ or_Host o' @ path;
             enc = Encode_values (filter (\<lambda>(_, v). TrimSpace v \<noteq> []) q)
           in if enc \<noteq> [] then u @ CHR ''?'' # enc else u)"

definition authorize_url :: "string \<Rightarrow> string \<Rightarrow> string \<Rightarrow> string \<Rightarrow> string" where
  "authorize_url appid callback scope state =
     ''https://open.weixin.qq.com/connect/oauth2/authorize?appid='' @ QueryEscape appid
       @ ''&redirect_uri='' @ QueryEscape callback
       @ ''&response_type=code&scope='' @ QueryEscape scope
       @ ''&state='' @ QueryEscape state @ ''#wechat_redirect''"

section \<open>\<open>WxLogin\<close>\<close>

text \<open>The answer is the address to redirect to.\<close>

definition oauth_scope :: "form \<Rightarrow> string" where
  "oauth_scope form = (let scope = TrimSpace (form ''scope'') in if scope \<noteq> ''snsapi_userinfo'' then ''snsapi_base'' else scope)"

definition oauth_callback :: "origin \<Rightarrow> form \<Rightarrow> string" where
  "oauth_callback o' form = (let callback = TrimSpace (form ''redirect_uri'') in
     if callback = [] then absoluteURL o' pathWxOAuthCB [] else callback)"

definition startMpOAuth ::
  "string \<Rightarrow> (string \<Rightarrow> (string \<times> string) option) \<Rightarrow> origin \<Rightarrow> form \<Rightarrow> string \<Rightarrow> ('c, string) handler"
where
  "startMpOAuth appid parse o' form returnURL =
     failIf (\<not> isSafeReturnURL parse returnURL) (200, ErrParam) (
     failIf (appid = []) (200, ErrWxService) (
     failIf (\<not> isSafeReturnURL parse (oauth_callback o' form)) (200, ErrParam) (
     ret (authorize_url appid (oauth_callback o' form) (oauth_scope form) returnURL))))"

definition redirectOrHome :: "string \<Rightarrow> ('c, string) handler" where
  "redirectOrHome successURL = ret (if successURL \<noteq> [] then successURL else ''/'')"

text \<open>Where to go after the authorization: to \<open>success_url\<close> at once, or through \<open>WxLogin\<close> again.\<close>

definition afterAuth :: "origin \<Rightarrow> form \<Rightarrow> string" where
  "afterAuth o' form = (let successURL = TrimSpace (form ''success_url''); bindURL = TrimSpace (form ''bind_url'') in
     if bindURL \<noteq> [] \<or> successURL = []
     then absoluteURL o' pathWxLogin [(''success_url'', successURL), (''bind_url'', bindURL),
       (''redirect_uri'', TrimSpace (form ''redirect_uri'')), (''scope'', TrimSpace (form ''scope''))]
     else successURL)"

definition has_wx :: "User \<Rightarrow> bool" where
  "has_wx u \<longleftrightarrow> (case u_WxOpenId u of None \<Rightarrow> False | Some x \<Rightarrow> TrimSpace x \<noteq> [])"

definition has_phone :: "User \<Rightarrow> bool" where
  "has_phone u \<longleftrightarrow> (case u_Cellphone u of None \<Rightarrow> False | Some x \<Rightarrow> length x = 11)"

definition WxLogin ::
  "'c server \<Rightarrow> string \<Rightarrow> (string \<Rightarrow> (string \<times> string) option) \<Rightarrow> origin \<Rightarrow> request \<Rightarrow> form \<Rightarrow> ('c, string) handler"
where
  "WxLogin sv appid parse o' r form = (let successURL = TrimSpace (form ''success_url''); bindURL = TrimSpace (form ''bind_url'') in
     failIf (successURL \<noteq> [] \<and> \<not> isSafeReturnURL parse successURL) (200, ErrParam) (
     failIf (bindURL \<noteq> [] \<and> \<not> isSafeReturnURL parse bindURL) (200, ErrParam) (
     with_user sv r (\<lambda>sess.
       if IsRealUserUID (u_UID sess) \<and> (has_wx sess \<or> has_phone sess)
       then (if has_phone sess then redirectOrHome successURL
             else if bindURL \<noteq> [] then ret bindURL
             else if successURL \<noteq> [] then ret successURL else ret ''/'')
       else startMpOAuth appid parse o' form (afterAuth o' form)))))"

section \<open>The servers of WeChat\<close>

type_synonym http = "string \<Rightarrow> string + nat \<times> string"

record WeixinMpAccessTokenResponse =
  at_ErrCode :: int
  at_ErrMsg :: string
  at_AccessToken :: string
  at_ExpiresIn :: int
  at_RefreshToken :: string
  at_OpenId :: string
  at_Scope :: string
  at_IsSnapshotuser :: int
  at_Unionid :: string

record WeixinMpUserInfoResponse =
  ui_ErrCode :: int
  ui_ErrMsg :: string
  ui_OpenId :: string
  ui_Nickname :: string
  ui_Sex :: int
  ui_Province :: string
  ui_City :: string
  ui_Country :: string
  ui_Headimgurl :: string
  ui_Privilege :: "string list"
  ui_Unionid :: string

record WeixinJscode2sessionResponse =
  js_ErrCode :: int
  js_ErrMsg :: string
  js_Code :: string
  js_OpenId :: string
  js_Unionid :: string
  js_SessionKey :: string

text \<open>The parameters of the three addresses stand as they came, without escaping.\<close>

definition access_token_address :: "string \<Rightarrow> string \<Rightarrow> string \<Rightarrow> string" where
  "access_token_address appId appSecret code =
     ''https://api.weixin.qq.com/sns/oauth2/access_token?appid='' @ appId @ ''&secret='' @ appSecret @ ''&code='' @ code @ ''&grant_type=authorization_code''"

definition userinfo_address :: "string \<Rightarrow> string \<Rightarrow> string" where
  "userinfo_address accessToken openId =
     ''https://api.weixin.qq.com/sns/userinfo?access_token='' @ accessToken @ ''&openid='' @ openId @ ''&lang=zh_CN''"

definition jscode2session_address :: "string \<Rightarrow> string \<Rightarrow> string \<Rightarrow> string" where
  "jscode2session_address appId appSecret code =
     ''https://api.weixin.qq.com/sns/jscode2session?appid='' @ appId @ ''&secret='' @ appSecret @ ''&js_code='' @ code @ ''&grant_type=authorization_code''"

text \<open>
  The error code of an answer is looked at only to answer nothing: neither a value nor an error (the named results are
  nil then), which is \<open>Inr None\<close>.
\<close>

definition GetAccessToken ::
  "http \<Rightarrow> (string \<Rightarrow> WeixinMpAccessTokenResponse option) \<Rightarrow> string \<Rightarrow> string \<Rightarrow> string \<Rightarrow> gerr + WeixinMpAccessTokenResponse option"
where
  "GetAccessToken http json appId appSecret code = (case http (access_token_address appId appSecret code) of
     Inl e \<Rightarrow> Inl (OtherErr e)
   | Inr (status, body) \<Rightarrow>
       if status \<noteq> 200 then Inl ErrWxService
       else (case json body of
           None \<Rightarrow> Inl ErrWxService
         | Some wxResp \<Rightarrow> if at_ErrCode wxResp \<noteq> 0 then Inr None else Inr (Some wxResp)))"

definition GetUserInfo_wx ::
  "http \<Rightarrow> (string \<Rightarrow> WeixinMpUserInfoResponse option) \<Rightarrow> string \<Rightarrow> string \<Rightarrow> gerr + WeixinMpUserInfoResponse option"
where
  "GetUserInfo_wx http json accessToken openId = (case http (userinfo_address accessToken openId) of
     Inl e \<Rightarrow> Inl (OtherErr e)
   | Inr (status, body) \<Rightarrow>
       if status \<noteq> 200 then Inl ErrWxService
       else (case json body of
           None \<Rightarrow> Inl ErrWxService
         | Some wxResp \<Rightarrow> if ui_ErrCode wxResp \<noteq> 0 then Inr None else Inr (Some wxResp)))"

text \<open>
  Here the status is not looked at, and an error needs a code and a text. \<open>json.Unmarshal\<close> gets a pointer to the pointer, which the
  body \<open>null\<close> (\<open>Inr None\<close>) sets to nil.
\<close>

definition WxMiniAppLogin ::
  "http \<Rightarrow> (string \<Rightarrow> string + WeixinJscode2sessionResponse option) \<Rightarrow> string \<Rightarrow> string \<Rightarrow> string \<Rightarrow> (gerr, WeixinJscode2sessionResponse) res"
where
  "WxMiniAppLogin http json code appId appSecret = (case http (jscode2session_address appId appSecret code) of
     Inl e \<Rightarrow> Err (OtherErr e)
   | Inr (_, body) \<Rightarrow> (case json body of
         Inl e \<Rightarrow> Err (OtherErr e)
       | Inr None \<Rightarrow> Panic
       | Inr (Some resp) \<Rightarrow> if js_ErrCode resp \<noteq> 0 \<and> js_ErrMsg resp \<noteq> [] then Err ErrWxService else Ret (resp\<lparr>js_Code := code\<rparr>)))"

text \<open>What \<open>WxOAuthCallback\<close> sees of these answers. \<open>int32\<close> of the sex wraps.\<close>

definition int32_of :: "int \<Rightarrow> int" where
  "int32_of i = (i + 2 ^ 31) mod 2 ^ 32 - 2 ^ 31"

definition token_seen ::
  "http \<Rightarrow> (string \<Rightarrow> WeixinMpAccessTokenResponse option) \<Rightarrow> string \<Rightarrow> string \<Rightarrow> string \<Rightarrow> (string \<times> string) option"
where
  "token_seen http json appId appSecret code = (case GetAccessToken http json appId appSecret code of
     Inr (Some t) \<Rightarrow> Some (at_AccessToken t, at_OpenId t) | _ \<Rightarrow> None)"

definition info_seen :: "http \<Rightarrow> (string \<Rightarrow> WeixinMpUserInfoResponse option) \<Rightarrow> string \<Rightarrow> string \<Rightarrow> wx_user option" where
  "info_seen http json accessToken openId = (case GetUserInfo_wx http json accessToken openId of
     Inr (Some i) \<Rightarrow> Some \<lparr>wx_Nickname = ui_Nickname i, wx_Headimgurl = ui_Headimgurl i, wx_Sex = int32_of (ui_Sex i)\<rparr> | _ \<Rightarrow> None)"

section \<open>What the addresses carry\<close>

lemma cut_at_Cons: "cut_at d (c # s) = (if c = d then ([], s) else (case cut_at d s of (x, y) \<Rightarrow> (c # x, y)))"
  by (simp add: cut_at_def)

lemma query_of_address:
  "CHR ''?'' \<notin> set p \<Longrightarrow> CHR ''#'' \<notin> set p \<Longrightarrow> CHR ''#'' \<notin> set q \<Longrightarrow> query_of (p @ CHR ''?'' # q) = q"
  "CHR ''?'' \<notin> set p \<Longrightarrow> CHR ''#'' \<notin> set p \<Longrightarrow> CHR ''#'' \<notin> set q \<Longrightarrow> query_of (p @ CHR ''?'' # q @ CHR ''#'' # f) = q"
  "CHR ''?'' \<notin> set p \<Longrightarrow> CHR ''#'' \<notin> set p \<Longrightarrow> query_of p = []"
proof -
  assume p: "CHR ''?'' \<notin> set p" "CHR ''#'' \<notin> set p"
  show "query_of p = []" using p by (simp add: query_of_def cut_at_free)
  assume q: "CHR ''#'' \<notin> set q"
  then have n: "CHR ''#'' \<notin> set (p @ CHR ''?'' # q)" using p by simp
  show "query_of (p @ CHR ''?'' # q) = q" using p q by (simp add: query_of_def cut_at_free n cut_at_append)
  have "cut_at (CHR ''#'') ((p @ CHR ''?'' # q) @ CHR ''#'' # f) = (p @ CHR ''?'' # q, f)" by (rule cut_at_append [OF n])
  then show "query_of (p @ CHR ''?'' # q @ CHR ''#'' # f) = q" using p by (simp add: query_of_def cut_at_append)
qed

definition authorize_page :: string where
  "authorize_page = ''https://open.weixin.qq.com/connect/oauth2/authorize''"

lemma authorize_url_settings:
  "authorize_url appid callback scope state = authorize_page @ CHR ''?'' # write_settings
     [(''appid'', appid), (''redirect_uri'', callback), (''response_type'', ''code''), (''scope'', scope), (''state'', state)] @ CHR ''#'' # ''wechat_redirect''"
proof -
  have names: "QueryEscape ''appid'' = ''appid''" "QueryEscape ''redirect_uri'' = ''redirect_uri''" "QueryEscape ''response_type'' = ''response_type''"
    "QueryEscape ''code'' = ''code''" "QueryEscape ''scope'' = ''scope''" "QueryEscape ''state'' = ''state''" by code_simp+
  show ?thesis by (simp add: authorize_url_def authorize_page_def write_setting_def names)
qed

lemma authorize_url_query:
  "ParseQuery (query_of (authorize_url appid callback scope state)) =
     [(''appid'', appid), (''redirect_uri'', callback), (''response_type'', ''code''), (''scope'', scope), (''state'', state)]"
proof -
  have "CHR ''?'' \<notin> set authorize_page" "CHR ''#'' \<notin> set authorize_page" by (simp_all add: authorize_page_def)
  then show ?thesis unfolding authorize_url_settings by (simp add: query_of_address(2) del: write_settings.simps)
qed

lemma absoluteURL_query:
  assumes "CHR ''?'' \<notin> set (or_Host o')" "CHR ''#'' \<notin> set (or_Host o')" "CHR ''?'' \<notin> set path" "CHR ''#'' \<notin> set path" "or_Host o' \<noteq> []"
    and "distinct (map fst q)"
  shows "FormValue (ParseQuery (query_of (absoluteURL o' path q))) = FormValue (filter (\<lambda>(_, v). TrimSpace v \<noteq> []) q)"
proof -
  let ?q = "filter (\<lambda>(_, v). TrimSpace v \<noteq> []) q"
  have d: "distinct (map fst ?q)" using assms(6) by (rule distinct_map_filter)
  have h: "CHR ''#'' \<notin> set (Encode_values ?q)" by (simp add: Encode_values_def)
  define u where "u = (if or_TLS o' \<or> or_Forwarded o' = ''https'' then ''https'' else ''http'') @ ''://'' @ or_Host o' @ path"
  have u: "CHR ''?'' \<notin> set u" "CHR ''#'' \<notin> set u" using assms by (auto simp: u_def)
  have "absoluteURL o' path q = (if Encode_values ?q \<noteq> [] then u @ CHR ''?'' # Encode_values ?q else u)"
    using assms(5) by (simp add: absoluteURL_def u_def Let_def)
  then have "query_of (absoluteURL o' path q) = Encode_values ?q"
    using u h by (simp add: query_of_address)
  then show ?thesis by (simp add: FormValue_Encode [OF d])
qed

section \<open>There and back\<close>

lemma FormValue_Cons: "FormValue ((k, v) # vs) n = (if n = k then v else FormValue vs n)"
  by (simp add: FormValue_def)

lemma FormValue_Nil: "FormValue [] n = []"
  by (simp add: FormValue_def)

text \<open>What \<open>WxLogin\<close> reads from the address it had itself called.\<close>

lemma login_address_query:
  assumes "CHR ''?'' \<notin> set (or_Host o')" "CHR ''#'' \<notin> set (or_Host o')" "or_Host o' \<noteq> []"
    and "TrimSpace (form ''bind_url'') \<noteq> [] \<or> TrimSpace (form ''success_url'') = []"
    and "k = ''success_url'' \<or> k = ''bind_url''"
  shows "FormValue (ParseQuery (query_of (afterAuth o' form))) k = TrimSpace (form k)"
proof -
  let ?q = "[(''success_url'', TrimSpace (form ''success_url'')), (''bind_url'', TrimSpace (form ''bind_url'')),
    (''redirect_uri'', TrimSpace (form ''redirect_uri'')), (''scope'', TrimSpace (form ''scope''))]"
  have p: "CHR ''?'' \<notin> set pathWxLogin" "CHR ''#'' \<notin> set pathWxLogin" by (simp_all add: pathWxLogin_def)
  have d: "distinct (map fst ?q)" by simp
  have "FormValue (ParseQuery (query_of (absoluteURL o' pathWxLogin ?q))) = FormValue (filter (\<lambda>(_, v). TrimSpace v \<noteq> []) ?q)"
    by (rule absoluteURL_query [OF assms(1,2) p assms(3) d])
  moreover have "afterAuth o' form = absoluteURL o' pathWxLogin ?q" using assms(4) by (auto simp: afterAuth_def Let_def)
  ultimately show ?thesis using assms(5) by (auto simp: FormValue_Cons FormValue_Nil)
qed

lemma with_user_eq:
  "GetSessionUser sv r g = (Ret su, g1) \<Longrightarrow> with_user sv r k g = k (case su of None \<Rightarrow> zero_User | Some u \<Rightarrow> u) g1"
  by (simp add: with_user_def handle_def)

lemma WxLogin_past_check:
  assumes "TrimSpace (form ''success_url'') = [] \<or> isSafeReturnURL parse (TrimSpace (form ''success_url''))"
    and "TrimSpace (form ''bind_url'') = [] \<or> isSafeReturnURL parse (TrimSpace (form ''bind_url''))"
    and "GetSessionUser sv r g = (Ret su, g1)" and "u = (case su of None \<Rightarrow> zero_User | Some u \<Rightarrow> u)"
  shows "WxLogin sv appid parse o' r form g = (if IsRealUserUID (u_UID u) \<and> (has_wx u \<or> has_phone u)
     then (if has_phone u then redirectOrHome (TrimSpace (form ''success_url''))
           else if TrimSpace (form ''bind_url'') \<noteq> [] then ret (TrimSpace (form ''bind_url''))
           else if TrimSpace (form ''success_url'') \<noteq> [] then ret (TrimSpace (form ''success_url'')) else ret ''/'') g1
     else startMpOAuth appid parse o' form (afterAuth o' form) g1)"
proof -
  have "\<not> (TrimSpace (form ''success_url'') \<noteq> [] \<and> \<not> isSafeReturnURL parse (TrimSpace (form ''success_url'')))"
    "\<not> (TrimSpace (form ''bind_url'') \<noteq> [] \<and> \<not> isSafeReturnURL parse (TrimSpace (form ''bind_url'')))" using assms by blast+
  then show ?thesis
    unfolding WxLogin_def Let_def failIf_def assms(4)
    by (simp only: if_False with_user_eq [OF assms(3)]) (rule if_distrib [of "\<lambda>m. m g1"])
qed

text \<open>Where a user with a WeChat session and no phone number is sent.\<close>

lemma WxLogin_bound:
  assumes "GetSessionUser sv r g = (Ret (Some u), g')" "IsRealUserUID (u_UID u)" "has_wx u" "\<not> has_phone u"
    and "TrimSpace (form ''success_url'') = [] \<or> isSafeReturnURL parse (TrimSpace (form ''success_url''))"
    and "TrimSpace (form ''bind_url'') = [] \<or> isSafeReturnURL parse (TrimSpace (form ''bind_url''))"
  shows "WxLogin sv appid parse o' r form g = (Ret (if TrimSpace (form ''bind_url'') \<noteq> [] then TrimSpace (form ''bind_url'')
     else if TrimSpace (form ''success_url'') \<noteq> [] then TrimSpace (form ''success_url'') else ''/''), g')"
  using assms(2-4) by (simp add: WxLogin_past_check [OF assms(5,6,1) refl] ret_def)

text \<open>
  \<open>WxLogin\<close> redirects home, to the address asked for, or to WeChat; the query WeChat gets is read there as the five settings and no
  other, whatever the addresses in it are made of, and the address it leads back to lets the visitor, logged in then, arrive at the
  page that was asked for.
\<close>

theorem WxLogin_comes_back:
  assumes host: "CHR ''?'' \<notin> set (or_Host o')" "CHR ''#'' \<notin> set (or_Host o')"
    and login: "WxLogin sv appid parse o' r form g = (Ret loc, g')"
  shows "loc = ''/'' \<or> isSafeReturnURL parse loc \<and> loc \<in> {TrimSpace (form ''success_url''), TrimSpace (form ''bind_url'')}
     \<or> (\<exists>callback scope after. loc = authorize_url appid callback scope after
          \<and> ParseQuery (query_of loc) = [(''appid'', appid), (''redirect_uri'', callback), (''response_type'', ''code''), (''scope'', scope), (''state'', after)]
          \<and> isSafeReturnURL parse callback \<and> isSafeReturnURL parse after
          \<and> (TrimSpace (form ''bind_url'') = [] \<and> after = TrimSpace (form ''success_url'')
             \<or> (\<forall>r2 g2 u g3. GetSessionUser sv r2 g2 = (Ret (Some u), g3) \<longrightarrow> IsRealUserUID (u_UID u) \<longrightarrow> has_wx u \<and> \<not> has_phone u \<longrightarrow>
                  WxLogin sv appid parse o' r2 (FormValue (ParseQuery (query_of after))) g2
                    = (Ret (if TrimSpace (form ''bind_url'') \<noteq> [] then TrimSpace (form ''bind_url'')
                        else if TrimSpace (form ''success_url'') \<noteq> [] then TrimSpace (form ''success_url'') else ''/''), g3))))"
proof -
  have safe: "TrimSpace (form ''success_url'') = [] \<or> isSafeReturnURL parse (TrimSpace (form ''success_url''))"
    "TrimSpace (form ''bind_url'') = [] \<or> isSafeReturnURL parse (TrimSpace (form ''bind_url''))"
    using login by (auto simp: WxLogin_def Let_def failIf_def throw_def split: if_splits)
  then obtain su g1 where s: "GetSessionUser sv r g = (Ret su, g1)"
    using login by (cases "GetSessionUser sv r g"; cases "fst (GetSessionUser sv r g)")
      (auto simp: WxLogin_def Let_def failIf_def throw_def with_user_def handle_def split: if_splits)
  let ?u = "case su of None \<Rightarrow> zero_User | Some u \<Rightarrow> u"
  show ?thesis
  proof (cases "IsRealUserUID (u_UID ?u) \<and> (has_wx ?u \<or> has_phone ?u)")
    case True
    then show ?thesis
      using login safe unfolding WxLogin_past_check [OF safe s refl] by (auto simp: redirectOrHome_def ret_def split: if_splits)
  next
    case False
    let ?after = "afterAuth o' form"
    have "startMpOAuth appid parse o' form ?after g1 = (Ret loc, g')"
      using login unfolding WxLogin_past_check [OF safe s refl] if_not_P [OF False] .
    then have start: "isSafeReturnURL parse ?after" "isSafeReturnURL parse (oauth_callback o' form)"
      "loc = authorize_url appid (oauth_callback o' form) (oauth_scope form) ?after"
      by (auto simp: startMpOAuth_def failIf_def throw_def ret_def split: if_splits)
    have again: "WxLogin sv appid parse o' r2 (FormValue (ParseQuery (query_of ?after))) g2
        = (Ret (if TrimSpace (form ''bind_url'') \<noteq> [] then TrimSpace (form ''bind_url'')
            else if TrimSpace (form ''success_url'') \<noteq> [] then TrimSpace (form ''success_url'') else ''/''), g3)"
      if direct: "\<not> (TrimSpace (form ''bind_url'') = [] \<and> ?after = TrimSpace (form ''success_url''))"
        and u: "GetSessionUser sv r2 g2 = (Ret (Some u), g3)" "IsRealUserUID (u_UID u)" "has_wx u \<and> \<not> has_phone u" for r2 g2 u g3
    proof -
      have c: "TrimSpace (form ''bind_url'') \<noteq> [] \<or> TrimSpace (form ''success_url'') = []"
        using direct by (auto simp: afterAuth_def Let_def split: if_splits)
      have "or_Host o' \<noteq> []" using start(1) c by (auto simp: isSafeReturnURL_def afterAuth_def absoluteURL_def Let_def)
      from login_address_query [OF host this c]
      have k: "FormValue (ParseQuery (query_of ?after)) ''success_url'' = TrimSpace (form ''success_url'')"
        "FormValue (ParseQuery (query_of ?after)) ''bind_url'' = TrimSpace (form ''bind_url'')" by blast+
      show ?thesis
        using WxLogin_bound [OF u(1,2), of "FormValue (ParseQuery (query_of ?after))" parse appid o'] u(3) safe unfolding k TrimSpace_idem by blast
    qed
    show ?thesis
      using start again by (auto simp: authorize_url_query intro!: exI [of _ "oauth_callback o' form"] exI [of _ "oauth_scope form"] exI [of _ ?after])
  qed
qed

section \<open>A code that brings its own settings\<close>

lemma QueryUnescape_plain: "list_all unreserved s \<Longrightarrow> QueryUnescape s = Some s"
  by (induction s) (auto simp: unreserved_def Let_def)

lemma unreserved_free:
  assumes "list_all unreserved s"
  shows "CHR ''='' \<notin> set s" "CHR '';'' \<notin> set s" "CHR ''&'' \<notin> set s" "CHR ''#'' \<notin> set s"
  using assms by (auto simp: list_all_iff unreserved_def)

lemma ParseQuery_plain:
  assumes "list_all unreserved k" "list_all unreserved v"
  shows "ParseQuery (k @ CHR ''='' # v) = [(k, v)]" "ParseQuery (k @ CHR ''='' # v @ CHR ''&'' # q) = (k, v) # ParseQuery q"
proof -
  have s: "setting (k @ CHR ''='' # v) = [(k, v)]"
    using assms by (simp add: setting_def cut_at_append QueryUnescape_plain unreserved_free)
  have f: "CHR ''&'' \<notin> set (k @ CHR ''='' # v)" using assms by (simp add: unreserved_free)
  show "ParseQuery (k @ CHR ''='' # v) = [(k, v)]" by (simp add: ParseQuery_def split_on_free [OF f] s)
  show "ParseQuery (k @ CHR ''='' # v @ CHR ''&'' # q) = (k, v) # ParseQuery q"
    using split_on_append [OF f, of q] s by (simp add: ParseQuery_def)
qed

text \<open>
  The code of the callback goes into the address as it came: a code that continues with an ampersand adds settings of its own, here
  a second \<open>appid\<close> behind the configured one.
\<close>

theorem access_token_address_injectable:
  assumes "list_all unreserved appId" "list_all unreserved appSecret" "list_all unreserved code" "list_all unreserved other"
  shows "ParseQuery (query_of (access_token_address appId appSecret (code @ ''&appid='' @ other)))
    = [(''appid'', appId), (''secret'', appSecret), (''code'', code), (''appid'', other), (''grant_type'', ''authorization_code'')]"
proof -
  have u: "list_all unreserved ''appid''" "list_all unreserved ''secret''" "list_all unreserved ''code''" "list_all unreserved ''grant_type''"
    "list_all unreserved ''authorization_code''" by (simp_all add: unreserved_def)
  let ?base = "''https://api.weixin.qq.com/sns/oauth2/access_token''"
  let ?q = "''appid'' @ CHR ''='' # appId @ CHR ''&'' # ''secret'' @ CHR ''='' # appSecret @ CHR ''&'' # ''code'' @ CHR ''='' # code @ CHR ''&''
     # ''appid'' @ CHR ''='' # other @ CHR ''&'' # ''grant_type'' @ CHR ''='' # ''authorization_code''"
  have "access_token_address appId appSecret (code @ ''&appid='' @ other) = ?base @ CHR ''?'' # ?q"
    by (simp add: access_token_address_def)
  moreover have "query_of (?base @ CHR ''?'' # ?q) = ?q"
    by (rule query_of_address(1)) (use assms in \<open>auto simp: unreserved_free\<close>)
  moreover have "ParseQuery ?q = [(''appid'', appId), (''secret'', appSecret), (''code'', code), (''appid'', other), (''grant_type'', ''authorization_code'')]"
    by (simp only: ParseQuery_plain assms u)
  ultimately show ?thesis by (simp only:)
qed

end
