(* ===== verification/Avatar.thy ===== *)
theory Avatar
  imports User_Face Paths
begin

text \<open>
  \<open>face/user/user_modify_avatar_form.go\<close>: the upload of a picture, which is kept in a file named after the user while the row of the
  user gets its address. The state is that of the gate together with the files by name; what the operating system answers
  to the calls of one upload is an argument.
\<close>

section \<open>The handler\<close>

definition MAX_UPLOAD_LEN :: nat where
  "MAX_UPLOAD_LEN = 8 * 1024 * 1024"

type_synonym file_map = "string \<Rightarrow> string option"

text \<open>
  The error of \<open>ParseMultipartForm\<close>, and the error of \<open>FormFile\<close> or the size in the header of the part with its content.
  \<open>None\<close> in \<open>os_answers\<close> is a call that succeeds; \<open>io.Copy\<close> may break off after some bytes.
\<close>

record upload =
  up_form :: "string option"
  up_file :: "string + nat \<times> string"

record os_answers =
  os_MkdirAll :: "string option"
  os_OpenFile :: "string option"
  os_Copy :: "(string \<times> nat) option"
  os_Remove :: "string option"

definition on_gate :: "('c gate, 'e, 'a) prog \<Rightarrow> ('c gate \<times> file_map, 'e, 'a) prog" where
  "on_gate m = (\<lambda>(g, d). case m g of (x, g') \<Rightarrow> (x, (g', d)))"

definition avatar_name :: "u64 \<Rightarrow> string" where
  "avatar_name uid = show_u64 uid @ ''.png''"

definition avatar_file :: "string \<Rightarrow> u64 \<Rightarrow> string" where
  "avatar_file dir uid = Join [dir, avatar_name uid]"

definition avatar_req :: "u64 \<Rightarrow> UserReq" where
  "avatar_req uid = empty_UserReq\<lparr>r_UID := uid, r_AvatarURL := ''avatar/'' @ avatar_name uid\<rparr>"

definition put_file :: "string \<Rightarrow> string option \<Rightarrow> 'g \<times> file_map \<Rightarrow> 'g \<times> file_map" where
  "put_file n c = (\<lambda>(g, d). (g, d(n := c)))"

text \<open>\<open>O_TRUNC\<close> empties the file before anything of the new picture is seen; the reader stops one byte past the limit.\<close>

definition UserModifyAvatarForm ::
  "'c server \<Rightarrow> string \<Rightarrow> os_answers \<Rightarrow> request \<Rightarrow> upload \<Rightarrow> ('c gate \<times> file_map, nat \<times> gerr, string) prog"
where
  "UserModifyAvatarForm sv dir os r u = tryE (on_gate (with_user sv r ret)) (\<lambda>su. let uid = u_UID su; fp = avatar_file dir uid in
     failIf (uid = 0) (401, ErrNoLogin) (
     case up_form u of Some _ \<Rightarrow> throw (400, OtherErr ''file size'') | None \<Rightarrow>
     case up_file u of Inl _ \<Rightarrow> throw (400, OtherErr ''read'') | Inr (len, content) \<Rightarrow>
     failIf (len > 0 \<and> len > MAX_UPLOAD_LEN) (400, OtherErr ''file size'') (
     case os_MkdirAll os of Some _ \<Rightarrow> throw (200, OtherErr ''file system'') | None \<Rightarrow>
     case os_OpenFile os of Some _ \<Rightarrow> throw (500, OtherErr ''write'') | None \<Rightarrow>
     update (put_file fp (Some [])) (let copied = take (MAX_UPLOAD_LEN + 1) content in
     case os_Copy os of Some (_, n) \<Rightarrow> update (put_file fp (Some (take n copied))) (throw (500, OtherErr ''write'')) | None \<Rightarrow>
     update (put_file fp (Some copied)) (
     if copied = [] \<or> length copied > MAX_UPLOAD_LEN
     then (case os_Remove os of Some _ \<Rightarrow> throw (400, OtherErr ''file size'')
       | None \<Rightarrow> update (put_file fp None) (throw (400, OtherErr ''file size'')))
     else tryE (on_gate (svc 200 (UpdateUserService (sv_env sv) (avatar_req uid)) ret))
       (\<lambda>_. ret (avatar_name uid)))))))"

section \<open>Properties\<close>

lemma wp_on_gate [wp_simps]:
  "wp (on_gate m) Q E s = wp m (\<lambda>x g'. Q x (g', snd s)) (\<lambda>e g'. E e (g', snd s)) (fst s)"
  by (cases s) (auto simp: wp_def on_gate_def split: prod.splits res.splits)

lemma put_file_simps [simp]: "put_file n c (g, d) = (g, d(n := c))"
  by (simp add: put_file_def)

lemma avatar_name_plain: "plain_element (avatar_name uid)"
proof -
  have d: "\<forall>c \<in> set (show_u64 uid). is_digit c" using show_u64_digits by (simp add: list_all_iff)
  then have "slash \<notin> set (avatar_name uid)" by (auto simp: avatar_name_def slash_def is_digit_def)
  moreover have "length (avatar_name uid) > 2" by (simp add: avatar_name_def)
  ultimately show ?thesis by (auto simp: plain_element_def)
qed

text \<open>Two users never share a file.\<close>

lemma avatar_file_inject:
  assumes "dir \<noteq> []"
  shows "avatar_file dir i = avatar_file dir j \<longleftrightarrow> i = j"
proof
  assume "avatar_file dir i = avatar_file dir j"
  then have "path_of (rooted dir) (clean_list dir @ [avatar_name i]) = path_of (rooted dir) (clean_list dir @ [avatar_name j])"
    using Join_entry(1) [OF assms avatar_name_plain] by (simp add: avatar_file_def del: Join.simps)
  then have "avatar_name i = avatar_name j"
    by (metis Dir_Base_path_of(2) tidy_clean_list avatar_name_plain)
  then show "i = j" by (simp add: avatar_name_def)
qed simp

lemma TrimSpace_avatar: "TrimSpace (''avatar/'' @ avatar_name uid) = ''avatar/'' @ avatar_name uid"
  by (simp add: TrimSpace_def avatar_name_def is_space_def)

lemma avatar_req_simps [simp]:
  "r_UID (avatar_req uid) = uid" "r_AvatarURL (avatar_req uid) = ''avatar/'' @ avatar_name uid" "r_Cellphone (avatar_req uid) = []"
  "r_Email (avatar_req uid) = []" "r_Nickname (avatar_req uid) = []" "r_Addr (avatar_req uid) = []" "r_Gender (avatar_req uid) = 0"
  "r_SmsCode (avatar_req uid) = []"
  by (simp_all add: avatar_req_def empty_UserReq_def)

lemma treated_unchanged:
  assumes "r_Cellphone p = []" "r_Email p = []" "r_Nickname p = []" "r_SmsCode p = []" "r_AvatarURL p \<noteq> []"
    and "TrimPrefix (TrimPrefix (TrimSpace (r_AvatarURL p)) ''./'') ''/'' = r_AvatarURL p"
  shows "fst (userPreTreat E p) = p"
proof -
  have "TrimSpace [] = []" by (simp add: TrimSpace_def)
  then show ?thesis using assms by (cases p) (simp add: userPreTreat_def Let_def)
qed

lemma treated_avatar_req: "fst (userPreTreat E (avatar_req uid)) = avatar_req uid"
proof (rule treated_unchanged)
  show "TrimPrefix (TrimPrefix (TrimSpace (r_AvatarURL (avatar_req uid))) ''./'') ''/'' = r_AvatarURL (avatar_req uid)"
    unfolding avatar_req_simps TrimSpace_avatar by (simp add: TrimPrefix_def HasPrefix_def)
qed simp_all

lemma avatar_update:
  "wp (UpdateUserService E (avatar_req uid))
     (\<lambda>_ w'. w_db w' = (w_db w)\<lparr>users := map (\<lambda>x. if u_UID x = uid
         then x\<lparr>u_AvatarURL := Some (''avatar/'' @ avatar_name uid)\<rparr> else x) (users (w_db w))\<rparr>)
     (\<lambda>_ w'. w_db w' = w_db w) w"
proof -
  have "(avatar_req uid)\<lparr>r_Nickname := filled_nickname (avatar_req uid)\<rparr> = avatar_req uid"
    by (simp add: filled_nickname_def avatar_req_def empty_UserReq_def)
  moreover have "apply_update (avatar_req uid) x = x\<lparr>u_AvatarURL := Some (''avatar/'' @ avatar_name uid)\<rparr>" for x
    by (simp add: apply_update_def set_if_def)
  ultimately show ?thesis
    using UpdateUserService_writes [of E "avatar_req uid" w]
    unfolding treated_avatar_req Let_def wp_def by (auto split: prod.splits res.splits)
qed

lemma wp_upload:
  assumes user: "with_user sv r ret g = (Ret su, g1)"
    and nobody: "u_UID su = 0 \<Longrightarrow> E (401, ErrNoLogin) (g1, d)"
    and refused: "\<And>e. u_UID su \<noteq> 0 \<Longrightarrow> E e (g1, d)"
    and broken: "\<And>e c. u_UID su \<noteq> 0 \<Longrightarrow> E e (g1, d(avatar_file dir (u_UID su) := c))"
    and save: "\<And>len content. u_UID su \<noteq> 0 \<Longrightarrow> up_file u = Inr (len, content) \<Longrightarrow> content \<noteq> [] \<Longrightarrow> length content \<le> MAX_UPLOAD_LEN \<Longrightarrow>
      wp (on_gate (svc 200 (UpdateUserService (sv_env sv) (avatar_req (u_UID su))) ret)) (\<lambda>_. Q (avatar_name (u_UID su))) E
        (g1, d(avatar_file dir (u_UID su) \<mapsto> content))"
  shows "wp (UserModifyAvatarForm sv dir os r u) Q E (g, d)"
proof -
  have start: "wp (on_gate (with_user sv r ret)) Q' E (g, d) = Q' su (g1, d)" for Q'
    by (simp add: wp_on_gate) (simp add: wp_def user)
  show ?thesis
  proof (cases "u_UID su = 0")
    case True
    then show ?thesis by (simp add: UserModifyAvatarForm_def wp_tryE start Let_def wp_failIf nobody)
  next
    case uid: False
    note steps = UserModifyAvatarForm_def wp_tryE start Let_def wp_failIf wp_throw wp_update refused [OF uid] broken [OF uid]
    show ?thesis
    proof (cases "up_form u = None \<and> (\<exists>len content. up_file u = Inr (len, content) \<and> \<not> (len > 0 \<and> len > MAX_UPLOAD_LEN))
        \<and> os_MkdirAll os = None \<and> os_OpenFile os = None \<and> os_Copy os = None")
      case calls: True
      then obtain len content where c: "up_file u = Inr (len, content)" by blast
      show ?thesis
      proof (cases "content = [] \<or> length content > MAX_UPLOAD_LEN")
        case True
        then show ?thesis using uid calls c
          by (cases "os_Remove os") (auto simp: steps)
      next
        case False
        then show ?thesis using uid calls save [OF uid c] c by (simp add: steps wp_ret)
      qed
    next
      case False
      then show ?thesis using uid by (auto simp: steps split: option.split sum.split)
    qed
  qed
qed

text \<open>
  Whatever comes in: only the file of the user of the session changes. A success leaves there the very bytes that were sent, at
  least one and at most 8 MB, and the address in the row of that user, and changes nothing else in the tables; an error
  changes no table.
\<close>

theorem UserModifyAvatarForm_own_file:
  assumes "dir \<noteq> []" "with_user sv r ret g = (Ret su, g1)"
  shows "wp (UserModifyAvatarForm sv dir os r u)
     (\<lambda>name s. name = avatar_name (u_UID su) \<and> u_UID su \<noteq> 0
        \<and> (\<exists>len content. up_file u = Inr (len, content) \<and> content \<noteq> [] \<and> length content \<le> MAX_UPLOAD_LEN
             \<and> snd s = d(avatar_file dir (u_UID su) \<mapsto> content))
        \<and> w_db (g_world (fst s)) = (w_db (g_world g1))\<lparr>users := map (\<lambda>x. if u_UID x = u_UID su
             then x\<lparr>u_AvatarURL := Some (''avatar/'' @ avatar_name (u_UID su))\<rparr> else x) (users (w_db (g_world g1)))\<rparr>)
     (\<lambda>e s. w_db (g_world (fst s)) = w_db (g_world g1)
        \<and> (\<forall>uid. uid \<noteq> u_UID su \<longrightarrow> snd s (avatar_file dir uid) = d (avatar_file dir uid))
        \<and> (u_UID su = 0 \<longrightarrow> e = (401, ErrNoLogin) \<and> snd s = d)) (g, d)"
proof (rule wp_upload [OF assms(2)], goal_cases)
  case (4 len content)
  show ?case
    unfolding wp_on_gate wp_svc wp_ret fst_conv snd_conv
    by (rule wp_mono [OF avatar_update]) (use 4 in \<open>simp_all add: avatar_file_inject [OF assms(1)]\<close>)
qed (simp_all add: avatar_file_inject [OF assms(1)])

text \<open>An empty file passes the check of the size, and the picture that was there is gone when it is refused.\<close>

theorem empty_upload_deletes:
  assumes "with_user sv r ret g = (Ret su, g1)" "u_UID su \<noteq> 0"
    and "up_form u = None" "up_file u = Inr (0, [])"
    and "os_MkdirAll os = None" "os_OpenFile os = None" "os_Copy os = None" "os_Remove os = None"
  shows "UserModifyAvatarForm sv dir os r u (g, d) = (Err (400, OtherErr ''file size''), (g1, d(avatar_file dir (u_UID su) := None)))"
  using assms by (simp add: UserModifyAvatarForm_def on_gate_def tryE_def handle_def Let_def failIf_def update_def throw_def)

end
