(* ===== verification/Sms_Tencent.thy ===== *)
theory Sms_Tencent
  imports Sms
begin

text \<open>
  \<open>sms/sms_tencentcloud.go\<close>: the one driver for verification codes. The client library of the provider and the generator of
  \<open>math/rand\<close>, which is seeded with the time of the call, are arguments. \<open>nil\<close> pointers in an answer are \<open>None\<close>, and following one is a
  panic.
\<close>

section \<open>The driver\<close>

record SmsTencentcloud =
  SecretID :: string
  SecretKey :: string
  SdkAppId :: string
  SignName :: string
  UserAddTemplateId :: string
  UserLoginTemplateId :: string
  GetBackPwdTemplateId :: string
  WxBindTemplateId :: string

text \<open>\<open>config[k].(string)\<close>, with one result and with two.\<close>

definition must_string :: "(string \<Rightarrow> gval option) \<Rightarrow> string \<Rightarrow> string option" where
  "must_string config k = (case config k of Some (GStr s) \<Rightarrow> Some s | _ \<Rightarrow> None)"

definition may_string :: "(string \<Rightarrow> gval option) \<Rightarrow> string \<Rightarrow> string" where
  "may_string config k = (case config k of Some (GStr s) \<Rightarrow> s | _ \<Rightarrow> [])"

definition NewSmsTencentcloud :: "(string \<Rightarrow> gval option) \<Rightarrow> (unit, SmsTencentcloud option) res" where
  "NewSmsTencentcloud config =
     (case (must_string config ''secret_id'', must_string config ''secret_key'', must_string config ''sdk_app_id'', must_string config ''sign_name'') of
        (Some secretID, Some secretKey, Some app, Some sign) \<Rightarrow>
          (if length secretID = 0 \<or> length secretKey = 0 then Ret None
           else Ret (Some \<lparr>SecretID = secretID, SecretKey = secretKey, SdkAppId = app, SignName = sign,
             UserAddTemplateId = may_string config ''user_add_template_id'', UserLoginTemplateId = may_string config ''user_login_template_id'',
             GetBackPwdTemplateId = may_string config ''getback_pwd_template_id'', WxBindTemplateId = may_string config ''wx_bind_template_id''\<rparr>))
      | _ \<Rightarrow> Panic)"

section \<open>Sending\<close>

record tx_request =
  rq_SmsSdkAppId :: string
  rq_SignName :: string
  rq_SenderId :: string
  rq_SessionContext :: string
  rq_ExtendCode :: string
  rq_TemplateParamSet :: "string list"
  rq_TemplateId :: string
  rq_PhoneNumberSet :: "string list"

record tx_status =
  st_Code :: "string option"
  st_Fee :: "nat option"

text \<open>\<open>txsms.NewClient\<close> of the two secrets, and \<open>client.SendSms\<close>: an error or \<open>SendStatusSet\<close>.\<close>

record tx_api =
  api_NewClient :: "string \<Rightarrow> string \<Rightarrow> string option"
  api_SendSms :: "tx_request \<Rightarrow> string + tx_status list"

definition sms_request :: "SmsTencentcloud \<Rightarrow> string list \<Rightarrow> string \<Rightarrow> string \<Rightarrow> string list \<Rightarrow> tx_request" where
  "sms_request p phoneNumber userSession templateId templateVals = \<lparr>rq_SmsSdkAppId = SdkAppId p, rq_SignName = SignName p, rq_SenderId = [],
     rq_SessionContext = userSession, rq_ExtendCode = [], rq_TemplateParamSet = templateVals, rq_TemplateId = templateId,
     rq_PhoneNumberSet = phoneNumber\<rparr>"

text \<open>Every error of \<open>SendSms\<close> ends in \<open>panic(err)\<close>.\<close>

definition sendSms :: "tx_api \<Rightarrow> SmsTencentcloud \<Rightarrow> string list \<Rightarrow> string \<Rightarrow> string \<Rightarrow> string list \<Rightarrow> (string, unit) res" where
  "sendSms api p phoneNumber userSession templateId templateVals = (case api_NewClient api (SecretID p) (SecretKey p) of
     Some e \<Rightarrow> Err e
   | None \<Rightarrow> (case api_SendSms api (sms_request p phoneNumber userSession templateId templateVals) of
       Inl e \<Rightarrow> Panic
     | Inr [] \<Rightarrow> Panic
     | Inr (s # _) \<Rightarrow>
         if st_Code s \<noteq> None \<and> st_Code s \<noteq> Some ''Ok'' then Err (the (st_Code s))
         else (case st_Fee s of
             None \<Rightarrow> Panic
           | Some fee \<Rightarrow> if fee < 1 then (case st_Code s of None \<Rightarrow> Panic | Some c \<Rightarrow> Err c) else Ret ())))"

text \<open>\<open>fmt.Sprintf("%06v", ...)\<close> of the number: \<open>int31n seed\<close> is \<open>rand.New(rand.NewSource(seed)).Int31n(1000000)\<close>.\<close>

definition pad :: "nat \<Rightarrow> string \<Rightarrow> string" where
  "pad n s = replicate (n - length s) (CHR ''0'') @ s"

definition sms_code :: "(int \<Rightarrow> nat) \<Rightarrow> int \<Rightarrow> string" where
  "sms_code int31n unixNano = pad 6 (show_nat (int31n unixNano))"

text \<open>The code is a named result: it is answered with the error too.\<close>

definition send_code_with :: "tx_api \<Rightarrow> (int \<Rightarrow> nat) \<Rightarrow> SmsTencentcloud \<Rightarrow> string \<Rightarrow> int \<Rightarrow> string \<Rightarrow> (unit, string \<times> string option) res" where
  "send_code_with api int31n p templateId unixNano phoneNumber = (let code = sms_code int31n unixNano in
     case sendSms api p [phoneNumber] [] templateId [code] of
       Ret _ \<Rightarrow> Ret (code, None)
     | Err e \<Rightarrow> Ret (code, Some e)
     | Panic \<Rightarrow> Panic)"

definition tx_SendUserAddSms :: "tx_api \<Rightarrow> (int \<Rightarrow> nat) \<Rightarrow> SmsTencentcloud \<Rightarrow> int \<Rightarrow> string \<Rightarrow> (unit, string \<times> string option) res" where
  "tx_SendUserAddSms api int31n p = send_code_with api int31n p (UserAddTemplateId p)"

definition tx_SendUserLoginSms :: "tx_api \<Rightarrow> (int \<Rightarrow> nat) \<Rightarrow> SmsTencentcloud \<Rightarrow> int \<Rightarrow> string \<Rightarrow> (unit, string \<times> string option) res" where
  "tx_SendUserLoginSms api int31n p = send_code_with api int31n p (UserLoginTemplateId p)"

definition tx_SendGetBackPwdSms :: "tx_api \<Rightarrow> (int \<Rightarrow> nat) \<Rightarrow> SmsTencentcloud \<Rightarrow> int \<Rightarrow> string \<Rightarrow> (unit, string \<times> string option) res" where
  "tx_SendGetBackPwdSms api int31n p = send_code_with api int31n p (GetBackPwdTemplateId p)"

definition tx_SendWxBindSms :: "tx_api \<Rightarrow> (int \<Rightarrow> nat) \<Rightarrow> SmsTencentcloud \<Rightarrow> int \<Rightarrow> string \<Rightarrow> (unit, string \<times> string option) res" where
  "tx_SendWxBindSms api int31n p = send_code_with api int31n p (WxBindTemplateId p)"

section \<open>Properties\<close>

lemma show_nat_length: "n < 10 ^ Suc k \<Longrightarrow> length (show_nat n) \<le> Suc k"
proof (induction k arbitrary: n)
  case 0
  then show ?case by (subst show_nat.simps) simp
next
  case (Suc k)
  then have "n div 10 < 10 ^ Suc k" by (simp add: less_mult_imp_div_less mult.commute)
  then show ?case using Suc.IH [of "n div 10"] by (subst show_nat.simps) simp
qed

lemma nat_of_digits_zeros: "nat_of_digits (replicate k (CHR ''0'') @ s) = nat_of_digits s"
  by (induction k) (simp_all add: nat_of_digits_def digit_val_def)

text \<open>
  A code has six digits, zeroes in front included, and is the number that was drawn: the range of \<open>Int31n\<close> is the documented one.
\<close>

theorem sms_code_shape:
  assumes "int31n t < 1000000"
  shows "length (sms_code int31n t) = 6" "list_all is_digit (sms_code int31n t)" "nat_of_digits (sms_code int31n t) = int31n t"
proof -
  have "length (show_nat (int31n t)) \<le> 6" using show_nat_length [of "int31n t" 5] assms by simp
  then show "length (sms_code int31n t) = 6" by (simp add: sms_code_def pad_def)
  show "list_all is_digit (sms_code int31n t)"
    using show_nat_digits [of "int31n t"] by (auto simp: sms_code_def pad_def list_all_iff is_digit_def)
  show "nat_of_digits (sms_code int31n t) = int31n t"
    by (simp add: sms_code_def pad_def nat_of_digits_zeros)
qed

text \<open>
  A message that counts as sent was one request for that number alone with the template of the purpose and the code, and the
  provider charged for it; an error of the provider's interface is no answer but a panic.
\<close>

theorem send_code_with_sent:
  assumes "send_code_with api int31n p templateId t phone = Ret (code, None)"
  shows "code = sms_code int31n t \<and> (\<exists>s ss fee. api_SendSms api (sms_request p [phone] [] templateId [code]) = Inr (s # ss)
     \<and> st_Code s \<in> {None, Some ''Ok''} \<and> st_Fee s = Some fee \<and> fee \<ge> 1)"
  using assms by (auto simp: send_code_with_def sendSms_def Let_def split: res.splits option.splits sum.splits list.splits if_splits)

theorem api_error_panics:
  assumes "api_NewClient api (SecretID p) (SecretKey p) = None" "\<And>r. api_SendSms api r = Inl e"
  shows "send_code_with api int31n p templateId t phone = Panic"
  using assms by (simp add: send_code_with_def sendSms_def Let_def)

text \<open>Two numbers that ask at the same instant get the same code, and whoever knows the instant knows the code.\<close>

lemma code_by_time:
  "send_code_with api int31n p a t phone = Ret (c, e) \<Longrightarrow> send_code_with api' int31n q b t phone' = Ret (c', e') \<Longrightarrow> c = c'"
  by (auto simp: send_code_with_def Let_def split: res.splits)

text \<open>What the service layer of \<open>Sms\<close> is given.\<close>

definition driver_answer :: "(unit, string \<times> string option) res \<Rightarrow> sms_answer option" where
  "driver_answer r = (case r of Ret (code, e) \<Rightarrow> Some (code, map_option OtherErr e) | _ \<Rightarrow> None)"

end
