(* ===== verification/Phone.thy ===== *)
theory Phone
  imports Prelude
begin

text \<open>
  \<open>CellPhoneValidate\<close> of \<open>common/validate.go\<close>: the check behind the tag \<open>phone\<close> of the requests. The regular expression of the source is
  translated as it is written and matched over the code points of the value, as \<open>regexp\<close> does.
\<close>

section \<open>Code points\<close>

text \<open>\<open>utf8.DecodeRune\<close>: a byte that starts no well-formed sequence counts as the replacement character.\<close>

definition between :: "nat \<Rightarrow> nat \<Rightarrow> nat \<Rightarrow> bool" where
  "between a b n \<longleftrightarrow> a \<le> n \<and> n \<le> b"

definition byte_at :: "nat list \<Rightarrow> nat \<Rightarrow> nat" where
  "byte_at s i = (if i < length s then s ! i else 0)"

definition tail_byte :: "nat \<Rightarrow> bool" where
  "tail_byte n \<longleftrightarrow> between 128 191 n"

definition decode_rune :: "nat list \<Rightarrow> nat \<times> nat" where
  "decode_rune s = (let a = byte_at s 0; b = byte_at s 1; c = byte_at s 2; d = byte_at s 3 in
     if a < 128 then (a, 1)
     else if between 194 223 a \<and> tail_byte b then ((a - 192) * 64 + (b - 128), 2)
     else if between 224 239 a \<and> between (if a = 224 then 160 else 128) (if a = 237 then 159 else 191) b \<and> tail_byte c
       then ((a - 224) * 4096 + (b - 128) * 64 + (c - 128), 3)
     else if between 240 244 a \<and> between (if a = 240 then 144 else 128) (if a = 244 then 143 else 191) b \<and> tail_byte c \<and> tail_byte d
       then ((a - 240) * 262144 + (b - 128) * 4096 + (c - 128) * 64 + (d - 128), 4)
     else (65533, 1))"

lemma decode_rune_width: "0 < snd (decode_rune s)"
  by (simp add: decode_rune_def Let_def)

function runes :: "nat list \<Rightarrow> nat list" where
  "runes [] = []"
| "runes (a # s) = fst (decode_rune (a # s)) # runes (drop (snd (decode_rune (a # s))) (a # s))"
  by pat_completeness auto
termination
  by (relation "measure length") (simp_all add: decode_rune_width)

definition bytes_of :: "string \<Rightarrow> nat list" where
  "bytes_of s = map of_char s"

section \<open>Regular expressions\<close>

text \<open>The expressions the source uses; \<open>rests\<close> lists what may be left of a text after a match at its beginning.\<close>

datatype regex = Class "nat \<Rightarrow> bool" | Seq regex regex | Alt regex regex | Times nat regex

primrec rests_times :: "nat \<Rightarrow> (nat list \<Rightarrow> nat list list) \<Rightarrow> nat list \<Rightarrow> nat list list" where
  "rests_times 0 m s = [s]"
| "rests_times (Suc n) m s = concat (map (rests_times n m) (m s))"

primrec rests :: "regex \<Rightarrow> nat list \<Rightarrow> nat list list" where
  "rests (Class P) s = (case s of [] \<Rightarrow> [] | c # t \<Rightarrow> if P c then [t] else [])"
| "rests (Seq r q) s = concat (map (rests q) (rests r s))"
| "rests (Alt r q) s = rests r s @ rests q s"
| "rests (Times n r) s = rests_times n (rests r) s"

definition matches :: "regex \<Rightarrow> nat list \<Rightarrow> bool" where
  "matches r s \<longleftrightarrow> [] \<in> set (rests r s)"

text \<open>The language of an expression, and that the matcher decides it.\<close>

definition conc :: "nat list set \<Rightarrow> nat list set \<Rightarrow> nat list set" where
  "conc A B = {x @ y | x y. x \<in> A \<and> y \<in> B}"

primrec lang_times :: "nat \<Rightarrow> nat list set \<Rightarrow> nat list set" where
  "lang_times 0 A = {[]}"
| "lang_times (Suc n) A = conc A (lang_times n A)"

primrec lang :: "regex \<Rightarrow> nat list set" where
  "lang (Class P) = {[c] | c. P c}"
| "lang (Seq r q) = conc (lang r) (lang q)"
| "lang (Alt r q) = lang r \<union> lang q"
| "lang (Times n r) = lang_times n (lang r)"

lemma conc_split: "(\<exists>u \<in> conc A B. s = u @ t) \<longleftrightarrow> (\<exists>x. (\<exists>u \<in> A. s = u @ x) \<and> (\<exists>v \<in> B. x = v @ t))"
  unfolding conc_def by (simp add: Bex_def) (metis append_assoc)

lemma rests_times_lang:
  assumes "\<And>s t. t \<in> set (m s) \<longleftrightarrow> (\<exists>u \<in> A. s = u @ t)"
  shows "t \<in> set (rests_times n m s) \<longleftrightarrow> (\<exists>u \<in> lang_times n A. s = u @ t)"
proof (induction n arbitrary: s)
  case (Suc n)
  have "t \<in> set (rests_times (Suc n) m s) \<longleftrightarrow> (\<exists>x. (\<exists>u \<in> A. s = u @ x) \<and> (\<exists>v \<in> lang_times n A. x = v @ t))"
    by (auto simp: assms Suc.IH)
  then show ?case by (simp add: conc_split)
qed auto

lemma rests_lang: "t \<in> set (rests r s) \<longleftrightarrow> (\<exists>u \<in> lang r. s = u @ t)"
proof (induction r arbitrary: s t)
  case (Class P)
  then show ?case by (cases s) auto
next
  case (Seq r q)
  have "t \<in> set (rests (Seq r q) s) \<longleftrightarrow> (\<exists>x. (\<exists>u \<in> lang r. s = u @ x) \<and> (\<exists>v \<in> lang q. x = v @ t))"
    by (auto simp: Seq.IH)
  then show ?case by (simp add: conc_split)
next
  case (Alt r q)
  show ?case by (auto simp: Alt.IH)
next
  case (Times n r)
  show ?case unfolding rests.simps lang.simps by (rule rests_times_lang) (rule Times.IH)
qed

theorem matches_lang: "matches r s \<longleftrightarrow> s \<in> lang r"
  by (simp add: matches_def rests_lang)

definition lit :: "char \<Rightarrow> regex" where
  "lit c = Class (\<lambda>n. n = of_char c)"

definition digit :: "nat \<Rightarrow> bool" where
  "digit n \<longleftrightarrow> between 48 57 n"

text \<open>\<open>^1([3456789][0-9]|14[57]|5[^4])\d{8}$\<close>\<close>

definition phone_regex :: regex where
  "phone_regex = Seq (lit (CHR ''1'')) (Seq
     (Alt (Seq (Class (between 51 57)) (Class digit))
       (Alt (Seq (lit (CHR ''1'')) (Seq (lit (CHR ''4'')) (Class (\<lambda>n. n = 53 \<or> n = 55))))
         (Seq (lit (CHR ''5'')) (Class (\<lambda>n. n \<noteq> 52)))))
     (Times 8 (Class digit)))"

definition CellPhoneValidate :: "bool \<Rightarrow> string \<Rightarrow> bool" where
  "CellPhoneValidate isString v = (if \<not> isString then False else matches phone_regex (runes (bytes_of v)))"

section \<open>What is accepted\<close>

lemma rests_times_class:
  "[] \<in> set (rests_times n (rests (Class P)) s) \<longleftrightarrow> length s = n \<and> list_all P s"
proof (induction n arbitrary: s)
  case (Suc n)
  then show ?case by (cases s) auto
qed (auto)

lemma matches_Seq: "matches (Seq r q) s \<longleftrightarrow> (\<exists>t \<in> set (rests r s). matches q t)"
  by (auto simp: matches_def)

lemma matches_digits: "matches (Times n (Class digit)) s \<longleftrightarrow> length s = n \<and> list_all digit s"
  by (simp add: matches_def rests_times_class)

lemma rests_lit: "t \<in> set (rests (lit c) s) \<longleftrightarrow> s = of_char c # t"
  by (cases s) (auto simp: lit_def)

lemma rests_Class: "t \<in> set (rests (Class P) s) \<longleftrightarrow> (\<exists>c. s = c # t \<and> P c)"
  by (cases s) auto

lemma rests_Seq: "t \<in> set (rests (Seq r q) s) \<longleftrightarrow> (\<exists>x. x \<in> set (rests r s) \<and> t \<in> set (rests q x))"
  by auto

lemma rests_Alt: "t \<in> set (rests (Alt r q) s) \<longleftrightarrow> t \<in> set (rests r s) \<or> t \<in> set (rests q s)"
  by auto

text \<open>
  Eleven characters \<open>1\<close>, \<open>3\<close> to \<open>9\<close> and nine digits; or the same with \<open>15\<close>, any character but \<open>4\<close>, and eight digits; or twelve
  digits that start with \<open>1145\<close> or \<open>1147\<close>. The exclusion of \<open>154\<close> has no effect, because the first form admits it.
\<close>

theorem CellPhoneValidate_accepts:
  "CellPhoneValidate True v \<longleftrightarrow> (\<exists>a b rest. length rest = 8 \<and> list_all digit rest
      \<and> (runes (bytes_of v) = 49 # a # b # rest \<and> (between 51 57 a \<and> digit b \<or> a = 53 \<and> b \<noteq> 52)
         \<or> runes (bytes_of v) = 49 # 49 # 52 # b # rest \<and> (b = 53 \<or> b = 55)))"
proof -
  have "matches phone_regex s \<longleftrightarrow> (\<exists>a b rest. length rest = 8 \<and> list_all digit rest
      \<and> (s = 49 # a # b # rest \<and> (between 51 57 a \<and> digit b \<or> a = 53 \<and> b \<noteq> 52)
         \<or> s = 49 # 49 # 52 # b # rest \<and> (b = 53 \<or> b = 55)))" for s
    unfolding phone_regex_def matches_Seq Bex_def rests_lit matches_digits rests_Alt rests_Seq rests_Class by auto
  then show ?thesis by (simp add: CellPhoneValidate_def)
qed

text \<open>A real number, one of the excluded range, a number with a letter in it and one with twelve digits: all pass.\<close>

lemma accepted_numbers:
  "list_all (CellPhoneValidate True) [''13800138000'', ''15412345678'', ''15x12345678'', ''114712345678'']"
  "\<not> CellPhoneValidate True ''12345678901''" "\<not> CellPhoneValidate True ''1380013800''"
  by code_simp+

end
