(* ===== verification/Spec2Isabelle.thy ===== *)
theory Spec2Isabelle
  imports Prelude Expired_Map Mem_Cache World Closure_Table Closure_Move Closure_Dao User_Dao Tenant_Dao Org_Dao
    Access_Control Sms User_Service Login Department_Service Tenant_Service Org_Service Data_Scope Tenant_User Admin_Service Admin_Delete
    Secure_Cookie Sessions Http_Gate Face Admin_Face Tenant_Face Access_Face User_Face Wx_Face Seed_Root
    Paths Session_Store File_Store Mem_Store Dialect Schema Ensure_Database Startup
    Migration Url Weixin Avatar Sms_Tencent Phone
begin

text \<open>
  A model of the passport service: user accounts, tenants arranged in a tree, organizations inside a
  tenant, roles and policies per organization, and the caches in front of the tables. The program is
  layered: handlers decode a request and call a function of \<open>service/\<close>, which combines statements of
  \<open>dao/\<close>, the policy engine (\<open>accessctl/\<close>), the process-wide cache (\<open>cache/\<close>) and the verification codes
  (\<open>sms/\<close>). The theories follow these layers, and definitions carry the names of the Go functions; a
  function of \<open>dao/\<close> whose name a service function shares has the suffix \<open>_dao\<close>.

  How a Go function becomes a definition. A call is a function from the state before to an outcome
  (\<open>Ret\<close> a value, \<open>Err\<close> an error, \<open>Panic\<close>) and the state after; the combinators of \<open>Prelude\<close> are the
  idioms of the code: \<open>tryE\<close> for \<open>if err != nil { return err }\<close>, \<open>tryAs\<close> for the same with a fixed
  error, \<open>failIf\<close> for a guard, \<open>ignoreE\<close> for a dropped error, \<open>finally_do\<close> for a deferred call,
  \<open>run_tx\<close> for a transaction. The state is the record \<open>world\<close>: the tables, the identifier sequences, the
  in-process caches, the policy engine, the clock, and a list of faults. Each database statement
  consumes one entry of that list, and \<open>True\<close> makes it fail and change nothing, so a theorem about every
  state covers every pattern of statement failures (connection loss, an over-long column value, a
  failing commit). Identifiers are 64-bit words; \<open>interface{}\<close> values of the JSON columns are a datatype,
  with the conversions \<open>encoding/json\<close> makes on the way through the table.

  The theories:

  \<^item> \<open>Prelude\<close>: outcomes, combinators, the preservation and weakest-precondition calculi, strings and
    decimal numbers of the Go standard library.

  \<^item> \<open>Expired_Map\<close> (\<open>cache/expiredMap.go\<close>): the expiring map with its two-step \<open>Get\<close>. \<open>Mem_Cache\<close>
    (\<open>cache/cache.go\<close>): the three typed caches in one string-keyed map; the keys never collide, so the
    type assertions hold.

  \<^item> \<open>World\<close> (\<open>protos/\<close>, \<open>common/errors.go\<close>, \<open>dao/init.go\<close>): rows, errors, tables, statements, transactions.

  \<^item> \<open>Closure_Table\<close>, \<open>Closure_Move\<close>, \<open>Closure_Dao\<close> (\<open>dao/tenant_closure*.go\<close>): the closure table of the
    tenant tree. The abstract specification is a parent map \<open>p\<close>; \<open>closure_inv N p\<close> says that the table
    holds exactly the ancestor pairs with the right depth-0 and depth-1 rows, \<open>closure_exact\<close> also the
    right depths. Moving, inserting and repairing are shown to implement the change of \<open>p\<close>.

  \<^item> \<open>User_Dao\<close>, \<open>Tenant_Dao\<close>, \<open>Org_Dao\<close> (\<open>dao/\<close>): the statements on the other tables with their
    unique constraints.

  \<^item> \<open>Access_Control\<close> (\<open>accessctl/\<close>): domains, users and roles over the Casbin enforcer. The enforcer is
    a record of functions (a parameter); \<open>casbin_ok\<close> states its documented behaviour over a set of policy
    rules and a set of role assignments, and a list implementation is shown to satisfy it.

  \<^item> \<open>Sms\<close>, \<open>User_Service\<close>, \<open>Login\<close>, \<open>Department_Service\<close>, \<open>Tenant_Service\<close>, \<open>Org_Service\<close>, \<open>Data_Scope\<close>,
    \<open>Tenant_User\<close> (\<open>sms/\<close>, \<open>service/\<close>): the operations of the service and their properties; cache coherence
    (\<open>tenant_state\<close>, \<open>orgs_cached\<close>) is the invariant that connects them with \<open>Mem_Cache\<close>.

  \<^item> \<open>Admin_Service\<close>, \<open>Admin_Delete\<close> (\<open>service/admin.service.go\<close>): creation, re-parenting, change and deletion of
    tenants by the root tenant. They combine the closure table with the tables of users and tenants and with
    the cache: each is shown to change the abstract tree, the rows and the cache together, or nothing.

  \<^item> \<open>Secure_Cookie\<close>, \<open>Sessions\<close> (\<open>sessions/\<close>): the sealing of a value in a cookie, and sessions that live in such
    cookies. Lemmas: what is sealed opens again within the age limit, and what opens was sealed.

  \<^item> \<open>Session_Store\<close>: what the program expects of any store of sessions, as a locale over its three operations; flash
    messages are shown to work over every such store. The cookie store, \<open>File_Store\<close> (\<open>FilesystemStore\<close>, with the
    file names of \<open>Paths\<close>) and \<open>Mem_Store\<close> (\<open>sessions/memstore/\<close>) are its instances.

  \<^item> \<open>Dialect\<close> (\<open>database/\<close>): the SQL dialects and the choice of a driver. \<open>Schema\<close> (\<open>dao/init.go\<close>, \<open>InitDBTable\<close>): the
    creation of the tables as a list of statements on a catalog; \<open>ensures\<close> is the rule for what holds after a run
    that succeeds, whichever of its statements failed without being looked at.

  \<^item> \<open>Seed_Root\<close> (\<open>dao/seed_root.go\<close>): the first user and the root tenant. \<open>Ensure_Database\<close>
    (\<open>common/ensure_database.go\<close>): data source names, and the creation of the database on a server where other clients
    create databases meanwhile. \<open>Startup\<close> (\<open>init_env.go\<close>, \<open>common/common.go\<close>, the set-up in \<open>face/http/wx_api.go\<close>): the global
    variables as a record, and the start from a missing database to the first administrator, put together from these
    theories and the services.

  \<^item> \<open>Http_Gate\<close> (\<open>face/http/wx_api.go\<close>, \<open>face/core/api_context.go\<close>): the route table and the two filters in front of
    the handlers. The state is the record \<open>gate\<close>: the \<open>world\<close> and the users that were looked at lately.

  \<^item> \<open>Face\<close>, \<open>Admin_Face\<close>, \<open>Tenant_Face\<close>, \<open>Access_Face\<close>, \<open>User_Face\<close>, \<open>Wx_Face\<close> (\<open>face/\<close>): the handlers. \<open>Face\<close> holds what they
    share: the user and the organization of a request, the answers, and what a handler knows after its
    checks (\<open>session_is\<close>). The properties say who can change what over HTTP.

  \<^item> \<open>Url\<close> (\<open>net/url\<close>) and \<open>Weixin\<close> (\<open>face/wx/http_api.go\<close>, \<open>weixin/\<close>): the addresses of the login through WeChat, there and
    back, and the calls of its servers. Lemmas: what is written into a query with escaping is read back, and what is written
    without is not. \<open>Avatar\<close> (\<open>face/user/user_modify_avatar_form.go\<close>): the upload of a picture, on a map of files beside the state of
    the gate; every user has a file of their own. \<open>Sms_Tencent\<close> (\<open>sms/sms_tencentcloud.go\<close>): the driver behind \<open>Sms\<close>.
    \<open>Phone\<close> (\<open>common/validate.go\<close>): the regular expression for phone numbers over decoded code points, with the exact set it accepts.

  \<^item> \<open>Migration\<close> (\<open>cmd/migration/\<close>): the copy of an older installation into the tables of \<open>World\<close>. The locale \<open>copied_table\<close> says
    what a table needs for its copy to be exact and repeatable; the four tables are its instances, and \<open>MigrateAll_keeps\<close> covers every
    run, also an interrupted one.


  Conventions and bounds. The PostgreSQL dialect of the statements is modelled (\<open>Schema\<close> and \<open>Dialect\<close> also have SQLite). The clock does not move
  during one call. A cached tenant is a pointer in Go; every operation that writes through it evicts it
  on exit, so passing values makes no difference between calls. Calls run one after the other, except
  where \<open>Expired_Map\<close> splits \<open>Get\<close> in its two critical sections. \<open>Begin\<close> and \<open>Commit\<close> are statements that
  can fail like the others. \<open>float64\<close> values are rationals, with integers rounded to 53 bits.

  Fuel. The listing loop of \<open>Data_Scope\<close> (pages of 200 users) gets fuel for two pages more than the table
  fills, \<open>collectTenantSubtree\<close> (pages of 500 tenants) likewise for two pages more, and
  \<open>deleteUsersByTenant\<close> (which deletes what it lists) for one pass more than there are rows. Running out of fuel is a panic in the model, which the
  theorems exclude.

  Handlers. A decoded body is an \<open>option\<close>, where \<open>None\<close> is a body that does not decode; form values are a
  function from names to strings, the empty string where the form has none. A handler answers a value (the
  JSON of a success), an error with its HTTP status, or a panic.

  Parameters (code outside the repository): the Casbin enforcer (\<open>casbin_ok\<close>), SHA-256 as a function from
  strings to hexadecimal strings, the request validator, the answers of the SMS provider, of the servers of WeChat
  and Alipay and of the MySQL server (\<open>result_set\<close>), \<open>encoding/json\<close> on foreign texts, \<open>math/rand\<close>, parsing a time (\<open>parseTime\<close>) and an address, the operator \<open>->>\<close> of the server (\<open>jsonText\<close>), the
  sessions of \<open>gorilla/sessions\<close> (\<open>gorilla\<close>), the answers of the operating system and of the database drivers, the
  database pgx takes from a data source name (\<open>pgx_reads\<close>), the configuration file, and the
  record \<open>crypto\<close>: keyed hash, cipher, gob and JSON of a session. \<open>crypto_ok\<close> states that the cipher undoes itself and
  that gob gives back what was encoded (\<open>gob_view\<close>: pointers become values); \<open>unforged\<close> states that a tag that
  verifies was issued. No theorem assumes anything about SHA-256 or the validator beyond what its
  statement says.

  Not modelled: what the drivers do with a statement, the SQLite variants of the statements of \<open>dao/\<close>,
  logging; the decoding of bodies, setting up the validator and its messages; the registry of
  Alipay's client; the command-line tools under \<open>cmd/\<close> other than the migration, which print the closure table, call the
  moves of \<open>Closure_Dao\<close> with fixed numbers or rewrite rows of two fixed tenants; the client and the example, which only call
  what is modelled here.
\<close>

end
